(* ===== verification/Prelude.thy ===== *)
theory Prelude
  imports Main "HOL-Library.Word" "HOL-Library.Char_ord" "HOL-Library.List_Lexorder"
begin

section \<open>Shared types, automation and generic lemmas\<close>

text \<open>
  The vocabulary of the development.  A 256-bit hash or public key of the source
  (\<^verbatim>\<open>InfoHash\<close>, \<^verbatim>\<open>Hash256\<close>, \<^verbatim>\<open>Key\<close>, all \<^verbatim>\<open>std::array<uint8_t,32>\<close> underneath) is a
  256-bit word: the lexicographic order of the byte arrays, by which \<^verbatim>\<open>std::map\<close> and
  \<^verbatim>\<open>std::set\<close> iterate, is the numeric order of the big-endian word.  A \<^verbatim>\<open>uint64_t\<close>
  or \<^verbatim>\<open>size_t\<close> is a 64-bit word whose arithmetic wraps.  A \<^verbatim>\<open>std::string\<close> is a list of
  characters under the lexicographic order of \<^verbatim>\<open>std::string::operator<\<close>.
\<close>

type_synonym hash256 = "256 word"
type_synonym key = "256 word"
type_synonym u64 = "64 word"
type_synonym u32 = "32 word"
type_synonym byte = "8 word"

text \<open>
  Failures of the host language that the code can run into: an assertion that does not
  hold, a recursion that never returns (a stack overflow of the program), an access to a
  destroyed object.  An operation that can fail returns \<open>fault + 'a\<close>.
\<close>

datatype fault = AssertionFailure | Diverges | UseAfterFree | NullDereference | Exception string

type_synonym 'a outcome = "fault + 'a"

fun bind_outcome :: "'a outcome \<Rightarrow> ('a \<Rightarrow> 'b outcome) \<Rightarrow> 'b outcome" where
  "bind_outcome (Inl e) f = Inl e"
| "bind_outcome (Inr x) f = f x"

definition of_option :: "fault \<Rightarrow> 'a option \<Rightarrow> 'a outcome" where
  "of_option e x = (case x of None \<Rightarrow> Inl e | Some y \<Rightarrow> Inr y)"

definition sirius_assert :: "bool \<Rightarrow> unit outcome" where
  "sirius_assert b = (if b then Inr () else Inl AssertionFailure)"

lemma bind_outcome_Inr_iff:
  "bind_outcome m f = Inr y \<longleftrightarrow> (\<exists>x. m = Inr x \<and> f x = Inr y)"
  by (cases m) auto

lemma bind_outcome_assoc:
  "bind_outcome (bind_outcome m f) g = bind_outcome m (\<lambda>x. bind_outcome (f x) g)"
  by (cases m) auto

lemma of_option_simps [simp]:
  "of_option e None = Inl e"
  "of_option e (Some y) = Inr y"
  by (simp_all add: of_option_def)

lemma of_option_Inr_iff [simp]: "of_option e x = Inr y \<longleftrightarrow> x = Some y"
  by (cases x) auto

lemma sirius_assert_simps [simp]:
  "sirius_assert True = Inr ()"
  "sirius_assert False = Inl AssertionFailure"
  by (simp_all add: sirius_assert_def)

lemma sirius_assert_Inr_iff [simp]: "sirius_assert b = Inr u \<longleftrightarrow> b"
  by (simp add: sirius_assert_def)

subsection \<open>Components as deterministic event systems\<close>

text \<open>
  Most components keep a state and handle events one at a time on the session thread.
  The interface below is the contract a component's step function offers: an initial
  state, and an invariant every step keeps.  What its clients use is proved once.
\<close>

primrec run :: "('s \<Rightarrow> 'e \<Rightarrow> 's) \<Rightarrow> 's \<Rightarrow> 'e list \<Rightarrow> 's" where
  "run step s [] = s"
| "run step s (e # es) = run step (step s e) es"

lemma run_append [simp]: "run step s (es @ fs) = run step (run step s es) fs"
  by (induction es arbitrary: s) auto

text \<open>A step restricted to admissible events, for invariants that need a condition on the events.\<close>

definition guarded :: "('e \<Rightarrow> bool) \<Rightarrow> ('s \<Rightarrow> 'e \<Rightarrow> 's) \<Rightarrow> 's \<Rightarrow> 'e \<Rightarrow> 's" where
  "guarded ok step s e = (if ok e then step s e else s)"

lemma run_guarded: "list_all ok es \<Longrightarrow> run (guarded ok step) s es = run step s es"
  by (induction es arbitrary: s) (auto simp: guarded_def)

locale event_system =
  fixes step :: "'s \<Rightarrow> 'e \<Rightarrow> 's"
    and initial :: "'s \<Rightarrow> bool"
    and invar :: "'s \<Rightarrow> bool"
  assumes initial_invar: "initial s \<Longrightarrow> invar s"
    and step_invar: "invar s \<Longrightarrow> invar (step s e)"
begin

lemma run_invar: "invar s \<Longrightarrow> invar (run step s es)"
  by (induction es arbitrary: s) (auto intro: step_invar)

lemma reachable_invar: "initial s \<Longrightarrow> invar (run step s es)"
  by (rule run_invar) (rule initial_invar)

text \<open>A quantity no step lowers on invariant states is not lowered by a run.\<close>

lemma run_mono:
  fixes q :: "'s \<Rightarrow> 'q::order"
  assumes "\<And>s e. invar s \<Longrightarrow> q s \<le> q (step s e)" and "invar s"
  shows "q s \<le> q (run step s es)"
  using assms(2)
proof (induction es arbitrary: s)
  case (Cons e es)
  then have "q s \<le> q (step s e)" by (simp add: assms(1))
  also have "\<dots> \<le> q (run step (step s e) es)"
    using Cons by (simp add: step_invar)
  finally show ?case by simp
qed simp

end

subsection \<open>Words\<close>

lemma unat_sub_le: "(b::'a::len word) \<le> a \<Longrightarrow> unat (a - b) = unat a - unat b"
  by (simp add: unat_sub)

lemma unat_add_no_overflow:
  "unat (a::'a::len word) + unat b < 2 ^ LENGTH('a) \<Longrightarrow> unat (a + b) = unat a + unat b"
  by (simp add: unat_word_ariths)

lemma u64_bound: "unat (x::u64) < 2 ^ 64"
  using unsigned_less [of x, where ?'a = nat] by simp

text \<open>\<^verbatim>\<open>std::accumulate\<close> of 64-bit values starting at 0, with its wrap-around.\<close>

definition accumulate :: "u64 list \<Rightarrow> u64" where
  "accumulate xs = foldl (+) 0 xs"

lemma foldl_add_word: "foldl (+) (a::'a::len word) xs = a + sum_list xs"
  by (induction xs arbitrary: a) (simp_all add: add.assoc)

lemma accumulate_eq: "accumulate xs = sum_list xs"
  by (simp add: accumulate_def foldl_add_word)

lemma unat_sum_list_mod:
  "unat (sum_list (xs :: 'a::len word list)) = (\<Sum>x\<leftarrow>xs. unat x) mod 2 ^ LENGTH('a)"
  by (induction xs) (simp_all add: unat_word_ariths mod_simps)

lemma unat_sum_list:
  "(\<Sum>x\<leftarrow>xs. unat x) < 2 ^ LENGTH('a) \<Longrightarrow>
   unat (sum_list (xs :: 'a::len word list)) = (\<Sum>x\<leftarrow>xs. unat x)"
  by (simp add: unat_sum_list_mod)

end
