(* ===== verification/Codecs.thy ===== *)
theory Codecs
  imports Prelude
begin

unbundle bit_operations_syntax

section \<open>Byte, hexadecimal and Base32 codecs\<close>

text \<open>
  The text forms of hashes and keys: \<^verbatim>\<open>toString\<close>, \<^verbatim>\<open>hexToString\<close> and \<^verbatim>\<open>stringToByteArray\<close>
  of \<^verbatim>\<open>drive/Utils\<close>, \<^verbatim>\<open>TryParseByte\<close> and its users in \<^verbatim>\<open>utils/HexParser\<close>, and the block codec
  of \<^verbatim>\<open>utils/Base32\<close>; and the memory image of the fixed-size values the program signs and
  sends.  A byte buffer is a list of bytes.
\<close>

subsection \<open>Fixed-size values as bytes\<close>

text \<open>
  The \<open>n\<close> bytes of an integer in little-endian order, which is its memory image on the
  supported platforms; a hash is an array of 32 bytes whose first byte is the most significant
  of the word.
\<close>

definition le_bytes :: "nat \<Rightarrow> 'a::len word \<Rightarrow> byte list" where
  "le_bytes n w = map (\<lambda>i. ucast (drop_bit (8 * i) w)) [0..<n]"

fun of_le_bytes :: "byte list \<Rightarrow> 'a::len word" where
  "of_le_bytes [] = 0"
| "of_le_bytes (b # bs) = ucast b OR push_bit 8 (of_le_bytes bs)"

definition hash_bytes :: "hash256 \<Rightarrow> byte list" where
  "hash_bytes h = rev (le_bytes 32 h)"

definition bytes_hash :: "byte list \<Rightarrow> hash256" where
  "bytes_hash bs = of_le_bytes (rev bs)"

lemma length_le_bytes [simp]: "length (le_bytes n w) = n"
  by (simp add: le_bytes_def)

lemma length_hash_bytes [simp]: "length (hash_bytes h) = 32"
  by (simp add: hash_bytes_def)

lemma le_bytes_Suc: "le_bytes (Suc n) w = ucast w # le_bytes n (drop_bit 8 w)"
  by (simp add: le_bytes_def upt_conv_Cons map_Suc_upt [symmetric] comp_def drop_bit_drop_bit
      add.commute del: upt_Suc)

lemma of_le_bytes_le_bytes: "of_le_bytes (le_bytes n w) = take_bit (8 * n) w"
proof (induction n arbitrary: w)
  case (Suc n)
  have "bit (ucast (ucast w :: byte) OR push_bit 8 (take_bit (8 * n) (drop_bit 8 w)) :: 'a word) i
      = bit (take_bit (8 * Suc n) w) i" for i
    by (cases "i < 8") (auto simp: bit_simps dest: bit_imp_le_length)
  then show ?case by (simp add: le_bytes_Suc Suc bit_eq_iff)
qed (simp add: le_bytes_def)

lemma of_le_bytes_u64 [simp]: "of_le_bytes (le_bytes 8 w) = (w :: u64)"
  by (simp add: of_le_bytes_le_bytes take_bit_word_eq_self)

lemma bytes_hash_inverse [simp]: "bytes_hash (hash_bytes h) = h"
  by (simp add: bytes_hash_def hash_bytes_def of_le_bytes_le_bytes take_bit_word_eq_self)

lemma hash_bytes_inject [simp]: "hash_bytes h = hash_bytes k \<longleftrightarrow> h = k"
  by (metis bytes_hash_inverse)

lemma le_bytes_8_inject [simp]: "le_bytes 8 v = le_bytes 8 (w :: u64) \<longleftrightarrow> v = w"
  by (metis of_le_bytes_u64)

subsection \<open>Decimal text\<close>

text \<open>\<^verbatim>\<open>std::to_string\<close> of an unsigned number, and what a stream prints for it.\<close>

fun decimal :: "nat \<Rightarrow> string" where
  "decimal n = (if n < 10 then [char_of (48 + n)] else decimal (n div 10) @ [char_of (48 + n mod 10)])"

declare decimal.simps [simp del]

subsection \<open>Hexadecimal text: drive/Utils\<close>

text \<open>\<^verbatim>\<open>byteMap[b]\<close>: the two lower-case digits of a byte.\<close>

definition hex_digit :: "nat \<Rightarrow> char" where
  "hex_digit n = ''0123456789abcdef'' ! n"

definition byteMap :: "byte \<Rightarrow> string" where
  "byteMap b = [hex_digit (unat (drop_bit 4 b)), hex_digit (unat (b AND 15))]"

text \<open>\<^verbatim>\<open>hexToString\<close>, with its two debug assertions, and \<^verbatim>\<open>toString\<close> of a hash.\<close>

definition hexToString :: "byte list \<Rightarrow> string outcome" where
  "hexToString bs =
     bind_outcome (sirius_assert (0 < length bs)) (\<lambda>_.
       bind_outcome (sirius_assert (length bs < 10 * 1024)) (\<lambda>_. Inr (concat (map byteMap bs))))"

definition toString :: "hash256 \<Rightarrow> string" where
  "toString h = concat (map byteMap (hash_bytes h))"

definition magnetLink :: "hash256 \<Rightarrow> string" where
  "magnetLink h = ''magnet:?xt=urn:btmh:1220'' @ toString h"

definition char_between :: "char \<Rightarrow> char \<Rightarrow> char \<Rightarrow> bool" where
  "char_between lo c hi \<longleftrightarrow> (of_char lo :: nat) \<le> of_char c \<and> (of_char c :: nat) \<le> of_char hi"

definition charToInt :: "char \<Rightarrow> nat outcome" where
  "charToInt c =
     (if char_between CHR ''0'' c CHR ''9'' then Inr (of_char c - of_char CHR ''0'')
      else if char_between CHR ''A'' c CHR ''F'' then Inr (of_char c - of_char CHR ''A'' + 10)
      else if char_between CHR ''a'' c CHR ''f'' then Inr (of_char c - of_char CHR ''a'' + 10)
      else Inl (Exception ''Invalid input string''))"

fun hex_pairs :: "string \<Rightarrow> byte list outcome" where
  "hex_pairs (c # d # s) =
     bind_outcome (charToInt c) (\<lambda>hi. bind_outcome (charToInt d) (\<lambda>lo.
       bind_outcome (hex_pairs s) (\<lambda>bs. Inr (word_of_nat (hi * 16 + lo) # bs))))"
| "hex_pairs _ = Inr []"

definition stringToByteArray :: "string \<Rightarrow> hash256 outcome" where
  "stringToByteArray s =
     (if length s \<noteq> 64 then Inl (Exception ''Invalid input string'')
      else bind_outcome (hex_pairs s) (\<lambda>bs. Inr (bytes_hash bs)))"

lemma byte_eqI:
  assumes "bit a 0 = bit b 0" "bit a 1 = bit b 1" "bit a 2 = bit b 2" "bit a 3 = bit b 3"
    "bit a 4 = bit b 4" "bit a 5 = bit b 5" "bit a 6 = bit b 6" "bit a 7 = bit b 7"
  shows "a = (b :: byte)"
proof (rule bit_word_eqI)
  fix n
  assume "n < LENGTH(8)"
  then have "n \<in> {0, 1, 2, 3, 4, 5, 6, 7}" by auto
  with assms show "bit a n = bit b n" by auto
qed

lemma less_16_forall: "\<forall>n\<in>set [0..<16]. P n \<Longrightarrow> n < 16 \<Longrightarrow> P n"
  by simp

lemma charToInt_hex_digit: "n < 16 \<Longrightarrow> charToInt (hex_digit n) = Inr n"
  by (rule less_16_forall [where n = n]) code_simp

lemma nibbles:
  "unat (drop_bit 4 (b::byte)) = unat b div 16" "unat (b AND 15) = unat b mod 16" "unat b div 16 < 16"
proof -
  have "15 = (mask 4 :: byte)" by (simp add: mask_eq_exp_minus_1)
  then have "b AND 15 = take_bit 4 b" by (simp add: take_bit_eq_mask)
  then show "unat (b AND 15) = unat b mod 16"
    by (simp only: unsigned_take_bit_eq) (simp add: take_bit_eq_mod)
  have "unat b < 256" using unsigned_less [of b, where ?'a = nat] by simp
  then show "unat b div 16 < 16" by simp
qed (simp only: unat_drop_bit_eq, simp add: drop_bit_eq_div)

lemma hex_pairs_byteMap [simp]:
  "hex_pairs (byteMap b @ s) = bind_outcome (hex_pairs s) (\<lambda>bs. Inr (b # bs))"
proof -
  have "word_of_nat (unat b div 16 * 16 + unat b mod 16) = b"
    by (simp only: div_mult_mod_eq of_nat_unat) simp
  then show ?thesis
    by (simp add: byteMap_def nibbles charToInt_hex_digit del: of_nat_add of_nat_mult)
qed

lemma hex_pairs_concat [simp]: "hex_pairs (concat (map byteMap bs)) = Inr bs"
  by (induction bs) simp_all

lemma length_hex [simp]: "length (concat (map byteMap bs)) = 2 * length bs"
  by (induction bs) (simp_all add: byteMap_def)

text \<open>
  The text form of a hash, which names its files on disk, identifies it: reading back
  \<^verbatim>\<open>toString(h)\<close> with \<^verbatim>\<open>stringToByteArray\<close> gives \<open>h\<close>, and the text has 64 characters.
\<close>

lemma stringToByteArray_toString:
  "stringToByteArray (toString h) = Inr h \<and> length (toString h) = 64"
  by (simp add: stringToByteArray_def toString_def)

subsection \<open>utils/HexParser\<close>

definition TryParseNibble :: "char \<Rightarrow> nat option" where
  "TryParseNibble c =
     (if char_between CHR ''A'' c CHR ''F'' then Some (of_char c - of_char CHR ''A'' + 10)
      else if char_between CHR ''a'' c CHR ''f'' then Some (of_char c - of_char CHR ''a'' + 10)
      else if char_between CHR ''0'' c CHR ''9'' then Some (of_char c - of_char CHR ''0'')
      else None)"

definition TryParseByte :: "char \<Rightarrow> char \<Rightarrow> byte option" where
  "TryParseByte ch1 ch2 =
     (case TryParseNibble ch1 of
        None \<Rightarrow> None
      | Some nibble1 \<Rightarrow>
          (case TryParseNibble ch2 of
             None \<Rightarrow> None
           | Some nibble2 \<Rightarrow> Some (push_bit 4 (word_of_nat nibble1) OR word_of_nat nibble2)))"

definition ParseByte :: "char \<Rightarrow> char \<Rightarrow> byte outcome" where
  "ParseByte ch1 ch2 =
     (case TryParseByte ch1 ch2 of
        None \<Rightarrow> Inl (Exception (''unknown hex character in string'' @ [ch1, ch2]))
      | Some b \<Rightarrow> Inr b)"

text \<open>
  The two container loops, for an output container of \<open>n\<close> bytes.  A failing
  \<^verbatim>\<open>TryParse...\<close> leaves the bytes before the offending pair written.
\<close>

fun try_parse_pairs :: "string \<Rightarrow> bool \<times> byte list" where
  "try_parse_pairs (c # d # s) =
     (case TryParseByte c d of
        None \<Rightarrow> (False, [])
      | Some b \<Rightarrow> (let (ok, bs) = try_parse_pairs s in (ok, b # bs)))"
| "try_parse_pairs _ = (True, [])"

definition TryParseHexStringIntoContainer :: "string \<Rightarrow> byte list \<Rightarrow> bool \<times> byte list" where
  "TryParseHexStringIntoContainer s out =
     (if 2 * length out \<noteq> length s then (False, out)
      else let (ok, bs) = try_parse_pairs s in (ok, bs @ drop (length bs) out))"

fun parse_pairs :: "string \<Rightarrow> byte list outcome" where
  "parse_pairs (c # d # s) =
     bind_outcome (ParseByte c d) (\<lambda>b. bind_outcome (parse_pairs s) (\<lambda>bs. Inr (b # bs)))"
| "parse_pairs _ = Inr []"

definition ParseHexStringIntoContainer :: "string \<Rightarrow> nat \<Rightarrow> byte list outcome" where
  "ParseHexStringIntoContainer s n =
     (if 2 * n \<noteq> length s then Inl (Exception ''hex string has unexpected size'')
      else parse_pairs s)"

lemma try_parse_pairs_parse:
  "(case parse_pairs s of Inr bs \<Rightarrow> try_parse_pairs s = (True, bs) | Inl _ \<Rightarrow> \<not> fst (try_parse_pairs s))"
  by (induction s rule: parse_pairs.induct)
    (auto simp: ParseByte_def split: option.splits sum.splits prod.splits)

lemma TryParseNibble_charToInt:
  "TryParseNibble c = (case charToInt c of Inr n \<Rightarrow> Some n | Inl _ \<Rightarrow> None)"
  by (simp add: TryParseNibble_def charToInt_def char_between_def)

lemma ParseByte_byteMap: "byteMap b = [c, d] \<Longrightarrow> ParseByte c d = Inr b"
proof -
  assume "byteMap b = [c, d]"
  then have cd: "c = hex_digit (unat b div 16)" "d = hex_digit (unat b mod 16)"
    by (simp_all add: byteMap_def nibbles)
  have "push_bit 4 (word_of_nat (unat b div 16)) OR word_of_nat (unat b mod 16) = b"
  proof -
    have "unat b div 16 = unat (drop_bit 4 b)" "unat b mod 16 = unat (b AND 15)"
      by (simp_all only: nibbles)
    then have "push_bit 4 (word_of_nat (unat b div 16)) OR word_of_nat (unat b mod 16) =
        push_bit 4 (drop_bit 4 b) OR b AND 15" by simp
    also have "\<dots> = b" by (rule byte_eqI) (simp_all add: bit_simps)
    finally show ?thesis .
  qed
  then show ?thesis
    by (simp add: ParseByte_def TryParseByte_def TryParseNibble_charToInt cd charToInt_hex_digit nibbles)
qed

lemma parse_pairs_concat [simp]: "parse_pairs (concat (map byteMap bs)) = Inr bs"
proof (induction bs)
  case (Cons b bs)
  obtain c d where cd: "byteMap b = [c, d]" by (simp add: byteMap_def)
  with ParseByte_byteMap [OF cd] Cons show ?case by simp
qed simp

lemma length_try_parse_pairs: "fst (try_parse_pairs s) \<Longrightarrow> length (snd (try_parse_pairs s)) = length s div 2"
  by (induction s rule: try_parse_pairs.induct) (auto split: option.splits prod.splits)

text \<open>
  The two hexadecimal readers agree: \<^verbatim>\<open>TryParseHexStringIntoContainer\<close> succeeds exactly
  when \<^verbatim>\<open>ParseHexStringIntoContainer\<close> does not throw, with the same bytes, and both recover
  what \<^verbatim>\<open>hexToString\<close> wrote.
\<close>

lemma hex_readers_agree:
  "(case ParseHexStringIntoContainer s (length out) of
      Inr bs \<Rightarrow> TryParseHexStringIntoContainer s out = (True, bs)
    | Inl _ \<Rightarrow> \<not> fst (TryParseHexStringIntoContainer s out)) \<and>
   (case hexToString bs of
      Inr t \<Rightarrow> ParseHexStringIntoContainer t (length bs) = Inr bs
    | Inl e \<Rightarrow> e = AssertionFailure \<and> length bs \<notin> {1..<10240})"
proof
  show "case ParseHexStringIntoContainer s (length out) of
      Inr bs \<Rightarrow> TryParseHexStringIntoContainer s out = (True, bs)
    | Inl _ \<Rightarrow> \<not> fst (TryParseHexStringIntoContainer s out)"
    using try_parse_pairs_parse [of s] length_try_parse_pairs [of s]
    by (auto simp: ParseHexStringIntoContainer_def TryParseHexStringIntoContainer_def
        split: sum.splits prod.splits)
qed (auto simp: hexToString_def sirius_assert_def ParseHexStringIntoContainer_def)

subsection \<open>utils/Base32\<close>

definition Allowed_Chars :: string where
  "Allowed_Chars = ''ABCDEFGHIJKLMNOPQRSTUVWXYZ234567''"

definition allowed :: "byte \<Rightarrow> char" where
  "allowed b = Allowed_Chars ! unat b"

definition TryDecodeChar :: "char \<Rightarrow> byte option" where
  "TryDecodeChar c =
     (if char_between CHR ''A'' c CHR ''Z'' then Some (word_of_nat (of_char c - of_char CHR ''A''))
      else if char_between CHR ''2'' c CHR ''7'' then Some (word_of_nat (of_char c - of_char CHR ''2'' + 26))
      else None)"

fun EncodeBlock :: "byte list \<Rightarrow> string" where
  "EncodeBlock [d0, d1, d2, d3, d4] =
     [allowed (drop_bit 3 d0),
      allowed (push_bit 2 (d0 AND 7) OR drop_bit 6 d1),
      allowed (drop_bit 1 (d1 AND 62)),
      allowed (push_bit 4 (d1 AND 1) OR drop_bit 4 d2),
      allowed (push_bit 1 (d2 AND 15) OR drop_bit 7 d3),
      allowed (drop_bit 2 (d3 AND 127)),
      allowed (push_bit 3 (d3 AND 3) OR drop_bit 5 d4),
      allowed (d4 AND 31)]"
| "EncodeBlock _ = []"

fun decode_chars :: "string \<Rightarrow> byte list option" where
  "decode_chars [] = Some []"
| "decode_chars (c # s) =
     (case TryDecodeChar c of
        None \<Rightarrow> None
      | Some b \<Rightarrow> (case decode_chars s of None \<Rightarrow> None | Some bs \<Rightarrow> Some (b # bs)))"

fun merge_quintets :: "byte list \<Rightarrow> byte list" where
  "merge_quintets [b0, b1, b2, b3, b4, b5, b6, b7] =
     [push_bit 3 b0 OR drop_bit 2 b1,
      push_bit 6 (b1 AND 3) OR push_bit 1 b2 OR drop_bit 4 b3,
      push_bit 4 (b3 AND 15) OR drop_bit 1 b4,
      push_bit 7 (b4 AND 1) OR push_bit 2 b5 OR drop_bit 3 b6,
      push_bit 5 (b6 AND 7) OR b7]"
| "merge_quintets _ = []"

definition TryDecodeBlock :: "string \<Rightarrow> byte list option" where
  "TryDecodeBlock s = map_option merge_quintets (decode_chars s)"

definition GetEncodedDataSize :: "nat \<Rightarrow> nat" where
  "GetEncodedDataSize n = n div 5 * 8"

definition GetDecodedDataSize :: "nat \<Rightarrow> nat" where
  "GetDecodedDataSize n = n div 8 * 5"

datatype base32_error = OutputBufferTooSmall | InvalidSize | IllegalCharacter

text \<open>
  The loops run over the blocks; the output is what is written at the start of the buffer,
  whose size is an argument.
\<close>

fun encode_blocks :: "nat \<Rightarrow> byte list \<Rightarrow> string" where
  "encode_blocks 0 ds = []"
| "encode_blocks (Suc n) ds = EncodeBlock (take 5 ds) @ encode_blocks n (drop 5 ds)"

definition TryBase32EncodeInternal :: "byte list \<Rightarrow> nat \<Rightarrow> base32_error + string" where
  "TryBase32EncodeInternal ds out_size =
     (if out_size < GetEncodedDataSize (length ds) then Inl OutputBufferTooSmall
      else if length ds mod 5 \<noteq> 0 then Inl InvalidSize
      else Inr (encode_blocks (length ds div 5) ds))"

fun decode_blocks :: "nat \<Rightarrow> string \<Rightarrow> byte list option" where
  "decode_blocks 0 s = Some []"
| "decode_blocks (Suc n) s =
     (case TryDecodeBlock (take 8 s) of
        None \<Rightarrow> None
      | Some bs \<Rightarrow> (case decode_blocks n (drop 8 s) of None \<Rightarrow> None | Some cs \<Rightarrow> Some (bs @ cs)))"

definition TryBase32DecodeInternal :: "string \<Rightarrow> nat \<Rightarrow> base32_error + byte list" where
  "TryBase32DecodeInternal s out_size =
     (if out_size < GetDecodedDataSize (length s) then Inl OutputBufferTooSmall
      else if length s mod 8 \<noteq> 0 then Inl InvalidSize
      else case decode_blocks (length s div 8) s of
             None \<Rightarrow> Inl IllegalCharacter
           | Some bs \<Rightarrow> Inr bs)"

definition Base32Encode :: "byte list \<Rightarrow> string outcome" where
  "Base32Encode ds =
     (case TryBase32EncodeInternal ds (GetEncodedDataSize (length ds)) of
        Inr s \<Rightarrow> Inr s
      | Inl OutputBufferTooSmall \<Rightarrow> Inl (Exception ''base32 output buffer is too small'')
      | Inl _ \<Rightarrow> Inl (Exception ''byte array size is not multiple''))"

text \<open>The bytes written to the start of an array of \<open>n\<close> bytes; the others stay as they are.\<close>

definition Base32Decode :: "string \<Rightarrow> nat \<Rightarrow> byte list outcome" where
  "Base32Decode s n =
     (case TryBase32DecodeInternal s n of
        Inr bs \<Rightarrow> Inr bs
      | Inl IllegalCharacter \<Rightarrow> Inl (Exception ''illegal character in base32 string'')
      | Inl OutputBufferTooSmall \<Rightarrow> Inl (Exception ''base32 output buffer is too small'')
      | Inl InvalidSize \<Rightarrow> Inl (Exception ''string length is not multiple''))"

lemma TryDecodeChar_allowed_nat: "\<forall>n\<in>set [0..<32]. TryDecodeChar (Allowed_Chars ! n) = Some (word_of_nat n)"
  by code_simp

lemma TryDecodeChar_allowed:
  assumes "b < 32"
  shows "TryDecodeChar (allowed b) = Some b"
proof -
  have "unat b < 32" using assms by (simp add: word_less_nat_alt)
  then show ?thesis using TryDecodeChar_allowed_nat by (simp add: allowed_def)
qed

lemma quintet:
  assumes "\<not> bit b 5" "\<not> bit b 6" "\<not> bit b 7"
  shows "(b :: byte) < 32"
proof -
  have "b = take_bit 5 b" by (rule byte_eqI) (simp_all add: bit_simps assms)
  then have "unat b = take_bit 5 (unat b)" by (metis unsigned_take_bit_eq)
  also have "\<dots> < 2 ^ 5" by (rule take_bit_nat_less_exp)
  finally show ?thesis by (simp add: word_less_nat_alt)
qed

text \<open>The eight quintets of a block and how they merge back, bit by bit.\<close>

definition quintets :: "byte \<Rightarrow> byte \<Rightarrow> byte \<Rightarrow> byte \<Rightarrow> byte \<Rightarrow> byte list" where
  "quintets d0 d1 d2 d3 d4 =
     [drop_bit 3 d0, push_bit 2 (d0 AND 7) OR drop_bit 6 d1, drop_bit 1 (d1 AND 62),
      push_bit 4 (d1 AND 1) OR drop_bit 4 d2, push_bit 1 (d2 AND 15) OR drop_bit 7 d3,
      drop_bit 2 (d3 AND 127), push_bit 3 (d3 AND 3) OR drop_bit 5 d4, d4 AND 31]"

lemma byte_bit_high: "8 \<le> n \<Longrightarrow> \<not> bit (b :: byte) n"
  by (auto dest: bit_imp_le_length)

lemma byte_bit_double: "bit (b * 2 :: byte) n \<longleftrightarrow> 0 < n \<and> n < 8 \<and> bit b (n - 1)"
  by (auto simp: mult.commute [of b] bit_double_iff)

lemma quintets_small: "\<forall>q\<in>set (quintets d0 d1 d2 d3 d4). q < 32"
proof -
  have "\<forall>q\<in>set (quintets d0 d1 d2 d3 d4). \<not> bit q 5 \<and> \<not> bit q 6 \<and> \<not> bit q 7"
    unfolding quintets_def by (simp only: list.set ball_simps) (simp add: bit_simps byte_bit_high)
  then show ?thesis using quintet by blast
qed

lemma merge_quintets_quintets: "merge_quintets (quintets d0 d1 d2 d3 d4) = [d0, d1, d2, d3, d4]"
  unfolding quintets_def merge_quintets.simps list.inject
  by (intro conjI refl; rule byte_eqI; simp add: bit_simps byte_bit_high byte_bit_double; simp add: numeral_eq_Suc)

lemma decode_chars_allowed: "\<forall>q\<in>set qs. q < 32 \<Longrightarrow> decode_chars (map allowed qs) = Some qs"
  by (induction qs) (simp_all add: TryDecodeChar_allowed)

lemma TryDecodeBlock_EncodeBlock:
  "TryDecodeBlock (EncodeBlock [d0, d1, d2, d3, d4]) = Some [d0, d1, d2, d3, d4]"
proof -
  have "EncodeBlock [d0, d1, d2, d3, d4] = map allowed (quintets d0 d1 d2 d3 d4)"
    by (simp add: quintets_def)
  then show ?thesis
    using decode_chars_allowed [OF quintets_small]
    by (simp only: TryDecodeBlock_def merge_quintets_quintets option.map)
qed

lemma length_5: "length xs = 5 \<Longrightarrow> \<exists>a b c d e. xs = [a, b, c, d, e]"
  by (auto simp: numeral_eq_Suc length_Suc_conv)

lemma encode_block_take:
  assumes "5 * Suc n = length ds"
  shows "length (EncodeBlock (take 5 ds)) = 8 \<and> TryDecodeBlock (EncodeBlock (take 5 ds)) = Some (take 5 ds)"
proof -
  have "length (take 5 ds) = 5" using assms by simp
  from length_5 [OF this] show ?thesis
    by (auto simp: TryDecodeBlock_EncodeBlock simp del: EncodeBlock.simps) simp
qed

lemma encode_blocks_round_trip:
  "5 * n = length ds \<Longrightarrow> length (encode_blocks n ds) = 8 * n \<and> decode_blocks n (encode_blocks n ds) = Some ds"
proof (induction n arbitrary: ds)
  case (Suc n)
  have "5 * n = length (drop 5 ds)" using Suc.prems by simp
  from Suc.IH [OF this] encode_block_take [OF Suc.prems] show ?case by simp
qed simp

text \<open>
  Base32 round trip: for every buffer whose size is a multiple of 5, \<^verbatim>\<open>Base32Encode\<close>
  returns a text of the announced size and \<^verbatim>\<open>Base32Decode\<close> into a large enough array gives the
  buffer back; for any other size encoding throws.
\<close>

lemma base32_round_trip:
  "if length ds mod 5 = 0
   then \<exists>s. Base32Encode ds = Inr s \<and> length s = GetEncodedDataSize (length ds) \<and>
          Base32Decode s (length ds) = Inr ds
   else Base32Encode ds = Inl (Exception ''byte array size is not multiple'')"
proof (cases "length ds mod 5 = 0")
  case True
  then have "5 * (length ds div 5) = length ds" by auto
  from encode_blocks_round_trip [OF this] this True show ?thesis
    by (simp add: Base32Encode_def Base32Decode_def TryBase32EncodeInternal_def
        TryBase32DecodeInternal_def GetEncodedDataSize_def GetDecodedDataSize_def)
qed (simp add: Base32Encode_def TryBase32EncodeInternal_def)

end
