(* ===== verification/Std_Map.thy ===== *)
theory Std_Map
  imports Prelude
begin

section \<open>Ordered maps: \<^verbatim>\<open>std::map\<close>\<close>

text \<open>
  The code keeps nearly all of its state in \<^verbatim>\<open>std::map\<close>s and iterates over them in key
  order.  A map is modelled by the list of its entries in that order; the operations are
  the ones of the standard library the sources use (\<^verbatim>\<open>find\<close>, \<^verbatim>\<open>operator[]\<close> with
  assignment, \<^verbatim>\<open>emplace\<close>/\<^verbatim>\<open>insert\<close>, \<^verbatim>\<open>erase\<close>, \<^verbatim>\<open>lower_bound\<close>).
\<close>

type_synonym ('k, 'v) std_map = "('k \<times> 'v) list"

definition map_ok :: "('k::linorder, 'v) std_map \<Rightarrow> bool" where
  "map_ok m \<longleftrightarrow> sorted_wrt (<) (map fst m)"

definition map_find :: "'k \<Rightarrow> ('k, 'v) std_map \<Rightarrow> 'v option" where
  "map_find k m = map_of m k"

definition map_contains :: "'k \<Rightarrow> ('k, 'v) std_map \<Rightarrow> bool" where
  "map_contains k m \<longleftrightarrow> map_of m k \<noteq> None"

text \<open>\<^verbatim>\<open>m[k] = v\<close>: the entry of \<open>k\<close> is replaced, or inserted at its place.\<close>

fun map_put :: "'k::linorder \<Rightarrow> 'v \<Rightarrow> ('k, 'v) std_map \<Rightarrow> ('k, 'v) std_map" where
  "map_put k v [] = [(k, v)]"
| "map_put k v (e # m) =
     (if fst e < k then e # map_put k v m
      else if fst e = k then (k, v) # m
      else (k, v) # e # m)"

fun map_erase :: "'k \<Rightarrow> ('k, 'v) std_map \<Rightarrow> ('k, 'v) std_map" where
  "map_erase k [] = []"
| "map_erase k (e # m) = (if fst e = k then m else e # map_erase k m)"

text \<open>\<^verbatim>\<open>m.emplace(k, v)\<close> and \<^verbatim>\<open>m.insert({k, v})\<close>: an existing entry is kept.\<close>

definition map_emplace :: "'k::linorder \<Rightarrow> 'v \<Rightarrow> ('k, 'v) std_map \<Rightarrow> ('k, 'v) std_map" where
  "map_emplace k v m = (if map_contains k m then m else map_put k v m)"

text \<open>\<^verbatim>\<open>m[k]\<close> read as a value: a missing entry is first created with the default.\<close>

definition map_index :: "'k \<Rightarrow> 'v \<Rightarrow> ('k, 'v) std_map \<Rightarrow> 'v" where
  "map_index k d m = (case map_find k m of None \<Rightarrow> d | Some v \<Rightarrow> v)"

text \<open>\<^verbatim>\<open>m.lower_bound(k)\<close>: the first entry whose key is not less than \<open>k\<close>.\<close>

definition map_lower_bound :: "'k::linorder \<Rightarrow> ('k, 'v) std_map \<Rightarrow> ('k \<times> 'v) option" where
  "map_lower_bound k m = find (\<lambda>e. \<not> fst e < k) m"

lemma map_ok_Nil [simp]: "map_ok []"
  by (simp add: map_ok_def)

lemma map_ok_Cons: "map_ok (e # m) \<longleftrightarrow> (\<forall>e'\<in>set m. fst e < fst e') \<and> map_ok m"
  by (auto simp: map_ok_def)

lemma map_ok_distinct: "map_ok m \<Longrightarrow> distinct (map fst m)"
  by (simp add: map_ok_def strict_sorted_iff)

lemma map_of_put [simp]: "map_of (map_put k v m) = (map_of m)(k \<mapsto> v)"
  by (induction m) (auto simp: fun_eq_iff)

lemma map_of_smaller: "map_ok (e # m) \<Longrightarrow> k \<le> fst e \<Longrightarrow> map_of m k = None"
  by (force simp: map_ok_Cons map_of_eq_None_iff)

lemma map_of_erase: "map_ok m \<Longrightarrow> map_of (map_erase k m) = (map_of m)(k := None)"
proof (induction m)
  case (Cons e m)
  then show ?case
    using map_of_smaller [of e m] by (auto simp: fun_eq_iff map_ok_Cons)
qed simp

lemma set_put: "set (map_put k v m) \<subseteq> insert (k, v) (set m)"
  by (induction m) auto

lemma set_erase: "set (map_erase k m) \<subseteq> set m"
  by (induction m) auto

lemma map_ok_put [simp]: "map_ok m \<Longrightarrow> map_ok (map_put k v m)"
proof (induction m)
  case (Cons e m)
  have "\<forall>e'\<in>set (map_put k v m). e' = (k, v) \<or> e' \<in> set m"
    using set_put [of k v m] by blast
  with Cons show ?case
    by (auto simp: map_ok_Cons dest: bspec)
qed (simp add: map_ok_Cons)

lemma map_ok_erase [simp]: "map_ok m \<Longrightarrow> map_ok (map_erase k m)"
proof (induction m)
  case (Cons e m)
  then show ?case
    using set_erase [of k m] by (auto simp: map_ok_Cons)
qed simp

lemma map_ok_map_snd [simp]: "map_ok (map (\<lambda>e. (fst e, f e)) m) \<longleftrightarrow> map_ok m"
  by (simp add: map_ok_def comp_def)

subsection \<open>The interface\<close>

text \<open>
  What the clients of a map use: look-up after each operation, and the ordering invariant.
\<close>

locale key_store =
  fixes ok :: "'m \<Rightarrow> bool"
    and find :: "'k \<Rightarrow> 'm \<Rightarrow> 'v option"
    and put :: "'k \<Rightarrow> 'v \<Rightarrow> 'm \<Rightarrow> 'm"
    and erase :: "'k \<Rightarrow> 'm \<Rightarrow> 'm"
  assumes ok_put: "ok m \<Longrightarrow> ok (put k v m)"
    and ok_erase: "ok m \<Longrightarrow> ok (erase k m)"
    and find_put: "ok m \<Longrightarrow> find j (put k v m) = (if j = k then Some v else find j m)"
    and find_erase: "ok m \<Longrightarrow> find j (erase k m) = (if j = k then None else find j m)"
begin

lemma find_put_same: "ok m \<Longrightarrow> find k (put k v m) = Some v"
  by (simp add: find_put)

lemma find_erase_same: "ok m \<Longrightarrow> find k (erase k m) = None"
  by (simp add: find_erase)

lemma find_erase_put: "ok m \<Longrightarrow> find j (erase k (put k v m)) = find j (erase k m)"
  by (simp add: find_erase find_put ok_put)

lemma find_put_put:
  "ok m \<Longrightarrow> j \<noteq> k \<Longrightarrow> find i (put j v (put k w m)) = find i (put k w (put j v m))"
  by (simp add: find_put ok_put)

lemma find_foldr_erase:
  "ok m \<Longrightarrow> ok (foldr erase ks m) \<and>
     find j (foldr erase ks m) = (if j \<in> set ks then None else find j m)"
  by (induction ks) (auto simp: ok_erase find_erase)

lemma find_foldl_put:
  "ok m \<Longrightarrow> ok (foldl (\<lambda>m k. put k (f k) m) m ks) \<and>
     find j (foldl (\<lambda>m k. put k (f k) m) m ks) = (if j \<in> set ks then Some (f j) else find j m)"
  by (induction ks arbitrary: m) (auto simp: ok_put find_put)

end

interpretation sm: key_store map_ok map_find map_put map_erase
  by unfold_locales (auto simp: map_find_def map_of_erase)

lemma map_find_Nil [simp]: "map_find k [] = None"
  by (simp add: map_find_def)

lemma map_contains_find: "map_contains k m \<longleftrightarrow> map_find k m \<noteq> None"
  by (simp add: map_contains_def map_find_def)

lemma map_find_put [simp]: "map_find j (map_put k v m) = (if j = k then Some v else map_find j m)"
  by (simp add: map_find_def)

lemma map_find_erase: "map_ok m \<Longrightarrow> map_find j (map_erase k m) = (if j = k then None else map_find j m)"
  by (rule sm.find_erase)

lemma map_find_in_set: "map_find k m = Some v \<Longrightarrow> (k, v) \<in> set m"
  by (simp add: map_find_def map_of_SomeD)

lemma in_set_map_find: "map_ok m \<Longrightarrow> (k, v) \<in> set m \<Longrightarrow> map_find k m = Some v"
  by (simp add: map_find_def map_ok_distinct)

lemma map_find_None_iff: "map_find k m = None \<longleftrightarrow> k \<notin> fst ` set m"
  by (simp add: map_find_def map_of_eq_None_iff)

lemma map_ok_emplace [simp]: "map_ok m \<Longrightarrow> map_ok (map_emplace k v m)"
  by (simp add: map_emplace_def)

lemma map_find_emplace [simp]:
  "map_find j (map_emplace k v m) =
     (if j = k \<and> map_find k m = None then Some v else map_find j m)"
  by (auto simp: map_emplace_def map_contains_find)

lemma map_put_notempty [simp]: "map_put k v m \<noteq> []"
  by (cases m) auto

lemma length_map_put: "length m \<le> length (map_put k v m)"
  by (induction m) auto

lemma map_keys_put: "fst ` set (map_put k v m) = insert k (fst ` set m)"
  by (induction m) (auto simp: image_iff)

lemma map_keys_erase: "map_ok m \<Longrightarrow> fst ` set (map_erase k m) = fst ` set m - {k}"
proof -
  assume ok: "map_ok m"
  have "x \<notin> fst ` set (map_erase k m) \<longleftrightarrow> x \<notin> fst ` set m - {k}" for x
    by (simp add: map_find_None_iff [symmetric] map_find_erase [OF ok])
  then show ?thesis by blast
qed

lemma map_erase_idle: "map_find k m = None \<Longrightarrow> map_erase k m = m"
  by (induction m) (auto simp: map_find_def split: if_splits)

lemma map_put_erase: "map_ok m \<Longrightarrow> map_put k v (map_erase k m) = map_put k v m"
proof (induction m)
  case (Cons e m)
  show ?case
  proof (cases "fst e = k")
    case True
    with Cons.prems have "map_put k v m = (k, v) # m"
      by (cases m) (auto simp: map_ok_Cons)
    with True show ?thesis by simp
  next
    case False
    show ?thesis
    proof (cases "fst e < k")
      case True
      with False Cons show ?thesis by (auto simp: map_ok_Cons)
    next
      case less: False
      then have "map_find k m = None"
        using map_of_smaller [OF Cons.prems, of k] by (simp add: map_find_def)
      with less False show ?thesis by (simp add: map_erase_idle)
    qed
  qed
qed simp

lemma map_put_same: "map_ok m \<Longrightarrow> map_find k m = Some v \<Longrightarrow> map_put k v m = m"
proof (induction m)
  case (Cons e m)
  show ?case
  proof (cases "fst e = k")
    case False
    then have "map_of m k = Some v" using Cons.prems(2) by (cases e) (simp add: map_find_def)
    then have "\<not> k \<le> fst e" using map_of_smaller [OF Cons.prems(1), of k] by auto
    with False Cons show ?thesis by (cases e) (auto simp: map_find_def map_ok_Cons)
  qed (use Cons.prems in \<open>cases e, simp add: map_find_def\<close>)
qed simp

lemma sum_list_map_put:
  fixes f :: "'v \<Rightarrow> 'n::comm_monoid_add"
  assumes "map_ok m" and "map_find k m = None"
  shows "(\<Sum>e\<leftarrow>map_put k v m. f (snd e)) = f v + (\<Sum>e\<leftarrow>m. f (snd e))"
  using assms
  by (induction m) (auto simp: map_find_def map_ok_Cons add.left_commute split: if_splits)

lemma sum_list_map_erase:
  fixes f :: "'v \<Rightarrow> 'n::comm_monoid_add"
  assumes "map_find k m = Some v"
  shows "f v + (\<Sum>e\<leftarrow>map_erase k m. f (snd e)) = (\<Sum>e\<leftarrow>m. f (snd e))"
  using assms
  by (induction m) (auto simp: map_find_def add.left_commute split: if_splits)

lemma sum_list_map_put_exchange:
  fixes f :: "'v \<Rightarrow> 'n::comm_monoid_add"
  assumes "map_ok m" and "map_find k m = Some v"
  shows "(\<Sum>e\<leftarrow>map_put k w m. f (snd e)) + f v = f w + (\<Sum>e\<leftarrow>m. f (snd e))"
proof -
  have "(\<Sum>e\<leftarrow>map_put k w m. f (snd e)) = f w + (\<Sum>e\<leftarrow>map_erase k m. f (snd e))"
    using sum_list_map_put [where m = "map_erase k m" and k = k and v = w and f = f] assms(1)
    by (simp add: map_find_erase map_put_erase)
  then show ?thesis
    by (simp add: sum_list_map_erase [OF assms(2), where f = f, symmetric] ac_simps)
qed

text \<open>\<^verbatim>\<open>lower_bound\<close> finds an entry with the key itself exactly when the key is present.\<close>

lemma map_lower_bound_key:
  "map_ok m \<Longrightarrow> map_lower_bound k m = Some (k, v) \<longleftrightarrow> map_find k m = Some v"
proof (induction m)
  case (Cons e m)
  then show ?case
    using map_of_smaller [of e m k]
    by (cases e) (auto simp: map_lower_bound_def map_find_def map_ok_Cons)
qed (simp add: map_lower_bound_def)

lemma map_lower_bound_None_iff:
  "map_lower_bound k m = None \<longleftrightarrow> (\<forall>j \<in> fst ` set m. j < k)"
  by (auto simp: map_lower_bound_def find_None_iff)

subsection \<open>Filtered and mapped maps\<close>

lemma map_ok_filter: "map_ok m \<Longrightarrow> map_ok (filter P m)"
  by (simp add: map_ok_def sorted_wrt_filter strict_sorted_iff distinct_map_filter sorted_filter)

lemma map_find_filter:
  "map_ok m \<Longrightarrow> map_find k (filter P m) =
     (case map_find k m of None \<Rightarrow> None | Some v \<Rightarrow> if P (k, v) then Some v else None)"
proof (induction m)
  case (Cons e m)
  then show ?case
    using map_of_smaller [OF Cons.prems, of k]
    by (cases e) (auto simp: map_find_def map_ok_Cons split: option.splits)
qed simp

lemma map_find_map_snd: "map_find k (map (\<lambda>e. (fst e, f (snd e))) m) = map_option f (map_find k m)"
  by (induction m) (auto simp: map_find_def)

lemma map_index_put: "map_index j d (map_put k v m) = (if j = k then v else map_index j d m)"
  by (simp add: map_index_def)

lemma map_find_Cons: "map_find k ((j, v) # m) = (if j = k then Some v else map_find k m)"
  by (simp add: map_find_def)

end
