(* ===== verification/Fs_Path.thy ===== *)
theory Fs_Path
  imports Prelude "HOL-Library.Sublist"
begin

section \<open>Paths: \<^verbatim>\<open>std::filesystem::path\<close> and the path helpers\<close>

text \<open>
  The part of the POSIX \<^verbatim>\<open>std::filesystem::path\<close> the drive uses: iteration over the
  elements of a path, \<^verbatim>\<open>parent_path()\<close>, \<^verbatim>\<open>filename()\<close>, comparison and the \<^verbatim>\<open>/\<close>
  operator, all on the stored string.  An element list starts with \<^verbatim>\<open>"/"\<close> for an absolute
  path, holds the non-empty names, and ends with an empty name when the path ends with a
  separator after a name.  On top of it, \<^verbatim>\<open>isPathInsideFolder\<close> and \<^verbatim>\<open>toPath\<close> of
  \<^verbatim>\<open>src/drive/Utils.cpp\<close> and the constructor of \<^verbatim>\<open>Action\<close> in
  \<^verbatim>\<open>include/drive/ActionList.h\<close>, which trims separators.
\<close>

definition is_sep :: "char \<Rightarrow> bool" where
  "is_sep c \<longleftrightarrow> c = CHR ''/''"

fun segments :: "string \<Rightarrow> string list" where
  "segments [] = [[]]"
| "segments (c # s) =
     (if is_sep c then [] # segments s
      else case segments s of [] \<Rightarrow> [[c]] | n # ns \<Rightarrow> (c # n) # ns)"

definition has_root :: "string \<Rightarrow> bool" where
  "has_root s \<longleftrightarrow> s \<noteq> [] \<and> is_sep (hd s)"

definition names :: "string \<Rightarrow> string list" where
  "names s = filter (\<lambda>n. n \<noteq> []) (segments s)"

text \<open>Iteration from \<^verbatim>\<open>path.begin()\<close> to \<^verbatim>\<open>path.end()\<close>.\<close>

definition path_elems :: "string \<Rightarrow> string list" where
  "path_elems s =
     (if has_root s then [''/''] else []) @ names s @
     (if names s \<noteq> [] \<and> last (segments s) = [] then [[]] else [])"

definition has_relative :: "string \<Rightarrow> bool" where
  "has_relative s \<longleftrightarrow> dropWhile is_sep s \<noteq> []"

definition parent_path :: "string \<Rightarrow> string" where
  "parent_path s =
     (if \<not> has_relative s then s
      else let q = dropWhile is_sep (dropWhile (\<lambda>c. \<not> is_sep c) (rev s))
           in if q = [] then (if has_root s then ''/'' else []) else rev q)"

definition filename :: "string \<Rightarrow> string" where
  "filename s =
     (if \<not> has_relative s then [] else rev (takeWhile (\<lambda>c. \<not> is_sep c) (rev s)))"

definition path_eq :: "string \<Rightarrow> string \<Rightarrow> bool" where
  "path_eq p q \<longleftrightarrow> path_elems p = path_elems q"

text \<open>
  \<^verbatim>\<open>p / q\<close>: an absolute right-hand side replaces the left-hand side; otherwise a separator
  is added when the left-hand side ends with a file name.
\<close>

definition path_append :: "string \<Rightarrow> string \<Rightarrow> string" where
  "path_append p q =
     (if has_root q then q
      else if filename p \<noteq> [] then p @ ''/'' @ q
      else p @ q)"

text \<open>
  \<^verbatim>\<open>isPathInsideFolder(path, folder, ec)\<close>: with both paths made absolute, the loop walks the
  two element sequences; it answers \<^verbatim>\<open>true\<close> when the first ends strictly before the second.
  The working directory that \<^verbatim>\<open>fs::absolute\<close> prepends is the argument \<open>cwd\<close>; the
  root paths of two absolute POSIX paths are both \<^verbatim>\<open>"/"\<close>.
\<close>

definition absolute :: "string \<Rightarrow> string \<Rightarrow> string" where
  "absolute cwd p = (if has_root p then p else path_append cwd p)"

fun inside_loop :: "string list \<Rightarrow> string list \<Rightarrow> bool" where
  "inside_loop ps [] = False"
| "inside_loop [] (f # fs) = True"
| "inside_loop (p # ps) (f # fs) = (if p \<noteq> f then False else inside_loop ps fs)"

definition isPathInsideFolder :: "string \<Rightarrow> string \<Rightarrow> string \<Rightarrow> bool" where
  "isPathInsideFolder cwd path folder =
     (let path0 = absolute cwd path; folder0 = absolute cwd folder
      in if has_root path0 \<noteq> has_root folder0 then False
         else inside_loop (path_elems path0) (path_elems folder0))"

text \<open>
  \<^verbatim>\<open>toPath(s)\<close> returns \<^verbatim>\<open>{ (s.begin(), s.end()) }\<close>.  The comma operator drops the first
  iterator, and a path built from one character iterator reads a terminated string from
  there; what follows the last character of a \<^verbatim>\<open>std::string\<close> is its terminator.
\<close>

definition terminated_from :: "string \<Rightarrow> nat \<Rightarrow> string" where
  "terminated_from s i = takeWhile (\<lambda>c. c \<noteq> CHR 0x00) (drop i (s @ [CHR 0x00]))"

definition toPath :: "string \<Rightarrow> string" where
  "toPath s = terminated_from s (length s)"

subsection \<open>Actions of an action list\<close>

datatype action_id = upload | new_folder | move | remove

record action =
  m_actionId :: action_id
  m_param1 :: string
  m_param2 :: string
  m_filename :: string
  m_isInvalid :: bool

definition trim_back :: "string \<Rightarrow> string" where
  "trim_back s = rev (dropWhile is_sep (rev s))"

definition trim_front :: "string \<Rightarrow> string" where
  "trim_front s = dropWhile is_sep s"

text \<open>The private constructor of \<^verbatim>\<open>Action\<close>: the four trimming loops in their order.\<close>

definition Action :: "action_id \<Rightarrow> string \<Rightarrow> string \<Rightarrow> action" where
  "Action code p1 p2 =
     \<lparr>m_actionId = code,
      m_param1 = (if code \<noteq> upload then trim_front (trim_back p1) else trim_back p1),
      m_param2 = trim_front (trim_back p2),
      m_filename = [],
      m_isInvalid = False\<rparr>"

subsection \<open>Elements, parents and file names\<close>

lemma segments_not_Nil [simp]: "segments s \<noteq> []"
  by (induction s) (auto split: list.splits)

lemma segments_sep [simp]: "is_sep c \<Longrightarrow> segments (s @ c # t) = segments s @ segments t"
  by (induction s) (auto split: list.splits)

lemma segments_nosep: "\<forall>c\<in>set s. \<not> is_sep c \<Longrightarrow> segments s = [s]"
  by (induction s) auto

lemma segments_all_sep: "\<forall>c\<in>set s. is_sep c \<Longrightarrow> segments s = replicate (Suc (length s)) []"
  by (induction s) auto

lemma names_append_seps:
  "\<forall>c\<in>set t. is_sep c \<Longrightarrow> names (s @ t) = names s"
proof (induction t arbitrary: s)
  case (Cons c t)
  then have "names (s @ c # t) = filter (\<lambda>n. n \<noteq> []) (segments s @ segments t)"
    by (simp add: names_def)
  also have "\<dots> = names s"
    using segments_all_sep [of t] Cons.prems by (auto simp: names_def)
  finally show ?case .
qed simp

lemma names_nonempty: "n \<in> set (names s) \<Longrightarrow> n \<noteq> []"
  by (simp add: names_def)

lemma has_relative_iff: "has_relative s \<longleftrightarrow> (\<exists>c\<in>set s. \<not> is_sep c)"
  by (simp add: has_relative_def dropWhile_eq_Nil_conv)

lemma segments_concat_chars: "\<not> is_sep c \<Longrightarrow> c \<in> set s \<Longrightarrow> \<exists>n\<in>set (segments s). c \<in> set n"
  by (induction s) (auto split: list.splits)

lemma names_Nil_iff: "names s = [] \<longleftrightarrow> \<not> has_relative s"
proof
  assume "names s = []"
  then have "\<forall>n\<in>set (segments s). n = []"
    by (simp add: names_def filter_empty_conv)
  then show "\<not> has_relative s"
    using segments_concat_chars by (fastforce simp: has_relative_iff)
next
  assume "\<not> has_relative s"
  then have "segments s = replicate (Suc (length s)) []"
    by (intro segments_all_sep) (auto simp: has_relative_iff)
  then show "names s = []" by (simp add: names_def)
qed

text \<open>
  A string splits at its last separator: everything before is the parent's text with its
  trailing separators, everything after is the file name.
\<close>

lemma split_last:
  obtains f where "f = rev (takeWhile (\<lambda>c. \<not> is_sep c) (rev s))" "\<forall>c\<in>set f. \<not> is_sep c"
    "s = rev (dropWhile (\<lambda>c. \<not> is_sep c) (rev s)) @ f"
proof -
  let ?f = "rev (takeWhile (\<lambda>c. \<not> is_sep c) (rev s))"
  have "\<forall>c\<in>set ?f. \<not> is_sep c"
    by (auto dest: set_takeWhileD)
  moreover have "s = rev (dropWhile (\<lambda>c. \<not> is_sep c) (rev s)) @ ?f"
    by (metis rev_append rev_rev_ident takeWhile_dropWhile_id)
  ultimately show ?thesis using that by blast
qed

lemma rev_dropWhile_seps:
  obtains t where "\<forall>c\<in>set t. is_sep c" "rev q = rev (dropWhile is_sep q) @ t"
proof -
  have "rev q = rev (dropWhile is_sep q) @ rev (takeWhile is_sep q)"
    by (metis rev_append takeWhile_dropWhile_id)
  then show ?thesis using that [of "rev (takeWhile is_sep q)"]
    by (auto dest: set_takeWhileD)
qed

lemma dropWhile_ends:
  "dropWhile P xs = [] \<or> (\<exists>y ys. dropWhile P xs = y # ys \<and> \<not> P y)"
  by (induction xs) auto

lemma last_segments_nosep:
  "s \<noteq> [] \<Longrightarrow> \<not> is_sep (last s) \<Longrightarrow> last (segments s) \<noteq> []"
proof (induction s)
  case (Cons c s)
  then show ?case by (cases s) (auto split: list.splits)
qed simp

lemma path_elems_simple:
  "s \<noteq> [] \<Longrightarrow> \<not> is_sep (last s) \<Longrightarrow>
     path_elems s = (if has_root s then [''/''] else []) @ names s"
  by (simp add: path_elems_def last_segments_nosep)

lemma path_elems_root [simp]: "path_elems ''/'' = [''/'']"
  by (simp add: path_elems_def names_def has_root_def is_sep_def)

lemma has_root_Nil [simp]: "\<not> has_root []"
  by (simp add: has_root_def)

lemma path_elems_Nil [simp]: "path_elems [] = []"
  by (simp add: path_elems_def names_def has_root_def)

text \<open>The elements of a path are those of its parent followed by the file name.\<close>

lemma path_elems_parent_filename:
  assumes rel: "has_relative s"
  shows "path_elems s = path_elems (parent_path s) @ [filename s]"
proof -
  obtain f where f: "f = rev (takeWhile (\<lambda>c. \<not> is_sep c) (rev s))"
    and nosep: "\<forall>c\<in>set f. \<not> is_sep c"
    and s: "s = rev (dropWhile (\<lambda>c. \<not> is_sep c) (rev s)) @ f"
    by (rule split_last)
  define q where "q = dropWhile (\<lambda>c. \<not> is_sep c) (rev s)"
  define p where "p = rev (dropWhile is_sep q)"
  obtain t where t: "\<forall>c\<in>set t. is_sep c" and q: "rev q = p @ t"
    unfolding p_def by (rule rev_dropWhile_seps)
  have s': "s = p @ t @ f" using s q by (simp add: q_def)
  have fn: "filename s = f" using rel f by (simp add: filename_def)
  have par: "parent_path s = (if p = [] then (if has_root s then ''/'' else []) else p)"
    by (simp only: parent_path_def p_def q_def Let_def rel not_True_eq_False if_False rev_is_Nil_conv)
  have p_last: "p \<noteq> [] \<Longrightarrow> \<not> is_sep (last p)"
    using dropWhile_ends [of is_sep q] by (auto simp: p_def last_rev)
  show ?thesis
  proof (cases t rule: rev_cases)
    case Nil
    with q have "rev q = p" by simp
    then have "q = rev p" by auto
    have "p = []"
    proof (rule ccontr)
      assume "p \<noteq> []"
      with \<open>q = rev p\<close> have "q \<noteq> []" and "hd q = last p" by (simp_all add: hd_rev)
      then have "is_sep (last p)"
        using hd_dropWhile [of "\<lambda>c. \<not> is_sep c" "rev s"] by (simp add: q_def)
      with p_last \<open>p \<noteq> []\<close> show False by simp
    qed
    with Nil s' have s'': "s = f" by simp
    then have "f \<noteq> []" using rel by (auto simp: has_relative_iff)
    moreover have "\<not> has_root s" using s'' nosep by (auto simp: has_root_def)
    ultimately show ?thesis
      using s'' fn par \<open>p = []\<close> nosep
      by (simp add: path_elems_def names_def segments_nosep)
  next
    case (snoc t' c)
    then have c: "is_sep c" and t': "\<forall>c\<in>set t'. is_sep c" using t by auto
    have segs: "segments s = segments (p @ t') @ [f]"
      using s' snoc c segments_sep [of c "p @ t'" f] nosep by (simp add: segments_nosep)
    have nm: "names s = names p @ (if f = [] then [] else [f])"
      using segs names_append_seps [OF t', of p] by (simp add: names_def)
    have root: "has_root s = (if p = [] then True else has_root p)"
      using s' snoc c t' by (cases t'; cases p) (auto simp: has_root_def)
    have "p = [] \<Longrightarrow> f \<noteq> []"
      using rel s' t by (auto simp: has_relative_iff)
    moreover have "p \<noteq> [] \<Longrightarrow> names p \<noteq> []"
      using p_last by (simp add: names_Nil_iff has_relative_iff) (metis last_in_set)
    moreover have "names ([]::string) = []" by (simp add: names_def)
    ultimately show ?thesis
      using segs nm root fn par p_last
      by (auto simp: path_elems_def [of s] path_elems_simple)
  qed
qed

lemma path_elems_parent_no_relative: "\<not> has_relative s \<Longrightarrow> parent_path s = s"
  by (simp add: parent_path_def)

lemma path_elems_not_Nil: "has_relative s \<Longrightarrow> path_elems s \<noteq> []"
  by (simp add: path_elems_parent_filename)

subsection \<open>The path helpers\<close>

lemma inside_loop_iff: "inside_loop ps fs \<longleftrightarrow> strict_prefix ps fs"
  by (induction ps fs rule: inside_loop.induct) (auto simp: strict_prefix_def)

lemma trim_back_decomp: "\<exists>t. (\<forall>c\<in>set t. is_sep c) \<and> s = trim_back s @ t"
  unfolding trim_back_def using rev_dropWhile_seps [of "rev s"] by (metis rev_rev_ident)

lemma trim_front_no_root: "\<not> has_root (trim_front s)"
  using dropWhile_ends [of is_sep s] by (auto simp: trim_front_def has_root_def)

lemma trim_back_last: "trim_back s \<noteq> [] \<Longrightarrow> \<not> is_sep (last (trim_back s))"
  using dropWhile_ends [of is_sep "rev s"] by (auto simp: trim_back_def last_rev)

lemma last_trim_front: "trim_front s \<noteq> [] \<Longrightarrow> last (trim_front s) = last s"
  unfolding trim_front_def by (metis last_appendR takeWhile_dropWhile_id)

lemma names_trim: "names (trim_front (trim_back s)) = names s"
proof -
  obtain t where "\<forall>c\<in>set t. is_sep c" "s = trim_back s @ t"
    using trim_back_decomp by blast
  then have "names s = names (trim_back s)" by (metis names_append_seps)
  moreover have "names (trim_front u) = names u" for u
    by (induction u) (auto simp: trim_front_def names_def)
  ultimately show ?thesis by simp
qed

subsection \<open>Plain paths\<close>

text \<open>
  A relative path that neither starts nor ends with a separator, as the constructor of
  \<^verbatim>\<open>Action\<close> leaves it: its elements are its names.
\<close>

definition plain :: "string \<Rightarrow> bool" where
  "plain p \<longleftrightarrow> p \<noteq> [] \<and> \<not> is_sep (hd p) \<and> \<not> is_sep (last p)"

lemma plain_simps:
  assumes "plain p"
  shows "p \<noteq> []" "\<not> has_root p" "has_relative p" "path_elems p = names p"
proof -
  show ne: "p \<noteq> []" and r: "\<not> has_root p" using assms by (auto simp: plain_def has_root_def)
  show "has_relative p" using assms last_in_set [OF ne] by (auto simp: plain_def has_relative_iff)
  show "path_elems p = names p" using assms ne r by (simp add: plain_def path_elems_simple)
qed

lemma names_join: "names (p @ ''/'' @ q) = names p @ names q"
  by (simp add: names_def is_sep_def)

lemma plain_join:
  assumes "plain p" and "plain q"
  shows "plain (p @ ''/'' @ q)" "path_elems (p @ ''/'' @ q) = path_elems p @ path_elems q"
proof -
  show "plain (p @ ''/'' @ q)" using assms by (simp add: plain_def)
  then show "path_elems (p @ ''/'' @ q) = path_elems p @ path_elems q"
    using assms by (simp only: plain_simps names_join)
qed

lemma filename_plain: "plain p \<Longrightarrow> filename p \<noteq> []"
  by (cases p rule: rev_cases) (auto simp: filename_def plain_simps plain_def)

lemma path_elems_below_root:
  assumes "plain q" and "has_root p"
  shows "path_elems (path_append p q) = ''/'' # names p @ path_elems q"
proof -
  have ne: "p \<noteq> []" using assms(2) by auto
  have qne: "q \<noteq> []" and ql: "\<not> is_sep (last q)" using assms(1) by (auto simp: plain_def)
  have elems: "path_elems (u @ ''/'' @ q) = ''/'' # names u @ path_elems q" if "u = [] \<or> has_root u" for u
  proof -
    have "has_root (u @ ''/'' @ q)" using that by (cases u) (auto simp: has_root_def is_sep_def)
    then show ?thesis
      using path_elems_simple [of "u @ ''/'' @ q"] qne ql names_join [of u q]
      by (simp add: plain_simps [OF assms(1)])
  qed
  show ?thesis
  proof (cases "filename p = []")
    case False
    then show ?thesis using assms(2) elems [of p] plain_simps(2) [OF assms(1)] by (simp add: path_append_def)
  next
    case True
    then have "is_sep (last p)"
      using ne by (cases p rule: rev_cases)
        (auto simp: filename_def has_relative_iff split: if_splits)
    then obtain u where u: "p = u @ ''/''"
      using ne by (cases p rule: rev_cases) (auto simp: is_sep_def)
    have "names p = names u" unfolding u by (rule names_append_seps) (simp add: is_sep_def)
    moreover have "u = [] \<or> has_root u" using assms(2) u by (cases u) (auto simp: has_root_def)
    ultimately show ?thesis
      using elems [of u] True u plain_simps(2) [OF assms(1)] by (simp add: path_append_def)
  qed
qed

lemma isPathInsideFolder_plain:
  assumes "has_root cwd" and "plain p" and "plain q"
  shows "isPathInsideFolder cwd (path_append ''root'' p) (path_append ''root'' q) \<longleftrightarrow>
    strict_prefix (path_elems p) (path_elems q)"
proof -
  have root: "plain ''root''" by (simp add: plain_def is_sep_def)
  have "path_elems (absolute cwd (path_append ''root'' x)) = (''/'' # names cwd @ [''root'']) @ path_elems x
      \<and> has_root (absolute cwd (path_append ''root'' x))" if x: "plain x" for x
  proof -
    have j: "path_append ''root'' x = ''root'' @ ''/'' @ x"
      using filename_plain [OF root] plain_simps(2) [OF x] by (simp add: path_append_def)
    have pj: "plain (path_append ''root'' x)" unfolding j by (rule plain_join(1) [OF root x])
    have "path_elems ''root'' = [''root'']"
      using plain_simps(4) [OF root] by (simp add: names_def is_sep_def)
    then have "path_elems (path_append ''root'' x) = ''root'' # path_elems x"
      unfolding j using plain_join(2) [OF root x] by simp
    moreover have "has_root (path_append cwd u)" if "plain u" for u
      using assms(1) plain_simps(2) [OF that] by (cases cwd) (auto simp: path_append_def has_root_def)
    ultimately show ?thesis
      using path_elems_below_root [OF pj assms(1)] plain_simps(2) [OF pj] pj by (simp add: absolute_def)
  qed
  from this [OF assms(2)] this [OF assms(3)] show ?thesis
    by (simp add: isPathInsideFolder_def inside_loop_iff strict_prefix_def)
qed

end
