(* ===== verification/Fs_Statistics.thy ===== *)
theory Fs_Statistics
  imports Prelude
begin

section \<open>Usage statistics of file-system entries\<close>

text \<open>
  Model of \<^verbatim>\<open>include/drive/FsEntryStatistics.h\<close>.  Every file and folder of a tree owns,
  through a \<^verbatim>\<open>shared_ptr\<close>, a statistics node; a node points with a \<^verbatim>\<open>weak_ptr\<close> to the node
  of its folder.  \<^verbatim>\<open>m_blocks\<close> counts the open handles of the entry itself and
  \<^verbatim>\<open>m_childrenBlocks\<close> those below it.  The nodes live in a store, addressed by numbers, one
  space for folder nodes and one for file nodes; \<open>owners\<close> is the use count of a folder
  node, so a weak pointer locks exactly while its node has an owner.
\<close>

record file_stat =
  fi_parent :: "nat option"
  fi_blocks :: u64

record folder_stat =
  fo_parent :: "nat option"
  fo_blocks :: u64
  fo_childrenBlocks :: u64

record stats =
  folder_nodes :: "nat \<Rightarrow> folder_stat"
  file_nodes :: "nat \<Rightarrow> file_stat"
  next_folder :: nat
  next_file :: nat
  owners :: "nat \<Rightarrow> nat"

definition empty_stats :: stats where
  "empty_stats =
     \<lparr>folder_nodes = (\<lambda>_. \<lparr>fo_parent = None, fo_blocks = 0, fo_childrenBlocks = 0\<rparr>),
      file_nodes = (\<lambda>_. \<lparr>fi_parent = None, fi_blocks = 0\<rparr>),
      next_folder = 0, next_file = 0, owners = (\<lambda>_. 0)\<rparr>"

text \<open>\<^verbatim>\<open>FolderStatistics::totalBlocks\<close>; a file's total is its own counter.\<close>

definition totalBlocks :: "folder_stat \<Rightarrow> u64" where
  "totalBlocks nd = fo_blocks nd + fo_childrenBlocks nd"

definition folder_total :: "stats \<Rightarrow> nat \<Rightarrow> u64" where
  "folder_total st n = totalBlocks (folder_nodes st n)"

definition live :: "stats \<Rightarrow> nat \<Rightarrow> bool" where
  "live st n \<longleftrightarrow> 0 < owners st n"

definition lock :: "stats \<Rightarrow> nat option \<Rightarrow> nat option" where
  "lock st p = (case p of None \<Rightarrow> None | Some n \<Rightarrow> if live st n then Some n else None)"

text \<open>\<^verbatim>\<open>std::make_shared<FolderStatisticsNode>()\<close> and its file counterpart.\<close>

definition new_folder_node :: "stats \<Rightarrow> nat \<times> stats" where
  "new_folder_node st =
     (next_folder st,
      st\<lparr>folder_nodes := (folder_nodes st)(next_folder st :=
            \<lparr>fo_parent = None, fo_blocks = 0, fo_childrenBlocks = 0\<rparr>),
         owners := (owners st)(next_folder st := 1),
         next_folder := Suc (next_folder st)\<rparr>)"

definition new_file_node :: "stats \<Rightarrow> nat \<times> stats" where
  "new_file_node st =
     (next_file st,
      st\<lparr>file_nodes := (file_nodes st)(next_file st := \<lparr>fi_parent = None, fi_blocks = 0\<rparr>),
         next_file := Suc (next_file st)\<rparr>)"

text \<open>A copy of a \<^verbatim>\<open>shared_ptr\<close> to a folder node, and the destruction of one.\<close>

definition retain :: "nat \<Rightarrow> stats \<Rightarrow> stats" where
  "retain n st = st\<lparr>owners := (owners st)(n := Suc (owners st n))\<rparr>"

definition release :: "nat \<Rightarrow> stats \<Rightarrow> stats" where
  "release n st = st\<lparr>owners := (owners st)(n := owners st n - 1)\<rparr>"

definition set_children :: "nat \<Rightarrow> u64 \<Rightarrow> stats \<Rightarrow> stats" where
  "set_children n b st =
     st\<lparr>folder_nodes := (folder_nodes st)(n := (folder_nodes st n)\<lparr>fo_childrenBlocks := b\<rparr>)\<rparr>"

text \<open>
  \<^verbatim>\<open>FolderStatisticsNode::update(oldChild, newChild)\<close>.  The recursion follows the parent
  pointers and has no other stop, so \<open>None\<close> stands for a chain that never ends.
\<close>

partial_function (option) update :: "nat \<Rightarrow> u64 \<Rightarrow> u64 \<Rightarrow> stats \<Rightarrow> stats option" where
  "update n oldChild newChild st =
     (let oldStatistics = folder_total st n;
          st' = set_children n (fo_childrenBlocks (folder_nodes st n) - oldChild + newChild) st
      in case lock st' (fo_parent (folder_nodes st' n)) of
           None \<Rightarrow> Some st'
         | Some parent \<Rightarrow> update parent oldStatistics (folder_total st' n) st')"

declare update.simps [code]

definition update_if :: "nat option \<Rightarrow> u64 \<Rightarrow> u64 \<Rightarrow> stats \<Rightarrow> stats option" where
  "update_if p old new st = (case lock st p of None \<Rightarrow> Some st | Some n \<Rightarrow> update n old new st)"

text \<open>\<^verbatim>\<open>FolderStatisticsNode::setParent\<close>.\<close>

definition folder_setParent :: "nat \<Rightarrow> nat option \<Rightarrow> stats \<Rightarrow> stats option" where
  "folder_setParent c parent st =
     Option.bind (update_if (fo_parent (folder_nodes st c)) (folder_total st c) 0 st) (\<lambda>st1.
       let st2 = st1\<lparr>folder_nodes :=
             (folder_nodes st1)(c := (folder_nodes st1 c)\<lparr>fo_parent := parent\<rparr>)\<rparr>
       in update_if parent 0 (folder_total st2 c) st2)"

text \<open>\<^verbatim>\<open>FolderStatisticsNode::addBlock\<close> and \<^verbatim>\<open>removeBlock\<close>.\<close>

definition folder_set_blocks :: "nat \<Rightarrow> u64 \<Rightarrow> stats \<Rightarrow> stats option" where
  "folder_set_blocks c b st =
     (let st' = st\<lparr>folder_nodes :=
             (folder_nodes st)(c := (folder_nodes st c)\<lparr>fo_blocks := b\<rparr>)\<rparr>
      in update_if (fo_parent (folder_nodes st c)) (folder_total st c) (folder_total st' c) st')"

definition folder_addBlock :: "nat \<Rightarrow> stats \<Rightarrow> stats option" where
  "folder_addBlock c st = folder_set_blocks c (fo_blocks (folder_nodes st c) + 1) st"

definition folder_removeBlock :: "nat \<Rightarrow> stats \<Rightarrow> stats option" where
  "folder_removeBlock c st = folder_set_blocks c (fo_blocks (folder_nodes st c) - 1) st"

text \<open>\<^verbatim>\<open>FileStatisticsNode::setParent\<close>, \<^verbatim>\<open>addBlock\<close> and \<^verbatim>\<open>removeBlock\<close>.\<close>

definition file_setParent :: "nat \<Rightarrow> nat option \<Rightarrow> stats \<Rightarrow> stats option" where
  "file_setParent f parent st =
     Option.bind (update_if (fi_parent (file_nodes st f)) (fi_blocks (file_nodes st f)) 0 st) (\<lambda>st1.
       let st2 = st1\<lparr>file_nodes :=
             (file_nodes st1)(f := (file_nodes st1 f)\<lparr>fi_parent := parent\<rparr>)\<rparr>
       in update_if parent 0 (fi_blocks (file_nodes st2 f)) st2)"

definition file_set_blocks :: "nat \<Rightarrow> u64 \<Rightarrow> stats \<Rightarrow> stats option" where
  "file_set_blocks f b st =
     (let st' = st\<lparr>file_nodes := (file_nodes st)(f := (file_nodes st f)\<lparr>fi_blocks := b\<rparr>)\<rparr>
      in update_if (fi_parent (file_nodes st f)) (fi_blocks (file_nodes st f)) b st')"

definition file_addBlock :: "nat \<Rightarrow> stats \<Rightarrow> stats option" where
  "file_addBlock f st = file_set_blocks f (fi_blocks (file_nodes st f) + 1) st"

definition file_removeBlock :: "nat \<Rightarrow> stats \<Rightarrow> stats option" where
  "file_removeBlock f st = file_set_blocks f (fi_blocks (file_nodes st f) - 1) st"

subsection \<open>The accounting invariant\<close>

text \<open>
  The counter of children of a live folder node is the sum of the totals of the nodes that
  point to it.  \<open>defect\<close> is the difference; the invariant is that it is 0.
\<close>

definition folder_kids :: "stats \<Rightarrow> nat \<Rightarrow> nat set" where
  "folder_kids st n = {c. c < next_folder st \<and> fo_parent (folder_nodes st c) = Some n}"

definition file_kids :: "stats \<Rightarrow> nat \<Rightarrow> nat set" where
  "file_kids st n = {f. f < next_file st \<and> fi_parent (file_nodes st f) = Some n}"

definition below :: "stats \<Rightarrow> nat \<Rightarrow> u64" where
  "below st n =
     (\<Sum>c\<in>folder_kids st n. folder_total st c) + (\<Sum>f\<in>file_kids st n. fi_blocks (file_nodes st f))"

definition defect :: "stats \<Rightarrow> nat \<Rightarrow> u64" where
  "defect st n = fo_childrenBlocks (folder_nodes st n) - below st n"

definition balanced :: "stats \<Rightarrow> bool" where
  "balanced st \<longleftrightarrow> (\<forall>n. live st n \<longrightarrow> defect st n = 0)"

text \<open>Parent pointers do not form a cycle: a rank falls along every pointer.\<close>

definition ranked :: "(nat \<Rightarrow> nat) \<Rightarrow> stats \<Rightarrow> bool" where
  "ranked r st \<longleftrightarrow> (\<forall>c p. fo_parent (folder_nodes st c) = Some p \<longrightarrow> r p < r c)"

definition parents :: "stats \<Rightarrow> (nat \<times> nat) set" where
  "parents st = {(p, c). fo_parent (folder_nodes st c) = Some p}"

definition same_shape :: "stats \<Rightarrow> stats \<Rightarrow> bool" where
  "same_shape st st' \<longleftrightarrow>
     (\<forall>n. fo_parent (folder_nodes st' n) = fo_parent (folder_nodes st n) \<and>
          fo_blocks (folder_nodes st' n) = fo_blocks (folder_nodes st n)) \<and>
     file_nodes st' = file_nodes st \<and> next_folder st' = next_folder st \<and>
     next_file st' = next_file st \<and> owners st' = owners st"

lemma same_shape_refl [simp]: "same_shape st st"
  by (simp add: same_shape_def)

lemma same_shape_trans: "same_shape a b \<Longrightarrow> same_shape b c \<Longrightarrow> same_shape a c"
  by (simp add: same_shape_def)

lemma same_shape_set_children [simp]: "same_shape st (set_children n b st)"
  by (simp add: same_shape_def set_children_def)

lemma same_shape_ranked: "same_shape st st' \<Longrightarrow> ranked r st' = ranked r st"
  by (simp add: same_shape_def ranked_def)

lemma same_shape_live: "same_shape st st' \<Longrightarrow> live st' = live st"
  by (simp add: same_shape_def live_def fun_eq_iff)

lemma same_shape_lock: "same_shape st st' \<Longrightarrow> lock st' = lock st"
  by (simp add: lock_def fun_eq_iff same_shape_live split: option.splits)

lemma same_shape_kids:
  "same_shape st st' \<Longrightarrow> folder_kids st' n = folder_kids st n \<and> file_kids st' n = file_kids st n"
  by (simp add: same_shape_def folder_kids_def file_kids_def)

lemma same_shape_parents: "same_shape st st' \<Longrightarrow> parents st' = parents st"
  by (simp add: same_shape_def parents_def)

lemma finite_folder_kids [simp]: "finite (folder_kids st n)"
  by (simp add: folder_kids_def)

lemma finite_file_kids [simp]: "finite (file_kids st n)"
  by (simp add: file_kids_def)

lemma lock_Some_iff: "lock st p = Some n \<longleftrightarrow> p = Some n \<and> live st n"
  by (auto simp: lock_def split: option.splits if_splits)

lemma sum_shift:
  fixes f g :: "'a \<Rightarrow> 'b::ab_group_add"
  assumes "finite A" and "\<And>x. x \<in> A \<Longrightarrow> x \<noteq> n \<Longrightarrow> g x = f x"
  shows "sum g A = sum f A + (if n \<in> A then g n - f n else 0)"
proof (cases "n \<in> A")
  case True
  have "sum g (A - {n}) = sum f (A - {n})"
    using assms(2) by (intro sum.cong) auto
  with True show ?thesis
    using assms(1) by (simp add: sum.remove [of A n])
next
  case False
  then have "sum g A = sum f A"
    using assms(2) by (intro sum.cong) auto
  with False show ?thesis by simp
qed

lemma below_set_children:
  assumes "n < next_folder st"
  shows "below (set_children n b st) m =
    below st m + (if fo_parent (folder_nodes st n) = Some m
                  then b - fo_childrenBlocks (folder_nodes st n) else 0)"
proof -
  let ?st' = "set_children n b st"
  have k: "folder_kids ?st' m = folder_kids st m" "file_kids ?st' m = file_kids st m"
    using same_shape_kids [OF same_shape_set_children] by auto
  have "(\<Sum>c\<in>folder_kids st m. folder_total ?st' c) =
     (\<Sum>c\<in>folder_kids st m. folder_total st c) +
     (if n \<in> folder_kids st m then folder_total ?st' n - folder_total st n else 0)"
    by (rule sum_shift) (simp_all add: folder_total_def set_children_def)
  moreover have "n \<in> folder_kids st m \<longleftrightarrow> fo_parent (folder_nodes st n) = Some m"
    using assms by (simp add: folder_kids_def)
  moreover have "folder_total ?st' n - folder_total st n = b - fo_childrenBlocks (folder_nodes st n)"
    by (simp add: folder_total_def totalBlocks_def set_children_def)
  moreover have "file_nodes ?st' = file_nodes st" by (simp add: set_children_def)
  ultimately show ?thesis
    by (simp add: below_def k add.assoc add.left_commute add.commute)
qed

lemma defect_set_children:
  assumes "n < next_folder st" and "fo_parent (folder_nodes st n) \<noteq> Some n"
  shows "defect (set_children n (fo_childrenBlocks (folder_nodes st n) + d) st) m =
    defect st m + (if m = n then d else 0) -
      (if fo_parent (folder_nodes st n) = Some m then d else 0)"
  using assms
  by (auto simp: defect_def below_set_children) (auto simp: set_children_def algebra_simps)

text \<open>
  The effect of \<open>update\<close>: it returns, changes nothing but children counters, and shifts
  the defect of the node it starts at by the change of the child's total.
\<close>

lemma update_spec:
  assumes "ranked r st" and "n < next_folder st"
    and "\<And>c p. fo_parent (folder_nodes st c) = Some p \<Longrightarrow> p < next_folder st"
  shows "\<exists>st'. update n old new st = Some st' \<and> same_shape st st' \<and>
    (\<forall>c. (c, n) \<notin> (parents st)\<^sup>* \<longrightarrow> folder_nodes st' c = folder_nodes st c) \<and>
    (\<forall>m. live st m \<longrightarrow> defect st' m = defect st m + (if m = n then new - old else 0))"
  using assms
proof (induction "r n" arbitrary: n old new st rule: less_induct)
  case less
  let ?st = "set_children n (fo_childrenBlocks (folder_nodes st n) + (new - old)) st"
  have self: "fo_parent (folder_nodes st n) \<noteq> Some n"
    using less.prems(1) by (auto simp: ranked_def dest: spec)
  note d = defect_set_children [OF less.prems(2) self, of "new - old"]
  have eq: "fo_childrenBlocks (folder_nodes st n) - old + new =
      fo_childrenBlocks (folder_nodes st n) + (new - old)" by simp
  have par: "fo_parent (folder_nodes ?st n) = fo_parent (folder_nodes st n)"
    by (simp add: set_children_def)
  show ?case
  proof (cases "lock st (fo_parent (folder_nodes st n))")
    case None
    then have "update n old new st = Some ?st"
      by (subst update.simps) (simp add: Let_def eq par same_shape_lock [OF same_shape_set_children])
    moreover have "fo_parent (folder_nodes st n) \<noteq> Some m" if "live st m" for m
      using None that by (auto simp: lock_def split: if_splits)
    moreover have "folder_nodes ?st c = folder_nodes st c" if "(c, n) \<notin> (parents st)\<^sup>*" for c
      using that by (auto simp: set_children_def)
    ultimately show ?thesis using d by auto
  next
    case (Some p)
    then have p: "fo_parent (folder_nodes st n) = Some p" and lp: "live st p"
      by (auto simp: lock_Some_iff)
    let ?old = "folder_total st n" and ?new = "folder_total ?st n"
    have upd: "update n old new st = update p ?old ?new ?st"
      by (subst update.simps)
        (simp add: Let_def eq par same_shape_lock [OF same_shape_set_children] Some)
    have tot: "?new - ?old = new - old"
      by (simp add: folder_total_def totalBlocks_def set_children_def)
    have "r p < r n" using less.prems(1) p by (auto simp: ranked_def)
    moreover have "ranked r ?st" using less.prems(1) by (simp add: same_shape_ranked [OF same_shape_set_children])
    moreover have "p < next_folder ?st" using less.prems(3) [OF p] by (simp add: set_children_def)
    moreover have "fo_parent (folder_nodes ?st c) = Some q \<Longrightarrow> q < next_folder ?st" for c q
      using less.prems(3) by (auto simp: set_children_def split: if_splits)
    ultimately obtain st' where st': "update p ?old ?new ?st = Some st'" "same_shape ?st st'"
      and fr: "\<And>c. (c, p) \<notin> (parents ?st)\<^sup>* \<Longrightarrow> folder_nodes st' c = folder_nodes ?st c"
      and def': "\<And>m. live ?st m \<Longrightarrow> defect st' m = defect ?st m + (if m = p then new - old else 0)"
      using less.hyps [of p ?st ?old ?new] by (auto simp: tot)
    have "defect st' m = defect st m + (if m = n then new - old else 0)" if "live st m" for m
    proof -
      have "live ?st m" using that by (simp add: same_shape_live [OF same_shape_set_children])
      then show ?thesis using def' [of m] d [of m] p by auto
    qed
    moreover have "folder_nodes st' c = folder_nodes st c" if "(c, n) \<notin> (parents st)\<^sup>*" for c
    proof -
      have "(p, n) \<in> parents st" using p by (simp add: parents_def)
      then have "(c, p) \<notin> (parents ?st)\<^sup>*"
        using that same_shape_parents [OF same_shape_set_children]
        by (auto intro: rtrancl_into_rtrancl)
      moreover have "c \<noteq> n" using that by auto
      ultimately show ?thesis using fr by (simp add: set_children_def)
    qed
    moreover have "same_shape st st'"
      using st'(2) same_shape_set_children by (rule same_shape_trans [rotated])
    ultimately show ?thesis using upd st'(1) by auto
  qed
qed

subsection \<open>Every operation keeps the accounts\<close>

text \<open>
  The invariant of the store: the accounts of live folders balance, parent pointers are
  acyclic and point to allocated folder nodes, and addresses not yet given out are unused.
\<close>

definition stats_wf :: "stats \<Rightarrow> bool" where
  "stats_wf st \<longleftrightarrow> acyclic (parents st) \<and>
     (\<forall>c p. fo_parent (folder_nodes st c) = Some p \<longrightarrow> c < next_folder st \<and> p < next_folder st) \<and>
     (\<forall>f p. fi_parent (file_nodes st f) = Some p \<longrightarrow> f < next_file st \<and> p < next_folder st) \<and>
     (\<forall>n. live st n \<longrightarrow> n < next_folder st)"

definition stats_ok :: "stats \<Rightarrow> bool" where
  "stats_ok st \<longleftrightarrow> stats_wf st \<and> balanced st"

lemma stats_wf_simps:
  assumes "stats_wf st"
  shows "fo_parent (folder_nodes st c) = Some p \<Longrightarrow> c < next_folder st"
    and "fo_parent (folder_nodes st c) = Some p \<Longrightarrow> p < next_folder st"
    and "fi_parent (file_nodes st f) = Some p \<Longrightarrow> f < next_file st"
    and "fi_parent (file_nodes st f) = Some p \<Longrightarrow> p < next_folder st"
    and "live st n \<Longrightarrow> n < next_folder st"
    and "acyclic (parents st)"
  using assms by (auto simp: stats_wf_def)

lemma stats_okD: "stats_ok st \<Longrightarrow> stats_wf st" "stats_ok st \<Longrightarrow> live st n \<Longrightarrow> defect st n = 0"
  by (auto simp: stats_ok_def balanced_def)

lemma same_shape_wf: "same_shape st st' \<Longrightarrow> stats_wf st' = stats_wf st"
  by (simp add: stats_wf_def same_shape_parents same_shape_live) (simp add: same_shape_def)

lemma finite_parents: "stats_wf st \<Longrightarrow> finite (parents st)"
proof -
  assume ok: "stats_wf st"
  have "parents st \<subseteq> {..<next_folder st} \<times> {..<next_folder st}"
    using ok by (auto simp: parents_def dest: stats_wf_simps)
  then show ?thesis by (rule finite_subset) simp
qed

lemma acyclic_ranked:
  assumes "acyclic (parents st)" and "finite (parents st)"
  shows "ranked (\<lambda>c. card {q. (q, c) \<in> (parents st)\<^sup>+}) st"
  unfolding ranked_def
proof (intro allI impI)
  fix c p
  let ?R = "parents st"
  assume "fo_parent (folder_nodes st c) = Some p"
  then have pc: "(p, c) \<in> ?R" by (simp add: parents_def)
  have "{q. (q, p) \<in> ?R\<^sup>+} \<subset> {q. (q, c) \<in> ?R\<^sup>+}"
    using pc assms(1) by (auto simp: acyclic_def intro: trancl_into_trancl)
  moreover have "finite {q. (q, c) \<in> ?R\<^sup>+}"
  proof (rule finite_subset)
    show "{q. (q, c) \<in> ?R\<^sup>+} \<subseteq> Domain ?R" by (auto elim: converse_tranclE)
  qed (simp add: assms(2) finite_Domain)
  ultimately show "card {q. (q, p) \<in> ?R\<^sup>+} < card {q. (q, c) \<in> ?R\<^sup>+}"
    by (rule psubset_card_mono [rotated])
qed

lemma update_ok:
  assumes "stats_wf st" and "n < next_folder st"
  shows "\<exists>st'. update n old new st = Some st' \<and> same_shape st st' \<and>
    (\<forall>c. (c, n) \<notin> (parents st)\<^sup>* \<longrightarrow> folder_nodes st' c = folder_nodes st c) \<and>
    (\<forall>m. live st m \<longrightarrow> defect st' m = defect st m + (if m = n then new - old else 0))"
proof (rule update_spec)
  show "ranked (\<lambda>c. card {q. (q, c) \<in> (parents st)\<^sup>+}) st"
    using assms(1) by (intro acyclic_ranked) (auto dest: stats_wf_simps finite_parents)
qed (use assms in \<open>auto dest: stats_wf_simps\<close>)

lemma update_if_ok:
  assumes wf: "stats_wf st"
  obtains st' where "update_if p old new st = Some st'" "same_shape st st'"
    "\<And>c. (\<And>n. p = Some n \<Longrightarrow> (c, n) \<notin> (parents st)\<^sup>*) \<Longrightarrow> folder_nodes st' c = folder_nodes st c"
    "\<And>m. live st m \<Longrightarrow> defect st' m = defect st m + (if p = Some m then new - old else 0)"
proof (cases "lock st p")
  case None
  then have "p \<noteq> Some m" if "live st m" for m
    using that by (auto simp: lock_def)
  with None show ?thesis by (intro that [of st]) (auto simp: update_if_def)
next
  case (Some n)
  then have p: "p = Some n" and "live st n" by (auto simp: lock_Some_iff)
  with wf have "n < next_folder st" by (auto dest: stats_wf_simps)
  from update_ok [OF wf this, of old new] p Some show ?thesis
    by (auto simp: update_if_def intro: that)
qed

text \<open>
  The common end of every operation: a change that put the defect of the (old or new) parent
  off by the difference is repaired by the update that follows.
\<close>

lemma update_if_repairs:
  assumes wf: "stats_wf st"
    and def: "\<And>m. live st m \<Longrightarrow> defect st m = (if p = Some m then old - new else 0)"
  obtains st' where "update_if p old new st = Some st'" "same_shape st st'" "stats_ok st'"
proof -
  obtain st' where st': "update_if p old new st = Some st'" "same_shape st st'"
    "\<And>m. live st m \<Longrightarrow> defect st' m = defect st m + (if p = Some m then new - old else 0)"
    using update_if_ok [OF wf] by metis
  moreover have "balanced st'"
    using st'(3) def same_shape_live [OF st'(2)] by (auto simp: balanced_def)
  ultimately show ?thesis
    using that wf by (simp add: stats_ok_def same_shape_wf)
qed

subsubsection \<open>Files\<close>

definition with_file :: "nat \<Rightarrow> file_stat \<Rightarrow> stats \<Rightarrow> stats" where
  "with_file f nd st = st\<lparr>file_nodes := (file_nodes st)(f := nd)\<rparr>"

lemma with_file_simps [simp]:
  "folder_nodes (with_file f nd st) = folder_nodes st"
  "file_nodes (with_file f nd st) = (file_nodes st)(f := nd)"
  "next_folder (with_file f nd st) = next_folder st"
  "next_file (with_file f nd st) = next_file st"
  "owners (with_file f nd st) = owners st"
  "live (with_file f nd st) = live st"
  "parents (with_file f nd st) = parents st"
  "folder_kids (with_file f nd st) = folder_kids st"
  "folder_total (with_file f nd st) = folder_total st"
  by (simp_all add: with_file_def live_def parents_def folder_kids_def folder_total_def fun_eq_iff)

lemma stats_wf_with_file:
  "stats_wf st \<Longrightarrow> f < next_file st \<Longrightarrow> (\<And>p. fi_parent nd = Some p \<Longrightarrow> p < next_folder st) \<Longrightarrow>
     stats_wf (with_file f nd st)"
  by (simp add: stats_wf_def)

text \<open>The defect after a file node is replaced: the parent it leaves and the one it joins.\<close>

lemma defect_with_file:
  assumes "f < next_file st"
  shows "defect (with_file f nd st) m =
    defect st m + (if fi_parent (file_nodes st f) = Some m then fi_blocks (file_nodes st f) else 0)
      - (if fi_parent nd = Some m then fi_blocks nd else 0)"
proof -
  let ?st' = "with_file f nd st"
  define w where "w nd = (if fi_parent nd = Some m then fi_blocks nd else 0)" for nd :: file_stat
  have kids: "(\<Sum>g\<in>file_kids s m. fi_blocks (file_nodes s g)) = (\<Sum>g<next_file s. w (file_nodes s g))" for s
    unfolding w_def by (simp add: file_kids_def sum.inter_filter [symmetric] lessThan_def)
  have "(\<Sum>g<next_file st. w (file_nodes ?st' g)) =
      (\<Sum>g<next_file st. w (file_nodes st g)) +
      (if f \<in> {..<next_file st} then w (file_nodes ?st' f) - w (file_nodes st f) else 0)"
    by (rule sum_shift) auto
  with assms have "below ?st' m = below st m + (w nd - w (file_nodes st f))"
    unfolding below_def kids by simp
  then show ?thesis by (simp add: defect_def w_def)
qed

lemma file_set_blocks_ok:
  assumes ok: "stats_ok st" and f: "f < next_file st"
  shows "\<exists>st'. file_set_blocks f b st = Some st' \<and> stats_ok st' \<and>
    same_shape (with_file f ((file_nodes st f)\<lparr>fi_blocks := b\<rparr>) st) st'"
proof -
  let ?nd = "(file_nodes st f)\<lparr>fi_blocks := b\<rparr>"
  have "stats_wf (with_file f ?nd st)"
    using ok f by (intro stats_wf_with_file) (auto dest: stats_okD stats_wf_simps)
  moreover have "defect (with_file f ?nd st) m =
      (if fi_parent (file_nodes st f) = Some m then fi_blocks (file_nodes st f) - b else 0)"
    if "live st m" for m
    using that ok by (simp add: defect_with_file [OF f] stats_okD)
  ultimately obtain st' where
    "update_if (fi_parent (file_nodes st f)) (fi_blocks (file_nodes st f)) b (with_file f ?nd st) = Some st'"
    "same_shape (with_file f ?nd st) st'" "stats_ok st'"
    using update_if_repairs [of "with_file f ?nd st" "fi_parent (file_nodes st f)"]
    by (metis with_file_simps(6))
  then show ?thesis by (simp add: file_set_blocks_def with_file_def)
qed

lemma file_setParent_ok:
  assumes ok: "stats_ok st" and f: "f < next_file st"
    and p: "\<And>n. p = Some n \<Longrightarrow> n < next_folder st"
  shows "\<exists>st'. file_setParent f p st = Some st' \<and> stats_ok st' \<and>
    same_shape (with_file f ((file_nodes st f)\<lparr>fi_parent := p\<rparr>) st) st'"
proof -
  let ?q = "fi_parent (file_nodes st f)" and ?b = "fi_blocks (file_nodes st f)"
  obtain st1 where st1: "update_if ?q ?b 0 st = Some st1" "same_shape st st1"
    and d1: "\<And>m. live st m \<Longrightarrow> defect st1 m = defect st m + (if ?q = Some m then 0 - ?b else 0)"
    using update_if_ok [OF stats_okD(1) [OF ok]] by metis
  have fn: "file_nodes st1 = file_nodes st" and nf: "next_file st1 = next_file st"
    "next_folder st1 = next_folder st"
    using st1(2) by (simp_all add: same_shape_def)
  let ?nd = "(file_nodes st f)\<lparr>fi_parent := p\<rparr>"
  let ?st2 = "with_file f ?nd st1"
  have wf1: "stats_wf st1" using ok st1(2) by (simp add: same_shape_wf stats_okD)
  have "stats_wf ?st2" using wf1 f p nf by (intro stats_wf_with_file) auto
  moreover have "defect ?st2 m = (if p = Some m then 0 - ?b else 0)" if "live ?st2 m" for m
  proof -
    have "live st m" using that same_shape_live [OF st1(2)] by simp
    then show ?thesis
      using d1 [of m] ok f nf fn by (simp add: defect_with_file stats_okD)
  qed
  ultimately obtain st' where st': "update_if p 0 ?b ?st2 = Some st'" "same_shape ?st2 st'" "stats_ok st'"
    using update_if_repairs [of ?st2 p 0 ?b] by metis
  have "file_setParent f p st = Some st'"
    using st1(1) st'(1) by (simp add: file_setParent_def with_file_def fn)
  moreover have "same_shape (with_file f ?nd st) ?st2"
    using st1(2) by (simp add: same_shape_def)
  ultimately show ?thesis using st'(2,3) same_shape_trans by blast
qed

subsubsection \<open>Folders\<close>

definition with_folder :: "nat \<Rightarrow> folder_stat \<Rightarrow> stats \<Rightarrow> stats" where
  "with_folder c nd st = st\<lparr>folder_nodes := (folder_nodes st)(c := nd)\<rparr>"

lemma with_folder_simps [simp]:
  "folder_nodes (with_folder c nd st) = (folder_nodes st)(c := nd)"
  "file_nodes (with_folder c nd st) = file_nodes st"
  "next_folder (with_folder c nd st) = next_folder st"
  "next_file (with_folder c nd st) = next_file st"
  "owners (with_folder c nd st) = owners st"
  "live (with_folder c nd st) = live st"
  "file_kids (with_folder c nd st) = file_kids st"
  by (simp_all add: with_folder_def live_def file_kids_def fun_eq_iff)

lemma parents_with_folder:
  "parents (with_folder c nd st) \<subseteq>
     (case fo_parent nd of None \<Rightarrow> parents st | Some p \<Rightarrow> insert (p, c) (parents st))"
  by (auto simp: parents_def split: option.splits if_splits)

lemma stats_wf_with_folder:
  assumes wf: "stats_wf st" and c: "c < next_folder st"
    and p: "\<And>p. fo_parent nd = Some p \<Longrightarrow> p < next_folder st \<and> (c, p) \<notin> (parents st)\<^sup>*"
  shows "stats_wf (with_folder c nd st)"
proof -
  have "acyclic (parents (with_folder c nd st))"
  proof (rule acyclic_subset [OF _ parents_with_folder])
    show "acyclic (case fo_parent nd of None \<Rightarrow> parents st | Some p \<Rightarrow> insert (p, c) (parents st))"
      using wf p by (auto simp: acyclic_insert stats_wf_simps split: option.splits)
  qed
  then show ?thesis using wf c p by (auto simp: stats_wf_def)
qed

lemma defect_with_folder:
  assumes "c < next_folder st" and "fo_childrenBlocks nd = fo_childrenBlocks (folder_nodes st c)"
  shows "defect (with_folder c nd st) m =
    defect st m + (if fo_parent (folder_nodes st c) = Some m then folder_total st c else 0)
      - (if fo_parent nd = Some m then totalBlocks nd else 0)"
proof -
  let ?st' = "with_folder c nd st"
  define w where "w nd = (if fo_parent nd = Some m then totalBlocks nd else 0)" for nd :: folder_stat
  have kids: "(\<Sum>g\<in>folder_kids s m. folder_total s g) = (\<Sum>g<next_folder s. w (folder_nodes s g))" for s
    unfolding w_def folder_total_def
    by (simp add: folder_kids_def sum.inter_filter [symmetric] lessThan_def)
  have "(\<Sum>g<next_folder st. w (folder_nodes ?st' g)) =
      (\<Sum>g<next_folder st. w (folder_nodes st g)) +
      (if c \<in> {..<next_folder st} then w (folder_nodes ?st' c) - w (folder_nodes st c) else 0)"
    by (rule sum_shift) auto
  with assms have "below ?st' m = below st m + (w nd - w (folder_nodes st c))"
    unfolding below_def kids by simp
  with assms(2) show ?thesis by (simp add: defect_def w_def folder_total_def)
qed

lemma stats_wf_not_own_ancestor:
  "stats_wf st \<Longrightarrow> fo_parent (folder_nodes st c) = Some p \<Longrightarrow> (c, p) \<notin> (parents st)\<^sup>*"
proof
  assume wf: "stats_wf st" and p: "fo_parent (folder_nodes st c) = Some p"
    and cp: "(c, p) \<in> (parents st)\<^sup>*"
  have "(p, c) \<in> parents st" using p by (simp add: parents_def)
  with cp have "(c, c) \<in> (parents st)\<^sup>+" by (rule rtrancl_into_trancl1)
  with wf show False by (auto simp: acyclic_def dest: stats_wf_simps(6))
qed

lemma folder_set_blocks_ok:
  assumes ok: "stats_ok st" and c: "c < next_folder st"
  shows "\<exists>st'. folder_set_blocks c b st = Some st' \<and> stats_ok st' \<and>
    same_shape (with_folder c ((folder_nodes st c)\<lparr>fo_blocks := b\<rparr>) st) st'"
proof -
  let ?nd = "(folder_nodes st c)\<lparr>fo_blocks := b\<rparr>" and ?p = "fo_parent (folder_nodes st c)"
  let ?st2 = "with_folder c ?nd st"
  have wf: "stats_wf st" using ok by (rule stats_okD)
  have "stats_wf ?st2"
    using wf c by (intro stats_wf_with_folder)
      (auto dest: stats_wf_simps stats_wf_not_own_ancestor)
  moreover have "defect ?st2 m = (if ?p = Some m then folder_total st c - folder_total ?st2 c else 0)"
    if "live ?st2 m" for m
    using that ok c by (simp add: defect_with_folder stats_okD folder_total_def)
  ultimately obtain st' where
    "update_if ?p (folder_total st c) (folder_total ?st2 c) ?st2 = Some st'"
    "same_shape ?st2 st'" "stats_ok st'"
    using update_if_repairs [of ?st2 ?p] by metis
  then show ?thesis by (simp add: folder_set_blocks_def with_folder_def)
qed

lemma folder_setParent_ok:
  assumes ok: "stats_ok st" and c: "c < next_folder st"
    and p: "\<And>n. p = Some n \<Longrightarrow> n < next_folder st \<and> (c, n) \<notin> (parents st)\<^sup>*"
  shows "\<exists>st'. folder_setParent c p st = Some st' \<and> stats_ok st' \<and>
    same_shape (with_folder c ((folder_nodes st c)\<lparr>fo_parent := p\<rparr>) st) st'"
proof -
  let ?q = "fo_parent (folder_nodes st c)" and ?t = "folder_total st c"
  have wf: "stats_wf st" using ok by (rule stats_okD)
  obtain st1 where st1: "update_if ?q ?t 0 st = Some st1" "same_shape st st1"
    and fr: "\<And>d. (\<And>n. ?q = Some n \<Longrightarrow> (d, n) \<notin> (parents st)\<^sup>*) \<Longrightarrow> folder_nodes st1 d = folder_nodes st d"
    and d1: "\<And>m. live st m \<Longrightarrow> defect st1 m = defect st m + (if ?q = Some m then 0 - ?t else 0)"
    using update_if_ok [OF wf] by metis
  have cn: "folder_nodes st1 c = folder_nodes st c"
    using fr [of c] stats_wf_not_own_ancestor [OF wf] by blast
  let ?nd = "(folder_nodes st c)\<lparr>fo_parent := p\<rparr>"
  let ?st2 = "with_folder c ?nd st1"
  have c1: "c < next_folder st1" and nf: "next_folder st1 = next_folder st"
    using st1(2) c by (simp_all add: same_shape_def)
  have "stats_wf ?st2"
  proof (rule stats_wf_with_folder [OF _ c1])
    show "stats_wf st1" using wf st1(2) by (simp add: same_shape_wf)
    show "q < next_folder st1 \<and> (c, q) \<notin> (parents st1)\<^sup>*" if "fo_parent ?nd = Some q" for q
      using that p same_shape_parents [OF st1(2)] nf by simp
  qed
  moreover have "defect ?st2 m = (if p = Some m then 0 - folder_total ?st2 c else 0)" if "live ?st2 m" for m
  proof -
    have "live st m" using that same_shape_live [OF st1(2)] by simp
    then show ?thesis
      using d1 [of m] ok c1 cn
      by (simp add: defect_with_folder stats_okD folder_total_def totalBlocks_def)
  qed
  ultimately obtain st' where st': "update_if p 0 (folder_total ?st2 c) ?st2 = Some st'"
    "same_shape ?st2 st'" "stats_ok st'"
    using update_if_repairs [of ?st2 p 0 "folder_total ?st2 c"] by metis
  have "folder_setParent c p st = Some st'"
    using st1(1) st'(1) by (simp add: folder_setParent_def with_folder_def cn)
  moreover have "same_shape (with_folder c ?nd st) ?st2"
    using st1(2) by (simp add: same_shape_def)
  ultimately show ?thesis using st'(2,3) same_shape_trans by blast
qed

subsubsection \<open>Allocation and use counts\<close>

lemma below_fresh: "stats_wf st \<Longrightarrow> next_folder st \<le> n \<Longrightarrow> below st n = 0"
proof -
  assume wf: "stats_wf st" and n: "next_folder st \<le> n"
  have "folder_kids st n = {}" "file_kids st n = {}"
    using n stats_wf_simps(2) [OF wf] stats_wf_simps(4) [OF wf]
    by (force simp: folder_kids_def file_kids_def)+
  then show ?thesis by (simp add: below_def)
qed

lemma new_folder_node_ok:
  assumes ok: "stats_ok st"
  shows "stats_ok (snd (new_folder_node st))"
proof -
  let ?n = "next_folder st" and ?st' = "snd (new_folder_node st)"
  have wf: "stats_wf st" using ok by (rule stats_okD)
  have nopar: "fo_parent (folder_nodes st ?n) = None"
    using stats_wf_simps(1) [OF wf, of ?n] by (cases "fo_parent (folder_nodes st ?n)") auto
  have par: "fo_parent (folder_nodes ?st' c) = fo_parent (folder_nodes st c)" for c
    using nopar by (simp add: new_folder_node_def)
  have kids: "folder_kids ?st' m = folder_kids st m" "file_kids ?st' m = file_kids st m" for m
    using par nopar stats_wf_simps(1) [OF wf]
    by (auto simp: folder_kids_def file_kids_def new_folder_node_def less_Suc_eq)
  have lower: "c \<in> folder_kids st m \<Longrightarrow> folder_total ?st' c = folder_total st c" for c m
    by (auto simp: folder_kids_def folder_total_def new_folder_node_def)
  have "below ?st' m = below st m" for m
    unfolding below_def kids by (simp add: lower) (simp add: new_folder_node_def)
  moreover have "live ?st' m \<longleftrightarrow> m = ?n \<or> live st m" for m
    by (simp add: live_def new_folder_node_def)
  ultimately have "balanced ?st'"
    using ok below_fresh [OF wf, of ?n]
    by (auto simp: balanced_def defect_def new_folder_node_def stats_ok_def)
  moreover have "stats_wf ?st'"
  proof -
    have "parents ?st' = parents st" using par by (simp add: parents_def)
    then show ?thesis
      using wf par by (auto simp: stats_wf_def live_def new_folder_node_def less_Suc_eq
        split: if_splits)
  qed
  ultimately show ?thesis by (simp add: stats_ok_def)
qed

lemma new_file_node_ok:
  assumes ok: "stats_ok st"
  shows "stats_ok (snd (new_file_node st))"
proof -
  let ?n = "next_file st" and ?st' = "snd (new_file_node st)"
  have wf: "stats_wf st" using ok by (rule stats_okD)
  have nopar: "fi_parent (file_nodes st ?n) = None"
    using stats_wf_simps(3) [OF wf, of ?n] by (cases "fi_parent (file_nodes st ?n)") auto
  have kids: "folder_kids ?st' m = folder_kids st m" "file_kids ?st' m = file_kids st m" for m
    using nopar by (auto simp: folder_kids_def file_kids_def new_file_node_def less_Suc_eq)
  have lower: "f \<in> file_kids st m \<Longrightarrow> fi_blocks (file_nodes ?st' f) = fi_blocks (file_nodes st f)" for f m
    by (auto simp: file_kids_def new_file_node_def)
  have "folder_total ?st' = folder_total st"
    by (simp add: folder_total_def new_file_node_def fun_eq_iff)
  then have "below ?st' m = below st m" for m
    unfolding below_def kids by (simp add: lower)
  then have "balanced ?st'"
    using ok by (simp add: balanced_def defect_def stats_ok_def live_def) (simp add: new_file_node_def)
  moreover have "stats_wf ?st'"
  proof -
    have "parents ?st' = parents st" by (simp add: parents_def new_file_node_def)
    then show ?thesis
      using wf by (auto simp: stats_wf_def live_def new_file_node_def less_Suc_eq split: if_splits)
  qed
  ultimately show ?thesis by (simp add: stats_ok_def)
qed

lemma owners_only_ok:
  assumes ok: "stats_ok st" and o': "\<And>n. 0 < f n \<Longrightarrow> 0 < owners st n"
  shows "stats_ok (st\<lparr>owners := f\<rparr>)"
proof -
  let ?st' = "st\<lparr>owners := f\<rparr>"
  have "defect ?st' = defect st"
    by (simp add: defect_def below_def folder_kids_def file_kids_def folder_total_def fun_eq_iff)
  moreover have "live ?st' m \<Longrightarrow> live st m" for m
    using o' by (simp add: live_def)
  moreover have "parents ?st' = parents st" by (simp add: parents_def)
  ultimately show ?thesis
    using ok by (auto simp: stats_ok_def stats_wf_def balanced_def)
qed

lemma retain_ok: "stats_ok st \<Longrightarrow> live st n \<Longrightarrow> stats_ok (retain n st)"
  unfolding retain_def by (rule owners_only_ok) (auto simp: live_def split: if_splits)

lemma release_ok: "stats_ok st \<Longrightarrow> stats_ok (release n st)"
  unfolding release_def by (rule owners_only_ok) (auto split: if_splits)

lemma stats_ok_empty: "stats_ok empty_stats"
  by (simp add: stats_ok_def stats_wf_def balanced_def live_def empty_stats_def parents_def acyclic_def)

subsection \<open>What a zero total means\<close>

text \<open>The counters are far from wrapping: no folder's total reaches \<open>2 ^ 64\<close>.\<close>

definition counters_fit :: "stats \<Rightarrow> bool" where
  "counters_fit st \<longleftrightarrow> (\<forall>n. live st n \<longrightarrow>
     unat (fo_blocks (folder_nodes st n)) + (\<Sum>c\<in>folder_kids st n. unat (folder_total st c)) +
     (\<Sum>f\<in>file_kids st n. unat (fi_blocks (file_nodes st f))) < 2 ^ 64)"

text \<open>The nodes reached from a folder node downwards through live folders.\<close>

inductive descends :: "stats \<Rightarrow> nat \<Rightarrow> nat \<Rightarrow> bool" for st n where
  self: "descends st n n"
| child: "descends st n p \<Longrightarrow> live st p \<Longrightarrow> c \<in> folder_kids st p \<Longrightarrow> descends st n c"

lemma unat_sum:
  fixes f :: "'a \<Rightarrow> 'b::len word"
  assumes "finite A"
  shows "unat (sum f A) = (\<Sum>x\<in>A. unat (f x)) mod 2 ^ LENGTH('b)"
  using assms by (induction A) (simp_all add: unat_word_ariths mod_simps)

lemma unat_folder_total:
  assumes "stats_ok st" and "counters_fit st" and "live st n"
  shows "unat (folder_total st n) =
     unat (fo_blocks (folder_nodes st n)) + (\<Sum>c\<in>folder_kids st n. unat (folder_total st c)) +
     (\<Sum>f\<in>file_kids st n. unat (fi_blocks (file_nodes st f)))"
proof -
  have "folder_total st n = fo_blocks (folder_nodes st n) + below st n"
    using stats_okD(2) [OF assms(1,3)] by (simp add: defect_def folder_total_def totalBlocks_def)
  then have "unat (folder_total st n) =
    (unat (fo_blocks (folder_nodes st n)) + (\<Sum>c\<in>folder_kids st n. unat (folder_total st c)) +
     (\<Sum>f\<in>file_kids st n. unat (fi_blocks (file_nodes st f)))) mod 2 ^ 64"
    by (simp add: below_def unat_word_ariths unat_sum mod_simps add.assoc)
  then show ?thesis
    using assms(2,3) by (simp add: counters_fit_def)
qed

lemma descends_zero:
  assumes ok: "stats_ok st" and fit: "counters_fit st"
  shows "descends st n c \<Longrightarrow> folder_total st n = 0 \<Longrightarrow> folder_total st c = 0"
proof (induction rule: descends.induct)
  case (child p c)
  then have "(\<Sum>c\<in>folder_kids st p. unat (folder_total st c)) = 0"
    using unat_folder_total [OF ok fit child.hyps(2)] by simp
  with child.hyps(3) show ?case by (simp add: unat_eq_0)
qed

end
