(* ===== verification/Fs_Tree.thy ===== *)
theory Fs_Tree
  imports Std_Map Fs_Path Fs_Statistics
begin

section \<open>The file-system tree of a drive\<close>

text \<open>
  Model of \<^verbatim>\<open>include/drive/FsTree.h\<close> and \<^verbatim>\<open>src/drive/FsTree.cpp\<close>: files, folders and the
  operations of \<^verbatim>\<open>Folder\<close> and \<^verbatim>\<open>FsTree\<close>.  A folder is its own fields together with its
  children, a \<^verbatim>\<open>std::map\<close> from names to \<^verbatim>\<open>std::variant<Folder, File>\<close>.  A pointer to a
  folder inside the tree is the list of names that leads to it; statistics nodes are
  addresses of the store of theory \<open>Fs_Statistics\<close>, which the operations thread through.
\<close>

record fs_file =
  fl_name :: string
  fl_hash :: hash256
  fl_size :: u64
  fl_modificationIndex :: int
  fl_isModifiable :: bool
  fl_stat :: nat

record folder_attrs =
  fd_name :: string
  fd_isaStream :: bool
  fd_streamId :: hash256
  fd_modificationIndex :: int
  fd_stat :: nat

datatype child = CFolder folder_attrs "(string \<times> child) list" | CFile fs_file

type_synonym children = "(string, child) std_map"
type_synonym folder = "folder_attrs \<times> children"

fun isFolder :: "child \<Rightarrow> bool" where
  "isFolder (CFolder a cs) = True"
| "isFolder (CFile f) = False"

definition isFile :: "child \<Rightarrow> bool" where
  "isFile c \<longleftrightarrow> \<not> isFolder c"

definition as_child :: "folder \<Rightarrow> child" where
  "as_child d = CFolder (fst d) (snd d)"

text \<open>The constructors \<^verbatim>\<open>Folder(name)\<close> and \<^verbatim>\<open>File(name, hash, size, modifiable)\<close>.\<close>

definition mk_folder :: "string \<Rightarrow> nat \<Rightarrow> folder" where
  "mk_folder n i =
     (\<lparr>fd_name = n, fd_isaStream = False, fd_streamId = 0, fd_modificationIndex = -1, fd_stat = i\<rparr>, [])"

definition mk_file :: "string \<Rightarrow> hash256 \<Rightarrow> u64 \<Rightarrow> bool \<Rightarrow> nat \<Rightarrow> fs_file" where
  "mk_file n h s md i =
     \<lparr>fl_name = n, fl_hash = h, fl_size = s, fl_modificationIndex = -1, fl_isModifiable = md, fl_stat = i\<rparr>"

fun child_name :: "child \<Rightarrow> string" where
  "child_name (CFolder a cs) = fd_name a"
| "child_name (CFile f) = fl_name f"

fun rename_child :: "string \<Rightarrow> child \<Rightarrow> child" where
  "rename_child n (CFolder a cs) = CFolder (a\<lparr>fd_name := n\<rparr>) cs"
| "rename_child n (CFile f) = CFile (f\<lparr>fl_name := n\<rparr>)"

fun emitted_hash :: "child \<Rightarrow> hash256 list" where
  "emitted_hash (CFolder a cs) = []"
| "emitted_hash (CFile f) = [fl_hash f]"

text \<open>\<^verbatim>\<open>operator<\<close> on children: folders first, then by name.\<close>

fun child_less :: "child \<Rightarrow> child \<Rightarrow> bool" where
  "child_less (CFolder a cs) (CFolder b ds) = (fd_name a < fd_name b)"
| "child_less (CFolder a cs) (CFile g) = True"
| "child_less (CFile f) (CFolder b ds) = False"
| "child_less (CFile f) (CFile g) = (fl_name f < fl_name g)"

subsection \<open>Folder: queries and traversals\<close>

definition findChild :: "string \<Rightarrow> folder \<Rightarrow> child option" where
  "findChild n d = map_find n (snd d)"

text \<open>\<^verbatim>\<open>getSubfolderOrCreate\<close>: the subfolder and the changed folder; a file in its place throws.\<close>

definition getSubfolderOrCreate :: "string \<Rightarrow> folder \<Rightarrow> stats \<Rightarrow> (folder \<times> folder \<times> stats) outcome" where
  "getSubfolderOrCreate n d st =
     (case map_find n (snd d) of
        None \<Rightarrow> (let (i, st') = new_folder_node st; s = mk_folder n i
                 in Inr (s, (fst d, map_put n (as_child s) (snd d)), st'))
      | Some (CFolder a cs) \<Rightarrow> Inr ((a, cs), d, st)
      | Some (CFile f) \<Rightarrow>
          Inl (Exception (''attempt to create a folder with existing file name: '' @ n)))"

text \<open>
  \<^verbatim>\<open>iterate(func)\<close> visits the files in order and stops at the first for which \<^verbatim>\<open>func\<close> holds;
  the result is that file, if any.
\<close>

fun iterate_children :: "(fs_file \<Rightarrow> bool) \<Rightarrow> (string \<times> child) list \<Rightarrow> fs_file option" where
  "iterate_children P [] = None"
| "iterate_children P ((n, CFolder a cs) # es) =
     (case iterate_children P cs of Some f \<Rightarrow> Some f | None \<Rightarrow> iterate_children P es)"
| "iterate_children P ((n, CFile f) # es) =
     (if P f then Some f else iterate_children P es)"

definition iterate :: "(fs_file \<Rightarrow> bool) \<Rightarrow> folder \<Rightarrow> fs_file option" where
  "iterate P d = iterate_children P (snd d)"

fun mapFiles_children :: "(fs_file \<Rightarrow> fs_file) \<Rightarrow> (string \<times> child) list \<Rightarrow> (string \<times> child) list" where
  "mapFiles_children g [] = []"
| "mapFiles_children g ((n, CFolder a cs) # es) =
     (n, CFolder a (mapFiles_children g cs)) # mapFiles_children g es"
| "mapFiles_children g ((n, CFile f) # es) = (n, CFile (g f)) # mapFiles_children g es"

definition mapFiles :: "(fs_file \<Rightarrow> fs_file) \<Rightarrow> folder \<Rightarrow> folder" where
  "mapFiles g d = (fst d, mapFiles_children g (snd d))"

text \<open>\<^verbatim>\<open>iterateAllFolders(func)\<close>: the folders in the order \<^verbatim>\<open>func\<close> receives them.\<close>

fun folders_below :: "(string \<times> child) list \<Rightarrow> folder list" where
  "folders_below [] = []"
| "folders_below ((n, CFolder a cs) # es) = (a, cs) # folders_below cs @ folders_below es"
| "folders_below ((n, CFile f) # es) = folders_below es"

text \<open>
  \<^verbatim>\<open>findStreamFolder\<close>: the recursive call on a subfolder is made, and its result dropped.
\<close>

fun findStreamFolder_children :: "hash256 \<Rightarrow> (string \<times> child) list \<Rightarrow> folder option" where
  "findStreamFolder_children i [] = None"
| "findStreamFolder_children i ((n, CFolder a cs) # es) =
     (if fd_isaStream a \<and> fd_streamId a = i then Some (a, cs)
      else findStreamFolder_children i es)"
| "findStreamFolder_children i ((n, CFile f) # es) = findStreamFolder_children i es"

definition findStreamFolder :: "hash256 \<Rightarrow> folder \<Rightarrow> folder option" where
  "findStreamFolder i d = findStreamFolder_children i (snd d)"

fun files_below :: "(string \<times> child) list \<Rightarrow> fs_file list" where
  "files_below [] = []"
| "files_below ((n, CFolder a cs) # es) = files_below cs @ files_below es"
| "files_below ((n, CFile f) # es) = f # files_below es"

text \<open>\<^verbatim>\<open>getUniqueFiles(files)\<close> inserts the hash of every file into the set.\<close>

fun getUniqueFiles_children :: "(string \<times> child) list \<Rightarrow> hash256 set \<Rightarrow> hash256 set" where
  "getUniqueFiles_children [] hs = hs"
| "getUniqueFiles_children ((n, CFolder a cs) # es) hs =
     getUniqueFiles_children es (getUniqueFiles_children cs hs)"
| "getUniqueFiles_children ((n, CFile f) # es) hs =
     getUniqueFiles_children es (insert (fl_hash f) hs)"

definition getUniqueFiles :: "folder \<Rightarrow> hash256 set \<Rightarrow> hash256 set" where
  "getUniqueFiles d hs = getUniqueFiles_children (snd d) hs"

text \<open>
  \<^verbatim>\<open>getSizes\<close> and \<^verbatim>\<open>evaluateSizes\<close> read the sizes of the stored files; \<open>dsize\<close> and
  \<open>tsize\<close> give the size of the file named by a hash in the drive and in the torrent
  folder, \<open>None\<close> where \<^verbatim>\<open>fs::file_size\<close> throws.
\<close>

fun getSizes_children ::
  "(hash256 \<Rightarrow> u64 option) \<Rightarrow> (hash256 \<Rightarrow> u64 option) \<Rightarrow> (string \<times> child) list \<Rightarrow> u64 \<times> u64 \<Rightarrow>
   (u64 \<times> u64) outcome" where
  "getSizes_children dsize tsize [] acc = Inr acc"
| "getSizes_children dsize tsize ((n, CFolder a cs) # es) acc =
     bind_outcome (getSizes_children dsize tsize cs acc) (getSizes_children dsize tsize es)"
| "getSizes_children dsize tsize ((n, CFile f) # es) acc =
     (if fl_isModifiable f then Inl AssertionFailure
      else case (tsize (fl_hash f), dsize (fl_hash f)) of
             (Some t, Some s) \<Rightarrow> getSizes_children dsize tsize es (fst acc + t, snd acc + s)
           | _ \<Rightarrow> Inl (Exception ''file_size''))"

definition getSizes ::
  "(hash256 \<Rightarrow> u64 option) \<Rightarrow> (hash256 \<Rightarrow> u64 option) \<Rightarrow> folder \<Rightarrow> u64 \<times> u64 \<Rightarrow> (u64 \<times> u64) outcome" where
  "getSizes dsize tsize d acc = getSizes_children dsize tsize (snd d) acc"

fun evaluateSizes_children ::
  "(hash256 \<Rightarrow> u64 option) \<Rightarrow> (hash256 \<Rightarrow> u64 option) \<Rightarrow> (string \<times> child) list \<Rightarrow> u64 \<Rightarrow> u64 outcome" where
  "evaluateSizes_children dsize tsize [] sz = Inr sz"
| "evaluateSizes_children dsize tsize ((n, CFolder a cs) # es) sz =
     bind_outcome (evaluateSizes_children dsize tsize cs 0) (\<lambda>s.
       evaluateSizes_children dsize tsize es (sz + s))"
| "evaluateSizes_children dsize tsize ((n, CFile f) # es) sz =
     (case dsize (fl_hash f) of
        None \<Rightarrow> Inl (Exception ''file_size'')
      | Some s \<Rightarrow>
          (let sz1 = sz + s
           in if \<not> fl_isModifiable f
              then (case tsize (fl_hash f) of
                      None \<Rightarrow> Inl (Exception ''file_size'')
                    | Some t \<Rightarrow> evaluateSizes_children dsize tsize es (sz1 + t))
              else evaluateSizes_children dsize tsize es
                     (sz1 + max ((sz1 + 19) div 20) 1024)))"

definition evaluateSizes ::
  "(hash256 \<Rightarrow> u64 option) \<Rightarrow> (hash256 \<Rightarrow> u64 option) \<Rightarrow> folder \<Rightarrow> u64 outcome" where
  "evaluateSizes dsize tsize d = evaluateSizes_children dsize tsize (snd d) 0"

subsection \<open>Statistics of a tree\<close>

text \<open>The folder nodes a child owns; destroying or copying it changes their use counts.\<close>

fun owned_nodes :: "(string \<times> child) list \<Rightarrow> nat list" where
  "owned_nodes [] = []"
| "owned_nodes ((n, CFolder a cs) # es) = fd_stat a # owned_nodes cs @ owned_nodes es"
| "owned_nodes ((n, CFile f) # es) = owned_nodes es"

definition release_child :: "child \<Rightarrow> stats \<Rightarrow> stats" where
  "release_child c st = fold release (owned_nodes [([], c)]) st"

definition copy_tree :: "folder \<Rightarrow> stats \<Rightarrow> stats" where
  "copy_tree d st = fold retain (owned_nodes [([], as_child d)]) st"

text \<open>\<^verbatim>\<open>resetStatistics\<close>: every entry below the folder gets a new node.\<close>

fun resetStatistics_children :: "(string \<times> child) list \<Rightarrow> stats \<Rightarrow> (string \<times> child) list \<times> stats" where
  "resetStatistics_children [] st = ([], st)"
| "resetStatistics_children ((n, CFolder a cs) # es) st =
     (let (i, st1) = new_folder_node (release (fd_stat a) st);
          (cs', st2) = resetStatistics_children cs st1;
          (es', st3) = resetStatistics_children es st2
      in ((n, CFolder (a\<lparr>fd_stat := i\<rparr>) cs') # es', st3))"
| "resetStatistics_children ((n, CFile f) # es) st =
     (let (i, st1) = new_file_node st;
          (es', st2) = resetStatistics_children es st1
      in ((n, CFile (f\<lparr>fl_stat := i\<rparr>)) # es', st2))"

definition resetStatistics :: "folder \<Rightarrow> stats \<Rightarrow> folder \<times> stats" where
  "resetStatistics d st =
     (let (cs, st') = resetStatistics_children (snd d) st in ((fst d, cs), st'))"

text \<open>
  \<^verbatim>\<open>initializeStatistics\<close>: each file's node points to the folder's, each subfolder is
  initialised first and then its node points to the folder's.
\<close>

fun initializeStatistics_children :: "nat \<Rightarrow> (string \<times> child) list \<Rightarrow> stats \<Rightarrow> stats option" where
  "initializeStatistics_children p [] st = Some st"
| "initializeStatistics_children p ((n, CFolder a cs) # es) st =
     Option.bind (initializeStatistics_children (fd_stat a) cs st) (\<lambda>st1.
       Option.bind (folder_setParent (fd_stat a) (Some p) st1) (\<lambda>st2.
         initializeStatistics_children p es st2))"
| "initializeStatistics_children p ((n, CFile f) # es) st =
     Option.bind (file_setParent (fl_stat f) (Some p) st) (\<lambda>st1.
       initializeStatistics_children p es st1)"

definition initializeStatistics :: "folder \<Rightarrow> stats \<Rightarrow> stats option" where
  "initializeStatistics d st = initializeStatistics_children (fd_stat (fst d)) (snd d) st"

subsection \<open>FsTree: walking and editing along a path\<close>

text \<open>
  \<^verbatim>\<open>getFolderPtr(path, false)\<close>: the folder the walk ends at, \<open>None\<close> for a null pointer.
\<close>

fun walk :: "string list \<Rightarrow> folder \<Rightarrow> folder option" where
  "walk [] d = Some d"
| "walk (n # ns) d =
     (case map_find n (snd d) of
        Some (CFolder a cs) \<Rightarrow> walk ns (a, cs)
      | _ \<Rightarrow> None)"

text \<open>
  \<^verbatim>\<open>getFolderPtr(path, true)\<close>: missing folders are created on the way, each with a new
  statistics node.  The flag is false when the walk meets a file (a null pointer).
\<close>

fun walk_create :: "string list \<Rightarrow> folder \<Rightarrow> stats \<Rightarrow> bool \<times> folder \<times> stats" where
  "walk_create [] d st = (True, d, st)"
| "walk_create (n # ns) d st =
     (case map_find n (snd d) of
        None \<Rightarrow>
          (let (i, st1) = new_folder_node st;
               (ok, d', st2) = walk_create ns (mk_folder n i) st1
           in (ok, (fst d, map_put n (as_child d') (snd d)), st2))
      | Some (CFolder a cs) \<Rightarrow>
          (let (ok, d', st2) = walk_create ns (a, cs) st
           in (ok, (fst d, map_put n (as_child d') (snd d)), st2))
      | Some (CFile f) \<Rightarrow> (False, d, st))"

definition getFolderPtr :: "string \<Rightarrow> folder \<Rightarrow> folder option" where
  "getFolderPtr path d = walk (path_elems path) d"

definition getFolderPtr_create :: "string \<Rightarrow> folder \<Rightarrow> stats \<Rightarrow> bool \<times> folder \<times> stats" where
  "getFolderPtr_create path d st = walk_create (path_elems path) d st"

text \<open>Assignment through a folder pointer.\<close>

fun edit :: "string list \<Rightarrow> (children \<Rightarrow> children) \<Rightarrow> folder \<Rightarrow> folder" where
  "edit [] g d = (fst d, g (snd d))"
| "edit (n # ns) g d =
     (case map_find n (snd d) of
        Some (CFolder a cs) \<Rightarrow> (fst d, map_put n (as_child (edit ns g (a, cs))) (snd d))
      | _ \<Rightarrow> d)"

definition stat_at :: "string list \<Rightarrow> folder \<Rightarrow> nat" where
  "stat_at ns d = (case walk ns d of None \<Rightarrow> fd_stat (fst d) | Some e \<Rightarrow> fd_stat (fst e))"

definition getEntryPtr :: "string \<Rightarrow> folder \<Rightarrow> child option" where
  "getEntryPtr path d =
     (case (if parent_path path \<noteq> [] then getFolderPtr (parent_path path) d else Some d) of
        None \<Rightarrow> None
      | Some e \<Rightarrow> findChild (filename path) e)"

text \<open>
  Replace the entry \<open>n\<close> of the folder at \<open>ns\<close> by a new child: an old entry is erased
  first, without touching its statistics parent.
\<close>

definition erase_old :: "string list \<Rightarrow> string \<Rightarrow> folder \<Rightarrow> stats \<Rightarrow> stats" where
  "erase_old ns n d st =
     (case walk ns d of
        None \<Rightarrow> st
      | Some e \<Rightarrow> (case findChild n e of None \<Rightarrow> st | Some c \<Rightarrow> release_child c st))"

definition addFile :: "string \<Rightarrow> string \<Rightarrow> hash256 \<Rightarrow> u64 \<Rightarrow> folder \<Rightarrow> stats \<Rightarrow> bool \<times> folder \<times> stats" where
  "addFile destPath fname h sz d st =
     (let (ok, d1, st1) = getFolderPtr_create destPath d st
      in if \<not> ok then (False, d1, st1)
         else let st2 = erase_old (path_elems destPath) fname d1 st1;
                  (i, st3) = new_file_node st2;
                  d2 = edit (path_elems destPath)
                         (\<lambda>cs. map_emplace fname (CFile (mk_file fname h sz False i))
                                (map_erase fname cs)) d1
              in (True, d2, st3))"

text \<open>
  \<^verbatim>\<open>addModifiableFile\<close>: the random temporary hash is an argument.
\<close>

definition addModifiableFile ::
  "hash256 \<Rightarrow> string \<Rightarrow> string \<Rightarrow> folder \<Rightarrow> stats \<Rightarrow> (hash256 option \<times> folder \<times> stats) outcome" where
  "addModifiableFile temporaryHash destPath fname d st =
     (let (ok, d1, st1) = getFolderPtr_create destPath d st
      in if \<not> ok then Inr (None, d1, st1)
         else let st2 = erase_old (path_elems destPath) fname d1 st1;
                  (i, st3) = new_file_node st2
              in bind_outcome
                   (of_option Diverges
                     (file_setParent i (Some (stat_at (path_elems destPath) d1)) st3))
                   (\<lambda>st4. Inr (Some temporaryHash,
                      edit (path_elems destPath)
                        (\<lambda>cs. map_emplace fname (CFile (mk_file fname temporaryHash 0 True i))
                               (map_erase fname cs)) d1, st4)))"

definition addFolder :: "string \<Rightarrow> folder \<Rightarrow> stats \<Rightarrow> (bool \<times> folder \<times> stats) outcome" where
  "addFolder folderPath d st =
     (let (ok, d1, st1) = getFolderPtr_create folderPath d st
      in if \<not> ok then Inr (False, d1, st1)
         else case getFolderPtr (parent_path folderPath) d1 of
                None \<Rightarrow> Inl NullDereference
              | Some parent \<Rightarrow>
                  if path_elems (parent_path folderPath) \<noteq> path_elems folderPath
                  then bind_outcome
                         (of_option Diverges
                           (folder_setParent (stat_at (path_elems folderPath) d1)
                              (Some (fd_stat (fst parent))) st1))
                         (\<lambda>st2. Inr (True, d1, st2))
                  else Inr (True, d1, st1))"

text \<open>Detaching or attaching a child's statistics node, whichever kind it is.\<close>

fun child_setParent :: "child \<Rightarrow> nat option \<Rightarrow> stats \<Rightarrow> stats option" where
  "child_setParent (CFolder a cs) p st = folder_setParent (fd_stat a) p st"
| "child_setParent (CFile f) p st = file_setParent (fl_stat f) p st"

text \<open>
  \<^verbatim>\<open>removeFlat\<close> and \<^verbatim>\<open>moveFlat\<close> return, beside the answer, the hashes handed to the
  callback \<^verbatim>\<open>addInfoHashToFileMapFunc\<close> in order.
\<close>

definition removeFlat ::
  "string \<Rightarrow> folder \<Rightarrow> stats \<Rightarrow> (bool \<times> folder \<times> stats \<times> hash256 list) outcome" where
  "removeFlat fullPath d st =
     (let ns = path_elems (parent_path fullPath); n = filename fullPath
      in case walk ns d of
           None \<Rightarrow> Inr (False, d, st, [])
         | Some e \<Rightarrow>
             (case findChild n e of
                None \<Rightarrow> Inr (False, d, st, [])
              | Some c \<Rightarrow>
                  bind_outcome (of_option Diverges (child_setParent c None st)) (\<lambda>st1.
                    Inr (True, edit ns (map_erase n) d, release_child c st1, emitted_hash c))))"

text \<open>
  The second half of \<^verbatim>\<open>moveFlat\<close>, from the line that moves the source child out of its
  slot, for the source entry \<open>sn\<close> in the folder \<open>sp\<close> and the destination entry \<open>dn\<close>
  in the folder \<open>dp\<close>, which exists.  Three shapes of aliasing: the destination folder lies
  inside the source folder (the moved child ends up owned only by itself, or by the slot that
  is then erased); the destination entry contains the source (its removal destroys the folder
  that \<^verbatim>\<open>srcParentFolder\<close> and \<^verbatim>\<open>srcIt\<close> point into, both used afterwards); or neither.
\<close>

definition move_entry ::
  "string list \<Rightarrow> string \<Rightarrow> string list \<Rightarrow> string \<Rightarrow> child \<Rightarrow> folder \<Rightarrow> stats \<Rightarrow> hash256 list \<Rightarrow>
   (bool \<times> folder \<times> stats \<times> hash256 list) outcome" where
  "move_entry sp sn dp dn c d st em =
     (if prefix (sp @ [sn]) dp then
        (if dp = sp @ [sn] then
           bind_outcome (of_option Diverges (child_setParent c None st)) (\<lambda>st1.
             Inr (True, edit sp (map_erase sn) d, release_child c st1, em))
         else
           let st0 = erase_old dp dn d st;
               em' = (case Option.bind (walk dp d) (findChild dn) of
                        None \<Rightarrow> em | Some o' \<Rightarrow> em @ emitted_hash o')
           in bind_outcome (of_option Diverges (child_setParent c (Some (stat_at dp d)) st0)) (\<lambda>st1.
                Inr (True, edit sp (map_erase sn) d, st1, em')))
      else if prefix (dp @ [dn]) (sp @ [sn]) then Inl UseAfterFree
      else
        let st0 = erase_old dp dn d st;
            em' = (case Option.bind (walk dp d) (findChild dn) of
                     None \<Rightarrow> em | Some o' \<Rightarrow> em @ emitted_hash o');
            d1 = edit dp (\<lambda>cs. map_emplace dn (rename_child dn c) (map_erase dn cs)) d
        in bind_outcome (of_option Diverges (child_setParent c (Some (stat_at dp d)) st0)) (\<lambda>st1.
             Inr (True, edit sp (map_erase sn) d1, st1, em')))"

definition moveFlat ::
  "string \<Rightarrow> string \<Rightarrow> folder \<Rightarrow> stats \<Rightarrow> (bool \<times> folder \<times> stats \<times> hash256 list) outcome" where
  "moveFlat srcPath destPath d st =
     (let sp = path_elems (parent_path srcPath); sn = filename srcPath;
          dp = path_elems (parent_path destPath); dn = filename destPath
      in case Option.bind (walk sp d) (findChild sn) of
           None \<Rightarrow> Inr (False, d, st, [])
         | Some c \<Rightarrow>
             if path_eq destPath srcPath then Inr (True, d, st, emitted_hash c)
             else
               bind_outcome
                 (case walk dp d of
                    Some _ \<Rightarrow> Inr (True, d, st)
                  | None \<Rightarrow> addFolder (parent_path destPath) d st)
                 (\<lambda>(ok, d1, st1).
                    if \<not> ok then Inr (False, d1, st1, emitted_hash c)
                    else case Option.bind (walk sp d1) (findChild sn) of
                           None \<Rightarrow> Inl UseAfterFree
                         | Some c1 \<Rightarrow> move_entry sp sn dp dn c1 d1 st1 (emitted_hash c)))"

text \<open>
  \<^verbatim>\<open>iterateBranch\<close>: the folders given to \<^verbatim>\<open>intermediateCall\<close> in order, the child given to
  \<^verbatim>\<open>lastCall\<close> (if it is called), and the answer.  The results of the calls are not used.
\<close>

fun branch :: "string list \<Rightarrow> folder \<Rightarrow> folder list \<times> folder option" where
  "branch [] d = ([], Some d)"
| "branch (n # ns) d =
     (case map_find n (snd d) of
        Some (CFolder a cs) \<Rightarrow>
          (let (visited, e) = branch ns (a, cs) in ((a, cs) # visited, e))
      | _ \<Rightarrow> ([], None))"

definition iterateBranch :: "string \<Rightarrow> folder \<Rightarrow> folder list \<times> child option \<times> bool" where
  "iterateBranch fullPath d =
     (if fullPath = [] then ([], Some (as_child d), True)
      else let (visited, e) = branch (path_elems (parent_path fullPath)) d
           in case e of
                None \<Rightarrow> (d # visited, None, False)
              | Some treeWalker \<Rightarrow>
                  (case findChild (filename fullPath) treeWalker of
                     None \<Rightarrow> (d # visited, None, False)
                   | Some c \<Rightarrow> (d # visited, Some c, True)))"

end
