(* ===== verification/Fs_Tree_Props.thy ===== *)
theory Fs_Tree_Props
  imports Fs_Tree
begin

section \<open>The file-system tree implements a flat name space\<close>

text \<open>
  What the tree promises its clients: it is a finite map from paths (lists of names) to
  entries.  \<open>view\<close> is that map; every editing operation is characterised by what it does
  to it.  The invariant \<open>tree_ok\<close> says that every children map is ordered and that each
  entry is stored under its own name.
\<close>

datatype entry = Dir bool hash256 | Reg hash256 u64 bool

fun kind :: "child \<Rightarrow> entry" where
  "kind (CFolder a cs) = Dir (fd_isaStream a) (fd_streamId a)"
| "kind (CFile f) = Reg (fl_hash f) (fl_size f) (fl_isModifiable f)"

fun look :: "string list \<Rightarrow> child \<Rightarrow> child option" where
  "look [] c = Some c"
| "look (n # ns) (CFolder a cs) = Option.bind (map_find n cs) (look ns)"
| "look (n # ns) (CFile f) = None"

definition subview :: "child \<Rightarrow> string list \<Rightarrow> entry option" where
  "subview c ms = map_option kind (look ms c)"

definition view :: "folder \<Rightarrow> string list \<Rightarrow> entry option" where
  "view d ms = subview (as_child d) ms"

fun entries_ok :: "(string \<times> child) list \<Rightarrow> bool" where
  "entries_ok [] = True"
| "entries_ok ((n, CFolder a cs) # es) =
     (fd_name a = n \<and> map_ok cs \<and> entries_ok cs \<and> entries_ok es)"
| "entries_ok ((n, CFile f) # es) = (fl_name f = n \<and> entries_ok es)"

definition tree_ok :: "folder \<Rightarrow> bool" where
  "tree_ok d \<longleftrightarrow> map_ok (snd d) \<and> entries_ok (snd d)"

fun child_ok :: "child \<Rightarrow> bool" where
  "child_ok (CFolder a cs) = tree_ok (a, cs)"
| "child_ok (CFile f) = True"

subsection \<open>Look-up along a path\<close>

lemma as_child_eq [simp]: "as_child d = as_child e \<longleftrightarrow> d = e"
  by (simp add: as_child_def prod_eq_iff)

lemma child_ok_as_child [simp]: "child_ok (as_child d) = tree_ok d"
  by (simp add: as_child_def)

lemma bind_look_Nil [simp]: "Option.bind x (look []) = x"
  by (cases x) simp_all

lemma entries_ok_iff:
  "entries_ok es \<longleftrightarrow> (\<forall>(n, c) \<in> set es. child_name c = n \<and> child_ok c)"
proof (induction es)
  case (Cons e es)
  then show ?case by (cases e; cases "snd e") (auto simp: tree_ok_def)
qed simp

lemma look_append: "look (ns @ ms) c = Option.bind (look ns c) (look ms)"
proof (induction ns arbitrary: c)
  case (Cons n ns)
  then show ?case by (cases c) (auto simp: Option.bind_assoc split: option.splits bind_splits)
qed simp

lemma walk_look: "walk ns d = Some e \<longleftrightarrow> look ns (as_child d) = Some (as_child e)"
proof (induction ns arbitrary: d)
  case (Cons n ns)
  then show ?case
    by (cases d) (auto simp: as_child_def split: option.splits child.splits bind_splits
        elim!: look.elims)
qed simp

lemma look_folder_walk: "look ns (as_child d) = Some (CFolder a cs) \<longleftrightarrow> walk ns d = Some (a, cs)"
  by (simp add: walk_look as_child_def)

lemma look_snoc:
  "look (ns @ [n]) (as_child d) = Option.bind (walk ns d) (findChild n)"
proof (cases "look ns (as_child d)")
  case None
  then have "walk ns d = None" using walk_look [of ns d] by (cases "walk ns d") auto
  with None show ?thesis by (simp add: look_append)
next
  case (Some c)
  show ?thesis
  proof (cases c)
    case (CFolder a cs)
    with Some have "walk ns d = Some (a, cs)" by (simp add: look_folder_walk)
    with Some CFolder show ?thesis by (simp add: look_append findChild_def)
  next
    case (CFile f)
    with Some have "walk ns d = None"
      using walk_look [of ns d] by (cases "walk ns d") (auto simp: as_child_def)
    with Some CFile show ?thesis by (simp add: look_append)
  qed
qed

lemma view_Nil [simp]: "view d [] = Some (Dir (fd_isaStream (fst d)) (fd_streamId (fst d)))"
  by (simp add: view_def subview_def as_child_def)

lemma view_Cons: "view d (n # ns) = Option.bind (map_find n (snd d)) (\<lambda>c. subview c ns)"
  by (simp add: view_def subview_def as_child_def map_option_bind) (simp add: comp_def)

lemma subview_Nil [simp]: "subview c [] = Some (kind c)"
  by (simp add: subview_def)

lemma subview_folder: "subview (CFolder a cs) ms = view (a, cs) ms"
  by (simp add: view_def as_child_def)

lemma subview_as_child: "subview (as_child d) = view d"
  by (simp add: view_def fun_eq_iff)

lemma subview_file [simp]: "subview (CFile f) (n # ns) = None"
  by (simp add: subview_def)

lemma subview_rename [simp]: "subview (rename_child n c) = subview c"
  by (cases c; rule ext; rename_tac ms; case_tac ms) (simp_all add: subview_def)

lemma view_walk: "walk ns d = Some e \<Longrightarrow> view d (ns @ ms) = view e ms"
  by (simp add: walk_look view_def subview_def look_append)

text \<open>The entry a path names: this is what \<^verbatim>\<open>getEntryPtr\<close> returns.\<close>

lemma getEntryPtr_look:
  "getEntryPtr path d = look (path_elems (parent_path path) @ [filename path]) (as_child d)"
  by (auto simp: getEntryPtr_def look_snoc getFolderPtr_def split: option.splits)

lemma branch_walk: "snd (branch ns d) = walk ns d"
  by (induction ns d rule: branch.induct) (auto split: option.splits child.splits prod.splits)

subsection \<open>Editing one folder\<close>

lemma view_edit_put:
  "walk ns d = Some e \<Longrightarrow>
   view (edit ns (map_put n c) d) ms =
     (if prefix (ns @ [n]) ms then subview c (drop (Suc (length ns)) ms) else view d ms)"
proof (induction ns arbitrary: d ms)
  case Nil
  then show ?case by (cases ms) (auto simp: view_Cons)
next
  case (Cons k ns)
  then obtain a cs where k: "map_find k (snd d) = Some (CFolder a cs)" and w: "walk ns (a, cs) = Some e"
    by (auto split: option.splits child.splits)
  show ?case
  proof (cases ms)
    case (Cons m ms')
    with k Cons.IH [OF w, of ms'] show ?thesis
      by (auto simp: view_Cons subview_as_child subview_folder)
  qed (use k in simp)
qed

lemma tree_ok_child: "tree_ok d \<Longrightarrow> map_find n (snd d) = Some c \<Longrightarrow> child_ok c \<and> child_name c = n"
  by (auto simp: tree_ok_def entries_ok_iff dest: map_find_in_set)

lemma tree_ok_walk: "tree_ok d \<Longrightarrow> walk ns d = Some e \<Longrightarrow> tree_ok e"
proof (induction ns arbitrary: d)
  case (Cons n ns)
  then obtain a cs where "map_find n (snd d) = Some (CFolder a cs)" "walk ns (a, cs) = Some e"
    by (auto split: option.splits child.splits)
  with Cons show ?case by (auto dest: tree_ok_child)
qed simp

lemma view_edit_erase:
  "tree_ok d \<Longrightarrow> walk ns d = Some e \<Longrightarrow>
   view (edit ns (map_erase n) d) ms = (if prefix (ns @ [n]) ms then None else view d ms)"
proof (induction ns arbitrary: d ms)
  case Nil
  then show ?case by (cases ms) (auto simp: view_Cons tree_ok_def map_find_erase)
next
  case (Cons k ns)
  then obtain a cs where k: "map_find k (snd d) = Some (CFolder a cs)" and w: "walk ns (a, cs) = Some e"
    by (auto split: option.splits child.splits)
  have "tree_ok (a, cs)" using tree_ok_child [OF Cons.prems(1) k] by simp
  note IH = Cons.IH [OF this w]
  show ?case
  proof (cases ms)
    case (Cons m ms')
    with k IH [of ms'] show ?thesis
      by (auto simp: view_Cons subview_as_child subview_folder)
  qed (use k in simp)
qed

lemma tree_ok_put:
  "tree_ok (a, cs) \<Longrightarrow> child_ok c \<Longrightarrow> child_name c = n \<Longrightarrow> tree_ok (a, map_put n c cs)"
  using set_put [of n c cs] by (auto simp: tree_ok_def entries_ok_iff)

lemma tree_ok_erase: "tree_ok (a, cs) \<Longrightarrow> tree_ok (a, map_erase n cs)"
  using set_erase [of n cs] by (auto simp: tree_ok_def entries_ok_iff)

lemma edit_fst [simp]: "fst (edit ns g d) = fst d"
  by (cases ns) (auto split: option.splits child.splits)

text \<open>An edit that keeps the children well-formed keeps the whole tree well-formed.\<close>

lemma tree_ok_edit:
  assumes "\<And>a cs. tree_ok (a, cs) \<Longrightarrow> tree_ok (a, g cs)"
  shows "tree_ok d \<Longrightarrow> tree_ok (edit ns g d)"
proof (induction ns arbitrary: d)
  case Nil
  then show ?case using assms by (cases d) auto
next
  case (Cons n ns)
  show ?case
  proof (cases "map_find n (snd d)")
    case None
    with Cons.prems show ?thesis by simp
  next
    case (Some c)
    show ?thesis
    proof (cases c)
      case (CFolder a cs)
      have c: "child_ok c" "child_name c = n" using tree_ok_child [OF Cons.prems Some] by auto
      then have "tree_ok (edit ns g (a, cs))" using Cons.IH CFolder by simp
      then have "child_ok (as_child (edit ns g (a, cs)))" by simp
      moreover have "child_name (as_child (edit ns g (a, cs))) = n"
        using c(2) CFolder by (simp add: as_child_def)
      ultimately show ?thesis
        using Some CFolder Cons.prems tree_ok_put [of "fst d" "snd d"] by simp
    next
      case (CFile f)
      with Some Cons.prems show ?thesis by simp
    qed
  qed
qed

lemma walk_view_dir: "(\<exists>e. walk ns d = Some e) \<longleftrightarrow> (\<exists>s i. view d ns = Some (Dir s i))"
proof
  assume "\<exists>e. walk ns d = Some e"
  then show "\<exists>s i. view d ns = Some (Dir s i)"
    by (auto simp: walk_look view_def subview_def as_child_def)
next
  assume "\<exists>s i. view d ns = Some (Dir s i)"
  then obtain c where "look ns (as_child d) = Some c" "isFolder c"
    by (auto simp: view_def subview_def elim: kind.elims)
  then show "\<exists>e. walk ns d = Some e"
    by (cases c) (auto simp: walk_look as_child_def)
qed

subsection \<open>The contract as an interface\<close>

text \<open>
  A name space: entries are put and deleted under a folder; a put replaces everything below
  the name by the new subtree, a deletion removes everything below it.  \<open>dir\<close> tells which
  paths are folders, where both may be applied.
\<close>

locale name_space =
  fixes ok :: "'t \<Rightarrow> bool"
    and vw :: "'t \<Rightarrow> 'n list \<Rightarrow> 'e option"
    and sub :: "'c \<Rightarrow> 'n list \<Rightarrow> 'e option"
    and dir :: "'n list \<Rightarrow> 't \<Rightarrow> bool"
    and put :: "'n list \<Rightarrow> 'n \<Rightarrow> 'c \<Rightarrow> 't \<Rightarrow> 't"
    and del :: "'n list \<Rightarrow> 'n \<Rightarrow> 't \<Rightarrow> 't"
    and fits :: "'n \<Rightarrow> 'c \<Rightarrow> bool"
  assumes ok_put: "ok t \<Longrightarrow> fits n c \<Longrightarrow> ok (put ns n c t)"
    and ok_del: "ok t \<Longrightarrow> ok (del ns n t)"
    and view_put: "ok t \<Longrightarrow> dir ns t \<Longrightarrow> vw (put ns n c t) ms =
          (if prefix (ns @ [n]) ms then sub c (drop (Suc (length ns)) ms) else vw t ms)"
    and view_del: "ok t \<Longrightarrow> dir ns t \<Longrightarrow> vw (del ns n t) ms =
          (if prefix (ns @ [n]) ms then None else vw t ms)"
    and dir_view: "ok t \<Longrightarrow> ok t' \<Longrightarrow> vw t ns = vw t' ns \<Longrightarrow> dir ns t = dir ns t'"
begin

lemma put_then_del:
  assumes "ok t" "fits n c" "dir ns t"
  shows "vw (del ns n (put ns n c t)) ms = (if prefix (ns @ [n]) ms then None else vw t ms)"
proof -
  have "\<not> prefix (ns @ [n]) ns" by (auto dest: prefix_length_le)
  then have "vw (put ns n c t) ns = vw t ns" using assms by (simp add: view_put)
  then have "dir ns (put ns n c t)" using assms dir_view ok_put by blast
  then show ?thesis using assms by (simp add: view_del ok_put view_put)
qed

text \<open>
  Renaming: deleting the source after putting its subtree at an unrelated destination moves
  every path below the source, and nothing else.
\<close>

lemma put_elsewhere_then_del:
  assumes t: "ok t" "fits dn c" "dir dp t" "dir sp t"
    and apart: "\<not> prefix (sp @ [sn]) dp" "\<not> prefix (dp @ [dn]) (sp @ [sn])"
  shows "vw (del sp sn (put dp dn c t)) ms =
    (if prefix (dp @ [dn]) ms then sub c (drop (Suc (length dp)) ms)
     else if prefix (sp @ [sn]) ms then None
     else vw t ms)"
proof -
  have "\<not> prefix (dp @ [dn]) sp"
    using apart(2) by (meson prefixI prefix_order.trans)
  then have "vw (put dp dn c t) sp = vw t sp" using t by (simp add: view_put)
  then have "dir sp (put dp dn c t)" using t dir_view ok_put by blast
  moreover have "\<not> prefix (sp @ [sn]) ms" if "prefix (dp @ [dn]) ms"
  proof
    assume "prefix (sp @ [sn]) ms"
    with that have "prefix (sp @ [sn]) (dp @ [dn]) \<or> prefix (dp @ [dn]) (sp @ [sn])"
      by (rule prefix_same_cases [rotated])
    then have "sp @ [sn] = dp @ [dn] \<or> prefix (sp @ [sn]) dp"
      using apart(2) by (auto simp: prefix_snoc)
    with apart show False by auto
  qed
  ultimately show ?thesis using t by (auto simp: view_del ok_put view_put)
qed

end

interpretation fs: name_space tree_ok view subview
  "\<lambda>ns d. walk ns d \<noteq> None" "\<lambda>ns n c. edit ns (map_put n c)" "\<lambda>ns n. edit ns (map_erase n)"
  "\<lambda>n c. child_ok c \<and> child_name c = n"
proof unfold_locales
  show "walk ns t \<noteq> None \<longleftrightarrow> walk ns t' \<noteq> None"
    if "view t ns = view t' ns" for t t' ns
    using walk_view_dir [of ns t] walk_view_dir [of ns t'] that by auto
qed (auto simp: view_edit_put view_edit_erase intro!: tree_ok_edit tree_ok_put tree_ok_erase)

subsection \<open>Creating the folders of a path\<close>

lemma tree_ok_mk_folder [simp]: "tree_ok (mk_folder n i)"
  by (simp add: tree_ok_def mk_folder_def)

lemma mk_folder_simps [simp]:
  "snd (mk_folder n i) = []" "fd_name (fst (mk_folder n i)) = n"
  "fd_isaStream (fst (mk_folder n i)) = False" "fd_streamId (fst (mk_folder n i)) = 0"
  "fd_stat (fst (mk_folder n i)) = i"
  by (simp_all add: mk_folder_def)

lemma walk_create_fst [simp]: "fst (fst (snd (walk_create ns d st))) = fst d"
  by (cases ns) (auto split: option.splits child.splits prod.splits)

lemma walk_create_tree_ok: "tree_ok d \<Longrightarrow> tree_ok (fst (snd (walk_create ns d st)))"
proof (induction ns d st rule: walk_create.induct)
  case (2 n ns d st)
  show ?case
  proof (cases "map_find n (snd d)")
    case None
    obtain i st1 where ist: "new_folder_node st = (i, st1)" by (cases "new_folder_node st")
    obtain ok d' st2 where w: "walk_create ns (mk_folder n i) st1 = (ok, d', st2)"
      by (cases "walk_create ns (mk_folder n i) st1")
    have "tree_ok d'" using "2.IH"(1) [OF None ist [symmetric]] w by simp
    moreover have "child_name (as_child d') = n"
      using walk_create_fst [of ns "mk_folder n i" st1] w by (simp add: as_child_def)
    ultimately show ?thesis
      using None ist w "2.prems" tree_ok_put [of "fst d" "snd d" "as_child d'" n] by simp
  next
    case (Some c)
    show ?thesis
    proof (cases c)
      case (CFolder a cs)
      obtain ok d' st2 where w: "walk_create ns (a, cs) st = (ok, d', st2)"
        by (cases "walk_create ns (a, cs) st")
      have c: "tree_ok (a, cs)" "fd_name a = n"
        using tree_ok_child [OF "2.prems" Some] CFolder by auto
      then have "tree_ok d'" using "2.IH"(2) [OF Some CFolder] w by simp
      moreover have "child_name (as_child d') = n"
        using walk_create_fst [of ns "(a, cs)" st] w c(2) by (simp add: as_child_def)
      ultimately show ?thesis
        using Some CFolder w "2.prems" tree_ok_put [of "fst d" "snd d" "as_child d'" n] by simp
    qed (use Some "2.prems" in simp)
  qed
qed simp

definition blocked :: "string list \<Rightarrow> folder \<Rightarrow> bool" where
  "blocked ns d \<longleftrightarrow> (\<exists>p h s m. prefix p ns \<and> view d p = Some (Reg h s m))"

lemma blocked_Nil [simp]: "\<not> blocked [] d"
  by (simp add: blocked_def)

lemma blocked_Cons:
  "blocked (n # ns) d \<longleftrightarrow>
     (case map_find n (snd d) of None \<Rightarrow> False
      | Some (CFolder a cs) \<Rightarrow> blocked ns (a, cs) | Some (CFile f) \<Rightarrow> True)"
proof -
  have "blocked (n # ns) d \<longleftrightarrow> (\<exists>p h s m. prefix p ns \<and> view d (n # p) = Some (Reg h s m))"
    unfolding blocked_def by (auto simp: prefix_Cons)
  also have "\<dots> \<longleftrightarrow> (case map_find n (snd d) of None \<Rightarrow> False
      | Some (CFolder a cs) \<Rightarrow> blocked ns (a, cs) | Some (CFile f) \<Rightarrow> True)"
    by (auto simp: view_Cons subview_folder blocked_def split: option.splits child.splits)
      (metis Nil_prefix kind.simps(2) subview_Nil)
  finally show ?thesis .
qed

lemma blocked_empty [simp]: "\<not> blocked ns (mk_folder n i)"
  by (cases ns) (simp_all add: blocked_Cons)

text \<open>
  Creating a path succeeds exactly when no proper part of it is a file; then every missing
  folder on it is new and empty and every other entry is as before.  When it fails nothing
  has changed.
\<close>

lemma walk_create_ok_iff: "fst (walk_create ns d st) \<longleftrightarrow> \<not> blocked ns d"
  by (induction ns d st rule: walk_create.induct)
    (auto simp: blocked_Cons split: option.splits child.splits prod.splits)

lemma walk_create_fail:
  "tree_ok d \<Longrightarrow> blocked ns d \<Longrightarrow> snd (walk_create ns d st) = (d, st)"
proof (induction ns d st rule: walk_create.induct)
  case (2 n ns d st)
  show ?case
  proof (cases "map_find n (snd d)")
    case (Some c)
    show ?thesis
    proof (cases c)
      case (CFolder a cs)
      have "tree_ok (a, cs)" "blocked ns (a, cs)"
        using tree_ok_child [OF "2.prems"(1) Some] "2.prems"(2) Some CFolder
        by (auto simp: blocked_Cons)
      then have "snd (walk_create ns (a, cs) st) = ((a, cs), st)"
        using "2.IH"(2) [OF Some CFolder] by simp
      moreover have "map_put n (CFolder a cs) (snd d) = snd d"
        using "2.prems"(1) Some CFolder by (intro map_put_same) (simp_all add: tree_ok_def)
      ultimately show ?thesis
        using Some CFolder by (auto simp: as_child_def split: prod.splits)
    qed (use Some in simp)
  qed (use "2.prems" in \<open>simp add: blocked_Cons\<close>)
qed simp

lemma walk_create_view:
  "\<not> blocked ns d \<Longrightarrow> view (fst (snd (walk_create ns d st))) ms =
     (if prefix ms ns \<and> view d ms = None then Some (Dir False 0) else view d ms)"
proof (induction ns d st arbitrary: ms rule: walk_create.induct)
  case (1 d st)
  then show ?case by auto
next
  case (2 n ns d st)
  show ?case
  proof (cases ms)
    case Nil
    then show ?thesis using walk_create_fst [of "n # ns" d st] by (simp del: walk_create.simps)
  next
    case ms: (Cons m ms')
    show ?thesis
    proof (cases "map_find n (snd d)")
      case None
      obtain i st1 where ist: "new_folder_node st = (i, st1)" by (cases "new_folder_node st")
      have e: "view (mk_folder n i) ms' = (if ms' = [] then Some (Dir False 0) else None)"
        by (cases ms') (simp_all add: view_Cons)
      show ?thesis
        using None ist ms "2.IH"(1) [OF None ist [symmetric] refl, of ms']
        by (auto simp: view_Cons subview_as_child e split: prod.splits)
    next
      case (Some c)
      show ?thesis
      proof (cases c)
        case (CFolder a cs)
        have "\<not> blocked ns (a, cs)" using "2.prems" Some CFolder by (simp add: blocked_Cons)
        then show ?thesis
          using Some CFolder ms "2.IH"(2) [OF Some CFolder, of ms']
          by (auto simp: view_Cons subview_as_child subview_folder split: prod.splits)
      qed (use Some "2.prems" in \<open>simp add: blocked_Cons\<close>)
    qed
  qed
qed

lemma walk_create_walk: "\<not> blocked ns d \<Longrightarrow> walk ns (fst (snd (walk_create ns d st))) \<noteq> None"
proof -
  assume nb: "\<not> blocked ns d"
  have "\<exists>s i. view (fst (snd (walk_create ns d st))) ns = Some (Dir s i)"
  proof (cases "view d ns")
    case (Some e)
    with nb show ?thesis by (cases e) (auto simp: walk_create_view blocked_def)
  qed (auto simp: walk_create_view [OF nb])
  then show ?thesis using walk_view_dir by blast
qed

subsection \<open>Adding and removing entries\<close>

definition entry_path :: "string \<Rightarrow> string list" where
  "entry_path p = path_elems (parent_path p) @ [filename p]"

lemma entry_path_elems: "has_relative p \<Longrightarrow> entry_path p = path_elems p"
  by (simp add: entry_path_def path_elems_parent_filename)

lemma map_emplace_erase: "map_ok cs \<Longrightarrow> map_emplace n c (map_erase n cs) = map_put n c cs"
  by (simp add: map_emplace_def map_contains_find map_find_erase map_put_erase)

lemma edit_replace:
  "tree_ok d \<Longrightarrow> edit ns (\<lambda>cs. map_emplace n c (map_erase n cs)) d = edit ns (map_put n c) d"
proof (induction ns arbitrary: d)
  case Nil
  then show ?case by (simp add: map_emplace_erase tree_ok_def)
next
  case (Cons k ns)
  then show ?case
    by (auto split: option.splits child.splits dest: tree_ok_child)
qed

lemma subview_new_file:
  "prefix (ns @ [n]) ms \<Longrightarrow> subview (CFile f) (drop (Suc (length ns)) ms) =
     (if ms = ns @ [n] then Some (Reg (fl_hash f) (fl_size f) (fl_isModifiable f)) else None)"
proof -
  assume "prefix (ns @ [n]) ms"
  then obtain zs where "ms = ns @ n # zs" by (auto simp: prefix_def)
  then show ?thesis by (cases zs) simp_all
qed

lemma addFile_fields:
  "fst (addFile dest n h sz d st) = fst (walk_create (path_elems dest) d st)"
  "fst (walk_create (path_elems dest) d st) \<Longrightarrow>
     fst (snd (addFile dest n h sz d st)) = edit (path_elems dest)
       (\<lambda>cs. map_emplace n (CFile (mk_file n h sz False
           (next_file (erase_old (path_elems dest) n (fst (snd (walk_create (path_elems dest) d st)))
              (snd (snd (walk_create (path_elems dest) d st))))))) (map_erase n cs))
       (fst (snd (walk_create (path_elems dest) d st)))"
  by (auto simp: addFile_def getFolderPtr_create_def Let_def new_file_node_def split: prod.splits)

lemma addFile_blocked:
  assumes "tree_ok d" and "blocked (path_elems dest) d"
  shows "addFile dest n h sz d st = (False, d, st)"
  using walk_create_fail [OF assms, of st] walk_create_ok_iff [of "path_elems dest" d st] assms(2)
  by (auto simp: addFile_def getFolderPtr_create_def split: prod.splits)

lemma addFile_view:
  assumes "tree_ok d" and nb: "\<not> blocked (path_elems dest) d"
  shows "tree_ok (fst (snd (addFile dest n h sz d st))) \<and>
    view (fst (snd (addFile dest n h sz d st))) ms =
      (if ms = path_elems dest @ [n] then Some (Reg h sz False)
       else if prefix (path_elems dest @ [n]) ms then None
       else if prefix ms (path_elems dest) \<and> view d ms = None then Some (Dir False 0)
       else view d ms)"
proof -
  let ?ns = "path_elems dest" and ?w = "walk_create (path_elems dest) d st"
  have ok: "tree_ok (fst (snd ?w))" using assms(1) by (rule walk_create_tree_ok)
  obtain e where e: "walk ?ns (fst (snd ?w)) = Some e" using walk_create_walk [OF nb, of st] by blast
  define f where "f = mk_file n h sz False (next_file (erase_old ?ns n (fst (snd ?w)) (snd (snd ?w))))"
  have f: "fl_hash f = h" "fl_size f = sz" "\<not> fl_isModifiable f" "fl_name f = n"
    by (simp_all add: f_def mk_file_def)
  have eq: "fst (snd (addFile dest n h sz d st)) = edit ?ns (map_put n (CFile f)) (fst (snd ?w))"
    using addFile_fields(2) [of dest d st n h sz] nb
    by (simp add: walk_create_ok_iff edit_replace [OF ok] f_def)
  have "tree_ok (edit ?ns (map_put n (CFile f)) (fst (snd ?w)))"
    using fs.ok_put [OF ok, of "CFile f" n] f by simp
  moreover have "view (edit ?ns (map_put n (CFile f)) (fst (snd ?w))) ms =
     (if prefix (?ns @ [n]) ms then subview (CFile f) (drop (Suc (length ?ns)) ms)
      else view (fst (snd ?w)) ms)"
    using view_edit_put [OF e] by simp
  ultimately show ?thesis
    using f by (auto simp: eq subview_new_file walk_create_view [OF nb])
qed

text \<open>
  C8. \<^verbatim>\<open>FsTree::addFile\<close> refines insertion into the name space.  It answers \<^verbatim>\<open>true\<close> exactly
  when no part of the destination folder's path is a file.  Then the new file is the entry at
  the destination (replacing whatever was there, a folder with all its contents included),
  missing folders of the path exist, every other path is as before, and the tree is still
  well-formed.  When it answers \<^verbatim>\<open>false\<close>, tree and statistics are unchanged.
\<close>

theorem addFile_refines:
  assumes "tree_ok d"
  shows "(fst (addFile dest n h sz d st) \<longleftrightarrow> \<not> blocked (path_elems dest) d) \<and>
    (blocked (path_elems dest) d \<longrightarrow> addFile dest n h sz d st = (False, d, st)) \<and>
    (\<not> blocked (path_elems dest) d \<longrightarrow>
       tree_ok (fst (snd (addFile dest n h sz d st))) \<and>
       view (fst (snd (addFile dest n h sz d st))) ms =
         (if ms = path_elems dest @ [n] then Some (Reg h sz False)
          else if prefix (path_elems dest @ [n]) ms then None
          else if prefix ms (path_elems dest) \<and> view d ms = None then Some (Dir False 0)
          else view d ms))"
  using addFile_blocked [OF assms] addFile_view [OF assms]
  by (simp add: addFile_fields(1) walk_create_ok_iff)

definition node_allocated :: "child \<Rightarrow> stats \<Rightarrow> bool" where
  "node_allocated c st =
     (case c of CFolder a cs \<Rightarrow> fd_stat a < next_folder st | CFile f \<Rightarrow> fl_stat f < next_file st)"

lemma child_setParent_returns:
  assumes "stats_ok st" and "node_allocated c st"
    and "\<And>n. p = Some n \<Longrightarrow> n < next_folder st"
    and "\<And>a cs n. c = CFolder a cs \<Longrightarrow> p = Some n \<Longrightarrow> (fd_stat a, n) \<notin> (parents st)\<^sup>*"
  obtains st' where "child_setParent c p st = Some st'" "stats_ok st'"
proof (cases c)
  case (CFolder a cs)
  have "\<exists>st'. folder_setParent (fd_stat a) p st = Some st' \<and> stats_ok st'"
    using folder_setParent_ok [OF assms(1), of "fd_stat a" p] assms(2-4) CFolder
    by (auto simp: node_allocated_def)
  with CFolder that show ?thesis by auto
next
  case (CFile f)
  have "\<exists>st'. file_setParent (fl_stat f) p st = Some st' \<and> stats_ok st'"
    using file_setParent_ok [OF assms(1), of "fl_stat f" p] assms(2,3) CFile
    by (auto simp: node_allocated_def)
  with CFile that show ?thesis by auto
qed

lemma fold_release_ok: "stats_ok st \<Longrightarrow> stats_ok (fold release ns st)"
  by (induction ns arbitrary: st) (auto intro: release_ok)

lemma release_child_ok: "stats_ok st \<Longrightarrow> stats_ok (release_child c st)"
  unfolding release_child_def by (rule fold_release_ok)

lemma view_entry_None: "view d (entry_path p) = None \<longleftrightarrow>
    Option.bind (walk (path_elems (parent_path p)) d) (findChild (filename p)) = None"
  by (simp add: view_def subview_def entry_path_def look_snoc)

lemma removeFlat_view:
  assumes "tree_ok d" and "removeFlat p d st = Inr (b, d', st', em)"
  shows "tree_ok d' \<and> view d' ms = (if prefix (entry_path p) ms then None else view d ms)"
proof (cases "Option.bind (walk (path_elems (parent_path p)) d) (findChild (filename p))")
  case None
  then have "d' = d"
    using assms(2) by (auto simp: removeFlat_def Let_def split: option.splits bind_splits)
  moreover have "view d ms = None" if "prefix (entry_path p) ms"
    using that None view_entry_None [of d p] by (auto simp: prefix_def view_def subview_def look_append)
  ultimately show ?thesis using assms(1) by auto
next
  case (Some c)
  then obtain e where e: "walk (path_elems (parent_path p)) d = Some e"
    and c: "findChild (filename p) e = Some c"
    by (auto split: bind_splits)
  then have "d' = edit (path_elems (parent_path p)) (map_erase (filename p)) d"
    using assms(2) by (auto simp: removeFlat_def Let_def bind_outcome_Inr_iff)
  then show ?thesis
    using view_edit_erase [OF assms(1) e] fs.ok_del [OF assms(1)] by (simp add: entry_path_def)
qed

text \<open>
  C10. \<^verbatim>\<open>FsTree::removeFlat\<close> refines deletion from the name space: it answers \<^verbatim>\<open>true\<close>
  exactly when the path names an entry, removes that entry with everything below it and
  nothing else, and reports the hash of a removed file.  Given consistent statistics whose
  node for the entry is allocated, it always returns.
\<close>

theorem removeFlat_refines:
  assumes "tree_ok d" and "stats_ok st"
    and "\<And>c. getEntryPtr p d = Some c \<Longrightarrow> node_allocated c st"
  shows "\<exists>b d' st' em. removeFlat p d st = Inr (b, d', st', em) \<and> tree_ok d' \<and> stats_ok st' \<and>
    (b \<longleftrightarrow> view d (entry_path p) \<noteq> None) \<and>
    view d' ms = (if prefix (entry_path p) ms then None else view d ms) \<and>
    em = (case view d (entry_path p) of Some (Reg h s m) \<Rightarrow> [h] | _ \<Rightarrow> [])"
proof (cases "Option.bind (walk (path_elems (parent_path p)) d) (findChild (filename p))")
  case None
  then have "removeFlat p d st = Inr (False, d, st, [])"
    by (auto simp: removeFlat_def Let_def split: option.splits bind_splits)
  moreover have none: "view d (entry_path p) = None" using None by (simp add: view_entry_None)
  moreover have "view d ms = None" if "prefix (entry_path p) ms"
    using that none by (auto simp: prefix_def view_def subview_def look_append)
  ultimately show ?thesis using assms(1,2) by auto
next
  case (Some c)
  then obtain e where e: "walk (path_elems (parent_path p)) d = Some e"
    and c: "findChild (filename p) e = Some c"
    by (auto split: bind_splits)
  have "getEntryPtr p d = Some c" using Some by (simp add: getEntryPtr_look look_snoc)
  then obtain st1 where st1: "child_setParent c None st = Some st1" "stats_ok st1"
    using child_setParent_returns [OF assms(2), of c None] assms(3) by auto
  have v: "view d (entry_path p) = Some (kind c)"
    using Some by (simp add: view_def subview_def entry_path_def look_snoc)
  have "removeFlat p d st = Inr (True, edit (path_elems (parent_path p)) (map_erase (filename p)) d,
      release_child c st1, emitted_hash c)"
    using e c st1 by (simp add: removeFlat_def)
  moreover have "view (edit (path_elems (parent_path p)) (map_erase (filename p)) d) ms =
      (if prefix (entry_path p) ms then None else view d ms)"
    using view_edit_erase [OF assms(1) e] by (simp add: entry_path_def)
  moreover have "emitted_hash c = (case kind c of Reg h s m \<Rightarrow> [h] | _ \<Rightarrow> [])"
    by (cases c) simp_all
  ultimately show ?thesis
    using v st1(2) release_child_ok fs.ok_del [OF assms(1)] by auto
qed

subsection \<open>Moving entries\<close>

lemma addFolder_tree:
  "addFolder p d st = Inr (ok, d', st') \<Longrightarrow>
     ok = fst (walk_create (path_elems p) d st) \<and> d' = fst (snd (walk_create (path_elems p) d st))"
  by (auto simp: addFolder_def getFolderPtr_create_def Let_def bind_outcome_Inr_iff
      split: prod.splits if_splits option.splits)

lemma child_ok_rename [simp]: "child_ok (rename_child n c) = child_ok c" "child_name (rename_child n c) = n"
  by (cases c; simp add: tree_ok_def)+

lemma look_view: "look ns (as_child d) = Some c \<Longrightarrow> subview c ms = view d (ns @ ms)"
  by (simp add: view_def subview_def look_append)

lemma look_child_ok: "tree_ok d \<Longrightarrow> look (ns @ [n]) (as_child d) = Some c \<Longrightarrow> child_ok c"
  by (auto simp: look_snoc findChild_def split: bind_splits dest: tree_ok_walk tree_ok_child)

text \<open>The ordinary case of the second half: source and destination unrelated.\<close>

lemma move_entry_view:
  assumes ok: "tree_ok d" and c: "look (sp @ [sn]) (as_child d) = Some c"
    and dp: "walk dp d \<noteq> None"
    and apart: "\<not> prefix (sp @ [sn]) dp" "\<not> prefix (dp @ [dn]) (sp @ [sn])"
    and res: "move_entry sp sn dp dn c d st em = Inr (b, d', st', em')"
  shows "b \<and> tree_ok d' \<and> view d' ms =
    (if prefix (dp @ [dn]) ms then view d (sp @ [sn] @ drop (Suc (length dp)) ms)
     else if prefix (sp @ [sn]) ms then None else view d ms)"
proof -
  let ?d1 = "edit dp (map_put dn (rename_child dn c)) d"
  have sp: "walk sp d \<noteq> None" using c by (cases "walk sp d") (simp_all add: look_snoc)
  have fits: "child_ok (rename_child dn c) \<and> child_name (rename_child dn c) = dn"
    using look_child_ok [OF ok c] by simp
  have d': "b" "d' = edit sp (map_erase sn) ?d1"
    using res apart by (auto simp: move_entry_def Let_def bind_outcome_Inr_iff edit_replace [OF ok])
  have "tree_ok d'"
    unfolding d' using fs.ok_del [OF fs.ok_put [OF ok fits]] by simp
  moreover have "view d' ms =
    (if prefix (dp @ [dn]) ms then subview (rename_child dn c) (drop (Suc (length dp)) ms)
     else if prefix (sp @ [sn]) ms then None else view d ms)"
    unfolding d' by (rule fs.put_elsewhere_then_del [OF ok fits dp sp apart])
  ultimately show ?thesis
    using d'(1) look_view [OF c] by simp
qed

lemma view_created_elsewhere:
  assumes "\<not> blocked dp d" and "\<not> prefix s dp"
  shows "view (fst (snd (walk_create dp d st))) (s @ ms) = view d (s @ ms)"
proof -
  have "\<not> prefix (s @ ms) dp" using assms(2) by (meson prefixI prefix_order.trans)
  then show ?thesis by (simp add: walk_create_view [OF assms(1)])
qed

lemma moveFlat_view:
  assumes ok: "tree_ok d" and res: "moveFlat src dst d st = Inr (b, d', st', em)"
    and neq: "\<not> path_eq dst src" and ex: "view d (entry_path src) \<noteq> None"
    and nb: "\<not> blocked (path_elems (parent_path dst)) d"
    and apart: "\<not> prefix (entry_path src) (path_elems (parent_path dst))"
      "\<not> prefix (entry_path dst) (entry_path src)"
  shows "b \<and> tree_ok d' \<and> view d' ms =
    (if prefix (entry_path dst) ms then view d (entry_path src @ drop (length (entry_path dst)) ms)
     else if prefix (entry_path src) ms then None
     else if prefix ms (path_elems (parent_path dst)) \<and> view d ms = None then Some (Dir False 0)
     else view d ms)"
proof -
  let ?sp = "path_elems (parent_path src)" and ?sn = "filename src"
  let ?dp = "path_elems (parent_path dst)" and ?dn = "filename dst"
  let ?w = "fst (snd (walk_create ?dp d st))"
  obtain c where c: "Option.bind (walk ?sp d) (findChild ?sn) = Some c"
    using ex by (cases "Option.bind (walk ?sp d) (findChild ?sn)") (auto simp: view_entry_None)
  obtain d1 st1 c1 where c1: "look (?sp @ [?sn]) (as_child d1) = Some c1"
    and me: "move_entry ?sp ?sn ?dp ?dn c1 d1 st1 (emitted_hash c) = Inr (b, d', st', em)"
    and d1: "d1 = d \<and> walk ?dp d \<noteq> None \<or> d1 = ?w"
  proof (cases "walk ?dp d")
    case (Some e)
    then show ?thesis
      using res c neq that [of d c st] by (simp add: moveFlat_def Let_def look_snoc)
  next
    case None
    then obtain ok' d1 st1 where af: "addFolder (parent_path dst) d st = Inr (ok', d1, st1)"
      using res c neq by (cases "addFolder (parent_path dst) d st") (auto simp: moveFlat_def Let_def)
    have "ok'" "d1 = ?w"
      using addFolder_tree [OF af] walk_create_ok_iff [of ?dp d st] nb by auto
    then show ?thesis
      using None af res c neq that [of d1 _ st1]
      by (cases "Option.bind (walk ?sp d1) (findChild ?sn)")
        (auto simp: moveFlat_def Let_def look_snoc)
  qed
  have ok1: "tree_ok d1" and w1: "walk ?dp d1 \<noteq> None"
    using d1 ok walk_create_tree_ok [OF ok] walk_create_walk [OF nb] by auto
  have apart': "\<not> prefix (?sp @ [?sn]) ?dp" "\<not> prefix (?dp @ [?dn]) (?sp @ [?sn])"
    using apart by (simp_all add: entry_path_def)
  have v: "view d1 (entry_path src @ ns) = view d (entry_path src @ ns)" for ns
    using d1 view_created_elsewhere [OF nb apart(1)] by auto
  have other: "view d1 ms = (if prefix ms ?dp \<and> view d ms = None then Some (Dir False 0) else view d ms)"
  proof -
    have "view d ms \<noteq> None" if "walk ?dp d \<noteq> None" "prefix ms ?dp"
      using that by (auto simp: prefix_def walk_look view_def subview_def look_append split: bind_splits)
    then show ?thesis using d1 walk_create_view [OF nb, of st ms] by auto
  qed
  show ?thesis
    using move_entry_view [OF ok1 c1 w1 apart' me, of ms] v [of "drop (Suc (length ?dp)) ms"] other
    by (auto simp: entry_path_def)
qed

lemma release_simps [simp]:
  "parents (release n st) = parents st" "next_folder (release n st) = next_folder st"
  "next_file (release n st) = next_file st"
  "folder_nodes (release n st) = folder_nodes st" "file_nodes (release n st) = file_nodes st"
  by (simp_all add: release_def parents_def)

lemma fold_release_simps [simp]:
  "parents (fold release ns st) = parents st" "next_folder (fold release ns st) = next_folder st"
  "next_file (fold release ns st) = next_file st"
  by (induction ns arbitrary: st) simp_all

lemma erase_old_simps [simp]:
  "parents (erase_old ns n d st) = parents st" "next_folder (erase_old ns n d st) = next_folder st"
  "next_file (erase_old ns n d st) = next_file st"
  by (simp_all add: erase_old_def release_child_def split: option.splits)



text \<open>
  Moving a folder into itself loses it.  The code has only a remark where it would check
  that the destination is below the source.  If \<^verbatim>\<open>moveFlat\<close> returns at all in this case,
  it answers \<^verbatim>\<open>true\<close> and the whole source folder is gone from the tree.
\<close>

lemma moveFlat_into_itself_loses_subtree:
  assumes ok: "tree_ok d" and neq: "\<not> path_eq dst src"
    and src: "getEntryPtr src d = Some c" and dest: "getFolderPtr (parent_path dst) d = Some e"
    and inside: "prefix (entry_path src) (path_elems (parent_path dst))"
    and res: "moveFlat src dst d st = Inr (b, d', st', em)"
  shows "b \<and> view d' ms = (if prefix (entry_path src) ms then None else view d ms)"
proof -
  let ?sp = "path_elems (parent_path src)" and ?sn = "filename src"
  let ?dp = "path_elems (parent_path dst)"
  have c: "Option.bind (walk ?sp d) (findChild ?sn) = Some c"
    using src by (simp add: getEntryPtr_look look_snoc)
  then obtain f where f: "walk ?sp d = Some f" by (cases "walk ?sp d") auto
  have "move_entry ?sp ?sn ?dp (filename dst) c d st (emitted_hash c) = Inr (b, d', st', em)"
    using res c neq dest by (simp add: moveFlat_def getFolderPtr_def)
  then have "b" "d' = edit ?sp (map_erase ?sn) d"
    using inside by (auto simp: move_entry_def entry_path_def Let_def bind_outcome_Inr_iff split: if_splits)
  then show ?thesis
    using view_edit_erase [OF ok f] by (simp add: entry_path_def)
qed

text \<open>
  Moving an entry onto one of the folders that contain it (\<^verbatim>\<open>a/b\<close> onto \<^verbatim>\<open>a\<close>) erases that
  folder first and then erases the source through pointers into it: a use after free.
\<close>

lemma moveFlat_onto_ancestor_is_use_after_free:
  assumes neq: "\<not> path_eq dst src"
    and src: "getEntryPtr src d = Some c" and dest: "getFolderPtr (parent_path dst) d = Some e"
    and onto: "prefix (entry_path dst) (entry_path src)"
  shows "moveFlat src dst d st = Inl UseAfterFree"
proof -
  let ?sp = "path_elems (parent_path src)" and ?sn = "filename src"
  let ?dp = "path_elems (parent_path dst)"
  have c: "Option.bind (walk ?sp d) (findChild ?sn) = Some c"
    using src by (simp add: getEntryPtr_look look_snoc)
  have "\<not> prefix (?sp @ [?sn]) ?dp"
    using prefix_length_le [OF onto] by (auto simp: entry_path_def dest: prefix_length_le)
  then show ?thesis
    using c neq dest onto by (simp add: moveFlat_def getFolderPtr_def move_entry_def entry_path_def)
qed

subsection \<open>A small tree\<close>

text \<open>Folders \<^verbatim>\<open>a\<close>, with a file \<^verbatim>\<open>f\<close>, and \<^verbatim>\<open>b\<close>; on it the theorems are applied once each.\<close>

definition sample_root :: folder_attrs where
  "sample_root = fst (mk_folder [] 0)"

definition sample_f :: fs_file where
  "sample_f = mk_file ''f'' 7 10 False 0"

definition sample :: folder where
  "sample = (sample_root,
     [(''a'', CFolder (fst (mk_folder ''a'' 1)) [(''f'', CFile sample_f)]), (''b'', CFolder (fst (mk_folder ''b'' 2)) [])])"

definition sample_stats :: stats where
  "sample_stats = snd (new_file_node (snd (new_folder_node (snd (new_folder_node (snd (new_folder_node empty_stats)))))))"

lemma sample_ok: "tree_ok sample" by code_simp

lemma sample_stats_ok: "stats_ok sample_stats"
  unfolding sample_stats_def by (intro new_file_node_ok new_folder_node_ok stats_ok_empty)

lemma sample_stats_simps:
  "next_folder sample_stats = 3" "next_file sample_stats = 1" "fo_parent (folder_nodes sample_stats n) = None"
  by (simp_all add: sample_stats_def new_file_node_def new_folder_node_def empty_stats_def)

lemma sample_entries:
  "getEntryPtr ''a/f'' sample = Some (CFile sample_f)"
  "getEntryPtr ''a'' sample = Some (CFolder (fst (mk_folder ''a'' 1)) [(''f'', CFile sample_f)])"
  "getFolderPtr (parent_path ''b/g'') sample = Some (mk_folder ''b'' 2)"
  "getFolderPtr (parent_path ''a/g'') sample = Some (fst (mk_folder ''a'' 1), [(''f'', CFile sample_f)])"
  "getFolderPtr (parent_path ''a'') sample = Some sample"
  by code_simp+

lemma sample_paths:
  "entry_path ''a/f'' = [''a'', ''f'']" "entry_path ''b/g'' = [''b'', ''g'']" "entry_path ''a'' = [''a'']"
  "path_elems (parent_path ''b/g'') = [''b'']" "path_elems (parent_path ''a/g'') = [''a'']"
  "path_elems ''b'' = [''b'']" "\<not> path_eq ''b/g'' ''a/f''" "\<not> path_eq ''a/g'' ''a''" "\<not> path_eq ''a'' ''a/f''"
  by code_simp+

lemma sample_view: "view sample [''a'', ''f''] = Some (Reg 7 10 False)" "view sample [''b''] = Some (Dir False 0)"
  by code_simp+

theorem addFile_refines_witness:
  "tree_ok sample \<and> fst (addFile ''b'' ''g'' 5 6 sample sample_stats) \<and>
   view (fst (snd (addFile ''b'' ''g'' 5 6 sample sample_stats))) [''b'', ''g''] = Some (Reg 5 6 False)"
proof -
  have nb: "\<not> blocked (path_elems ''b'') sample"
    by (subst walk_create_ok_iff [of _ _ sample_stats, symmetric]) code_simp
  show ?thesis
    using addFile_refines [OF sample_ok, of "''b''" "''g''" 5 6 sample_stats "[''b'', ''g'']"] nb sample_ok
    by (simp add: sample_paths)
qed

theorem removeFlat_refines_witness:
  "\<exists>b d' st' em. removeFlat ''a/f'' sample sample_stats = Inr (b, d', st', em) \<and> b \<and> em = [7] \<and>
     view d' [''a'', ''f''] = None"
  using removeFlat_refines [OF sample_ok sample_stats_ok, of "''a/f''" "[''a'', ''f'']"]
  by (auto simp: sample_entries node_allocated_def sample_f_def mk_file_def sample_stats_simps sample_paths sample_view)


end
