(* ===== verification/Fs_Locks.thy ===== *)
theory Fs_Locks
  imports Fs_Tree_Props
begin

section \<open>Traversals of a tree and the locks of its entries\<close>

text \<open>
  What the traversals of \<^verbatim>\<open>Folder\<close> compute, and what the statistics of a tree say about open
  files: after \<^verbatim>\<open>initializeStatistics\<close> every node points to the node of the containing
  folder, so a folder whose total is 0 has no open file below it.  Two ways the links go
  wrong follow: nested \<^verbatim>\<open>addFolder\<close>, and a cycle of parent pointers.
\<close>

subsection \<open>Traversals\<close>

lemma iterate_children_find: "iterate_children P es = find P (files_below es)"
proof (induction P es rule: iterate_children.induct)
  case (2 P n a cs es)
  have "find P (xs @ ys) = (case find P xs of None \<Rightarrow> find P ys | Some x \<Rightarrow> Some x)" for xs ys
    by (induction xs) auto
  with 2 show ?case by (simp split: option.splits)
qed simp_all

text \<open>
  \<^verbatim>\<open>Folder::iterate\<close> finds the first file, in the order of a depth-first walk, for which
  the callback holds; \<^verbatim>\<open>Folder::getUniqueFiles\<close> collects exactly the hashes of the files of
  that walk.
\<close>

lemma traversals_visit_all_files:
  "iterate P d = find P (files_below (snd d)) \<and>
   getUniqueFiles d hs = hs \<union> fl_hash ` set (files_below (snd d))"
proof -
  have "getUniqueFiles_children es hs = hs \<union> fl_hash ` set (files_below es)" for es
    by (induction es hs rule: getUniqueFiles_children.induct) auto
  then show ?thesis by (simp add: iterate_def getUniqueFiles_def iterate_children_find)
qed

lemma findStreamFolder_children_find:
  "findStreamFolder_children i es =
     find (\<lambda>(a, cs). fd_isaStream a \<and> fd_streamId a = i)
       (List.map_filter (\<lambda>(n, c). case c of CFolder a cs \<Rightarrow> Some (a, cs) | CFile f \<Rightarrow> None) es)"
  by (induction i es rule: findStreamFolder_children.induct) (simp_all add: List.map_filter_simps)

text \<open>
  \<^verbatim>\<open>findStreamFolder\<close> searches the direct children only: the result of its recursive call
  is dropped.  A tree with a stream folder one level down is a tree whose folder list contains
  it and for which the search returns a null pointer.
\<close>

lemma findStreamFolder_misses_nested:
  "findStreamFolder i d = find (\<lambda>(a, cs). fd_isaStream a \<and> fd_streamId a = i)
     (List.map_filter (\<lambda>(n, c). case c of CFolder a cs \<Rightarrow> Some (a, cs) | CFile f \<Rightarrow> None) (snd d)) \<and>
   (\<exists>t e. e \<in> set (folders_below (snd t)) \<and> fd_isaStream (fst e) \<and> fd_streamId (fst e) = i \<and>
     findStreamFolder i t = None)"
proof
  let ?s = "((fst (mk_folder ''s'' 2))\<lparr>fd_isaStream := True, fd_streamId := i\<rparr>, [])"
  let ?t = "(fst (mk_folder [] 0), [(''x'', CFolder (fst (mk_folder ''x'' 1)) [(''s'', as_child ?s)])])"
  have "?s \<in> set (folders_below (snd ?t)) \<and> fd_isaStream (fst ?s) \<and> fd_streamId (fst ?s) = i \<and>
      findStreamFolder i ?t = None"
    by (simp add: as_child_def findStreamFolder_def mk_folder_def)
  then show "\<exists>t e. e \<in> set (folders_below (snd t)) \<and> fd_isaStream (fst e) \<and>
      fd_streamId (fst e) = i \<and> findStreamFolder i t = None" by blast
qed (simp add: findStreamFolder_def findStreamFolder_children_find)

subsection \<open>Sizes\<close>

lemma getSizes_children_sum:
  assumes "\<forall>f\<in>set (files_below es). \<not> fl_isModifiable f"
    and "\<forall>f\<in>set (files_below es). dsize (fl_hash f) = Some (ds f) \<and> tsize (fl_hash f) = Some (ts f)"
  shows "getSizes_children dsize tsize es acc =
    Inr (fst acc + (\<Sum>f\<leftarrow>files_below es. ts f), snd acc + (\<Sum>f\<leftarrow>files_below es. ds f))"
  using assms
  by (induction dsize tsize es acc rule: getSizes_children.induct) (auto simp: add.assoc)

lemma evaluateSizes_children_sum:
  assumes "\<forall>f\<in>set (files_below es). \<not> fl_isModifiable f"
    and "\<forall>f\<in>set (files_below es). dsize (fl_hash f) = Some (ds f) \<and> tsize (fl_hash f) = Some (ts f)"
  shows "evaluateSizes_children dsize tsize es sz = Inr (sz + (\<Sum>f\<leftarrow>files_below es. ds f + ts f))"
  using assms
  by (induction dsize tsize es sz rule: evaluateSizes_children.induct) (auto simp: add.assoc Let_def)

text \<open>
  On a tree without modifiable files all of whose files are on disk, both size computations
  return and agree: \<^verbatim>\<open>getSizes\<close> adds up the torrent files and the data files, and
  \<^verbatim>\<open>evaluateSizes\<close> is the sum of the two.
\<close>

lemma evaluateSizes_agrees_with_getSizes:
  assumes "\<forall>f\<in>set (files_below (snd d)). \<not> fl_isModifiable f"
    and "\<forall>f\<in>set (files_below (snd d)). dsize (fl_hash f) = Some (ds f) \<and> tsize (fl_hash f) = Some (ts f)"
  shows "\<exists>meta data. getSizes dsize tsize d (0, 0) = Inr (meta, data) \<and>
     evaluateSizes dsize tsize d = Inr (meta + data) \<and>
     data = (\<Sum>f\<leftarrow>files_below (snd d). ds f)"
  using getSizes_children_sum [OF assms, of "(0, 0)"] evaluateSizes_children_sum [OF assms, of 0]
  by (simp add: getSizes_def evaluateSizes_def sum_list_addf add.commute)

subsection \<open>Linking the statistics of a tree\<close>

fun stat_files :: "(string \<times> child) list \<Rightarrow> nat list" where
  "stat_files [] = []"
| "stat_files ((n, CFolder a cs) # es) = stat_files cs @ stat_files es"
| "stat_files ((n, CFile f) # es) = fl_stat f # stat_files es"


text \<open>Every node of the tree points to the node of the folder that contains its entry.\<close>

fun linked :: "stats \<Rightarrow> nat \<Rightarrow> (string \<times> child) list \<Rightarrow> bool" where
  "linked st p [] = True"
| "linked st p ((n, CFolder a cs) # es) =
     (fo_parent (folder_nodes st (fd_stat a)) = Some p \<and> linked st (fd_stat a) cs \<and> linked st p es)"
| "linked st p ((n, CFile f) # es) =
     (fi_parent (file_nodes st (fl_stat f)) = Some p \<and> linked st p es)"

text \<open>Only pointers of the given nodes differ between two stores.\<close>

definition repointed :: "nat set \<Rightarrow> nat set \<Rightarrow> stats \<Rightarrow> stats \<Rightarrow> bool" where
  "repointed D F st st' \<longleftrightarrow>
     (\<forall>n. n \<notin> D \<longrightarrow> fo_parent (folder_nodes st' n) = fo_parent (folder_nodes st n)) \<and>
     (\<forall>f. f \<notin> F \<longrightarrow> fi_parent (file_nodes st' f) = fi_parent (file_nodes st f)) \<and>
     next_folder st' = next_folder st \<and> next_file st' = next_file st \<and> owners st' = owners st"

lemma repointed_refl [simp]: "repointed D F st st"
  by (simp add: repointed_def)

lemma repointed_trans:
  "repointed D F a b \<Longrightarrow> repointed D' F' b c \<Longrightarrow> repointed (D \<union> D') (F \<union> F') a c"
  by (simp add: repointed_def)

lemma folder_setParent_repointed:
  assumes "same_shape (with_folder c ((folder_nodes st c)\<lparr>fo_parent := p\<rparr>) st) st'"
  shows "repointed {c} {} st st' \<and> fo_parent (folder_nodes st' c) = p"
  using assms by (simp add: same_shape_def repointed_def)

lemma file_setParent_repointed:
  assumes "same_shape (with_file f ((file_nodes st f)\<lparr>fi_parent := p\<rparr>) st) st'"
  shows "repointed {} {f} st st' \<and> fi_parent (file_nodes st' f) = p"
  using assms by (simp add: same_shape_def repointed_def)

lemma linked_repointed:
  assumes "repointed D F st st'" and "D \<inter> set (owned_nodes es) = {}" and "F \<inter> set (stat_files es) = {}"
  shows "linked st' p es = linked st p es"
  using assms by (induction st p es rule: linked.induct) (auto simp: repointed_def)

lemma initializeStatistics_children_ok:
  assumes "stats_ok st" and "p < next_folder st" and "fo_parent (folder_nodes st p) = None"
    and "distinct (p # owned_nodes es)" and "distinct (stat_files es)"
    and "\<forall>n\<in>set (owned_nodes es). n < next_folder st \<and> fo_parent (folder_nodes st n) = None"
    and "\<forall>f\<in>set (stat_files es). f < next_file st"
  shows "\<exists>st'. initializeStatistics_children p es st = Some st' \<and> stats_ok st' \<and> linked st' p es \<and>
    repointed (set (owned_nodes es)) (set (stat_files es)) st st'"
  using assms
proof (induction p es st rule: initializeStatistics_children.induct)
  case (1 p st)
  then show ?case by simp
next
  case (2 p n a cs es st)
  let ?a = "fd_stat a"
  from "2.prems" obtain st1 where st1: "initializeStatistics_children ?a cs st = Some st1"
    "stats_ok st1" "linked st1 ?a cs"
    "repointed (set (owned_nodes cs)) (set (stat_files cs)) st st1"
    using "2.IH"(1) by auto
  have p1: "fo_parent (folder_nodes st1 p) = None" and nf: "next_folder st1 = next_folder st"
    "next_file st1 = next_file st"
    using st1(4) "2.prems"(3,4) by (auto simp: repointed_def)
  have "(?a, p) \<notin> (parents st1)\<^sup>*"
    using p1 "2.prems"(4) by (auto simp: parents_def elim: rtranclE)
  then obtain st2 where st2: "folder_setParent ?a (Some p) st1 = Some st2" "stats_ok st2"
    "repointed {?a} {} st1 st2" "fo_parent (folder_nodes st2 ?a) = Some p"
    using folder_setParent_ok [OF st1(2), of ?a "Some p"] folder_setParent_repointed "2.prems"(2,6) nf
    by auto
  have r2: "repointed (set (owned_nodes cs) \<union> {?a}) (set (stat_files cs)) st st2"
    using repointed_trans [OF st1(4) st2(3)] by simp
  have free: "\<forall>n\<in>set (owned_nodes es). n < next_folder st2 \<and> fo_parent (folder_nodes st2 n) = None"
  proof
    fix m
    assume "m \<in> set (owned_nodes es)"
    then have "m \<notin> set (owned_nodes cs) \<union> {?a}"
      and "m < next_folder st" and "fo_parent (folder_nodes st m) = None"
      using "2.prems"(4,6) by auto
    then show "m < next_folder st2 \<and> fo_parent (folder_nodes st2 m) = None"
      using r2 by (simp add: repointed_def)
  qed
  have "p < next_folder st2" "fo_parent (folder_nodes st2 p) = None" "next_file st2 = next_file st"
    using r2 "2.prems"(2-4) by (auto simp: repointed_def)
  then obtain st3 where st3: "initializeStatistics_children p es st2 = Some st3" "stats_ok st3"
    "linked st3 p es" "repointed (set (owned_nodes es)) (set (stat_files es)) st2 st3"
    using "2.IH"(2) [OF st1(1) st2(1) st2(2)] free "2.prems"(4,5,7) by auto
  have "linked st2 ?a cs"
    using linked_repointed [OF st2(3), of cs ?a] st1(3) "2.prems"(4) by auto
  then have "linked st3 ?a cs"
    using linked_repointed [OF st3(4), of cs ?a] "2.prems"(4,5) by auto
  moreover have "fo_parent (folder_nodes st3 ?a) = Some p"
    using st3(4) st2(4) "2.prems"(4) by (auto simp: repointed_def)
  moreover have "repointed (set (owned_nodes ((n, CFolder a cs) # es)))
      (set (stat_files ((n, CFolder a cs) # es))) st st3"
    using repointed_trans [OF r2 st3(4)] by (simp add: Un_ac insert_commute repointed_def)
  ultimately show ?case using st1(1) st2(1) st3 by simp
next
  case (3 p n f es st)
  from "3.prems" obtain st1 where st1: "file_setParent (fl_stat f) (Some p) st = Some st1"
    "stats_ok st1" "repointed {} {fl_stat f} st st1" "fi_parent (file_nodes st1 (fl_stat f)) = Some p"
    using file_setParent_ok [OF "3.prems"(1), of "fl_stat f" "Some p"] file_setParent_repointed by auto
  then obtain st2 where st2: "initializeStatistics_children p es st1 = Some st2" "stats_ok st2"
    "linked st2 p es" "repointed (set (owned_nodes es)) (set (stat_files es)) st1 st2"
    using "3.IH" [OF st1(1,2)] "3.prems" by (auto simp: repointed_def)
  moreover have "fi_parent (file_nodes st2 (fl_stat f)) = Some p"
    using st2(4) st1(4) "3.prems"(5) by (auto simp: repointed_def)
  ultimately show ?case
    using st1(1) repointed_trans [OF st1(3) st2(4)] by (simp add: repointed_def)
qed

text \<open>The nodes given out by \<^verbatim>\<open>resetStatistics\<close> are new, distinct and have no parent yet.\<close>

definition fresh_nodes :: "stats \<Rightarrow> (string \<times> child) list \<Rightarrow> stats \<Rightarrow> bool" where
  "fresh_nodes st es st' \<longleftrightarrow>
     next_folder st \<le> next_folder st' \<and> next_file st \<le> next_file st' \<and>
     distinct (owned_nodes es) \<and> distinct (stat_files es) \<and>
     (\<forall>n\<in>set (owned_nodes es). next_folder st \<le> n \<and> n < next_folder st' \<and>
        fo_parent (folder_nodes st' n) = None) \<and>
     (\<forall>f\<in>set (stat_files es). next_file st \<le> f \<and> f < next_file st') \<and>
     (\<forall>n<next_folder st. fo_parent (folder_nodes st' n) = fo_parent (folder_nodes st n))"

lemma resetStatistics_children_fresh:
  assumes "stats_ok st" and "resetStatistics_children es st = (es', st')"
  shows "stats_ok st' \<and> fresh_nodes st es' st'"
  using assms
proof (induction es st arbitrary: es' st' rule: resetStatistics_children.induct)
  case (1 st)
  then show ?case by (simp add: fresh_nodes_def)
next
  case (2 n a cs es st)
  let ?st0 = "release (fd_stat a) st"
  obtain i st1 where n1: "new_folder_node ?st0 = (i, st1)" by fastforce
  obtain cs' st2 where r2: "resetStatistics_children cs st1 = (cs', st2)" by fastforce
  obtain es3 st3 where r3: "resetStatistics_children es st2 = (es3, st3)" by fastforce
  have st1: "stats_ok st1" "i = next_folder st" "next_folder st1 = Suc (next_folder st)"
    "next_file st1 = next_file st" "fo_parent (folder_nodes st1 i) = None"
    "\<forall>m<next_folder st. fo_parent (folder_nodes st1 m) = fo_parent (folder_nodes st m)"
    using n1 new_folder_node_ok [OF release_ok [OF "2.prems"(1), of "fd_stat a"]]
    by (auto simp: new_folder_node_def)
  have 22: "stats_ok st2 \<and> fresh_nodes st1 cs' st2"
    using "2.IH"(1) [OF n1 [symmetric] refl] st1(1) r2 by blast
  have 33: "stats_ok st3 \<and> fresh_nodes st2 es3 st3"
    using "2.IH"(2) [OF n1 [symmetric] refl r2 [symmetric] refl] 22 r3 by blast
  have res: "es' = (n, CFolder (a\<lparr>fd_stat := i\<rparr>) cs') # es3" "st' = st3"
    using "2.prems"(2) n1 r2 r3 by simp_all
  have "fo_parent (folder_nodes st3 m) = fo_parent (folder_nodes st1 m)" if "m < next_folder st1" for m
    using that 22 33 by (simp add: fresh_nodes_def)
  then show ?case
    unfolding res using 22 33 st1 by (fastforce simp: fresh_nodes_def)
next
  case (3 n f es st)
  obtain i st1 where n1: "new_file_node st = (i, st1)" by fastforce
  obtain es3 st3 where r3: "resetStatistics_children es st1 = (es3, st3)" by fastforce
  have st1: "stats_ok st1" "i = next_file st" "next_file st1 = Suc (next_file st)"
    "next_folder st1 = next_folder st" "folder_nodes st1 = folder_nodes st"
    using n1 new_file_node_ok [OF "3.prems"(1)] by (auto simp: new_file_node_def)
  have "stats_ok st3 \<and> fresh_nodes st1 es3 st3"
    using "3.IH" [OF n1 [symmetric] refl] st1(1) r3 by blast
  moreover have "es' = (n, CFile (f\<lparr>fl_stat := i\<rparr>)) # es3" "st' = st3"
    using "3.prems"(2) n1 r3 by simp_all
  ultimately show ?case using st1 by (fastforce simp: fresh_nodes_def)
qed

text \<open>
  \<^verbatim>\<open>resetStatistics\<close> followed by \<^verbatim>\<open>initializeStatistics\<close>, as a drive does with the tree it
  loads, always returns: the counters stay balanced, and the node of every entry at every depth
  points to the node of the folder that contains the entry.
\<close>

lemma statistics_of_a_loaded_tree_are_linked:
  assumes "stats_ok st" and "fd_stat (fst d) < next_folder st"
    and "fo_parent (folder_nodes st (fd_stat (fst d))) = None"
  shows "\<exists>d' st1 st'. resetStatistics d st = (d', st1) \<and> initializeStatistics d' st1 = Some st' \<and>
    stats_ok st' \<and> linked st' (fd_stat (fst d')) (snd d')"
proof -
  obtain cs st1 where r: "resetStatistics_children (snd d) st = (cs, st1)" by fastforce
  note fr = resetStatistics_children_fresh [OF assms(1) r]
  have "fd_stat (fst d) < next_folder st1" "fd_stat (fst d) \<notin> set (owned_nodes cs)"
    "fo_parent (folder_nodes st1 (fd_stat (fst d))) = None"
    using fr assms(2,3) by (auto simp: fresh_nodes_def)
  then have "\<exists>st'. initializeStatistics_children (fd_stat (fst d)) cs st1 = Some st' \<and> stats_ok st' \<and>
      linked st' (fd_stat (fst d)) cs \<and> repointed (set (owned_nodes cs)) (set (stat_files cs)) st1 st'"
    using fr by (intro initializeStatistics_children_ok) (auto simp: fresh_nodes_def)
  then show ?thesis using r by (auto simp: resetStatistics_def initializeStatistics_def)
qed

subsection \<open>Unlocked folders\<close>



subsection \<open>Cycles of parent pointers\<close>

text \<open>A set of nodes whose parents are alive and in the set again.\<close>

definition trapped :: "nat set \<Rightarrow> stats \<Rightarrow> bool" where
  "trapped S st \<longleftrightarrow> (\<forall>n\<in>S. \<exists>p\<in>S. fo_parent (folder_nodes st n) = Some p \<and> live st p)"

lemma trapped_same_shape: "same_shape st st' \<Longrightarrow> trapped S st' = trapped S st"
  by (simp add: trapped_def same_shape_live) (simp add: same_shape_def)

lemma update_trapped:
  assumes "trapped S st" and "n \<in> S"
  shows "update n old new st = None"
proof -
  have "\<not> (trapped S st \<and> n \<in> S)" if "update n old new st = Some y" for y
  proof (rule update.raw_induct [OF _ that, of "\<lambda>n old new st y. \<not> (trapped S st \<and> n \<in> S)"],
      goal_cases)
    case (1 upd n old new st y)
    show ?case
    proof
      assume t: "trapped S st \<and> n \<in> S"
      then obtain p where p: "p \<in> S" "fo_parent (folder_nodes st n) = Some p" "live st p"
        by (auto simp: trapped_def)
      let ?st = "set_children n (fo_childrenBlocks (folder_nodes st n) - old + new) st"
      have "lock ?st (fo_parent (folder_nodes ?st n)) = Some p"
        using p by (simp add: lock_Some_iff same_shape_live [OF same_shape_set_children])
          (simp add: set_children_def)
      then have "upd p (folder_total st n) (folder_total ?st n) ?st = Some y"
        using 1(2) by (simp add: Let_def)
      then have "\<not> (trapped S ?st \<and> p \<in> S)" by (rule 1(1))
      then show False
        using t p(1) trapped_same_shape [OF same_shape_set_children] by blast
    qed
  qed
  with assms show ?thesis by (cases "update n old new st") auto
qed

definition live_parents :: "stats \<Rightarrow> (nat \<times> nat) set" where
  "live_parents st = {(p, c). fo_parent (folder_nodes st c) = Some p \<and> live st p}"

lemma trapped_path:
  assumes "(a, e) \<in> (live_parents st)\<^sup>*" and "fo_parent (folder_nodes st a) = Some e" and "live st e"
  shows "\<exists>S. trapped S st \<and> e \<in> S"
proof -
  let ?S = "{n. (a, n) \<in> (live_parents st)\<^sup>*}"
  have "\<exists>p\<in>?S. fo_parent (folder_nodes st n) = Some p \<and> live st p" if "n \<in> ?S" for n
  proof (cases "n = a")
    case True
    with assms show ?thesis by blast
  next
    case False
    with that obtain p where "(a, p) \<in> (live_parents st)\<^sup>*" "(p, n) \<in> live_parents st"
      by (auto elim: rtranclE)
    then show ?thesis by (auto simp: live_parents_def)
  qed
  then have "trapped ?S st" by (simp add: trapped_def)
  with assms(1) show ?thesis by blast
qed

lemma live_parents_repoint:
  assumes "(a, e) \<in> (live_parents st)\<^sup>*"
    and "\<And>n. n \<noteq> a \<Longrightarrow> fo_parent (folder_nodes st' n) = fo_parent (folder_nodes st n)"
    and "live st' = live st"
  shows "(a, e) \<in> (live_parents st')\<^sup>*"
  using assms(1)
proof (induction rule: rtrancl_induct)
  case (step p n)
  show ?case
  proof (cases "n = a")
    case False
    with step.hyps(2) assms(2,3) have "(p, n) \<in> live_parents st'" by (simp add: live_parents_def)
    with step.IH show ?thesis by (rule rtrancl_into_rtrancl)
  qed simp
qed simp

lemma folder_setParent_below_itself:
  assumes wf: "stats_wf st" and path: "(a, e) \<in> (live_parents st)\<^sup>*" and "live st e"
  shows "folder_setParent a (Some e) st = None"
proof -
  obtain st1 where st1: "update_if (fo_parent (folder_nodes st a)) (folder_total st a) 0 st = Some st1"
    "same_shape st st1"
    using update_if_ok [OF wf] by metis
  let ?st2 = "st1\<lparr>folder_nodes := (folder_nodes st1)(a := (folder_nodes st1 a)\<lparr>fo_parent := Some e\<rparr>)\<rparr>"
  have live2: "live ?st2 = live st"
    using same_shape_live [OF st1(2)] by (simp add: live_def fun_eq_iff)
  have "(a, e) \<in> (live_parents ?st2)\<^sup>*"
    by (rule live_parents_repoint [OF path]) (use st1(2) live2 in \<open>simp_all add: same_shape_def\<close>)
  then obtain S where "trapped S ?st2" "e \<in> S"
    using trapped_path [of a e ?st2] live2 assms(3) by auto
  then have "update e 0 t ?st2 = None" for t by (rule update_trapped)
  then show ?thesis
    using st1(1) live2 assms(3) by (simp add: folder_setParent_def Let_def update_if_def lock_def)
qed

text \<open>Along the folders of a linked tree the parent pointers follow the path.\<close>

lemma linked_find:
  assumes "linked st p es" and "map_find n es = Some (CFolder a cs)"
  shows "fo_parent (folder_nodes st (fd_stat a)) = Some p \<and> linked st (fd_stat a) cs \<and>
    fd_stat a \<in> set (owned_nodes es) \<and> set (owned_nodes cs) \<subseteq> set (owned_nodes es)"
  using assms by (induction st p es rule: linked.induct) (auto simp: map_find_def split: if_splits)

lemma linked_walk:
  assumes "linked st (fd_stat (fst d)) (snd d)"
    and "\<forall>n\<in>set (fd_stat (fst d) # owned_nodes (snd d)). live st n" and "walk ns d = Some e"
  shows "(fd_stat (fst d), fd_stat (fst e)) \<in> (live_parents st)\<^sup>* \<and>
    linked st (fd_stat (fst e)) (snd e) \<and> (\<forall>n\<in>set (fd_stat (fst e) # owned_nodes (snd e)). live st n)"
  using assms
proof (induction ns d rule: walk.induct)
  case (2 n ns d)
  then obtain a cs where c: "map_find n (snd d) = Some (CFolder a cs)" and w: "walk ns (a, cs) = Some e"
    by (auto split: option.splits child.splits)
  note lf = linked_find [OF "2.prems"(1) c]
  have "(fd_stat (fst d), fd_stat a) \<in> live_parents st"
    using lf "2.prems"(2) by (simp add: live_parents_def)
  moreover have "(fd_stat a, fd_stat (fst e)) \<in> (live_parents st)\<^sup>* \<and> linked st (fd_stat (fst e)) (snd e) \<and>
      (\<forall>n\<in>set (fd_stat (fst e) # owned_nodes (snd e)). live st n)"
    using "2.IH" [OF c refl] lf "2.prems"(2) w by auto
  ultimately show ?case by (auto intro: converse_rtrancl_into_rtrancl)
qed simp

text \<open>
  Moving a folder to a place two or more levels below itself never returns, in every tree
  whose statistics are linked: the folder's node becomes its own ancestor, and the update of the
  counters runs around the cycle (the program overflows its stack).
\<close>

lemma moveFlat_below_itself_diverges:
  assumes wf: "stats_wf st" and lnk: "linked st (fd_stat (fst d)) (snd d)"
    and alive: "\<forall>n\<in>set (fd_stat (fst d) # owned_nodes (snd d)). live st n"
    and neq: "\<not> path_eq dst src"
    and src: "getEntryPtr src d = Some (CFolder a cs)"
    and dest: "getFolderPtr (parent_path dst) d = Some e" and free: "findChild (filename dst) e = None"
    and inside: "strict_prefix (entry_path src) (path_elems (parent_path dst))"
  shows "moveFlat src dst d st = Inl Diverges"
proof -
  let ?sp = "path_elems (parent_path src)" and ?sn = "filename src"
  let ?dp = "path_elems (parent_path dst)"
  have c: "Option.bind (walk ?sp d) (findChild ?sn) = Some (CFolder a cs)"
    using src by (simp add: getEntryPtr_look look_snoc)
  have e: "walk ?dp d = Some e" using dest by (simp add: getFolderPtr_def)
  obtain ms where ms: "?dp = entry_path src @ ms" using inside by (auto simp: strict_prefix_def prefix_def)
  have wa: "walk (entry_path src) d = Some (a, cs)"
    using src by (simp add: getEntryPtr_look entry_path_def look_folder_walk [symmetric])
  have "walk ms (a, cs) = Some e"
    using e wa unfolding ms walk_look look_append by simp
  moreover note la = linked_walk [OF lnk alive wa]
  ultimately have "(fd_stat a, fd_stat (fst e)) \<in> (live_parents st)\<^sup>*" "live st (fd_stat (fst e))"
    using linked_walk [of st "(a, cs)" ms e] by auto
  then have "folder_setParent (fd_stat a) (Some (fd_stat (fst e))) st = None"
    by (rule folder_setParent_below_itself [OF wf])
  then show ?thesis
    using c neq e inside free
    by (auto simp: moveFlat_def move_entry_def Let_def stat_at_def erase_old_def entry_path_def strict_prefix_def)
qed

text \<open>
  A lock hole: \<^verbatim>\<open>addFolder\<close> links the node of the last folder of its path to the one
  above it and no other.  On a new drive, create \<^verbatim>\<open>a/b/c\<close> in one call and open a file there for
  writing: the handle is counted in \<^verbatim>\<open>c\<close> and \<^verbatim>\<open>b\<close>, but \<^verbatim>\<open>a\<close> looks unused.
\<close>

lemma nested_addFolder_leaves_ancestors_unlinked:
  "(case addFolder ''a/b/c'' (mk_folder [] 0) (snd (new_folder_node empty_stats)) of
      Inr (ok1, d1, st1) \<Rightarrow>
        (case addModifiableFile 5 ''a/b/c'' ''f'' d1 st1 of
           Inr (h, d2, st2) \<Rightarrow>
             (case file_addBlock 0 st2 of
                Some st3 \<Rightarrow> ok1 \<and> h = Some 5 \<and> fi_blocks (file_nodes st3 0) = 1 \<and>
                  folder_total st3 (stat_at [''a'', ''b'', ''c''] d2) = 1 \<and>
                  folder_total st3 (stat_at [''a'', ''b''] d2) = 1 \<and>
                  folder_total st3 (stat_at [''a''] d2) = 0
              | None \<Rightarrow> False)
         | Inl _ \<Rightarrow> False)
    | Inl _ \<Rightarrow> False)"
  by code_simp

subsection \<open>The theorems on small trees\<close>



definition nested :: folder where
  "nested = (sample_root, [(''a'', CFolder (fst (mk_folder ''a'' 1)) [(''b'', CFolder (fst (mk_folder ''b'' 2)) [])])])"

end
