(* ===== verification/Drive_Types.thy ===== *)
theory Drive_Types
  imports Std_Map Codecs
begin

section \<open>Requests, opinions and transactions\<close>

text \<open>
  The data of \<^verbatim>\<open>include/drive/FlatDrive.h\<close> that the drive, its tasks and the replicator exchange,
  with the messages that are signed.  A signature scheme is a parameter of what signs or
  verifies: \<open>verify key message signature\<close>.
\<close>

datatype drive_task_type = DRIVE_INITIALIZATION | DRIVE_CLOSURE | MODIFICATION_CANCEL | CATCHING_UP |
  MODIFICATION_REQUEST | STREAM_REQUEST | DRIVE_VERIFICATION | MANUAL_MODIFICATION |
  MANUAL_SYNCHRONIZATION

fun driveTaskTypeToString :: "drive_task_type \<Rightarrow> string" where
  "driveTaskTypeToString DRIVE_INITIALIZATION = ''initialization''"
| "driveTaskTypeToString DRIVE_CLOSURE = ''drive_closure''"
| "driveTaskTypeToString MODIFICATION_CANCEL = ''modification_cancel''"
| "driveTaskTypeToString CATCHING_UP = ''catching_up''"
| "driveTaskTypeToString MODIFICATION_REQUEST = ''modification''"
| "driveTaskTypeToString STREAM_REQUEST = ''stream''"
| "driveTaskTypeToString DRIVE_VERIFICATION = ''verification''"
| "driveTaskTypeToString MANUAL_MODIFICATION = ''manual modification''"
| "driveTaskTypeToString MANUAL_SYNCHRONIZATION = ''manual synchronization''"

datatype modification_status = SUCCESS | INVALID_ACTION_LIST | ACTION_LIST_IS_ABSENT |
  NOT_ENOUGH_SPACE | DOWNLOAD_FAILED

fun status_byte :: "modification_status \<Rightarrow> byte" where
  "status_byte SUCCESS = 0"
| "status_byte INVALID_ACTION_LIST = 1"
| "status_byte ACTION_LIST_IS_ABSENT = 2"
| "status_byte NOT_ENOUGH_SPACE = 3"
| "status_byte DOWNLOAD_FAILED = 4"

datatype completed_status = APPROVED | CANCELLED

record completed_modification =
  cm_modificationId :: hash256
  cm_status :: completed_status

record modification_request =
  mr_clientDataInfoHash :: hash256
  mr_transactionHash :: hash256
  mr_maxDataSize :: u64
  mr_replicatorList :: "key list"
  mr_isCanceled :: bool

record catching_up_request =
  cr_rootHash :: hash256
  cr_modifyTransactionHash :: hash256

record stream_request =
  sr_streamId :: hash256
  sr_streamerKey :: key
  sr_folder :: string
  sr_maxSizeBytes :: u64
  sr_replicatorList :: "key list"

record verification_request =
  vr_tx :: hash256
  vr_shardId :: "16 word"
  vr_approvedModification :: hash256
  vr_replicators :: "key list"
  vr_durationMs :: u32
  vr_blockedReplicators :: "key list"

type_synonym signature = "byte list"
type_synonym key_and_bytes = "key \<times> u64"

record single_opinion =
  so_replicatorKey :: key
  so_uploadLayout :: "key_and_bytes list"
  so_signature :: signature

record approval_info =
  ai_driveKey :: key
  ai_modifyTransactionHash :: hash256
  ai_rootHash :: hash256
  ai_status :: modification_status
  ai_fsTreeFileSize :: u64
  ai_metaFilesSize :: u64
  ai_driveSize :: u64
  ai_opinions :: "single_opinion list"

record published_approval =
  pa_driveKey :: key
  pa_modifyTransactionHash :: hash256
  pa_rootHash :: hash256
  pa_replicatorKeys :: "key list"

definition to_published :: "approval_info \<Rightarrow> published_approval" where
  "to_published info =
     \<lparr>pa_driveKey = ai_driveKey info, pa_modifyTransactionHash = ai_modifyTransactionHash info,
      pa_rootHash = ai_rootHash info, pa_replicatorKeys = map so_replicatorKey (ai_opinions info)\<rparr>"

record verification_code =
  vc_tx :: hash256
  vc_replicatorKey :: key
  vc_driveKey :: key
  vc_code :: u64
  vc_signature :: signature

record verify_opinion =
  vo_publicKey :: key
  vo_opinions :: "byte list"
  vo_signature :: signature

record verify_approval =
  va_tx :: hash256
  va_driveKey :: key
  va_shardId :: "16 word"
  va_opinions :: "verify_opinion list"

record modify_traffic =
  mt_receivedSize :: u64
  mt_requestedSize :: u64

type_synonym traffic_map = "(key, modify_traffic) std_map"

subsection \<open>Signed messages\<close>

text \<open>
  The buffers given to \<^verbatim>\<open>crypto::Sign\<close> and \<^verbatim>\<open>crypto::Verify\<close>, which hash them one after the
  other.  A \<^verbatim>\<open>KeyAndBytes\<close> takes 40 bytes in memory.
\<close>

definition layout_bytes :: "key_and_bytes list \<Rightarrow> byte list" where
  "layout_bytes l = concat (map (\<lambda>(k, b). hash_bytes k @ le_bytes 8 b) l)"

definition opinion_message ::
  "key \<Rightarrow> hash256 \<Rightarrow> hash256 \<Rightarrow> modification_status \<Rightarrow> u64 \<Rightarrow> u64 \<Rightarrow> u64 \<Rightarrow> key_and_bytes list \<Rightarrow> byte list" where
  "opinion_message driveKey tx rootHash status fsTreeFileSize metaFilesSize driveSize layout =
     hash_bytes driveKey @ hash_bytes tx @ hash_bytes rootHash @ [status_byte status] @
     le_bytes 8 fsTreeFileSize @ le_bytes 8 metaFilesSize @ le_bytes 8 driveSize @ layout_bytes layout"

definition opinion_sign ::
  "(byte list \<Rightarrow> signature) \<Rightarrow> key \<Rightarrow> hash256 \<Rightarrow> hash256 \<Rightarrow> modification_status \<Rightarrow> u64 \<Rightarrow> u64 \<Rightarrow> u64 \<Rightarrow>
   single_opinion \<Rightarrow> single_opinion" where
  "opinion_sign sign driveKey tx rootHash status fsTreeFileSize metaFilesSize driveSize op =
     op\<lparr>so_signature := sign (opinion_message driveKey tx rootHash status fsTreeFileSize
          metaFilesSize driveSize (so_uploadLayout op))\<rparr>"

definition opinion_verify ::
  "(key \<Rightarrow> byte list \<Rightarrow> signature \<Rightarrow> bool) \<Rightarrow> key \<Rightarrow> hash256 \<Rightarrow> hash256 \<Rightarrow> modification_status \<Rightarrow> u64 \<Rightarrow>
   u64 \<Rightarrow> u64 \<Rightarrow> single_opinion \<Rightarrow> bool" where
  "opinion_verify verify driveKey tx rootHash status fsTreeFileSize metaFilesSize driveSize op =
     verify (so_replicatorKey op)
       (opinion_message driveKey tx rootHash status fsTreeFileSize metaFilesSize driveSize
          (so_uploadLayout op))
       (so_signature op)"

definition code_message :: "verification_code \<Rightarrow> byte list" where
  "code_message c = hash_bytes (vc_tx c) @ hash_bytes (vc_driveKey c) @ le_bytes 8 (vc_code c)"

definition code_sign :: "(byte list \<Rightarrow> signature) \<Rightarrow> verification_code \<Rightarrow> verification_code" where
  "code_sign sign c = c\<lparr>vc_signature := sign (code_message c)\<rparr>"

definition code_verify :: "(key \<Rightarrow> byte list \<Rightarrow> signature \<Rightarrow> bool) \<Rightarrow> verification_code \<Rightarrow> bool" where
  "code_verify verify c = verify (vc_replicatorKey c) (code_message c) (vc_signature c)"

definition verify_message :: "hash256 \<Rightarrow> key \<Rightarrow> 16 word \<Rightarrow> byte list \<Rightarrow> byte list" where
  "verify_message tx driveKey shardId ops =
     hash_bytes driveKey @ hash_bytes tx @ le_bytes 2 shardId @ ops"

definition verify_opinion_sign ::
  "(byte list \<Rightarrow> signature) \<Rightarrow> hash256 \<Rightarrow> key \<Rightarrow> 16 word \<Rightarrow> verify_opinion \<Rightarrow> verify_opinion" where
  "verify_opinion_sign sign tx driveKey shardId op =
     op\<lparr>vo_signature := sign (verify_message tx driveKey shardId (vo_opinions op))\<rparr>"

definition verify_opinion_verify ::
  "(key \<Rightarrow> byte list \<Rightarrow> signature \<Rightarrow> bool) \<Rightarrow> hash256 \<Rightarrow> key \<Rightarrow> 16 word \<Rightarrow> verify_opinion \<Rightarrow> bool" where
  "verify_opinion_verify verify tx driveKey shardId op =
     verify (vo_publicKey op) (verify_message tx driveKey shardId (vo_opinions op)) (vo_signature op)"

lemma layout_bytes_inject: "layout_bytes l = layout_bytes m \<longleftrightarrow> l = m"
proof (induction l arbitrary: m)
  case Nil
  then show ?case by (cases m) (auto simp: layout_bytes_def dest: arg_cong [of _ _ length])
next
  case (Cons e l)
  show ?case
  proof (cases m)
    case Nil
    then show ?thesis by (auto simp: layout_bytes_def split: prod.splits dest: arg_cong [of _ _ length])
  next
    case (Cons f m')
    then show ?thesis
      using Cons.IH [of m'] by (cases e; cases f) (auto simp: layout_bytes_def)
  qed
qed

lemma status_byte_inject: "status_byte s = status_byte t \<longleftrightarrow> s = t"
  by (cases s; cases t) simp_all

lemma opinion_message_eq:
  "opinion_message d tx r s a b c l = opinion_message d' tx' r' s' a' b' c' l' \<longleftrightarrow>
   d = d' \<and> tx = tx' \<and> r = r' \<and> s = s' \<and> a = a' \<and> b = b' \<and> c = c' \<and> l = l'"
  by (auto simp: opinion_message_def layout_bytes_inject status_byte_inject)

text \<open>
  A signed opinion commits to every field: two opinions with the same signed message have
  the same drive, modification, root hash, status, sizes and upload layout.  (The fields have
  fixed sizes and only the last one varies, so nothing can be shifted between them.)
\<close>

lemma opinion_message_commits_to_all_fields:
  "opinion_message d tx r s a b c l = opinion_message d' tx' r' s' a' b' c' l' \<longleftrightarrow>
   d = d' \<and> tx = tx' \<and> r = r' \<and> s = s' \<and> a = a' \<and> b = b' \<and> c = c' \<and> l = l'"
  by (rule opinion_message_eq)

end
