(* ===== verification/Opinion_Controller.thy ===== *)
theory Opinion_Controller
  imports Drive_Types
begin

section \<open>The modification opinion controller\<close>

text \<open>
  Model of \<^verbatim>\<open>src/drive/ModifyOpinionController.h\<close>: how a replicator accounts, per uploader, for
  the data it received while it executed modifications.  The cumulative uploads of the last
  approved modification and of the one under way are kept apart; both are saved for a restart
  by background jobs, which read the controller when they run.  With it, the traffic record of
  the drive that the controller reads and resets (\<^verbatim>\<open>DriveParams\<close>, \<^verbatim>\<open>FlatDrive.cpp\<close>).
\<close>

record cumulative_uploads =
  cu_modificationId :: hash256
  cu_uploads :: "(key, u64) std_map"

record opinion_controller =
  oc_clientKey :: key
  oc_approvedExpectedCumulativeDownload :: u64
  oc_approvedCumulativeUploads :: cumulative_uploads
  oc_notApprovedCumulativeUploads :: cumulative_uploads

text \<open>The restart values on disk; a missing file leaves the value to be loaded as it is.\<close>

record restart_values =
  rv_approvedCumulativeUploads :: "cumulative_uploads option"
  rv_notApprovedCumulativeUploads :: "cumulative_uploads option"
  rv_approvedModification :: "hash256 option"

datatype save_job = SaveNotApproved | SaveApproved hash256

definition new_controller :: "key \<Rightarrow> u64 \<Rightarrow> opinion_controller" where
  "new_controller client expectedCumulativeDownload =
     \<lparr>oc_clientKey = client,
      oc_approvedExpectedCumulativeDownload = expectedCumulativeDownload,
      oc_approvedCumulativeUploads = \<lparr>cu_modificationId = 0, cu_uploads = []\<rparr>,
      oc_notApprovedCumulativeUploads = \<lparr>cu_modificationId = 0, cu_uploads = []\<rparr>\<rparr>"

definition or_else :: "'a option \<Rightarrow> 'a \<Rightarrow> 'a" where
  "or_else x d = (case x of None \<Rightarrow> d | Some v \<Rightarrow> v)"

definition initialize :: "restart_values \<Rightarrow> opinion_controller \<Rightarrow> opinion_controller" where
  "initialize rv oc =
     oc\<lparr>oc_approvedCumulativeUploads :=
          or_else (rv_approvedCumulativeUploads rv) (oc_approvedCumulativeUploads oc),
        oc_notApprovedCumulativeUploads :=
          or_else (rv_notApprovedCumulativeUploads rv) (oc_notApprovedCumulativeUploads oc)\<rparr>"

text \<open>
  The background jobs; \<^verbatim>\<open>saveNotApprovedCumulativeUploadsForManualTask\<close> and
  \<^verbatim>\<open>saveRestartValuesForManualTask\<close> run the same code directly.
\<close>

fun run_job :: "save_job \<Rightarrow> opinion_controller \<Rightarrow> restart_values \<Rightarrow> restart_values" where
  "run_job SaveNotApproved oc rv =
     rv\<lparr>rv_notApprovedCumulativeUploads := Some (oc_notApprovedCumulativeUploads oc)\<rparr>"
| "run_job (SaveApproved modificationId) oc rv =
     rv\<lparr>rv_approvedCumulativeUploads := Some (oc_approvedCumulativeUploads oc),
        rv_approvedModification := Some modificationId\<rparr>"

definition increaseApprovedExpectedCumulativeDownload ::
  "u64 \<Rightarrow> opinion_controller \<Rightarrow> opinion_controller" where
  "increaseApprovedExpectedCumulativeDownload add oc =
     oc\<lparr>oc_approvedExpectedCumulativeDownload := oc_approvedExpectedCumulativeDownload oc + add\<rparr>"

subsection \<open>The traffic of the current modification\<close>

record modify_infos =
  mi_modifyInfo :: traffic_map
  mi_oldModifications :: "(hash256 \<times> traffic_map) list"

text \<open>
  \<^verbatim>\<open>resetCurrentModifyInfo\<close>, for the modification \<open>tx\<close> of the running task if there is one: the
  traffic moves to a history of at most 100 entries.
\<close>

definition resetCurrentModifyInfo :: "hash256 option \<Rightarrow> modify_infos \<Rightarrow> modify_infos" where
  "resetCurrentModifyInfo currentTx mi =
     (let old = mi_oldModifications mi;
          old' = (case currentTx of
                    None \<Rightarrow> old
                  | Some tx \<Rightarrow> (if 100 \<le> length old then tl old else old) @ [(tx, mi_modifyInfo mi)])
      in mi\<lparr>mi_oldModifications := old', mi_modifyInfo := []\<rparr>)"

text \<open>\<^verbatim>\<open>findModifyInfo\<close>: the traffic and whether the modification is finished.\<close>

definition findModifyInfo :: "hash256 \<Rightarrow> hash256 option \<Rightarrow> modify_infos \<Rightarrow> (traffic_map \<times> bool) option" where
  "findModifyInfo tx currentTx mi =
     (case find (\<lambda>m. fst m = tx) (mi_oldModifications mi) of
        Some m \<Rightarrow> Some (snd m, True)
      | None \<Rightarrow> if currentTx = Some tx then Some (mi_modifyInfo mi, False) else None)"

subsection \<open>Sharing out a modification\<close>

definition sum_uploads :: "(key, u64) std_map \<Rightarrow> u64" where
  "sum_uploads m = accumulate (map snd m)"

text \<open>
  The 128-bit product and quotient of \<^verbatim>\<open>normalizeUploads\<close>, cut to 64 bits; then its loop, with
  the running sum of what the other uploaders get.
\<close>

definition share :: "u64 \<Rightarrow> u64 \<Rightarrow> u64 \<Rightarrow> u64" where
  "share uploadBytes targetSum sumBefore =
     ucast ((ucast uploadBytes * ucast targetSum :: 128 word) div ucast sumBefore)"

fun share_loop :: "key \<Rightarrow> u64 \<Rightarrow> u64 \<Rightarrow> (key, u64) std_map \<Rightarrow> u64 \<Rightarrow> (key, u64) std_map \<times> u64" where
  "share_loop client targetSum sumBefore [] sumAfter = ([], sumAfter)"
| "share_loop client targetSum sumBefore ((k, b) # m) sumAfter =
     (if k \<noteq> client
      then let b' = share b targetSum sumBefore;
               (m', s) = share_loop client targetSum sumBefore m (sumAfter + b')
           in ((k, b') # m', s)
      else let (m', s) = share_loop client targetSum sumBefore m sumAfter
           in ((k, b) # m', s))"

definition normalizeUploads :: "key \<Rightarrow> (key, u64) std_map \<Rightarrow> u64 \<Rightarrow> (key, u64) std_map outcome" where
  "normalizeUploads client uploads targetSum =
     bind_outcome (sirius_assert (map_contains client uploads)) (\<lambda>_.
       let sumBefore = sum_uploads uploads
       in if 0 < sumBefore
          then let (m, sumAfter) = share_loop client targetSum sumBefore uploads 0
               in bind_outcome (sirius_assert (sumAfter \<le> targetSum)) (\<lambda>_.
                    Inr (map_put client (targetSum - sumAfter) m))
          else Inr (map_put client targetSum uploads))"

definition received :: "key \<Rightarrow> traffic_map \<Rightarrow> u64" where
  "received k traffic = (case map_find k traffic of None \<Rightarrow> 0 | Some t \<Rightarrow> mt_receivedSize t)"

definition current_uploads :: "key \<Rightarrow> key list \<Rightarrow> traffic_map \<Rightarrow> (key, u64) std_map" where
  "current_uploads client replicators traffic =
     map_put client (received client traffic)
       (fold (\<lambda>r m. map_put r (received r traffic) m) replicators [])"

definition add_uploads :: "(key, u64) std_map \<Rightarrow> (key, u64) std_map \<Rightarrow> (key, u64) std_map" where
  "add_uploads new m = fold (\<lambda>(k, b) m. map_put k (map_index k 0 m + b) m) new m"

definition updateCumulativeUploads ::
  "hash256 \<Rightarrow> key list \<Rightarrow> u64 \<Rightarrow> hash256 option \<Rightarrow> opinion_controller \<Rightarrow> modify_infos \<Rightarrow>
   (opinion_controller \<times> modify_infos \<times> save_job) outcome" where
  "updateCumulativeUploads modificationId replicators addCumulativeDownload currentTx oc mi =
     (let currentUploads = current_uploads (oc_clientKey oc) replicators (mi_modifyInfo mi);
          notApproved = oc_notApprovedCumulativeUploads oc;
          accounted = sum_uploads (cu_uploads notApproved);
          expected = oc_approvedExpectedCumulativeDownload oc + addCumulativeDownload
      in bind_outcome (sirius_assert (0 < expected)) (\<lambda>_.
           bind_outcome (sirius_assert (accounted \<le> expected)) (\<lambda>_.
             bind_outcome (normalizeUploads (oc_clientKey oc) currentUploads (expected - accounted)) (\<lambda>shares.
               Inr (oc\<lparr>oc_notApprovedCumulativeUploads :=
                         \<lparr>cu_modificationId = modificationId,
                          cu_uploads = add_uploads shares (cu_uploads notApproved)\<rparr>\<rparr>,
                    resetCurrentModifyInfo currentTx mi, SaveNotApproved)))))"

definition fillOpinion :: "key_and_bytes list \<Rightarrow> opinion_controller \<Rightarrow> key_and_bytes list outcome" where
  "fillOpinion replicatorsUploads oc =
     bind_outcome (sirius_assert (replicatorsUploads = [])) (\<lambda>_.
       Inr (cu_uploads (oc_notApprovedCumulativeUploads oc)))"

definition approveCumulativeUploads ::
  "hash256 \<Rightarrow> opinion_controller \<Rightarrow> (opinion_controller \<times> save_job) outcome" where
  "approveCumulativeUploads modificationId oc =
     bind_outcome
       (sirius_assert (modificationId = cu_modificationId (oc_notApprovedCumulativeUploads oc))) (\<lambda>_.
       Inr (oc\<lparr>oc_approvedCumulativeUploads := oc_notApprovedCumulativeUploads oc,
               oc_approvedExpectedCumulativeDownload :=
                 max (oc_approvedExpectedCumulativeDownload oc)
                   (sum_uploads (cu_uploads (oc_notApprovedCumulativeUploads oc)))\<rparr>,
            SaveApproved modificationId))"

definition disapproveCumulativeUploads ::
  "hash256 option \<Rightarrow> opinion_controller \<Rightarrow> modify_infos \<Rightarrow> opinion_controller \<times> modify_infos \<times> save_job" where
  "disapproveCumulativeUploads currentTx oc mi =
     (oc\<lparr>oc_notApprovedCumulativeUploads := oc_approvedCumulativeUploads oc\<rparr>,
      resetCurrentModifyInfo currentTx mi, SaveNotApproved)"

definition notApprovedModificationId :: "opinion_controller \<Rightarrow> hash256" where
  "notApprovedModificationId oc = cu_modificationId (oc_notApprovedCumulativeUploads oc)"

definition approvedModificationId :: "opinion_controller \<Rightarrow> hash256" where
  "approvedModificationId oc = cu_modificationId (oc_approvedCumulativeUploads oc)"

subsection \<open>The shares add up\<close>

abbreviation total :: "(key, u64) std_map \<Rightarrow> nat" where
  "total m \<equiv> \<Sum>e\<leftarrow>m. unat (snd e)"

lemma unat_sum_uploads: "total m < 2 ^ 64 \<Longrightarrow> unat (sum_uploads m) = total m"
  using unat_sum_list [of "map snd m"] by (simp add: sum_uploads_def accumulate_eq comp_def)

lemma unat_share:
  assumes "u \<le> s"
  shows "unat (share u t s) = unat u * unat t div unat s"
proof -
  have b: "unat x < 2 ^ 64" for x :: u64 by (rule u64_bound)
  have uc: "unat (ucast x :: 128 word) = unat x" for x :: u64
    using b [of x] by (simp add: unsigned_ucast_eq take_bit_nat_eq_self)
  have "unat u * unat t < 2 ^ 64 * 2 ^ 64" using b [of u] b [of t] by (intro mult_strict_mono) auto
  then have p: "unat (ucast u * ucast t :: 128 word) = unat u * unat t"
    by (simp add: unat_word_ariths uc)
  have "unat u * unat t div unat s \<le> unat t"
  proof (cases "unat s = 0")
    case False
    have "unat u * unat t div unat s \<le> unat s * unat t div unat s"
      using assms by (intro div_le_mono mult_right_mono) (simp_all add: word_le_nat_alt)
    also have "\<dots> = unat t" using False by simp
    finally show ?thesis .
  qed simp
  then have "unat u * unat t div unat s < 2 ^ 64" using b [of t] by simp
  moreover have "unat (share u t s) = take_bit 64 (unat u * unat t div unat s)"
  proof -
    have "unat (ucast x :: u64) = take_bit 64 (unat x)" for x :: "128 word"
      by (simp add: unsigned_ucast_eq)
    then show ?thesis by (simp only: share_def unat_div p uc)
  qed
  ultimately show ?thesis by (simp add: take_bit_nat_eq_self)
qed

lemma share_loop_spec:
  assumes "map_ok m" and "share_loop c t s m acc = (m', out)"
  shows "map fst m' = map fst m \<and>
    map (\<lambda>e. if fst e = c then 0 else snd e) m' = map (\<lambda>e. if fst e = c then 0 else share (snd e) t s) m \<and>
    out = acc + (\<Sum>e\<leftarrow>m. if fst e = c then 0 else share (snd e) t s) \<and>
    (\<forall>k. k \<noteq> c \<longrightarrow> map_find k m' = map_option (\<lambda>u. share u t s) (map_find k m))"
  using assms
proof (induction c t s m acc arbitrary: m' out rule: share_loop.induct)
  case (2 c t s k b m acc)
  then show ?case
    by (auto simp: Let_def map_find_def map_ok_Cons add.assoc split: prod.splits if_splits)
qed simp

lemma sum_shares_le:
  assumes "total m \<le> unat s"
  shows "(\<Sum>e\<leftarrow>m. unat (if fst e = c then 0 else share (snd e) t s)) \<le> unat t"
proof (cases "unat s = 0")
  case True
  then have "share u t s = 0" for u by (simp add: unat_eq_0 share_def)
  then show ?thesis by (simp add: if_distrib cong: if_cong)
next
  case False
  have le: "unat (if fst e = c then 0 else share (snd e) t s) * unat s \<le> unat (snd e) * unat t"
    if "e \<in> set m" for e
  proof -
    have "unat (snd e) \<le> total m" using that by (intro member_le_sum_list) auto
    then have "snd e \<le> s" using assms by (simp add: word_le_nat_alt)
    then show ?thesis by (simp add: unat_share)
  qed
  have "(\<Sum>e\<leftarrow>m. unat (if fst e = c then 0 else share (snd e) t s)) * unat s =
      (\<Sum>e\<leftarrow>m. unat (if fst e = c then 0 else share (snd e) t s) * unat s)"
    by (simp add: sum_list_mult_const)
  also have "\<dots> \<le> (\<Sum>e\<leftarrow>m. unat (snd e) * unat t)" using le by (rule sum_list_mono)
  also have "\<dots> = total m * unat t" by (simp add: sum_list_mult_const)
  also have "\<dots> \<le> unat t * unat s" using assms by (simp add: mult.commute mult_le_mono1)
  finally show ?thesis using False by simp
qed

lemma sum_list_zero_nat: "(\<Sum>x\<leftarrow>xs. f x) = (0::nat) \<longleftrightarrow> (\<forall>x\<in>set xs. f x = 0)"
  by (induction xs) auto

lemma map_keys_put_same: "map_ok m \<Longrightarrow> map_contains k m \<Longrightarrow> map fst (map_put k v m) = map fst m"
proof (induction m)
  case (Cons e m)
  then have "k \<noteq> fst e \<Longrightarrow> map_contains k m" by (cases e) (simp add: map_contains_def split: if_splits)
  moreover have "\<not> k < fst e"
    using Cons.prems by (cases e) (force simp: map_contains_def map_ok_Cons dest: map_of_SomeD split: if_splits)
  ultimately show ?case using Cons by (auto simp: map_ok_Cons)
qed (simp add: map_contains_def)

text \<open>The total as natural numbers when the word sum is known and nothing but one entry is free.\<close>

lemma total_put_client:
  assumes ok: "map_ok m" and c: "map_find c m = Some v"
    and rest: "(\<Sum>e\<leftarrow>m. unat (if fst e = c then 0 else snd e)) + unat w < 2 ^ 64"
  shows "total (map_put c w m) = (\<Sum>e\<leftarrow>m. unat (if fst e = c then 0 else snd e)) + unat w"
  using assms
proof (induction m)
  case (Cons e m)
  show ?case
  proof (cases "fst e = c")
    case True
    then have "\<forall>e'\<in>set m. fst e' \<noteq> c" using Cons.prems(1) by (auto simp: map_ok_Cons)
    then have "(\<Sum>e\<leftarrow>m. unat (if fst e = c then 0 else snd e)) = total m"
      by (intro arg_cong [of _ _ sum_list] map_cong) auto
    with True show ?thesis by simp
  next
    case False
    then have "map_find c m = Some v" using Cons.prems(2) by (cases e) (simp add: map_find_def)
    moreover have "fst e < c"
      using False map_of_smaller [OF Cons.prems(1), of c] calculation
      by (cases "c \<le> fst e") (auto simp: map_find_def)
    ultimately show ?thesis using Cons False by (simp add: map_ok_Cons)
  qed
qed simp

lemma normalizeUploads_returns:
  assumes ok: "map_ok uploads" and c: "map_contains client uploads" and fit: "total uploads < 2 ^ 64"
  shows "\<exists>m. normalizeUploads client uploads target = Inr m \<and> map fst m = map fst uploads \<and>
    total m = unat target \<and>
    (\<forall>k u. k \<noteq> client \<longrightarrow> map_find k uploads = Some u \<longrightarrow>
       map_find k m = Some (word_of_nat (unat u * unat target div total uploads)))"
proof -
  let ?s = "sum_uploads uploads"
  have us: "unat ?s = total uploads" by (rule unat_sum_uploads [OF fit])
  have small: "unat u \<le> total uploads" if "map_find k uploads = Some u" for k u
    using map_find_in_set [OF that] by (force intro: member_le_sum_list)
  show ?thesis
  proof (cases "0 < ?s")
    case True
    obtain m' sa where loop: "share_loop client target ?s uploads 0 = (m', sa)" by fastforce
    note sp = share_loop_spec [OF ok loop]
    let ?others = "\<Sum>e\<leftarrow>uploads. unat (if fst e = client then 0 else share (snd e) target ?s)"
    have le: "?others \<le> unat target" using sum_shares_le us by simp
    have sa: "unat sa = ?others"
      using sp unat_sum_list [of "map (\<lambda>e. if fst e = client then 0 else share (snd e) target ?s) uploads"]
        le u64_bound [of target] by (simp add: comp_def)
    have sat: "sa \<le> target" using sa le by (simp add: word_le_nat_alt)
    have ok': "map_ok m'" and c': "map_contains client m'"
      using ok c sp by (simp_all add: map_ok_def map_contains_find map_find_None_iff flip: set_map)
    obtain v where v: "map_find client m'= Some v" using c' by (auto simp: map_contains_find)
    have rest: "(\<Sum>e\<leftarrow>m'. unat (if fst e = client then 0 else snd e)) = ?others"
    proof -
      have "map unat (map (\<lambda>e. if fst e = client then 0 else snd e) m') =
          map unat (map (\<lambda>e. if fst e = client then 0 else share (snd e) target ?s) uploads)"
        using sp by (simp only:)
      then show ?thesis by (simp only: map_map comp_def)
    qed
    have "total (map_put client (target - sa) m') = unat target"
      using total_put_client [OF ok' v, of "target - sa"] rest sa le sat u64_bound [of target]
      by (simp add: unat_sub_le)
    moreover have "map_find k (map_put client (target - sa) m') =
        Some (word_of_nat (unat u * unat target div total uploads))"
      if "k \<noteq> client" "map_find k uploads = Some u" for k u
    proof -
      have "unat (share u target ?s) = unat u * unat target div total uploads"
        using small [OF that(2)] us by (simp add: unat_share word_le_nat_alt)
      then have "share u target ?s = word_of_nat (unat u * unat target div total uploads)"
        by (metis of_nat_unat ucast_id)
      with that sp show ?thesis by simp
    qed
    ultimately show ?thesis
      using True c loop sat sp ok' c' by (simp add: normalizeUploads_def map_keys_put_same)
  next
    case False
    then have z: "total uploads = 0" using us by (simp add: word_greater_zero_iff)
    have zero: "u = 0" if "map_find k uploads = Some u" for k u
      using small [OF that] z by (simp add: unat_eq_0)
    obtain v where v: "map_find client uploads = Some v" using c by (auto simp: map_contains_find)
    have z2: "(\<Sum>e\<leftarrow>uploads. unat (if fst e = client then 0 else snd e)) = 0"
      using z by (simp add: sum_list_zero_nat)
    have "total (map_put client target uploads) =
        (\<Sum>e\<leftarrow>uploads. unat (if fst e = client then 0 else snd e)) + unat target"
      by (rule total_put_client [OF ok v]) (simp only: z2 add_0 u64_bound)
    then have "total (map_put client target uploads) = unat target" by (simp only: z2 add_0)
    then show ?thesis
      using False c ok z by (auto simp: normalizeUploads_def map_keys_put_same dest: zero)
  qed
qed

text \<open>
  C13. \<^verbatim>\<open>normalizeUploads\<close> returns whenever the uploads fit in 64 bits, and distributes the
  target exactly: every other uploader gets its proportional part rounded down, the client gets
  the rest, the keys stay, and the parts add up to the target.
\<close>

theorem normalizeUploads_distributes_the_target:
  assumes ok: "map_ok uploads" and c: "map_contains client uploads" and fit: "total uploads < 2 ^ 64"
  shows "\<exists>m. normalizeUploads client uploads target = Inr m \<and> map fst m = map fst uploads \<and>
    total m = unat target \<and>
    (\<forall>k u. k \<noteq> client \<longrightarrow> map_find k uploads = Some u \<longrightarrow>
       map_find k m = Some (word_of_nat (unat u * unat target div total uploads)))"
  using normalizeUploads_returns [OF assms] .

subsection \<open>Cumulative uploads\<close>

lemma fold_put_ok: "map_ok m \<Longrightarrow> map_ok (fold (\<lambda>r m. map_put r (f r) m) rs m)"
  by (induction rs arbitrary: m) simp_all

lemma map_ok_current_uploads: "map_ok (current_uploads c rs t)" "map_contains c (current_uploads c rs t)"
  by (simp_all add: current_uploads_def fold_put_ok map_contains_find)

lemma total_put_add:
  assumes "map_ok m" and "total m + unat b < 2 ^ 64"
  shows "total (map_put k (map_index k 0 m + b) m) = total m + unat b"
proof (cases "map_find k m")
  case None
  then show ?thesis using sum_list_map_put [OF assms(1), where f = unat] by (simp add: map_index_def)
next
  case (Some v)
  have "unat v \<le> total m" using map_find_in_set [OF Some] by (force intro: member_le_sum_list)
  then have "unat (v + b) = unat v + unat b" using assms(2) by (intro unat_add_no_overflow) simp
  then show ?thesis
    using sum_list_map_put_exchange [OF assms(1) Some, where f = unat and w = "v + b"] Some
    by (simp add: map_index_def)
qed

lemma add_uploads_total:
  assumes "map_ok m" and "total m + total new < 2 ^ 64"
  shows "map_ok (add_uploads new m) \<and> total (add_uploads new m) = total m + total new"
  using assms unfolding add_uploads_def
proof (induction new arbitrary: m)
  case (Cons e new)
  obtain k b where e: "e = (k, b)" by (cases e)
  have "total (map_put k (map_index k 0 m + b) m) = total m + unat b"
    using Cons.prems e by (intro total_put_add) simp_all
  with Cons e show ?case by (simp add: add.assoc)
qed simp

text \<open>
  The state between modifications: the uploads accounted for, approved or not, do not exceed
  the download the drive expects.
\<close>

definition settled :: "opinion_controller \<Rightarrow> bool" where
  "settled oc \<longleftrightarrow>
     map_ok (cu_uploads (oc_approvedCumulativeUploads oc)) \<and>
     map_ok (cu_uploads (oc_notApprovedCumulativeUploads oc)) \<and>
     total (cu_uploads (oc_approvedCumulativeUploads oc)) \<le> unat (oc_approvedExpectedCumulativeDownload oc) \<and>
     total (cu_uploads (oc_notApprovedCumulativeUploads oc)) \<le> unat (oc_approvedExpectedCumulativeDownload oc)"

lemma updateCumulativeUploads_total:
  assumes st: "settled oc" and pos: "0 < unat (oc_approvedExpectedCumulativeDownload oc) + unat add"
    and fit: "unat (oc_approvedExpectedCumulativeDownload oc) + unat add < 2 ^ 64"
    and traffic: "total (current_uploads (oc_clientKey oc) replicators (mi_modifyInfo mi)) < 2 ^ 64"
  shows "\<exists>uploads. updateCumulativeUploads modId replicators add tx oc mi =
      Inr (oc\<lparr>oc_notApprovedCumulativeUploads := \<lparr>cu_modificationId = modId, cu_uploads = uploads\<rparr>\<rparr>,
           resetCurrentModifyInfo tx mi, SaveNotApproved) \<and> map_ok uploads \<and>
    total uploads = unat (oc_approvedExpectedCumulativeDownload oc) + unat add"
proof -
  let ?old = "cu_uploads (oc_notApprovedCumulativeUploads oc)"
  let ?e = "oc_approvedExpectedCumulativeDownload oc + add"
  have e: "unat ?e = unat (oc_approvedExpectedCumulativeDownload oc) + unat add"
    using fit by (intro unat_add_no_overflow) simp
  have "total ?old < 2 ^ 64" and ok: "map_ok ?old" using st fit by (simp_all add: settled_def)
  then have acc: "unat (sum_uploads ?old) = total ?old" by (intro unat_sum_uploads)
  have le: "sum_uploads ?old \<le> ?e" using st acc e by (simp add: settled_def word_le_nat_alt)
  have p: "0 < ?e" using pos e by (simp add: word_less_nat_alt)
  obtain m where m: "normalizeUploads (oc_clientKey oc)
        (current_uploads (oc_clientKey oc) replicators (mi_modifyInfo mi)) (?e - sum_uploads ?old) = Inr m"
      "total m = unat (?e - sum_uploads ?old)"
    using normalizeUploads_returns [OF map_ok_current_uploads traffic] by blast
  have "total ?old + total m = unat ?e"
    using m(2) le acc by (simp add: unat_sub_le word_le_nat_alt)
  then show ?thesis
    using add_uploads_total [OF ok, of m] m(1) p le e u64_bound [of ?e]
    by (auto simp: updateCumulativeUploads_def Let_def)
qed

text \<open>
  C12. A modification, from the calculation of its root hash to its approval or its
  cancellation, keeps the accounts: from a settled state, while the expected download fits in
  64 bits, \<^verbatim>\<open>updateCumulativeUploads\<close> returns and the opinion that \<^verbatim>\<open>fillOpinion\<close> then reports
  adds up to exactly the expected cumulative download.  Approving it returns, raises the
  approved expected download to that sum and leaves a settled state; cancelling it restores
  the approved uploads, also in a settled state.
\<close>

theorem modification_cycle_keeps_the_accounts:
  assumes st: "settled oc" and pos: "0 < unat (oc_approvedExpectedCumulativeDownload oc) + unat add"
    and fit: "unat (oc_approvedExpectedCumulativeDownload oc) + unat add < 2 ^ 64"
    and traffic: "total (current_uploads (oc_clientKey oc) replicators (mi_modifyInfo mi)) < 2 ^ 64"
  shows "\<exists>oc1 layout oc2.
    updateCumulativeUploads modId replicators add tx oc mi =
      Inr (oc1, resetCurrentModifyInfo tx mi, SaveNotApproved) \<and>
    fillOpinion [] oc1 = Inr layout \<and>
    total layout = unat (oc_approvedExpectedCumulativeDownload oc) + unat add \<and>
    approveCumulativeUploads modId oc1 = Inr (oc2, SaveApproved modId) \<and> settled oc2 \<and>
    oc_approvedExpectedCumulativeDownload oc2 = oc_approvedExpectedCumulativeDownload oc + add \<and>
    settled (fst (disapproveCumulativeUploads tx oc1 mi)) \<and>
    oc_notApprovedCumulativeUploads (fst (disapproveCumulativeUploads tx oc1 mi)) =
      oc_approvedCumulativeUploads oc"
proof -
  obtain uploads where u: "updateCumulativeUploads modId replicators add tx oc mi =
      Inr (oc\<lparr>oc_notApprovedCumulativeUploads := \<lparr>cu_modificationId = modId, cu_uploads = uploads\<rparr>\<rparr>,
           resetCurrentModifyInfo tx mi, SaveNotApproved)" "map_ok uploads"
      "total uploads = unat (oc_approvedExpectedCumulativeDownload oc) + unat add"
    using updateCumulativeUploads_total [OF assms] by blast
  let ?e = "oc_approvedExpectedCumulativeDownload oc + add"
  have e: "unat ?e = unat (oc_approvedExpectedCumulativeDownload oc) + unat add"
    using fit by (intro unat_add_no_overflow) simp
  have "unat (sum_uploads uploads) = unat ?e" using unat_sum_uploads [of uploads] u(3) fit e by simp
  then have s: "sum_uploads uploads = ?e" by (rule word_unat_eq_iff [THEN iffD2])
  have "oc_approvedExpectedCumulativeDownload oc \<le> ?e" using e by (simp add: word_le_nat_alt)
  then have "max (oc_approvedExpectedCumulativeDownload oc) ?e = ?e" by (rule max_absorb2)
  then show ?thesis
    using u st s e
    by (auto simp: fillOpinion_def approveCumulativeUploads_def disapproveCumulativeUploads_def settled_def)
qed

subsection \<open>The history of modifications\<close>

text \<open>
  The history never exceeds 100 entries, and a modification whose traffic was just stored
  is found there as finished, unless an older entry of the same modification is still in the
  history (then that one is found).
\<close>

lemma resetCurrentModifyInfo_history:
  assumes "length (mi_oldModifications mi) \<le> 100"
  shows "length (mi_oldModifications (resetCurrentModifyInfo t mi)) \<le> 100 \<and>
    mi_modifyInfo (resetCurrentModifyInfo t mi) = [] \<and>
    (\<forall>tx. t = Some tx \<longrightarrow> tx \<notin> fst ` set (mi_oldModifications mi) \<longrightarrow>
       findModifyInfo tx t (resetCurrentModifyInfo t mi) = Some (mi_modifyInfo mi, True))"
proof -
  let ?old = "mi_oldModifications mi"
  have f: "find (\<lambda>m. fst m = tx) (xs @ [(tx, v)]) = Some (tx, v)" if "tx \<notin> fst ` set xs"
    for tx :: hash256 and v :: traffic_map and xs
    using that by (induction xs) auto
  have "fst ` set (if 100 \<le> length ?old then tl ?old else ?old) \<subseteq> fst ` set ?old"
    by (cases ?old) auto
  then have "find (\<lambda>m. fst m = tx) ((if 100 \<le> length ?old then tl ?old else ?old) @ [(tx, v)]) =
      Some (tx, v)" if "tx \<notin> fst ` set ?old" for tx v
    using that by (intro f) blast
  then show ?thesis
    using assms by (auto simp: resetCurrentModifyInfo_def findModifyInfo_def Let_def split: option.splits)
qed

text \<open>
  A restart loses nothing that was saved: once the job of an update and the job of the
  following approval have run, a new controller initialised from the restart values has the
  same approved and not approved uploads, and the saved approved modification is the approved
  one.  If the program stops after the update's job and before the approval's, the new
  controller has the new uploads as not approved and the earlier ones as approved.
\<close>

lemma restart_restores_the_uploads:
  assumes "approveCumulativeUploads modId oc = Inr (oc2, job)"
    and "rv1 = run_job SaveNotApproved oc rv" and "rv2 = run_job job oc2 rv1"
  shows "oc_approvedCumulativeUploads (initialize rv2 (new_controller c e)) = oc_approvedCumulativeUploads oc2 \<and>
    oc_notApprovedCumulativeUploads (initialize rv2 (new_controller c e)) = oc_notApprovedCumulativeUploads oc2 \<and>
    rv_approvedModification rv2 = Some (approvedModificationId oc2) \<and>
    oc_notApprovedCumulativeUploads (initialize rv1 (new_controller c e)) = oc_notApprovedCumulativeUploads oc \<and>
    (rv_approvedCumulativeUploads rv = Some (oc_approvedCumulativeUploads oc) \<longrightarrow>
      oc_approvedCumulativeUploads (initialize rv1 (new_controller c e)) = oc_approvedCumulativeUploads oc)"
  using assms
  by (auto simp: approveCumulativeUploads_def bind_outcome_Inr_iff initialize_def or_else_def
      approvedModificationId_def)

subsection \<open>A small account\<close>

definition sample_uploads :: "(key, u64) std_map" where
  "sample_uploads = [(1, 10), (2, 30)]"

definition sample_infos :: modify_infos where
  "sample_infos = \<lparr>mi_modifyInfo = [(2, \<lparr>mt_receivedSize = 30, mt_requestedSize = 0\<rparr>)], mi_oldModifications = []\<rparr>"

theorem normalizeUploads_distributes_the_target_witness:
  "\<exists>m. normalizeUploads 1 sample_uploads 20 = Inr m \<and> total m = 20 \<and> map_find 2 m = Some 15"
proof -
  have "map_ok sample_uploads" "map_contains 1 sample_uploads" "total sample_uploads < 2 ^ 64"
    "total sample_uploads = 40" "map_find 2 sample_uploads = Some 30"
    by (simp_all add: sample_uploads_def map_ok_def map_contains_def map_find_def)
  then show ?thesis
    using normalizeUploads_distributes_the_target [of sample_uploads 1 20] by fastforce
qed

theorem modification_cycle_keeps_the_accounts_witness:
  "settled (new_controller 1 0) \<and>
   (\<exists>oc1 layout. updateCumulativeUploads 5 [2, 3] 10 (Some 5) (new_controller 1 0) sample_infos =
      Inr (oc1, resetCurrentModifyInfo (Some 5) sample_infos, SaveNotApproved) \<and>
      fillOpinion [] oc1 = Inr layout \<and> total layout = 10)"
proof -
  have st: "settled (new_controller 1 0)" by (simp add: settled_def new_controller_def map_ok_def)
  have "current_uploads 1 [2, 3] (mi_modifyInfo sample_infos) = [(1, 0), (2, 30), (3, 0)]"
    by code_simp
  then show ?thesis
    using modification_cycle_keeps_the_accounts [OF st, of 10 "[2, 3]" sample_infos 5 "Some 5"] st
    by (auto simp: new_controller_def)
qed

end
