(* ===== verification/Drive_Params.thy ===== *)
theory Drive_Params
  imports Fs_Locks Opinion_Controller
begin

section \<open>The state a drive shares with its tasks\<close>

text \<open>
  Model of \<^verbatim>\<open>DriveParams\<close> (\<^verbatim>\<open>src/drive/DriveParams.h\<close>): the fields of a drive that its tasks read
  and change, with the map of streams and the marking of used files.  A torrent handle is
  represented by whether it is valid.
\<close>

record torrent_use =
  tu_valid :: bool
  tu_isUsed :: bool

type_synonym torrent_map = "(hash256, torrent_use) std_map"

record drive_params =
  dp_driveKey :: key
  dp_driveOwner :: key
  dp_maxSize :: u64
  dp_replicatorKey :: key
  dp_minReplicatorsNumber :: nat
  dp_allReplicators :: "key list"
  dp_donatorShard :: "key list"
  dp_torrentHandleMap :: torrent_map
  dp_rootHash :: hash256
  dp_lastApprovedModification :: hash256
  dp_fsTree :: folder
  dp_modifyInfos :: modify_infos
  dp_streamMap :: "(hash256, hash256) std_map"
  dp_opinionController :: opinion_controller
  dp_savedOpinion :: "approval_info option"

subsection \<open>The stream map\<close>

definition PLAYLIST_FILE_NAME :: string where
  "PLAYLIST_FILE_NAME = ''playlist.m3u8''"

definition playlist_of :: "folder \<Rightarrow> hash256 option" where
  "playlist_of d = map_option fl_hash (iterate (\<lambda>f. fl_name f = PLAYLIST_FILE_NAME) d)"

definition stream_map :: "folder \<Rightarrow> (hash256, hash256) std_map" where
  "stream_map t =
     fold (\<lambda>d m. if fd_isaStream (fst d)
                 then (case playlist_of d of None \<Rightarrow> m | Some h \<Rightarrow> map_put (fd_streamId (fst d)) h m)
                 else m)
       (folders_below (snd t)) []"

definition updateStreamMap :: "drive_params \<Rightarrow> drive_params" where
  "updateStreamMap dp = dp\<lparr>dp_streamMap := stream_map (dp_fsTree dp)\<rparr>"

text \<open>\<^verbatim>\<open>acceptGetPlaylistHashRequest\<close>: the stream id and the hash that are put into the answer.\<close>

definition acceptGetPlaylistHashRequest :: "hash256 \<Rightarrow> drive_params \<Rightarrow> (hash256 \<times> hash256) option" where
  "acceptGetPlaylistHashRequest streamId dp =
     (case findStreamFolder streamId (dp_fsTree dp) of
        None \<Rightarrow> None
      | Some d \<Rightarrow> (case playlist_of d of None \<Rightarrow> None | Some h \<Rightarrow> Some (streamId, h)))"

text \<open>
  The first word of the answer of \<^verbatim>\<open>acceptGetChunksInfoMessage\<close> when no stream task overrides it.
\<close>

definition stream_is_ended :: "hash256 \<Rightarrow> drive_params \<Rightarrow> u32" where
  "stream_is_ended streamId dp = (if map_contains streamId (dp_streamMap dp) then 0xffffffff else 0xfffffff0)"

subsection \<open>Used files\<close>

text \<open>
  \<^verbatim>\<open>markUsedFiles\<close> after every entry was set to unused; a file that has no entry is only logged.
\<close>

definition markUsedFiles :: "folder \<Rightarrow> torrent_map \<Rightarrow> torrent_map" where
  "markUsedFiles d m =
     fold (\<lambda>f m. case map_find (fl_hash f) m of
                   None \<Rightarrow> m
                 | Some u \<Rightarrow> map_put (fl_hash f) (u\<lparr>tu_isUsed := True\<rparr>) m)
       (files_below (snd d)) m"

definition mark_all_unused :: "torrent_map \<Rightarrow> torrent_map" where
  "mark_all_unused m = map (\<lambda>e. (fst e, (snd e)\<lparr>tu_isUsed := False\<rparr>)) m"

definition erase_unused :: "torrent_map \<Rightarrow> torrent_map" where
  "erase_unused m = filter (\<lambda>e. tu_isUsed (snd e)) m"

definition unused_valid :: "torrent_map \<Rightarrow> hash256 list" where
  "unused_valid m = map fst (filter (\<lambda>e. \<not> tu_isUsed (snd e) \<and> tu_valid (snd e)) m)"

lemma mark_all_unused_find [simp]:
  "map_find h (mark_all_unused m) = map_option (\<lambda>u. u\<lparr>tu_isUsed := False\<rparr>) (map_find h m)"
  by (induction m) (auto simp: mark_all_unused_def map_find_def)

lemma mark_all_unused_ok [simp]: "map_ok (mark_all_unused m) = map_ok m"
  by (simp add: mark_all_unused_def)

lemma markUsedFiles_find:
  assumes "map_ok m"
  shows "map_ok (markUsedFiles d m) \<and> map_find h (markUsedFiles d m) =
    map_option (\<lambda>u. if h \<in> fl_hash ` set (files_below (snd d)) then u\<lparr>tu_isUsed := True\<rparr> else u) (map_find h m)"
proof -
  have "map_ok (fold (\<lambda>f m. case map_find (fl_hash f) m of None \<Rightarrow> m
        | Some u \<Rightarrow> map_put (fl_hash f) (u\<lparr>tu_isUsed := True\<rparr>) m) fs m) \<and>
      map_find h (fold (\<lambda>f m. case map_find (fl_hash f) m of None \<Rightarrow> m
        | Some u \<Rightarrow> map_put (fl_hash f) (u\<lparr>tu_isUsed := True\<rparr>) m) fs m) =
      map_option (\<lambda>u. if h \<in> fl_hash ` set fs then u\<lparr>tu_isUsed := True\<rparr> else u) (map_find h m)" for fs
    using assms
  proof (induction fs arbitrary: m)
    case Nil
    then show ?case by (simp add: option.map_ident)
  next
    case (Cons f fs)
    then show ?case
      by (cases "map_find (fl_hash f) m"; cases "h = fl_hash f")
        (auto simp: option.map_comp comp_def cong: option.map_cong)
  qed
  then show ?thesis by (simp add: markUsedFiles_def)
qed

text \<open>
  The two steps that bring the files of a drive in line with a new tree keep exactly the
  files the tree uses: after marking and erasing, an entry remains if and only if its hash is
  that of a file of the tree, and the torrents removed from the session are the valid handles
  of the others.
\<close>

lemma synchronizing_keeps_exactly_the_used_files:
  assumes "map_ok m"
  shows "map_contains h (erase_unused (markUsedFiles d (mark_all_unused m))) =
      (map_contains h m \<and> h \<in> fl_hash ` set (files_below (snd d))) \<and>
    h \<in> set (unused_valid (markUsedFiles d (mark_all_unused m))) =
      ((\<exists>u. map_find h m = Some u \<and> tu_valid u) \<and> h \<notin> fl_hash ` set (files_below (snd d)))"
proof -
  let ?m = "markUsedFiles d (mark_all_unused m)"
  have ok: "map_ok ?m" and f: "map_find h ?m = map_option
      (\<lambda>u. u\<lparr>tu_isUsed := h \<in> fl_hash ` set (files_below (snd d))\<rparr>) (map_find h m)"
    using assms markUsedFiles_find [of "mark_all_unused m" d h]
    by (auto simp: option.map_comp comp_def intro: option.map_cong)
  have mem: "h \<in> fst ` {e \<in> set ?m. P e} \<longleftrightarrow> (\<exists>u. map_find h ?m = Some u \<and> P (h, u))" for P
    using in_set_map_find [OF ok] by (force dest: map_find_in_set)
  show ?thesis
    by (auto simp: map_contains_find erase_unused_def map_find_filter [OF ok] unused_valid_def mem f
        split: option.splits)
qed

definition sample_torrents :: torrent_map where
  "sample_torrents = [(7, \<lparr>tu_valid = True, tu_isUsed = True\<rparr>), (9, \<lparr>tu_valid = True, tu_isUsed = True\<rparr>)]"

end
