(* ===== verification/Drive_Tasks.thy ===== *)
theory Drive_Tasks
  imports Drive_Params
begin

section \<open>Drive tasks and the approval of a modification\<close>

text \<open>
  Model of the task objects a drive runs one at a time: the defaults of \<^verbatim>\<open>DriveTaskBase.h\<close>, the
  common part of the tasks that change the drive (\<^verbatim>\<open>UpdateDriveTaskBase.h\<close>), the collection of
  opinions (\<^verbatim>\<open>ModifyApprovalTaskBase.h\<close>) and the overrides of \<^verbatim>\<open>ModifyDriveTask.cpp\<close>,
  \<^verbatim>\<open>StreamTask.cpp\<close>, \<^verbatim>\<open>SynchronizationTaskBase.h\<close>, \<^verbatim>\<open>CatchingUpTask.cpp\<close>,
  \<^verbatim>\<open>ManualSynchronizationTask.cpp\<close>, \<^verbatim>\<open>ManualModificationsTask.cpp\<close>, \<^verbatim>\<open>InitializeDriveTask.cpp\<close>,
  \<^verbatim>\<open>CancelModificationTask.cpp\<close> and \<^verbatim>\<open>CloseDriveTask.cpp\<close> that the drive calls.  The class of a
  task is its type, virtual functions dispatch on it, and one record holds the fields of the
  classes.  What a task asks of the rest of the program (messages, transactions, timers, the
  torrent session, the end of the task) is a list of effects in the order of the calls.
\<close>

text \<open>
  \<open>tk_requestHash\<close> is the hash of what the request asks to download: the action list of a
  modification, the root hash (\<^verbatim>\<open>getRootHash\<close>) of a synchronisation.
\<close>

record task =
  tk_type :: drive_task_type
  tk_tx :: hash256
  tk_requestHash :: hash256
  tk_maxDataSize :: u64
  tk_taskIsInterrupted :: bool
  tk_downloading :: bool
  tk_status :: modification_status
  tk_sandboxFsTree :: "folder option"
  tk_sandboxRootHash :: "hash256 option"
  tk_metaFilesSize :: u64
  tk_sandboxDriveSize :: u64
  tk_fsTreeSize :: u64
  tk_sandboxCalculated :: bool
  tk_myOpinion :: "approval_info option"
  tk_receivedOpinions :: "(key, approval_info) std_map"
  tk_modifyApproveTransactionSent :: bool
  tk_modifyApproveTxReceived :: bool
  tk_modifyOpinionTimer :: bool
  tk_actionListIsReceived :: bool
  tk_initialized :: bool
  tk_cancelRequests :: "hash256 list"
  tk_isExecutingQuery :: bool
  tk_taskIsFinished :: bool

datatype effect =
    FinishTask
  | RemoveDownload
  | RemoveTorrents "hash256 list"
  | SendSingleApproval approval_info
  | SendOpinion key approval_info
  | ModifyApprovalReady approval_info
  | ProcessOpinion approval_info
  | StartOpinionTimer
  | SaveUploads save_job
  | SaveMyOpinion "approval_info option"
  | Disapprove hash256

record world =
  w_task :: task
  w_params :: drive_params
  w_effects :: "effect list"

definition emit :: "effect \<Rightarrow> world \<Rightarrow> world" where
  "emit e w = w\<lparr>w_effects := w_effects w @ [e]\<rparr>"

definition new_task :: "drive_task_type \<Rightarrow> hash256 \<Rightarrow> hash256 \<Rightarrow> u64 \<Rightarrow> task" where
  "new_task ty tx root n =
     \<lparr>tk_type = ty, tk_tx = tx, tk_requestHash = root, tk_maxDataSize = n,
      tk_taskIsInterrupted = False, tk_downloading = False, tk_status = SUCCESS,
      tk_sandboxFsTree = None, tk_sandboxRootHash = None, tk_metaFilesSize = 0, tk_sandboxDriveSize = 0,
      tk_fsTreeSize = 0, tk_sandboxCalculated = False, tk_myOpinion = None, tk_receivedOpinions = [],
      tk_modifyApproveTransactionSent = False, tk_modifyApproveTxReceived = False,
      tk_modifyOpinionTimer = False, tk_actionListIsReceived = False, tk_initialized = False,
      tk_cancelRequests = [], tk_isExecutingQuery = False, tk_taskIsFinished = False\<rparr>"

text \<open>
  \<^verbatim>\<open>createModificationTask\<close>: the opinions that arrived early are handed to the constructor of
  \<^verbatim>\<open>ModifyApprovalTaskBase\<close>, which does not store them.
\<close>

definition createModificationTask :: "modification_request \<Rightarrow> (key, approval_info) std_map \<Rightarrow> task" where
  "createModificationTask r receivedOpinions =
     new_task MODIFICATION_REQUEST (mr_transactionHash r) (mr_clientDataInfoHash r) (mr_maxDataSize r)"

definition createStreamTask :: "stream_request \<Rightarrow> task" where
  "createStreamTask r = new_task STREAM_REQUEST (sr_streamId r) 0 (sr_maxSizeBytes r)"

definition createCatchingUpTask :: "catching_up_request \<Rightarrow> task" where
  "createCatchingUpTask r = new_task CATCHING_UP (cr_modifyTransactionHash r) (cr_rootHash r) 0"

text \<open>The classes derived from \<^verbatim>\<open>UpdateDriveTaskBase\<close>.\<close>

definition is_update_task :: "task \<Rightarrow> bool" where
  "is_update_task t \<longleftrightarrow> tk_type t \<in> {MODIFICATION_REQUEST, STREAM_REQUEST, CATCHING_UP, MANUAL_SYNCHRONIZATION}"

definition currentModifyTx :: "task option \<Rightarrow> hash256 option" where
  "currentModifyTx t = (case t of None \<Rightarrow> None | Some t \<Rightarrow> if is_update_task t then Some (tk_tx t) else None)"

definition getToBeApprovedDownloadSize :: "task \<Rightarrow> u64" where
  "getToBeApprovedDownloadSize t =
     (if tk_type t \<in> {MODIFICATION_REQUEST, STREAM_REQUEST} then tk_maxDataSize t else 0)"

subsection \<open>Ending a task\<close>

text \<open>
  \<^verbatim>\<open>finishTask\<close>: the sandbox is cleared in the background and then the drive runs its next task;
  the manual modification task guards against a second call.
\<close>

definition update_finishTask :: "world \<Rightarrow> world" where
  "update_finishTask w = emit FinishTask w"

definition manual_finishTask :: "world \<Rightarrow> world" where
  "manual_finishTask w =
     (if tk_taskIsFinished (w_task w) then w
      else emit FinishTask (w\<lparr>w_task := (w_task w)\<lparr>tk_taskIsFinished := True\<rparr>\<rparr>))"

definition finishTask :: "world \<Rightarrow> world" where
  "finishTask w =
     (if tk_type (w_task w) = MANUAL_MODIFICATION then manual_finishTask w else update_finishTask w)"

definition tryBreakTask :: "world \<Rightarrow> world" where
  "tryBreakTask w =
     (if tk_type (w_task w) \<in> {MODIFICATION_REQUEST, STREAM_REQUEST} \<and>
         tk_sandboxCalculated (w_task w) \<and> \<not> tk_modifyApproveTxReceived (w_task w)
      then finishTask w else w)"

text \<open>
  While a torrent is being downloaded it is removed from the session, and the callback of the
  removal finishes the task.
\<close>

definition breakTorrentDownloadAndRunNextTask :: "world \<Rightarrow> world" where
  "breakTorrentDownloadAndRunNextTask w =
     (let w1 = w\<lparr>w_task := (w_task w)\<lparr>tk_taskIsInterrupted := True\<rparr>\<rparr>
      in if tk_downloading (w_task w1)
         then finishTask (emit RemoveDownload (w1\<lparr>w_task := (w_task w1)\<lparr>tk_downloading := False\<rparr>\<rparr>))
         else tryBreakTask w1)"

definition terminate_manual :: "world \<Rightarrow> world" where
  "terminate_manual w =
     (if tk_taskIsInterrupted (w_task w) then w
      else let w1 = w\<lparr>w_task := (w_task w)\<lparr>tk_taskIsInterrupted := True\<rparr>\<rparr>
           in if tk_isExecutingQuery (w_task w1) then w1 else finishTask w1)"

definition terminate_task :: "world \<Rightarrow> world" where
  "terminate_task w =
     (case tk_type (w_task w) of
        MODIFICATION_REQUEST \<Rightarrow>
          breakTorrentDownloadAndRunNextTask (w\<lparr>w_task := (w_task w)\<lparr>tk_modifyOpinionTimer := False\<rparr>\<rparr>)
      | STREAM_REQUEST \<Rightarrow> breakTorrentDownloadAndRunNextTask w
      | CATCHING_UP \<Rightarrow> breakTorrentDownloadAndRunNextTask w
      | MANUAL_SYNCHRONIZATION \<Rightarrow> breakTorrentDownloadAndRunNextTask w
      | MANUAL_MODIFICATION \<Rightarrow> terminate_manual w
      | _ \<Rightarrow> w)"

text \<open>
  \<^verbatim>\<open>onDriveClose\<close> and \<^verbatim>\<open>manualSynchronize\<close>: the tasks that change the drive break off once; the
  cancellation lets a synchronisation be queued behind it.
\<close>

definition update_onDriveClose :: "world \<Rightarrow> world" where
  "update_onDriveClose w =
     (if tk_taskIsInterrupted (w_task w) then w else breakTorrentDownloadAndRunNextTask w)"

definition onDriveClose :: "world \<Rightarrow> world" where
  "onDriveClose w =
     (if is_update_task (w_task w) then update_onDriveClose w
      else if tk_type (w_task w) = MANUAL_MODIFICATION then terminate_manual w
      else w)"

definition update_manualSynchronize :: "world \<Rightarrow> bool \<times> world" where
  "update_manualSynchronize w =
     (True, if tk_taskIsInterrupted (w_task w) then w else breakTorrentDownloadAndRunNextTask w)"

definition manualSynchronize_task :: "world \<Rightarrow> bool \<times> world" where
  "manualSynchronize_task w =
     (if is_update_task (w_task w) then update_manualSynchronize w
      else if tk_type (w_task w) = MANUAL_MODIFICATION then (True, terminate_manual w)
      else (tk_type (w_task w) = MODIFICATION_CANCEL, w))"

definition onModificationInitiated :: "world \<Rightarrow> world outcome" where
  "onModificationInitiated w =
     (case tk_type (w_task w) of
        MANUAL_MODIFICATION \<Rightarrow> Inr (terminate_manual w)
      | MANUAL_SYNCHRONIZATION \<Rightarrow> Inl AssertionFailure
      | _ \<Rightarrow> Inr w)"

definition onStreamStarted :: "world \<Rightarrow> world" where
  "onStreamStarted w = (if tk_type (w_task w) = MANUAL_MODIFICATION then terminate_manual w else w)"

definition onManualModificationInitiated :: "world \<Rightarrow> world" where
  "onManualModificationInitiated w =
     (if tk_type (w_task w) = MANUAL_MODIFICATION then terminate_manual w else w)"

subsection \<open>Bringing the drive in line with the sandbox\<close>

definition startSynchronizingDriveWithSandbox :: "world \<Rightarrow> world outcome" where
  "startSynchronizingDriveWithSandbox w =
     bind_outcome (sirius_assert (\<not> tk_taskIsInterrupted (w_task w))) (\<lambda>_.
       case tk_sandboxFsTree (w_task w) of
         None \<Rightarrow> Inl NullDereference
       | Some tree \<Rightarrow>
           let m = markUsedFiles tree (mark_all_unused (dp_torrentHandleMap (w_params w)))
           in bind_outcome (sirius_assert (\<not> map_contains 0 m)) (\<lambda>_.
                Inr (emit (RemoveTorrents (unused_valid m))
                  (w\<lparr>w_params := (w_params w)\<lparr>dp_torrentHandleMap := m\<rparr>\<rparr>))))"

text \<open>
  \<^verbatim>\<open>continueSynchronizingDriveWithSandbox\<close> erases the unused entries; \<^verbatim>\<open>synchronizationIsCompleted\<close>
  approves the uploads; \<^verbatim>\<open>modifyIsCompleted\<close> then switches the drive to the sandbox.
\<close>

definition continueSynchronizingDriveWithSandbox :: "world \<Rightarrow> world" where
  "continueSynchronizingDriveWithSandbox w =
     w\<lparr>w_params := (w_params w)\<lparr>dp_torrentHandleMap := erase_unused (dp_torrentHandleMap (w_params w))\<rparr>\<rparr>"

definition synchronizationIsCompleted :: "world \<Rightarrow> world outcome" where
  "synchronizationIsCompleted w =
     bind_outcome (approveCumulativeUploads (tk_tx (w_task w)) (dp_opinionController (w_params w)))
       (\<lambda>(oc, job). Inr (emit (SaveUploads job)
          (w\<lparr>w_params := (w_params w)\<lparr>dp_opinionController := oc\<rparr>\<rparr>)))"

definition modifyIsCompleted :: "world \<Rightarrow> world outcome" where
  "modifyIsCompleted w =
     (case (tk_sandboxRootHash (w_task w), tk_sandboxFsTree (w_task w)) of
        (Some h, Some tree) \<Rightarrow>
          Inr (finishTask
            (w\<lparr>w_params := updateStreamMap ((w_params w)\<lparr>dp_fsTree := tree, dp_rootHash := h,
                  dp_lastApprovedModification := tk_tx (w_task w)\<rparr>),
               w_task := (w_task w)\<lparr>tk_sandboxFsTree := None\<rparr>\<rparr>))
      | (None, _) \<Rightarrow> Inl AssertionFailure
      | (Some _, None) \<Rightarrow> Inl NullDereference)"

subsection \<open>My opinion\<close>

definition myRootHashIsCalculated :: "world \<Rightarrow> world outcome" where
  "myRootHashIsCalculated w =
     (let t = w_task w; dp = w_params w
      in bind_outcome (sirius_assert (tk_sandboxFsTree t \<noteq> None)) (\<lambda>_.
         bind_outcome (sirius_assert (tk_sandboxRootHash t \<noteq> None)) (\<lambda>_.
           if tk_taskIsInterrupted t then Inr (finishTask w)
           else bind_outcome
                  (updateCumulativeUploads (tk_tx t) (dp_donatorShard dp) (getToBeApprovedDownloadSize t)
                     (currentModifyTx (Some t)) (dp_opinionController dp) (dp_modifyInfos dp))
                  (\<lambda>(oc, mi, job). Inr (emit (SaveUploads job)
                     (w\<lparr>w_params := dp\<lparr>dp_opinionController := oc, dp_modifyInfos := mi\<rparr>\<rparr>))))))"

text \<open>\<^verbatim>\<open>onCumulativeUploadsUpdated\<close>; \<open>sign\<close> signs with the key of the replicator.\<close>

definition onCumulativeUploadsUpdated :: "(byte list \<Rightarrow> signature) \<Rightarrow> world \<Rightarrow> world outcome" where
  "onCumulativeUploadsUpdated sign w =
     (let t = w_task w; dp = w_params w
      in if tk_taskIsInterrupted t then Inr (finishTask w)
         else case tk_sandboxRootHash t of
                None \<Rightarrow> Inl AssertionFailure
              | Some h \<Rightarrow>
                  bind_outcome (fillOpinion [] (dp_opinionController dp)) (\<lambda>layout.
                    let op = opinion_sign sign (dp_driveKey dp) (tk_tx t) h (tk_status t) (tk_fsTreeSize t)
                               (tk_metaFilesSize t) (tk_sandboxDriveSize t)
                               \<lparr>so_replicatorKey = dp_replicatorKey dp, so_uploadLayout = layout, so_signature = []\<rparr>;
                        info = \<lparr>ai_driveKey = dp_driveKey dp, ai_modifyTransactionHash = tk_tx t,
                                ai_rootHash = h, ai_status = tk_status t,
                                ai_fsTreeFileSize = tk_fsTreeSize t, ai_metaFilesSize = tk_metaFilesSize t,
                                ai_driveSize = tk_sandboxDriveSize t, ai_opinions = [op]\<rparr>
                    in Inr (emit (SaveMyOpinion (Some info))
                         (w\<lparr>w_task := t\<lparr>tk_myOpinion := Some info\<rparr>\<rparr>))))"

definition validateOpinion :: "approval_info \<Rightarrow> approval_info \<Rightarrow> bool" where
  "validateOpinion mine an \<longleftrightarrow>
     ai_rootHash mine = ai_rootHash an \<and> ai_status mine = ai_status an \<and>
     ai_fsTreeFileSize mine = ai_fsTreeFileSize an \<and> ai_metaFilesSize mine = ai_metaFilesSize an \<and>
     ai_driveSize mine = ai_driveSize an"

definition shareMyOpinion :: "world \<Rightarrow> world" where
  "shareMyOpinion w =
     (case tk_myOpinion (w_task w) of
        None \<Rightarrow> w
      | Some my \<Rightarrow>
          fold (\<lambda>r. emit (SendOpinion r my))
            (filter (\<lambda>r. r \<noteq> dp_replicatorKey (w_params w)) (dp_allReplicators (w_params w))) w)"

text \<open>
  \<^verbatim>\<open>opinionTimerExpired\<close>: \<^verbatim>\<open>m_opinions[0]\<close> of every opinion goes into the transaction.
\<close>

definition opinionTimerExpired :: "world \<Rightarrow> world outcome" where
  "opinionTimerExpired w =
     (let t = w_task w
      in if tk_modifyApproveTransactionSent t \<or> tk_modifyApproveTxReceived t then Inr w
         else case tk_myOpinion t of
                None \<Rightarrow> Inl NullDereference
              | Some my \<Rightarrow>
                  let info = my\<lparr>ai_driveKey := dp_driveKey (w_params w),
                        ai_opinions := hd (ai_opinions my) #
                          map (\<lambda>e. hd (ai_opinions (snd e))) (tk_receivedOpinions t)\<rparr>
                  in Inr (emit (ModifyApprovalReady info)
                       (w\<lparr>w_task := t\<lparr>tk_modifyApproveTransactionSent := True\<rparr>\<rparr>)))"

definition required_opinions :: "drive_params \<Rightarrow> nat" where
  "required_opinions dp =
     (max (dp_minReplicatorsNumber dp) (length (dp_allReplicators dp) + 1) * 2) div 3"

definition checkOpinionNumberAndStartTimer :: "world \<Rightarrow> world outcome" where
  "checkOpinionNumberAndStartTimer w =
     (let t = w_task w; n = length (tk_receivedOpinions t);
          pending = tk_myOpinion t \<noteq> None \<and> \<not> tk_modifyApproveTransactionSent t \<and>
                    \<not> tk_modifyApproveTxReceived t
      in if pending \<and> length (dp_allReplicators (w_params w)) \<le> n
         then opinionTimerExpired (w\<lparr>w_task := t\<lparr>tk_modifyOpinionTimer := False\<rparr>\<rparr>)
         else if pending \<and> required_opinions (w_params w) \<le> n \<and> \<not> tk_modifyOpinionTimer t
         then Inr (emit StartOpinionTimer (w\<lparr>w_task := t\<lparr>tk_modifyOpinionTimer := True\<rparr>\<rparr>))
         else Inr w)"

text \<open>
  \<^verbatim>\<open>myOpinionIsCreated\<close> of the approval tasks, and of the synchronisation tasks, where catching up
  first sends the single approval.
\<close>

definition sync_myOpinionIsCreated :: "world \<Rightarrow> world outcome" where
  "sync_myOpinionIsCreated w =
     (if tk_taskIsInterrupted (w_task w) then Inr (finishTask w)
      else startSynchronizingDriveWithSandbox (w\<lparr>w_task := (w_task w)\<lparr>tk_sandboxCalculated := True\<rparr>\<rparr>))"

definition catchingUp_myOpinionIsCreated :: "world \<Rightarrow> world outcome" where
  "catchingUp_myOpinionIsCreated w =
     (case tk_myOpinion (w_task w) of
        None \<Rightarrow> Inl AssertionFailure
      | Some my \<Rightarrow> sync_myOpinionIsCreated (emit (SendSingleApproval my) w))"

definition approval_myOpinionIsCreated :: "world \<Rightarrow> world outcome" where
  "approval_myOpinionIsCreated w =
     (case tk_myOpinion (w_task w) of
        None \<Rightarrow> Inl AssertionFailure
      | Some my \<Rightarrow>
          if tk_taskIsInterrupted (w_task w) then Inr (finishTask w)
          else let w1 = w\<lparr>w_task := (w_task w)\<lparr>tk_sandboxCalculated := True\<rparr>\<rparr>
               in if tk_modifyApproveTxReceived (w_task w)
                  then startSynchronizingDriveWithSandbox (emit (SendSingleApproval my) w1)
                  else let w2 = shareMyOpinion w1;
                           w3 = w2\<lparr>w_task := (w_task w2)\<lparr>tk_receivedOpinions :=
                                  filter (\<lambda>e. validateOpinion my (snd e))
                                    (tk_receivedOpinions (w_task w2))\<rparr>\<rparr>
                       in checkOpinionNumberAndStartTimer w3)"

definition myOpinionIsCreated :: "world \<Rightarrow> world outcome" where
  "myOpinionIsCreated w =
     (case tk_type (w_task w) of
        MANUAL_SYNCHRONIZATION \<Rightarrow> sync_myOpinionIsCreated w
      | CATCHING_UP \<Rightarrow> catchingUp_myOpinionIsCreated w
      | _ \<Rightarrow> approval_myOpinionIsCreated w)"

subsection \<open>Opinions and transactions of others\<close>

text \<open>Opinions carry exactly one entry (\<^verbatim>\<open>m_opinions[0]\<close>).\<close>

definition put_opinion :: "approval_info \<Rightarrow> task \<Rightarrow> task" where
  "put_opinion an t =
     t\<lparr>tk_receivedOpinions := map_put (so_replicatorKey (hd (ai_opinions an))) an (tk_receivedOpinions t)\<rparr>"

definition modify_processedModifyOpinion :: "approval_info \<Rightarrow> world \<Rightarrow> (bool \<times> world) outcome" where
  "modify_processedModifyOpinion an w =
     (let t = w_task w
      in if tk_tx t \<noteq> ai_modifyTransactionHash an then Inr (False, w)
         else (case tk_myOpinion t of
                 Some my \<Rightarrow>
                   if validateOpinion my an
                   then bind_outcome (checkOpinionNumberAndStartTimer (w\<lparr>w_task := put_opinion an t\<rparr>))
                          (\<lambda>w'. Inr (True, w'))
                   else Inr (True, w)
               | None \<Rightarrow> Inr (True, w\<lparr>w_task := put_opinion an t\<rparr>)))"

definition stream_processedModifyOpinion :: "approval_info \<Rightarrow> world \<Rightarrow> (bool \<times> world) outcome" where
  "stream_processedModifyOpinion an w =
     (let t = w_task w
      in case tk_myOpinion t of
           Some my \<Rightarrow>
             if tk_tx t = ai_modifyTransactionHash an \<and> validateOpinion my an
             then bind_outcome (checkOpinionNumberAndStartTimer (w\<lparr>w_task := put_opinion an t\<rparr>))
                    (\<lambda>w'. Inr (True, w'))
             else Inr (True, w)
         | None \<Rightarrow> Inr (True, w))"

definition processedModifyOpinion :: "approval_info \<Rightarrow> world \<Rightarrow> (bool \<times> world) outcome" where
  "processedModifyOpinion an w =
     (case tk_type (w_task w) of
        MODIFICATION_REQUEST \<Rightarrow> modify_processedModifyOpinion an w
      | STREAM_REQUEST \<Rightarrow> stream_processedModifyOpinion an w
      | _ \<Rightarrow> Inr (False, w))"

definition increase_expected :: "u64 \<Rightarrow> world \<Rightarrow> world" where
  "increase_expected n w =
     w\<lparr>w_params := (w_params w)\<lparr>dp_opinionController :=
          increaseApprovedExpectedCumulativeDownload n (dp_opinionController (w_params w))\<rparr>\<rparr>"

text \<open>
  The two outcomes of a published approval for a task that collects opinions: it is for the own
  sandbox, or the drive is left behind.  The first sends the own opinion on its own if it is not
  part of the transaction.
\<close>

definition synchronize_approved :: "published_approval \<Rightarrow> world \<Rightarrow> (bool \<times> world) outcome" where
  "synchronize_approved tx w =
     bind_outcome
       (if dp_replicatorKey (w_params w) \<in> set (pa_replicatorKeys tx) then Inr w
        else case tk_myOpinion (w_task w) of
               None \<Rightarrow> Inl NullDereference
             | Some my \<Rightarrow> Inr (emit (SendSingleApproval my) w))
       (\<lambda>w1. bind_outcome (startSynchronizingDriveWithSandbox w1) (\<lambda>w2. Inr (False, w2)))"

definition leave_behind :: "world \<Rightarrow> world" where
  "leave_behind w =
     breakTorrentDownloadAndRunNextTask (increase_expected (tk_maxDataSize (w_task w)) w)"

text \<open>The answer is whether catching up should be started.\<close>

definition modify_onApprovalTxPublished :: "published_approval \<Rightarrow> world \<Rightarrow> (bool \<times> world) outcome" where
  "modify_onApprovalTxPublished tx w =
     (let t = w_task w; w1 = w\<lparr>w_task := t\<lparr>tk_modifyApproveTxReceived := True\<rparr>\<rparr>
      in if tk_taskIsInterrupted t then Inr (True, w)
         else if tk_tx t = pa_modifyTransactionHash tx \<and>
                 (tk_actionListIsReceived t \<or> tk_status t \<noteq> SUCCESS)
         then if \<not> tk_sandboxCalculated t then Inr (False, w1) else synchronize_approved tx w1
         else Inr (True, leave_behind w1))"

definition stream_onApprovalTxPublished :: "published_approval \<Rightarrow> world \<Rightarrow> (bool \<times> world) outcome" where
  "stream_onApprovalTxPublished tx w =
     (let t = w_task w; w1 = w\<lparr>w_task := t\<lparr>tk_modifyApproveTxReceived := True\<rparr>\<rparr>
      in if tk_taskIsInterrupted t then Inr (True, w)
         else if tk_tx t = pa_modifyTransactionHash tx \<and> tk_sandboxCalculated t
         then synchronize_approved tx w1
         else Inr (True, leave_behind w1))"

definition catchingUp_onApprovalTxPublished :: "published_approval \<Rightarrow> world \<Rightarrow> (bool \<times> world) outcome" where
  "catchingUp_onApprovalTxPublished tx w =
     Inr (True, if tk_taskIsInterrupted (w_task w) then w else breakTorrentDownloadAndRunNextTask w)"

definition onApprovalTxPublished :: "published_approval \<Rightarrow> world \<Rightarrow> (bool \<times> world) outcome" where
  "onApprovalTxPublished tx w =
     (case tk_type (w_task w) of
        MODIFICATION_REQUEST \<Rightarrow> modify_onApprovalTxPublished tx w
      | STREAM_REQUEST \<Rightarrow> stream_onApprovalTxPublished tx w
      | CATCHING_UP \<Rightarrow> catchingUp_onApprovalTxPublished tx w
      | MANUAL_MODIFICATION \<Rightarrow> Inr (True, terminate_manual w)
      | DRIVE_INITIALIZATION \<Rightarrow> Inr (True, w)
      | MANUAL_SYNCHRONIZATION \<Rightarrow> Inl AssertionFailure
      | DRIVE_CLOSURE \<Rightarrow> Inl AssertionFailure
      | _ \<Rightarrow> Inr (False, w))"

text \<open>The answer is whether the running modification has to be cancelled.\<close>

definition modify_shouldCancelModify :: "hash256 \<Rightarrow> world \<Rightarrow> (bool \<times> world) outcome" where
  "modify_shouldCancelModify tx w =
     (if tk_taskIsInterrupted (w_task w) then Inr (False, w)
      else if tx = tk_tx (w_task w) then Inr (True, breakTorrentDownloadAndRunNextTask w)
      else Inr (False, w))"

definition catchingUp_shouldCancelModify :: "hash256 \<Rightarrow> world \<Rightarrow> (bool \<times> world) outcome" where
  "catchingUp_shouldCancelModify tx w =
     (if tx = notApprovedModificationId (dp_opinionController (w_params w))
      then bind_outcome (sirius_assert (tx \<noteq> tk_tx (w_task w))) (\<lambda>_.
             bind_outcome (sirius_assert (dp_lastApprovedModification (w_params w) = tk_tx (w_task w))) (\<lambda>_.
               Inr (True, w)))
      else Inr (False, w))"

definition init_shouldCancelModify :: "hash256 \<Rightarrow> world \<Rightarrow> (bool \<times> world) outcome" where
  "init_shouldCancelModify tx w =
     (let t = w_task w
      in if tk_initialized t
         then Inr (notApprovedModificationId (dp_opinionController (w_params w)) = tx, w)
         else Inr (False, w\<lparr>w_task := t\<lparr>tk_cancelRequests := tk_cancelRequests t @ [tx]\<rparr>\<rparr>))"

definition shouldCancelModify :: "hash256 \<Rightarrow> world \<Rightarrow> (bool \<times> world) outcome" where
  "shouldCancelModify tx w =
     (case tk_type (w_task w) of
        MODIFICATION_REQUEST \<Rightarrow> modify_shouldCancelModify tx w
      | STREAM_REQUEST \<Rightarrow> modify_shouldCancelModify tx w
      | CATCHING_UP \<Rightarrow> catchingUp_shouldCancelModify tx w
      | DRIVE_INITIALIZATION \<Rightarrow> init_shouldCancelModify tx w
      | MANUAL_SYNCHRONIZATION \<Rightarrow> Inl AssertionFailure
      | DRIVE_CLOSURE \<Rightarrow> Inl AssertionFailure
      | _ \<Rightarrow> Inr (False, w))"

definition onApprovalTxFailed :: "hash256 \<Rightarrow> world \<Rightarrow> world" where
  "onApprovalTxFailed tx w =
     (let t = w_task w
      in if tk_type t = MODIFICATION_REQUEST \<and> tk_tx t = tx \<and> \<not> tk_taskIsInterrupted t \<and>
            \<not> tk_modifyApproveTxReceived t
         then let w1 = fold (\<lambda>e. emit (ProcessOpinion (snd e))) (tk_receivedOpinions t)
                         (w\<lparr>w_task := t\<lparr>tk_modifyApproveTransactionSent := False\<rparr>\<rparr>)
              in w1\<lparr>w_task := (w_task w1)\<lparr>tk_receivedOpinions := []\<rparr>\<rparr>
         else w)"

text \<open>\<^verbatim>\<open>modifyIsCompletedWithError\<close>, with the background step that keeps the drive as it is.\<close>

definition modifyIsCompletedWithError :: "modification_status \<Rightarrow> world \<Rightarrow> world outcome" where
  "modifyIsCompletedWithError status w =
     bind_outcome (sirius_assert (status \<noteq> SUCCESS)) (\<lambda>_.
       myRootHashIsCalculated
         (w\<lparr>w_task := (w_task w)\<lparr>tk_downloading := False, tk_status := status,
              tk_sandboxRootHash := Some (dp_rootHash (w_params w)),
              tk_sandboxFsTree := Some (dp_fsTree (w_params w))\<rparr>\<rparr>))"

subsection \<open>Starting a task\<close>

text \<open>
  The part of \<^verbatim>\<open>run\<close> before the first asynchronous step: a modification downloads its action
  list, a synchronisation the tree unless it is already there, a cancellation restores the
  approved uploads, a closure removes all torrents.
\<close>

definition modify_run :: "world \<Rightarrow> world outcome" where
  "modify_run w =
     bind_outcome (sirius_assert (\<not> map_contains (tk_requestHash (w_task w)) (dp_torrentHandleMap (w_params w)))) (\<lambda>_.
       Inr (w\<lparr>w_task := (w_task w)\<lparr>tk_downloading := True\<rparr>\<rparr>))"

definition sync_run :: "world \<Rightarrow> world outcome" where
  "sync_run w =
     (let t = w_task w; dp = w_params w
      in if dp_lastApprovedModification dp = tk_tx t
         then bind_outcome (sirius_assert (dp_rootHash dp = tk_requestHash t)) (\<lambda>_. Inr (finishTask w))
         else if tk_requestHash t = dp_rootHash dp then Inr w
         else Inr (w\<lparr>w_task := t\<lparr>tk_downloading := True\<rparr>\<rparr>))"

definition cancel_run :: "world \<Rightarrow> world outcome" where
  "cancel_run w =
     (case disapproveCumulativeUploads None (dp_opinionController (w_params w)) (dp_modifyInfos (w_params w)) of
        (oc, mi, job) \<Rightarrow>
          Inr (emit (SaveUploads job)
            (w\<lparr>w_params := (w_params w)\<lparr>dp_opinionController := oc, dp_modifyInfos := mi\<rparr>\<rparr>)))"

definition close_run :: "world \<Rightarrow> world outcome" where
  "close_run w =
     bind_outcome (sirius_assert (\<not> map_contains 0 (dp_torrentHandleMap (w_params w)))) (\<lambda>_.
       Inr (emit (RemoveTorrents (map fst (dp_torrentHandleMap (w_params w)))) w))"

definition run_task :: "world \<Rightarrow> world outcome" where
  "run_task w =
     (case tk_type (w_task w) of
        MODIFICATION_REQUEST \<Rightarrow> modify_run w
      | MODIFICATION_CANCEL \<Rightarrow> cancel_run w
      | DRIVE_CLOSURE \<Rightarrow> close_run w
      | CATCHING_UP \<Rightarrow> sync_run w
      | MANUAL_SYNCHRONIZATION \<Rightarrow> sync_run w
      | _ \<Rightarrow> Inr w)"

end
