(* ===== verification/Modify_Sandbox.thy ===== *)
theory Modify_Sandbox
  imports Drive_Tasks
begin

section \<open>Executing an action list in the sandbox\<close>

text \<open>
  Model of the body of a modification in \<^verbatim>\<open>src/drive/ModifyDriveTask.cpp\<close>: the download of the
  files the action list names (\<^verbatim>\<open>prepareDownloadMissingFiles\<close>, \<^verbatim>\<open>downloadMissingFiles\<close>), the
  execution of the actions on a copy of the tree and the check of the space
  (\<^verbatim>\<open>modifyFsTreeInSandbox\<close>), with the sizes of \<^verbatim>\<open>UpdateDriveTaskBase.h\<close>.

  The disk is a parameter: the sizes of the files of the drive folder and of the torrent
  folder by name (\<open>None\<close> when there is no such file), the size and hash that serialising a
  tree and creating its torrent give, the working directory.
\<close>

record disk =
  dk_cwd :: string
  dk_driveRootExists :: bool
  dk_driveFolder :: "string \<Rightarrow> u64 option"
  dk_torrentFolder :: "string \<Rightarrow> u64 option"
  dk_treeFile :: "folder \<Rightarrow> u64"
  dk_treeTorrent :: "folder \<Rightarrow> u64"
  dk_createTorrentFile :: "folder \<Rightarrow> hash256"

subsection \<open>Missing files\<close>

text \<open>
  \<^verbatim>\<open>prepareDownloadMissingFiles\<close>: \<^verbatim>\<open>m_missedFileSet\<close> is an ordered set.  A list that cannot be read
  (\<open>None\<close>) reports the error and goes on with an empty list.
\<close>

fun missed_files :: "action list \<Rightarrow> (hash256, unit) std_map \<Rightarrow> (hash256, unit) std_map outcome" where
  "missed_files [] ms = Inr ms"
| "missed_files (a # as) ms =
     (if m_isInvalid a \<or> m_actionId a \<noteq> upload then missed_files as ms
      else bind_outcome (stringToByteArray (m_param1 a)) (\<lambda>h. missed_files as (map_put h () ms)))"

datatype prepared = NoActionList | Prepared bool "hash256 list"

definition prepareDownloadMissingFiles :: "bool \<Rightarrow> action list option \<Rightarrow> prepared outcome" where
  "prepareDownloadMissingFiles actionListExists actionList =
     (if \<not> actionListExists then Inr NoActionList
      else bind_outcome (missed_files (case actionList of None \<Rightarrow> [] | Some as \<Rightarrow> as) []) (\<lambda>ms.
             Inr (Prepared (actionList = None) (map fst ms))))"

text \<open>
  The loop of \<^verbatim>\<open>downloadMissingFiles\<close>: a file of the drive is skipped, and so is the zero hash,
  whose entry is read all the same.
\<close>

fun next_missing :: "torrent_map \<Rightarrow> hash256 list \<Rightarrow> (hash256 option \<times> hash256 list) outcome" where
  "next_missing m [] = Inr (None, [])"
| "next_missing m (h # hs) =
     (if h = 0 \<or> map_contains h m
      then case map_find h m of
             None \<Rightarrow> Inl UseAfterFree
           | Some u \<Rightarrow> bind_outcome (sirius_assert (tu_valid u)) (\<lambda>_. next_missing m hs)
      else Inr (Some h, hs))"

definition downloadMissingFiles :: "hash256 list \<Rightarrow> world \<Rightarrow> (hash256 option \<times> hash256 list \<times> world) outcome" where
  "downloadMissingFiles missed w =
     bind_outcome (sirius_assert (\<not> tk_taskIsInterrupted (w_task w))) (\<lambda>_.
       bind_outcome (next_missing (dp_torrentHandleMap (w_params w)) missed) (\<lambda>(file, rest).
         case file of
           Some h \<Rightarrow>
             Inr (Some h, rest,
               w\<lparr>w_task := (w_task w)\<lparr>tk_downloading := True\<rparr>,
                 w_params := (w_params w)\<lparr>dp_torrentHandleMap :=
                   map_put h \<lparr>tu_valid = True, tu_isUsed = False\<rparr> (dp_torrentHandleMap (w_params w))\<rparr>\<rparr>)
         | None \<Rightarrow> Inr (None, rest, w\<lparr>w_task := (w_task w)\<lparr>tk_downloading := False\<rparr>\<rparr>)))"

text \<open>The callbacks of a download: the action list, or a missing file, has arrived or has failed.\<close>

definition download_failed :: "hash256 \<Rightarrow> world \<Rightarrow> world outcome" where
  "download_failed infoHash w =
     modifyIsCompletedWithError DOWNLOAD_FAILED
       (w\<lparr>w_params := (w_params w)\<lparr>dp_torrentHandleMap :=
            map_erase infoHash (dp_torrentHandleMap (w_params w))\<rparr>\<rparr>)"

definition actionList_complete :: "world \<Rightarrow> world" where
  "actionList_complete w =
     (if tk_taskIsInterrupted (w_task w) then w
      else w\<lparr>w_task := (w_task w)\<lparr>tk_downloading := False, tk_actionListIsReceived := True\<rparr>\<rparr>)"

text \<open>
  Calling \<^verbatim>\<open>downloadMissingFiles\<close> again after every completed download, until it goes on to the
  tree: the hashes downloaded, in order.
\<close>

lemma next_missing_shorter: "next_missing m hs = Inr (Some h, rest) \<Longrightarrow> length rest < length hs"
  by (induction m hs rule: next_missing.induct)
    (fastforce split: if_splits option.splits simp: bind_outcome_Inr_iff)+

lemma downloadMissingFiles_shorter:
  "downloadMissingFiles missed w = Inr (Some h, rest, w') \<Longrightarrow> length rest < length missed"
  by (auto simp: downloadMissingFiles_def bind_outcome_Inr_iff split: option.splits
      dest: next_missing_shorter)

function download_all :: "hash256 list \<Rightarrow> world \<Rightarrow> (hash256 list \<times> world) outcome" where
  "download_all missed w =
     (case downloadMissingFiles missed w of
        Inl e \<Rightarrow> Inl e
      | Inr (None, rest, w') \<Rightarrow> Inr ([], w')
      | Inr (Some h, rest, w') \<Rightarrow> bind_outcome (download_all rest w') (\<lambda>(hs, w''). Inr (h # hs, w'')))"
  by pat_completeness auto
termination
  by (relation "measure (\<lambda>(missed, w). length missed)") (auto dest: downloadMissingFiles_shorter)

declare download_all.simps [simp del]

subsection \<open>The actions\<close>

record sandbox =
  sb_tree :: folder
  sb_stats :: stats
  sb_torrents :: torrent_map

text \<open>
  One iteration of the loop over the actions.  The answer is whether the action was marked
  invalid.
\<close>

definition upload_target :: "action \<Rightarrow> folder \<Rightarrow> string \<times> string" where
  "upload_target a d =
     (case getEntryPtr (m_param2 a) d of
        Some (CFolder _ _) \<Rightarrow> (m_param2 a, m_filename a)
      | _ \<Rightarrow> (parent_path (m_param2 a), filename (m_param2 a)))"

definition perform_upload :: "disk \<Rightarrow> action \<Rightarrow> sandbox \<Rightarrow> (bool \<times> sandbox) outcome" where
  "perform_upload dk a s =
     (case dk_driveFolder dk (m_param1 a) of
        None \<Rightarrow> Inr (True, s)
      | Some fileSize \<Rightarrow>
          (case stringToByteArray (m_param1 a) of
             Inl _ \<Rightarrow> Inr (False, s)
           | Inr fileHash \<Rightarrow>
               let (destFolder, srcFile) = upload_target a (sb_tree s);
                   (_, d, st) = addFile destFolder srcFile fileHash fileSize (sb_tree s) (sb_stats s)
               in Inr (False, s\<lparr>sb_tree := d, sb_stats := st\<rparr>)))"

definition perform_new_folder :: "action \<Rightarrow> sandbox \<Rightarrow> (bool \<times> sandbox) outcome" where
  "perform_new_folder a s =
     (if getEntryPtr (m_param1 a) (sb_tree s) \<noteq> None then Inr (True, s)
      else bind_outcome (addFolder (m_param1 a) (sb_tree s) (sb_stats s)) (\<lambda>(_, d, st).
             Inr (False, s\<lparr>sb_tree := d, sb_stats := st\<rparr>)))"

definition perform_move :: "disk \<Rightarrow> action \<Rightarrow> sandbox \<Rightarrow> (bool \<times> sandbox) outcome" where
  "perform_move dk a s =
     (case getEntryPtr (m_param1 a) (sb_tree s) of
        None \<Rightarrow> Inr (True, s)
      | Some srcChild \<Rightarrow>
          if isFolder srcChild \<and>
             isPathInsideFolder (dk_cwd dk) (path_append ''root'' (m_param1 a))
               (path_append ''root'' (m_param2 a))
          then Inr (True, s)
          else bind_outcome (moveFlat (m_param1 a) (m_param2 a) (sb_tree s) (sb_stats s)) (\<lambda>(_, d, st, _).
                 Inr (False, s\<lparr>sb_tree := d, sb_stats := st\<rparr>)))"

definition perform_remove :: "action \<Rightarrow> sandbox \<Rightarrow> (bool \<times> sandbox) outcome" where
  "perform_remove a s =
     (if getEntryPtr (m_param1 a) (sb_tree s) = None then Inr (True, s)
      else bind_outcome (removeFlat (m_param1 a) (sb_tree s) (sb_stats s)) (\<lambda>(_, d, st, hashes).
             Inr (False, s\<lparr>sb_tree := d, sb_stats := st,
               sb_torrents := fold (\<lambda>h. map_emplace h \<lparr>tu_valid = False, tu_isUsed = True\<rparr>)
                 (filter (\<lambda>h. h \<noteq> 0) hashes) (sb_torrents s)\<rparr>)))"

definition perform :: "disk \<Rightarrow> action \<Rightarrow> sandbox \<Rightarrow> (bool \<times> sandbox) outcome" where
  "perform dk a s =
     (if m_isInvalid a then Inr (True, s)
      else case m_actionId a of
             upload \<Rightarrow> perform_upload dk a s
           | new_folder \<Rightarrow> perform_new_folder a s
           | move \<Rightarrow> perform_move dk a s
           | remove \<Rightarrow> perform_remove a s)"

fun perform_all :: "disk \<Rightarrow> action list \<Rightarrow> sandbox \<Rightarrow> sandbox outcome" where
  "perform_all dk [] s = Inr s"
| "perform_all dk (a # as) s = bind_outcome (perform dk a s) (\<lambda>(_, s'). perform_all dk as s')"

subsection \<open>Sizes and the end of the sandbox calculation\<close>

definition getSandboxDriveSizes :: "disk \<Rightarrow> folder \<Rightarrow> (u64 \<times> u64) outcome" where
  "getSandboxDriveSizes dk tree =
     (if \<not> dk_driveRootExists dk then Inr (0, 0)
      else bind_outcome
             (foldl (\<lambda>acc h. bind_outcome acc (\<lambda>(meta, drive).
                  case (dk_torrentFolder dk (toString h), dk_driveFolder dk (toString h)) of
                    (Some t, Some s) \<Rightarrow> Inr (meta + t, drive + s)
                  | _ \<Rightarrow> Inl (Exception ''file_size'')))
                (Inr (dk_treeTorrent dk tree, dk_treeFile dk tree))
                (sorted_list_of_set (getUniqueFiles tree {})))
             (\<lambda>(meta, drive). Inr (meta, drive + meta)))"

definition modifyFsTreeInSandbox ::
  "disk \<Rightarrow> action list \<Rightarrow> stats \<Rightarrow> world \<Rightarrow> (world \<times> stats) outcome" where
  "modifyFsTreeInSandbox dk actions st w =
     (let dp = w_params w; tree0 = dp_fsTree dp
      in bind_outcome
           (perform_all dk actions
              \<lparr>sb_tree = tree0, sb_stats = copy_tree tree0 st, sb_torrents = dp_torrentHandleMap dp\<rparr>)
           (\<lambda>s. bind_outcome (getSandboxDriveSizes dk (sb_tree s)) (\<lambda>(meta, drive).
              let fsTreeSize = dk_treeFile dk (sb_tree s);
                  w1 = w\<lparr>w_params := dp\<lparr>dp_torrentHandleMap := sb_torrents s\<rparr>,
                         w_task := (w_task w)\<lparr>tk_sandboxFsTree := Some (sb_tree s),
                           tk_sandboxRootHash := Some (dk_createTorrentFile dk (sb_tree s)),
                           tk_metaFilesSize := meta, tk_sandboxDriveSize := drive,
                           tk_fsTreeSize := fsTreeSize\<rparr>\<rparr>
              in bind_outcome
                   (if dp_maxSize dp < meta + drive + fsTreeSize
                    then modifyIsCompletedWithError NOT_ENOUGH_SPACE w1
                    else myRootHashIsCalculated w1)
                   (\<lambda>w2. Inr (w2, sb_stats s)))))"

subsection \<open>The actions on a name space\<close>

text \<open>
  What the actions mean, on the view of a tree alone: a name space maps paths to entries.
  \<open>name_blocked\<close> says that a file stands on the way of a path.
\<close>

type_synonym name_map = "string list \<Rightarrow> entry option"

definition name_blocked :: "string list \<Rightarrow> name_map \<Rightarrow> bool" where
  "name_blocked ns v \<longleftrightarrow> (\<exists>p h s m. prefix p ns \<and> v p = Some (Reg h s m))"

definition name_create :: "string list \<Rightarrow> name_map \<Rightarrow> name_map" where
  "name_create ns v =
     (if name_blocked ns v then v
      else (\<lambda>ms. if prefix ms ns \<and> v ms = None then Some (Dir False 0) else v ms))"

definition name_remove :: "string list \<Rightarrow> name_map \<Rightarrow> name_map" where
  "name_remove ns v = (\<lambda>ms. if prefix ns ms then None else v ms)"

definition name_upload :: "string list \<Rightarrow> string \<Rightarrow> entry \<Rightarrow> name_map \<Rightarrow> name_map" where
  "name_upload ns n e v =
     (if name_blocked ns v then v
      else (name_remove (ns @ [n]) (name_create ns v))(ns @ [n] \<mapsto> e))"

definition name_move :: "string list \<Rightarrow> string list \<Rightarrow> name_map \<Rightarrow> name_map" where
  "name_move src dst v =
     (if v src = None \<or> prefix src dst \<or> name_blocked (butlast dst) v then v
      else (\<lambda>ms. if prefix dst ms then v (src @ drop (length dst) ms)
                 else name_remove src (name_create (butlast dst) v) ms))"

definition name_perform :: "disk \<Rightarrow> action \<Rightarrow> name_map \<Rightarrow> name_map" where
  "name_perform dk a v =
     (if m_isInvalid a then v
      else case m_actionId a of
        upload \<Rightarrow>
          (case (dk_driveFolder dk (m_param1 a), stringToByteArray (m_param1 a)) of
             (Some sz, Inr h) \<Rightarrow>
               (case v (names (m_param2 a)) of
                  Some (Dir _ _) \<Rightarrow> name_upload (names (m_param2 a)) (m_filename a) (Reg h sz False) v
                | _ \<Rightarrow> name_upload (butlast (names (m_param2 a))) (last (names (m_param2 a))) (Reg h sz False) v)
           | _ \<Rightarrow> v)
      | new_folder \<Rightarrow> if v (names (m_param1 a)) \<noteq> None then v else name_create (names (m_param1 a)) v
      | move \<Rightarrow> name_move (names (m_param1 a)) (names (m_param2 a)) v
      | remove \<Rightarrow> name_remove (names (m_param1 a)) v)"

text \<open>The paths of an action are plain where they name entries of the tree.\<close>

definition plain_action :: "action \<Rightarrow> bool" where
  "plain_action a \<longleftrightarrow>
     (m_actionId a \<noteq> upload \<longrightarrow> plain (m_param1 a)) \<and>
     (m_actionId a \<in> {upload, move} \<longrightarrow> plain (m_param2 a))"

lemma blocked_view: "blocked ns d \<longleftrightarrow> name_blocked ns (view d)"
  by (simp add: blocked_def name_blocked_def)

lemma plain_entry: "plain p \<Longrightarrow> entry_path p = names p"
  by (simp add: entry_path_elems plain_simps)

lemma plain_parent:
  assumes "plain p"
  shows "path_elems (parent_path p) = butlast (names p)" "filename p = last (names p)" "names p \<noteq> []"
proof -
  have "names p = path_elems (parent_path p) @ [filename p]"
    using plain_entry [OF assms] by (simp add: entry_path_def)
  then show "path_elems (parent_path p) = butlast (names p)" "filename p = last (names p)" "names p \<noteq> []"
    by simp_all
qed

lemma view_entry: "plain p \<Longrightarrow> view d (names p) = map_option kind (getEntryPtr p d)"
  using plain_entry [of p] by (simp add: getEntryPtr_look view_def subview_def entry_path_def)

lemma addFile_name:
  "tree_ok d \<Longrightarrow> tree_ok (fst (snd (addFile dest n h sz d st))) \<and>
     view (fst (snd (addFile dest n h sz d st))) = name_upload (path_elems dest) n (Reg h sz False) (view d)"
proof (cases "blocked (path_elems dest) d")
  case True
  assume "tree_ok d"
  then show ?thesis using True addFile_blocked by (simp add: name_upload_def blocked_view)
next
  case False
  assume ok: "tree_ok d"
  show ?thesis
    using addFile_view [OF ok False, of n h sz st] False
    by (auto simp: name_upload_def name_create_def name_remove_def blocked_view fun_eq_iff)
qed

lemma addFolder_name:
  assumes "tree_ok d" and "addFolder p d st = Inr (b, d', st')"
  shows "tree_ok d' \<and> view d' = name_create (path_elems p) (view d)"
proof -
  have d': "d' = fst (snd (walk_create (path_elems p) d st))" using addFolder_tree [OF assms(2)] by simp
  show ?thesis
  proof (cases "blocked (path_elems p) d")
    case True
    then show ?thesis
      using walk_create_fail [OF assms(1) True, of st] assms(1)
      by (simp add: d' name_create_def blocked_view)
  next
    case False
    then show ?thesis
      using walk_create_view [OF False, of st] walk_create_tree_ok [OF assms(1), of "path_elems p" st]
      by (auto simp: d' name_create_def blocked_view fun_eq_iff)
  qed
qed

lemma removeFlat_name:
  "tree_ok d \<Longrightarrow> removeFlat p d st = Inr (b, d', st', em) \<Longrightarrow>
     tree_ok d' \<and> view d' = name_remove (entry_path p) (view d)"
  using removeFlat_view by (auto simp: name_remove_def fun_eq_iff)

lemma walk_not_blocked: "walk ns d = Some e \<Longrightarrow> \<not> blocked ns d"
  by (induction ns arbitrary: d) (auto simp: blocked_Cons split: option.splits child.splits)

lemma prefix_walk: "look (ns @ n # ms) (as_child d) \<noteq> None \<Longrightarrow> walk ns d \<noteq> None"
  by (cases "walk ns d") (use look_append [of "ns @ [n]" ms "as_child d"] in \<open>simp_all add: look_snoc\<close>)

lemma move_onto_ancestor:
  assumes "plain src" and "plain dst" and src: "getEntryPtr src d = Some c"
    and onto: "strict_prefix (names dst) (names src)"
  shows "moveFlat src dst d st = Inl UseAfterFree"
proof -
  let ?sp = "path_elems (parent_path src)" and ?sn = "filename src"
  let ?dp = "path_elems (parent_path dst)" and ?dn = "filename dst"
  have nd: "names dst = ?dp @ [?dn]" and ns: "names src = ?sp @ [?sn]"
    using plain_entry [OF assms(1)] plain_entry [OF assms(2)] by (simp_all add: entry_path_def)
  obtain k ks where "names src = ?dp @ ?dn # k # ks"
    using onto nd by (auto simp: strict_prefix_def prefix_def) (metis list.exhaust append_Nil2)
  then obtain e where e: "walk ?dp d = Some e"
    using src prefix_walk [of ?dp ?dn "k # ks" d] ns by (auto simp: getEntryPtr_look)
  have c: "Option.bind (walk ?sp d) (findChild ?sn) = Some c"
    using src by (simp add: getEntryPtr_look look_snoc)
  have neq: "\<not> path_eq dst src"
    using onto assms(1,2) by (auto simp: path_eq_def plain_simps)
  have le: "length (names dst) < length (names src)"
    using onto by (rule prefix_length_less)
  then have "\<not> prefix (?sp @ [?sn]) ?dp"
    using nd ns by (auto dest: prefix_length_le)
  moreover have "prefix (?dp @ [?dn]) (?sp @ [?sn])"
    using onto nd ns by (simp add: strict_prefix_def)
  ultimately show ?thesis
    using c e neq by (simp add: moveFlat_def move_entry_def)
qed

lemma moveFlat_blocked:
  assumes "tree_ok d" and "blocked (path_elems (parent_path dst)) d"
    and "moveFlat src dst d st = Inr (b, d', st', em)"
  shows "d' = d"
proof -
  let ?dp = "path_elems (parent_path dst)"
  have none: "walk ?dp d = None" using assms(2) walk_not_blocked by (cases "walk ?dp d") auto
  have "d1 = d \<and> \<not> ok" if "addFolder (parent_path dst) d st = Inr (ok, d1, st1)" for ok d1 st1
    using addFolder_tree [OF that] walk_create_fail [OF assms(1,2), of st] assms(2)
      walk_create_ok_iff [of ?dp d st] by simp
  then show ?thesis
    using assms(3) none
    by (fastforce simp: moveFlat_def Let_def bind_outcome_Inr_iff split: option.splits if_splits)
qed

lemma moveFlat_name:
  assumes ok: "tree_ok d" and pl: "plain src" "plain dst"
    and src: "getEntryPtr src d = Some c" and guard: "\<not> (isFolder c \<and> strict_prefix (names src) (names dst))"
    and res: "moveFlat src dst d st = Inr (b, d', st', em)"
  shows "tree_ok d' \<and> view d' = name_move (names src) (names dst) (view d)"
proof -
  let ?dp = "path_elems (parent_path dst)"
  note par = plain_parent [OF pl(2)] and es = plain_entry [OF pl(1)] and ed = plain_entry [OF pl(2)]
  have v: "view d (names src) = Some (kind c)" using src view_entry [OF pl(1)] by simp
  have eq: "names src = names dst \<longleftrightarrow> path_eq dst src"
    using pl by (auto simp: path_eq_def plain_simps)
  have isfile: "blocked ?dp d" if below: "strict_prefix (names src) (names dst)"
  proof -
    obtain f where "c = CFile f" using guard below by (cases c) auto
    moreover have "prefix (names src) ?dp"
      using below par by (auto simp: strict_prefix_def) (metis append_butlast_last_id prefix_snoc)
    ultimately show ?thesis using v by (auto simp: blocked_def)
  qed
  consider (same) "names src = names dst" | (blocked) "blocked ?dp d" "names src \<noteq> names dst"
    | (apart) "names src \<noteq> names dst" "\<not> blocked ?dp d" "\<not> prefix (names src) (names dst)"
    using isfile by (auto simp: strict_prefix_def)
  then show ?thesis
  proof cases
    case same
    then have "d' = d"
      using res eq src by (auto simp: moveFlat_def Let_def getEntryPtr_look look_snoc split: option.splits)
    then show ?thesis using ok same by (simp add: name_move_def)
  next
    case blocked
    then have "d' = d" using moveFlat_blocked [OF ok _ res] by blast
    then show ?thesis using ok blocked par by (simp add: name_move_def blocked_view)
  next
    case apart
    have nd: "\<not> prefix (entry_path dst) (entry_path src)"
      using move_onto_ancestor [OF pl src, of st] res apart(1) es ed by (auto simp: strict_prefix_def)
    have sd: "\<not> prefix (entry_path src) ?dp"
      using apart(3) es par by (metis append_butlast_last_id prefix_snoc)
    have neq: "\<not> path_eq dst src" using apart(1) eq by simp
    have ex: "view d (entry_path src) \<noteq> None" using v es by simp
    show ?thesis
      using moveFlat_view [OF ok res neq ex apart(2) sd nd] apart v es ed par
      by (auto simp: name_move_def name_remove_def name_create_def blocked_view fun_eq_iff)
  qed
qed

text \<open>One action, then a list of actions, refine their meaning on the name space.\<close>

lemma perform_name:
  assumes ok: "tree_ok (sb_tree s)" and pl: "plain_action a" and cwd: "has_root (dk_cwd dk)"
    and res: "perform dk a s = Inr (b, s')"
  shows "tree_ok (sb_tree s') \<and> view (sb_tree s') = name_perform dk a (view (sb_tree s))"
proof (cases "m_isInvalid a")
  case True
  then show ?thesis using res ok by (simp add: perform_def name_perform_def)
next
  case valid: False
  show ?thesis
  proof (cases "m_actionId a")
    case upload
    then have p2: "plain (m_param2 a)" using pl by (simp add: plain_action_def)
    show ?thesis
    proof (cases "dk_driveFolder dk (m_param1 a)")
      case (Some sz)
      show ?thesis
      proof (cases "stringToByteArray (m_param1 a)")
        case (Inr h)
        obtain dest fn where t: "upload_target a (sb_tree s) = (dest, fn)" by fastforce
        then have "sb_tree s' = fst (snd (addFile dest fn h sz (sb_tree s) (sb_stats s)))"
          using res valid upload Some Inr by (auto simp: perform_def perform_upload_def split: prod.splits)
        moreover have "path_elems dest = (case view (sb_tree s) (names (m_param2 a)) of
            Some (Dir _ _) \<Rightarrow> names (m_param2 a) | _ \<Rightarrow> butlast (names (m_param2 a)))"
          "fn = (case view (sb_tree s) (names (m_param2 a)) of
            Some (Dir _ _) \<Rightarrow> m_filename a | _ \<Rightarrow> last (names (m_param2 a)))"
          using t view_entry [OF p2, of "sb_tree s"] plain_parent [OF p2] p2
          by (auto simp: upload_target_def plain_simps split: option.splits child.splits)
        ultimately show ?thesis
          using addFile_name [OF ok, of dest fn h sz "sb_stats s"] valid upload Some Inr
          by (simp add: name_perform_def split: option.splits entry.splits)
      qed (use res valid upload Some ok in \<open>simp add: perform_def perform_upload_def name_perform_def\<close>)
    qed (use res valid upload ok in \<open>simp add: perform_def perform_upload_def name_perform_def\<close>)
  next
    case new_folder
    then have p1: "plain (m_param1 a)" using pl by (simp add: plain_action_def)
    show ?thesis
      using res valid new_folder ok addFolder_name [OF ok] view_entry [OF p1, of "sb_tree s"] p1
      by (fastforce simp: perform_def perform_new_folder_def name_perform_def bind_outcome_Inr_iff plain_simps
          split: if_splits)
  next
    case remove
    then have p1: "plain (m_param1 a)" using pl by (simp add: plain_action_def)
    have "view (sb_tree s) = name_remove (names (m_param1 a)) (view (sb_tree s))"
      if "getEntryPtr (m_param1 a) (sb_tree s) = None"
    proof -
      have "look (names (m_param1 a)) (as_child (sb_tree s)) = None"
        using that plain_entry [OF p1] by (simp add: getEntryPtr_look entry_path_def)
      then show ?thesis
        by (auto simp: name_remove_def fun_eq_iff prefix_def view_def subview_def look_append)
    qed
    then show ?thesis
      using res valid remove ok removeFlat_name [OF ok] plain_entry [OF p1]
      by (fastforce simp: perform_def perform_remove_def name_perform_def bind_outcome_Inr_iff
          split: if_splits)
  next
    case move
    then have p: "plain (m_param1 a)" "plain (m_param2 a)" using pl by (simp_all add: plain_action_def)
    have inside: "isPathInsideFolder (dk_cwd dk) (path_append ''root'' (m_param1 a))
        (path_append ''root'' (m_param2 a)) \<longleftrightarrow> strict_prefix (names (m_param1 a)) (names (m_param2 a))"
      using isPathInsideFolder_plain [OF cwd p] p by (simp add: plain_simps)
    show ?thesis
    proof (cases "getEntryPtr (m_param1 a) (sb_tree s)")
      case None
      then show ?thesis
        using res valid move ok view_entry [OF p(1), of "sb_tree s"]
        by (simp add: perform_def perform_move_def name_perform_def name_move_def)
    next
      case (Some c)
      then show ?thesis
        using res valid move ok inside moveFlat_name [OF ok p Some]
        by (fastforce simp: perform_def perform_move_def name_perform_def bind_outcome_Inr_iff
            name_move_def strict_prefix_def split: if_splits)
    qed
  qed
qed

text \<open>
  C11. Executing an action list refines its meaning on the name space.  When the loop over the
  actions ends, the tree of the sandbox is well-formed and maps every path to what the uploads,
  new folders, moves and removals say, one after the other, starting from the tree of the drive:
  invalid actions (a missing source, an occupied new folder, a folder moved below itself, a file
  on the way) change nothing, and no action touches other paths.
\<close>

theorem action_list_refines_name_space:
  assumes "tree_ok (sb_tree s)" and "\<forall>a\<in>set actions. plain_action a" and "has_root (dk_cwd dk)"
    and "perform_all dk actions s = Inr s'"
  shows "tree_ok (sb_tree s') \<and> view (sb_tree s') = fold (name_perform dk) actions (view (sb_tree s))"
  using assms
proof (induction dk actions s rule: perform_all.induct)
  case (2 dk a as s)
  then obtain b s1 where s1: "perform dk a s = Inr (b, s1)" "perform_all dk as s1 = Inr s'"
    by (auto simp: bind_outcome_Inr_iff)
  have "tree_ok (sb_tree s1) \<and> view (sb_tree s1) = name_perform dk a (view (sb_tree s))"
    using perform_name [OF "2.prems"(1) _ "2.prems"(3) s1(1)] "2.prems"(2) by simp
  then show ?case using "2.IH" [of s1] "2.prems"(2,3) s1 by simp
qed simp

lemma Action_plain:
  "has_relative p1 \<Longrightarrow> has_relative p2 \<Longrightarrow> plain_action (Action code p1 p2)"
proof -
  have "plain (trim_front (trim_back p))" if "has_relative p" for p
  proof -
    have "names (trim_front (trim_back p)) \<noteq> []" using that by (simp add: names_trim names_Nil_iff)
    then have ne: "trim_front (trim_back p) \<noteq> []" by (auto simp: names_def)
    then have "trim_back p \<noteq> []" by (auto simp: trim_front_def)
    then show ?thesis
      using ne trim_front_no_root [of "trim_back p"] last_trim_front [OF ne] trim_back_last [of p]
      by (auto simp: plain_def has_root_def)
  qed
  then show "has_relative p1 \<Longrightarrow> has_relative p2 \<Longrightarrow> plain_action (Action code p1 p2)"
    by (simp add: plain_action_def Action_def)
qed

text \<open>
  The topology check of a move looks in one direction only.  Moving an entry onto one of the
  folders that contain it, as in \<^verbatim>\<open>a/b\<close> to \<^verbatim>\<open>a\<close>, passes the check and makes \<^verbatim>\<open>moveFlat\<close> use a
  destroyed folder, whatever the rest of the drive looks like.
\<close>

lemma move_onto_ancestor_crashes_the_sandbox:
  assumes "has_relative src" and "has_relative dst" and "has_root (dk_cwd dk)"
    and "getEntryPtr (m_param1 (Action move src dst)) (sb_tree s) \<noteq> None"
    and "strict_prefix (names dst) (names src)"
  shows "perform_all dk (Action move src dst # rest) s = Inl UseAfterFree"
proof -
  let ?a = "Action move src dst"
  have pl: "plain (m_param1 ?a)" "plain (m_param2 ?a)"
    using Action_plain [OF assms(1,2), of move] by (simp_all add: plain_action_def Action_def)
  have n: "names (m_param1 ?a) = names src" "names (m_param2 ?a) = names dst"
    by (simp_all add: Action_def names_trim)
  obtain c where c: "getEntryPtr (m_param1 ?a) (sb_tree s) = Some c" using assms(4) by auto
  have "\<not> strict_prefix (names src) (names dst)"
    using assms(5) by (auto simp: strict_prefix_def dest: prefix_order.antisym)
  then have "\<not> isPathInsideFolder (dk_cwd dk) (path_append ''root'' (m_param1 ?a))
      (path_append ''root'' (m_param2 ?a))"
    using isPathInsideFolder_plain [OF assms(3) pl] pl n by (simp add: plain_simps)
  then have "perform_move dk ?a s = Inl UseAfterFree"
    using move_onto_ancestor [OF pl c] assms(5) n c by (simp add: perform_move_def)
  moreover have "m_actionId ?a = move" "\<not> m_isInvalid ?a" by (simp_all add: Action_def)
  ultimately show ?thesis by (simp add: perform_def)
qed

subsection \<open>Statistics shared with an abandoned sandbox\<close>

text \<open>
  The sandbox starts with a copy of the tree, whose statistics nodes are those of the drive;
  when the task ends the copy is destroyed.
\<close>

definition copy_sandbox :: "folder \<Rightarrow> stats \<Rightarrow> sandbox" where
  "copy_sandbox d st = \<lparr>sb_tree = d, sb_stats = copy_tree d st, sb_torrents = []\<rparr>"

definition drop_sandbox :: "sandbox \<Rightarrow> stats" where
  "drop_sandbox s = release_child (as_child (sb_tree s)) (sb_stats s)"

text \<open>Moving a folder to a free place under another folder is one change of its parent node.\<close>

lemma moveFlat_folder:
  assumes pl: "plain src" "plain dst"
    and src: "getEntryPtr src d = Some (CFolder a cs)"
    and dest: "walk (butlast (names dst)) d = Some e" and free: "findChild (last (names dst)) e = None"
    and apart: "\<not> prefix (names src) (names dst)" "\<not> prefix (names dst) (names src)"
  shows "moveFlat src dst d st =
    bind_outcome (of_option Diverges (folder_setParent (fd_stat a) (Some (fd_stat (fst e))) st)) (\<lambda>st1.
      Inr (True, edit (butlast (names src)) (map_erase (last (names src)))
        (edit (butlast (names dst)) (\<lambda>cs'. map_emplace (last (names dst))
           (rename_child (last (names dst)) (CFolder a cs)) (map_erase (last (names dst)) cs')) d), st1, []))"
proof -
  let ?sp = "path_elems (parent_path src)" and ?sn = "filename src"
  note ps = plain_parent [OF pl(1)] and pd = plain_parent [OF pl(2)]
  have c: "Option.bind (walk ?sp d) (findChild ?sn) = Some (CFolder a cs)"
    using src by (simp add: getEntryPtr_look look_snoc)
  have "\<not> prefix (?sp @ [?sn]) (butlast (names dst))"
    using apart(1) ps pd by (metis append_butlast_last_id prefix_snoc)
  moreover have "\<not> prefix (butlast (names dst) @ [last (names dst)]) (?sp @ [?sn])"
    using apart(2) ps pd by simp
  moreover have "\<not> path_eq dst src" using apart pl by (auto simp: path_eq_def plain_simps)
  ultimately show ?thesis
    using c dest free pd ps
    by (simp add: moveFlat_def move_entry_def erase_old_def stat_at_def Let_def)
qed

text \<open>A new drive with two folders, on a disk without files.\<close>

definition two_folders :: folder where
  "two_folders = (fst (mk_folder [] 0), [(''a'', as_child (mk_folder ''a'' 1)), (''b'', as_child (mk_folder ''b'' 2))])"

definition three_nodes :: stats where
  "three_nodes = snd (new_folder_node (snd (new_folder_node (snd (new_folder_node empty_stats)))))"

definition empty_disk :: disk where
  "empty_disk = \<lparr>dk_cwd = ''/'', dk_driveRootExists = True, dk_driveFolder = (\<lambda>_. None),
     dk_torrentFolder = (\<lambda>_. None), dk_treeFile = (\<lambda>_. 1), dk_treeTorrent = (\<lambda>_. 1),
     dk_createTorrentFile = (\<lambda>_. 7)\<rparr>"

lemma fold_retain_ok:
  "stats_ok st \<Longrightarrow> \<forall>n\<in>set ns. live st n \<Longrightarrow> stats_ok (fold retain ns st)"
proof (induction ns arbitrary: st)
  case (Cons n ns)
  have "live (retain n st) m" if "live st m" for m using that by (simp add: retain_def live_def)
  then show ?case using Cons by (simp add: retain_ok)
qed simp

lemma retain_simps [simp]:
  "parents (retain n st) = parents st" "next_folder (retain n st) = next_folder st"
  "folder_nodes (retain n st) = folder_nodes st"
  by (simp_all add: retain_def parents_def)

text \<open>The moves of the two folders, as one change of a parent node each.\<close>

lemma perform_two_folders:
  assumes "(x, y, i, j) = (''a'', ''b'', 1, 2) \<or> (x, y, i, j) = (''b'', ''a'', 2, 1)"
  shows "\<exists>t. owned_nodes [([], as_child t)] = [0, j, i] \<and>
    (\<forall>st m. perform_all empty_disk [Action move x (y @ ''/'' @ x)] \<lparr>sb_tree = two_folders, sb_stats = st, sb_torrents = m\<rparr> =
      bind_outcome (of_option Diverges (folder_setParent i (Some j) st)) (\<lambda>st1.
        Inr \<lparr>sb_tree = t, sb_stats = st1, sb_torrents = m\<rparr>))"
proof -
  let ?d = "two_folders" and ?dst = "y @ ''/'' @ x"
  let ?a = "fst (mk_folder x i)" and ?e = "mk_folder y j"
  have par: "m_param1 (Action move x ?dst) = x" "m_param2 (Action move x ?dst) = ?dst"
    using assms by (auto simp: Action_def trim_front_def trim_back_def is_sep_def)
  have pl: "plain x" "plain ?dst" using assms by (auto simp: plain_def is_sep_def)
  have nx: "names x = [x]" "names ?dst = [y, x]" using assms by (auto simp: names_def is_sep_def)
  have src: "getEntryPtr x ?d = Some (CFolder ?a [])"
  proof -
    have "getEntryPtr x ?d = look [x] (as_child ?d)"
      using plain_entry [OF pl(1)] nx by (simp add: getEntryPtr_look entry_path_def)
    then show ?thesis using assms by (auto simp: two_folders_def map_find_def as_child_def mk_folder_def)
  qed
  have dest: "walk (butlast (names ?dst)) ?d = Some ?e"
    using assms nx by (auto simp: two_folders_def map_find_def as_child_def mk_folder_def)
  have free: "findChild (last (names ?dst)) ?e = None"
    by (simp add: findChild_def map_find_def)
  have apart: "\<not> prefix (names x) (names ?dst)" "\<not> prefix (names ?dst) (names x)"
    using assms nx by auto
  have guard: "\<not> isPathInsideFolder (dk_cwd empty_disk) (path_append ''root'' x) (path_append ''root'' ?dst)"
    using isPathInsideFolder_plain [of "dk_cwd empty_disk" x ?dst] pl apart
    by (simp add: empty_disk_def has_root_def is_sep_def plain_simps strict_prefix_def)
  let ?t = "edit (butlast (names x)) (map_erase (last (names x)))
        (edit (butlast (names ?dst)) (\<lambda>cs'. map_emplace (last (names ?dst))
           (rename_child (last (names ?dst)) (CFolder ?a [])) (map_erase (last (names ?dst)) cs')) ?d)"
  have "perform_all empty_disk [Action move x ?dst] \<lparr>sb_tree = ?d, sb_stats = st, sb_torrents = m\<rparr> =
      bind_outcome (of_option Diverges (folder_setParent i (Some j) st)) (\<lambda>st1.
        Inr \<lparr>sb_tree = ?t, sb_stats = st1, sb_torrents = m\<rparr>)" for st m
  proof -
    have "m_actionId (Action move x ?dst) = move" "\<not> m_isInvalid (Action move x ?dst)"
      by (simp_all add: Action_def)
    then show ?thesis
      using moveFlat_folder [OF pl src dest free apart, of st] src guard par
      by (cases "folder_setParent i (Some j) st") (simp_all add: perform_def perform_move_def)
  qed
  moreover have "owned_nodes [([], as_child ?t)] = [0, j, i]"
    using assms nx
    by (auto simp: two_folders_def map_find_def as_child_def mk_folder_def map_emplace_def map_contains_def)
  ultimately show ?thesis by blast
qed

text \<open>
  C33. Statistics survive an abandoned modification.  The sandbox shares its statistics nodes with
  the drive, so a move done there changes the parents of nodes the drive still uses.  On a drive
  with folders \<^verbatim>\<open>a\<close> and \<^verbatim>\<open>b\<close>, execute the action list that moves \<^verbatim>\<open>a\<close> into \<^verbatim>\<open>b\<close>, drop the sandbox
  (the modification is cancelled or does not fit), and execute one that moves \<^verbatim>\<open>b\<close> into \<^verbatim>\<open>a\<close>: the
  second never returns, although it is a valid move in the unchanged tree.
\<close>

theorem abandoned_move_makes_the_reverse_move_diverge:
  "\<exists>s1. perform_all empty_disk [Action move ''a'' ''b/a''] (copy_sandbox two_folders three_nodes) = Inr s1 \<and>
     perform_all empty_disk [Action move ''b'' ''a/b''] (copy_sandbox two_folders (drop_sandbox s1)) = Inl Diverges"
proof -
  let ?st0 = "copy_tree two_folders three_nodes"
  have st0: "?st0 = fold retain [0, 1, 2] three_nodes"
    by (simp add: copy_tree_def two_folders_def as_child_def mk_folder_def)
  have n0: "next_folder ?st0 = 3" "parents ?st0 = {}" "owners ?st0 0 = 2" "owners ?st0 1 = 2" "owners ?st0 2 = 2"
    unfolding st0 unfolding three_nodes_def
    by (auto simp: new_folder_node_def empty_stats_def parents_def retain_def split: if_splits)
  have ok0: "stats_ok ?st0" unfolding st0
    by (intro fold_retain_ok) (auto simp: three_nodes_def new_folder_node_ok stats_ok_empty,
      auto simp: new_folder_node_def empty_stats_def live_def)
  obtain st1 where st1: "folder_setParent 1 (Some 2) ?st0 = Some st1" "stats_ok st1"
    "same_shape (with_folder 1 ((folder_nodes ?st0 1)\<lparr>fo_parent := Some 2\<rparr>) ?st0) st1"
    using folder_setParent_ok [OF ok0, of 1 "Some 2"] n0 by auto
  obtain t where t: "owned_nodes [([], as_child t)] = [0, 2, 1]"
    and p: "\<And>st m. perform_all empty_disk [Action move ''a'' (''b'' @ ''/'' @ ''a'')]
        \<lparr>sb_tree = two_folders, sb_stats = st, sb_torrents = m\<rparr> =
      bind_outcome (of_option Diverges (folder_setParent 1 (Some 2) st)) (\<lambda>st1.
        Inr \<lparr>sb_tree = t, sb_stats = st1, sb_torrents = m\<rparr>)"
    using perform_two_folders [of "''a''" "''b''" 1 2] by auto
  let ?s1 = "\<lparr>sb_tree = t, sb_stats = st1, sb_torrents = []\<rparr>"
  have first: "perform_all empty_disk [Action move ''a'' ''b/a''] (copy_sandbox two_folders three_nodes) = Inr ?s1"
    using p [of ?st0 "[]"] st1(1) by (simp add: copy_sandbox_def)
  let ?st2 = "drop_sandbox ?s1" and ?st3 = "copy_tree two_folders (drop_sandbox ?s1)"
  have sh: "fo_parent (folder_nodes st1 1) = Some 2" "owners st1 = owners ?st0"
    using st1(3) by (auto simp: same_shape_def)
  have st2: "?st2 = fold release [0, 2, 1] st1" by (simp only: drop_sandbox_def release_child_def t sandbox.simps)
  have st3: "?st3 = fold retain [0, 1, 2] ?st2"
    by (simp add: copy_tree_def two_folders_def as_child_def mk_folder_def)
  have live2: "\<forall>n\<in>set [0, 1, 2]. live ?st2 n"
    unfolding st2 using sh(2) n0(3-5) by (simp add: release_def live_def)
  have "stats_ok ?st3"
    unfolding st3 by (rule fold_retain_ok [OF _ live2]) (unfold st2, rule fold_release_ok [OF st1(2)])
  moreover have "fo_parent (folder_nodes ?st3 1) = Some 2" "live ?st3 1" "live ?st3 2"
    using sh n0(3-5) unfolding st3 unfolding st2 by (simp_all add: release_def retain_def live_def)
  ultimately have "folder_setParent 2 (Some 1) ?st3 = None"
    by (intro folder_setParent_below_itself) (auto simp: stats_ok_def live_parents_def)
  then have "perform_all empty_disk [Action move ''b'' ''a/b''] (copy_sandbox two_folders ?st2) = Inl Diverges"
    using perform_two_folders [of "''b''" "''a''" 2 1] by (auto simp: copy_sandbox_def)
  with first show ?thesis by blast
qed

subsection \<open>The theorems on the small drive\<close>

theorem action_list_refines_name_space_witness:
  "\<exists>s. perform_all empty_disk [Action move ''a'' ''b/a''] (copy_sandbox two_folders three_nodes) = Inr s \<and>
     tree_ok (sb_tree s) \<and> view (sb_tree s) [''b'', ''a''] = Some (Dir False 0) \<and> view (sb_tree s) [''a''] = None"
proof -
  have ok: "tree_ok (sb_tree (copy_sandbox two_folders three_nodes))" by code_simp
  have "\<not> Option.is_none (folder_setParent 1 (Some 2) (copy_tree two_folders three_nodes))" by code_simp
  then have "\<exists>st. folder_setParent 1 (Some 2) (copy_tree two_folders three_nodes) = Some st"
    by (cases "folder_setParent 1 (Some 2) (copy_tree two_folders three_nodes)") simp_all
  then obtain s where s: "perform_all empty_disk [Action move ''a'' ''b/a''] (copy_sandbox two_folders three_nodes) = Inr s"
    using perform_two_folders [of "''a''" "''b''" 1 2] by (auto simp: copy_sandbox_def)
  have pl: "\<forall>a\<in>set [Action move ''a'' ''b/a'']. plain_action a"
    using Action_plain [of "''a''" "''b/a''" move] by (simp add: has_relative_def is_sep_def)
  have "view (sb_tree s) = fold (name_perform empty_disk) [Action move ''a'' ''b/a''] (view two_folders) \<and> tree_ok (sb_tree s)"
    using action_list_refines_name_space [OF ok pl _ s]
    by (simp add: empty_disk_def has_root_def is_sep_def copy_sandbox_def)
  moreover have "names (m_param1 (Action move ''a'' ''b/a'')) = [''a'']" "names (m_param2 (Action move ''a'' ''b/a'')) = [''b'', ''a'']"
    "view two_folders [''a''] = Some (Dir False 0)" "view two_folders [''b''] = Some (Dir False 0)"
    "m_actionId (Action move ''a'' ''b/a'') = move" "\<not> m_isInvalid (Action move ''a'' ''b/a'')"
    by code_simp+
  moreover have "\<not> name_blocked [''b''] (view two_folders)"
    using calculation(5) by (auto simp: name_blocked_def prefix_Cons)
  ultimately show ?thesis
    using s by (auto simp: name_perform_def name_move_def name_remove_def name_create_def)
qed

end
