(* ===== verification/Approval.thy ===== *)
theory Approval
  imports Drive_Tasks
begin

section \<open>Approving a modification\<close>

text \<open>
  What the replicators of a drive agree on.  After a replicator has created its opinion, the
  events a modification task can receive keep an invariant, stated as an event system: at most
  one approval transaction is sent, it has the required number of opinions, and all of them
  agree with the replicator's own.  Before that point there is a window in which this fails.
\<close>

subsection \<open>Events of a modification task\<close>


text \<open>
  An opinion, as it is announced, carries a valid signature of its sender for the announced
  drive, modification, root hash, status and sizes.  Opinions are checked for this before they
  reach the drive, which is found by the announced drive key.
\<close>

definition verified :: "(key \<Rightarrow> byte list \<Rightarrow> signature \<Rightarrow> bool) \<Rightarrow> approval_info \<Rightarrow> single_opinion \<Rightarrow> bool" where
  "verified verify an op =
     opinion_verify verify (ai_driveKey an) (ai_modifyTransactionHash an) (ai_rootHash an) (ai_status an)
       (ai_fsTreeFileSize an) (ai_metaFilesSize an) (ai_driveSize an) op"





subsection \<open>The invariant\<close>

fun approval_of :: "effect \<Rightarrow> approval_info option" where
  "approval_of (ModifyApprovalReady info) = Some info"
| "approval_of _ = None"

definition approvals :: "world \<Rightarrow> approval_info list" where
  "approvals w = List.map_filter approval_of (w_effects w)"

definition quorum :: "drive_params \<Rightarrow> nat" where
  "quorum dp = min (length (dp_allReplicators dp)) (required_opinions dp)"

text \<open>
  An approval transaction the other replicators accept: enough opinions, and each of them
  signed for exactly what the transaction says.
\<close>

definition fair_approval :: "(key \<Rightarrow> byte list \<Rightarrow> signature \<Rightarrow> bool) \<Rightarrow> nat \<Rightarrow> approval_info \<Rightarrow> bool" where
  "fair_approval verify q info \<longleftrightarrow>
     1 + q \<le> length (ai_opinions info) \<and> (\<forall>op\<in>set (ai_opinions info). verified verify info op)"



lemma approvals_emit [simp]:
  "approvals (emit e w) = approvals w @ (case approval_of e of None \<Rightarrow> [] | Some i \<Rightarrow> [i])"
  by (cases e) (simp_all add: approvals_def emit_def List.map_filter_def)

lemma emit_simps [simp]:
  "w_task (emit e w) = w_task w" "w_params (emit e w) = w_params w"
  by (simp_all add: emit_def)

lemma approvals_cong [simp]:
  "approvals (w\<lparr>w_task := t\<rparr>) = approvals w" "approvals (w\<lparr>w_params := p\<rparr>) = approvals w"
  by (simp_all add: approvals_def)

text \<open>
  The steps that end or synchronise a task change nothing the invariant speaks about.
\<close>

definition quiet :: "world \<Rightarrow> world \<Rightarrow> bool" where
  "quiet w w' \<longleftrightarrow> approvals w' = approvals w \<and> quorum (w_params w') = quorum (w_params w) \<and>
     dp_driveKey (w_params w') = dp_driveKey (w_params w) \<and> tk_tx (w_task w') = tk_tx (w_task w) \<and>
     tk_type (w_task w') = tk_type (w_task w) \<and> tk_myOpinion (w_task w') = tk_myOpinion (w_task w) \<and>
     tk_receivedOpinions (w_task w') = tk_receivedOpinions (w_task w) \<and>
     tk_modifyOpinionTimer (w_task w') = tk_modifyOpinionTimer (w_task w) \<and>
     tk_modifyApproveTransactionSent (w_task w') = tk_modifyApproveTransactionSent (w_task w)"


lemma quiet_trans: "quiet a b \<Longrightarrow> quiet b c \<Longrightarrow> quiet a c"
  by (simp add: quiet_def)

lemma quiet_refl [simp]: "quiet w w"
  by (simp add: quiet_def)

lemma quiet_finishTask [simp]: "quiet w (finishTask w)"
  by (simp add: quiet_def finishTask_def update_finishTask_def manual_finishTask_def)










subsection \<open>Sending the transaction\<close>












subsection \<open>The window before the opinion is created\<close>

text \<open>A small drive: replicator 1 is ours, replicators 2 and 3 support the drive 9 of client 7.\<close>

definition sample_params :: drive_params where
  "sample_params =
     \<lparr>dp_driveKey = 9, dp_driveOwner = 7, dp_maxSize = 1000, dp_replicatorKey = 1,
      dp_minReplicatorsNumber = 0, dp_allReplicators = [2, 3], dp_donatorShard = [2, 3],
      dp_torrentHandleMap = [(20, \<lparr>tu_valid = True, tu_isUsed = True\<rparr>)], dp_rootHash = 30,
      dp_lastApprovedModification = 40, dp_fsTree = mk_folder [] 0,
      dp_modifyInfos = \<lparr>mi_modifyInfo = [], mi_oldModifications = []\<rparr>, dp_streamMap = [],
      dp_opinionController = (new_controller 7 100)\<lparr>oc_notApprovedCumulativeUploads :=
        \<lparr>cu_modificationId = 50, cu_uploads = [(7, 100)]\<rparr>\<rparr>, dp_savedOpinion = None\<rparr>"

definition sample_task :: task where
  "sample_task = (new_task MODIFICATION_REQUEST 50 0 10)\<lparr>tk_sandboxFsTree := Some (mk_folder [] 0),
     tk_sandboxRootHash := Some 60, tk_actionListIsReceived := True\<rparr>"

definition sample_world :: world where
  "sample_world = \<lparr>w_task = sample_task, w_params = sample_params, w_effects = []\<rparr>"

text \<open>An opinion of replicator \<open>r\<close> on modification 50 with the root hash \<open>h\<close>, signed for it.\<close>

definition opinion_from :: "(byte list \<Rightarrow> signature) \<Rightarrow> key \<Rightarrow> hash256 \<Rightarrow> approval_info" where
  "opinion_from sign r h =
     \<lparr>ai_driveKey = 9, ai_modifyTransactionHash = 50, ai_rootHash = h, ai_status = SUCCESS,
      ai_fsTreeFileSize = 0, ai_metaFilesSize = 0, ai_driveSize = 0,
      ai_opinions = [opinion_sign sign 9 50 h SUCCESS 0 0 0
        \<lparr>so_replicatorKey = r, so_uploadLayout = [(7, 100)], so_signature = []\<rparr>]\<rparr>"

text \<open>
  The agreement fails in a window.  Opinions that arrive before the own one are stored
  without a check and checked only in \<^verbatim>\<open>myOpinionIsCreated\<close>, which runs after the own opinion
  has been saved in the background.  Here replicator 2 announces another root hash, then the
  own opinion is set, then the opinion of replicator 3 arrives before the saving has finished:
  the transaction is sent at once, with the opinion of replicator 2, whose signature does not
  fit it (signatures are represented by the signed message).
\<close>

lemma early_opinion_is_sent_unchecked:
  "(case processedModifyOpinion (opinion_from (\<lambda>m. m) 2 61) sample_world of
      Inr (b1, w1) \<Rightarrow>
        (case onCumulativeUploadsUpdated (\<lambda>m. m) w1 of
           Inr w2 \<Rightarrow>
             (case processedModifyOpinion (opinion_from (\<lambda>m. m) 3 60) w2 of
                Inr (b3, w3) \<Rightarrow> b1 \<and> b3 \<and>
                  (case approvals w3 of
                     [info] \<Rightarrow> length (ai_opinions info) = 3 \<and> \<not> fair_approval (\<lambda>k m s. s = m) 2 info
                   | _ \<Rightarrow> False)
              | Inl _ \<Rightarrow> False)
         | Inl _ \<Rightarrow> False)
    | Inl _ \<Rightarrow> False)"
  by (simp add: processedModifyOpinion_def modify_processedModifyOpinion_def stream_processedModifyOpinion_def opinion_from_def sample_world_def sample_task_def sample_params_def
      new_task_def Let_def put_opinion_def opinion_sign_def onCumulativeUploadsUpdated_def fillOpinion_def
      new_controller_def validateOpinion_def checkOpinionNumberAndStartTimer_def opinionTimerExpired_def
      fair_approval_def verified_def opinion_verify_def opinion_message_eq approvals_def emit_def
      List.map_filter_simps)

subsection \<open>After a rejected approval\<close>

lemma onApprovalTxFailed_task:
  assumes "tk_type (w_task w) = MODIFICATION_REQUEST" "tk_tx (w_task w) = tx"
    "\<not> tk_taskIsInterrupted (w_task w)" "\<not> tk_modifyApproveTxReceived (w_task w)"
  shows "w_task (onApprovalTxFailed tx w) =
      (w_task w)\<lparr>tk_modifyApproveTransactionSent := False, tk_receivedOpinions := []\<rparr> \<and>
    w_params (onApprovalTxFailed tx w) = w_params w \<and> approvals (onApprovalTxFailed tx w) = approvals w"
proof -
  have "w_task (fold (\<lambda>e. emit (ProcessOpinion (snd e))) es v) = w_task v \<and>
      w_params (fold (\<lambda>e. emit (ProcessOpinion (snd e))) es v) = w_params v \<and>
      approvals (fold (\<lambda>e. emit (ProcessOpinion (snd e))) es v) = approvals v"
    for es :: "(key \<times> approval_info) list" and v
    by (induction es arbitrary: v) simp_all
  then show ?thesis using assms by (simp add: onApprovalTxFailed_def Let_def)
qed

text \<open>
  After a rejected approval transaction the task starts over: nothing counts as sent and
  no opinion is kept.  But the timer that has expired is still set, so as long as one replicator
  stays silent no new approval is ever tried: with fewer opinions than other replicators, a
  further opinion changes nothing but the stored opinions, however many opinions are required.
\<close>

lemma rejected_approval_is_not_retried_by_timer:
  assumes t: "tk_type (w_task w) = MODIFICATION_REQUEST" "tk_tx (w_task w) = tx"
    "\<not> tk_taskIsInterrupted (w_task w)" "\<not> tk_modifyApproveTxReceived (w_task w)"
    and timer: "tk_modifyOpinionTimer (w_task w)"
    and w': "w' = onApprovalTxFailed tx w"
    and silent: "length (tk_receivedOpinions (put_opinion an v)) < length (dp_allReplicators (w_params w))"
    and v: "v = (w_task w')\<lparr>tk_receivedOpinions := m\<rparr>"
  shows "\<not> tk_modifyApproveTransactionSent (w_task w') \<and> tk_receivedOpinions (w_task w') = [] \<and>
    processedModifyOpinion an (w'\<lparr>w_task := v\<rparr>) \<in>
      {Inr (False, w'\<lparr>w_task := v\<rparr>), Inr (True, w'\<lparr>w_task := v\<rparr>), Inr (True, w'\<lparr>w_task := put_opinion an v\<rparr>)}"
proof -
  note f = onApprovalTxFailed_task [OF t]
  have "checkOpinionNumberAndStartTimer (w'\<lparr>w_task := put_opinion an v\<rparr>) =
      Inr (w'\<lparr>w_task := put_opinion an v\<rparr>)"
    using f timer silent v w' by (simp add: checkOpinionNumberAndStartTimer_def Let_def put_opinion_def)
  then show ?thesis
    using f w' v t by (auto simp: processedModifyOpinion_def modify_processedModifyOpinion_def stream_processedModifyOpinion_def Let_def split: option.splits)
qed

subsection \<open>From approval to the drive\<close>

text \<open>
  C25. The end of a modification: when the approval of the calculated sandbox is published, the
  steps that follow (marking and removing files, approving the uploads, switching the drive)
  all succeed, and afterwards the drive has the sandbox's tree and root hash, the modification
  is the last approved one, and exactly the torrents of files of the new tree are kept.
\<close>

theorem approved_modification_becomes_the_drive:
  assumes "tk_type (w_task w) = MODIFICATION_REQUEST" and "\<not> tk_taskIsInterrupted (w_task w)"
    and "pa_modifyTransactionHash tx = tk_tx (w_task w)" and "tk_actionListIsReceived (w_task w)"
    and "tk_sandboxCalculated (w_task w)" and "tk_myOpinion (w_task w) = Some my"
    and "tk_sandboxFsTree (w_task w) = Some tree" and "tk_sandboxRootHash (w_task w) = Some h"
    and "notApprovedModificationId (dp_opinionController (w_params w)) = tk_tx (w_task w)"
    and "map_ok (dp_torrentHandleMap (w_params w))" and "\<not> map_contains 0 (dp_torrentHandleMap (w_params w))"
  shows "\<exists>w1 w2 w3. onApprovalTxPublished tx w = Inr (False, w1) \<and>
    synchronizationIsCompleted (continueSynchronizingDriveWithSandbox w1) = Inr w2 \<and>
    modifyIsCompleted w2 = Inr w3 \<and>
    dp_fsTree (w_params w3) = tree \<and> dp_rootHash (w_params w3) = h \<and>
    dp_lastApprovedModification (w_params w3) = tk_tx (w_task w) \<and>
    dp_streamMap (w_params w3) = stream_map tree \<and>
    approvedModificationId (dp_opinionController (w_params w3)) = tk_tx (w_task w) \<and>
    (\<forall>x. map_contains x (dp_torrentHandleMap (w_params w3)) =
       (map_contains x (dp_torrentHandleMap (w_params w)) \<and> x \<in> fl_hash ` set (files_below (snd tree))))"
proof -
  let ?m = "markUsedFiles tree (mark_all_unused (dp_torrentHandleMap (w_params w)))"
  note find = markUsedFiles_find [of "mark_all_unused (dp_torrentHandleMap (w_params w))" tree]
  have ok: "map_ok ?m" and zero: "\<not> map_contains 0 ?m"
    using find [of 0] assms(10,11) by (simp_all add: map_contains_find)
  have keep: "map_contains x (erase_unused ?m) =
      (map_contains x (dp_torrentHandleMap (w_params w)) \<and> x \<in> fl_hash ` set (files_below (snd tree)))" for x
    using find [of x] assms(10)
    by (cases "map_find x (dp_torrentHandleMap (w_params w))")
      (auto simp: map_contains_find erase_unused_def map_find_filter [OF ok])
  obtain w1 where w1: "onApprovalTxPublished tx w = Inr (False, w1)"
    and p1: "w_params w1 = (w_params w)\<lparr>dp_torrentHandleMap := ?m\<rparr>"
    and t1: "w_task w1 = (w_task w)\<lparr>tk_modifyApproveTxReceived := True\<rparr>"
    using assms zero
    by (cases "dp_replicatorKey (w_params w) \<in> set (pa_replicatorKeys tx)")
      (simp_all add: onApprovalTxPublished_def modify_onApprovalTxPublished_def stream_onApprovalTxPublished_def catchingUp_onApprovalTxPublished_def Let_def synchronize_approved_def
        startSynchronizingDriveWithSandbox_def)
  then show ?thesis
    using assms keep
    by (simp add: synchronizationIsCompleted_def continueSynchronizingDriveWithSandbox_def
        approveCumulativeUploads_def notApprovedModificationId_def approvedModificationId_def
        modifyIsCompleted_def updateStreamMap_def finishTask_def update_finishTask_def manual_finishTask_def)
qed

subsection \<open>The theorems on the small drive\<close>

definition my_sample_opinion :: approval_info where
  "my_sample_opinion = opinion_from (\<lambda>m. m) 1 60"

definition opinion_world :: world where
  "opinion_world = sample_world\<lparr>w_task := sample_task\<lparr>tk_myOpinion := Some my_sample_opinion\<rparr>\<rparr>"


theorem approved_modification_becomes_the_drive_witness:
  "\<exists>w1 w2 w3. onApprovalTxPublished (to_published my_sample_opinion)
       (opinion_world\<lparr>w_task := (w_task opinion_world)\<lparr>tk_sandboxCalculated := True\<rparr>\<rparr>) = Inr (False, w1) \<and>
     synchronizationIsCompleted (continueSynchronizingDriveWithSandbox w1) = Inr w2 \<and>
     modifyIsCompleted w2 = Inr w3 \<and> dp_rootHash (w_params w3) = 60"
proof -
  let ?w = "opinion_world\<lparr>w_task := (w_task opinion_world)\<lparr>tk_sandboxCalculated := True\<rparr>\<rparr>"
  have h: "tk_type (w_task ?w) = MODIFICATION_REQUEST" "\<not> tk_taskIsInterrupted (w_task ?w)"
    "pa_modifyTransactionHash (to_published my_sample_opinion) = tk_tx (w_task ?w)" "tk_actionListIsReceived (w_task ?w)"
    "tk_sandboxCalculated (w_task ?w)" "tk_myOpinion (w_task ?w) = Some my_sample_opinion"
    "tk_sandboxFsTree (w_task ?w) = Some (mk_folder [] 0)" "tk_sandboxRootHash (w_task ?w) = Some 60"
    "notApprovedModificationId (dp_opinionController (w_params ?w)) = tk_tx (w_task ?w)"
    "map_ok (dp_torrentHandleMap (w_params ?w))" "\<not> map_contains 0 (dp_torrentHandleMap (w_params ?w))"
    by (simp_all add: opinion_world_def sample_world_def sample_task_def new_task_def sample_params_def
        to_published_def my_sample_opinion_def opinion_from_def notApprovedModificationId_def map_ok_def
        map_contains_def)
  from approved_modification_becomes_the_drive [OF h] show ?thesis by blast
qed

end
