(* ===== verification/Verification.thy ===== *)
theory Verification
  imports Drive_Params
begin

unbundle bit_operations_syntax

section \<open>Verification of a drive\<close>

text \<open>
  Model of \<^verbatim>\<open>src/drive/VerificationDriveTask.cpp\<close>.  For a verification request every replicator
  of a shard computes, for each replicator of the shard, a 64-bit code over all files of the
  drive, seeded with the request and the replicator's key; it sends its own code to the others,
  compares the codes it receives, and sends its opinion; enough opinions make a transaction.
  File contents are a parameter: the bytes of the file of a hash, or \<open>None\<close> when it is absent.
\<close>

subsection \<open>Verification codes\<close>

definition rot1 :: "u64 \<Rightarrow> u64" where
  "rot1 h = drop_bit 1 h OR push_bit 63 h"

text \<open>The 8-byte chunks of \<^verbatim>\<open>calcHash64\<close>, and the tail, read most significant byte first.\<close>

fun hash_chunks :: "u64 \<Rightarrow> byte list \<Rightarrow> u64 \<times> byte list" where
  "hash_chunks h (b0 # b1 # b2 # b3 # b4 # b5 # b6 # b7 # bs) =
     hash_chunks (rot1 (h XOR of_le_bytes [b0, b1, b2, b3, b4, b5, b6, b7])) bs"
| "hash_chunks h bs = (h, bs)"

definition tail_value :: "byte list \<Rightarrow> u64" where
  "tail_value bs = fold (\<lambda>b v. push_bit 8 v OR ucast b) bs 0"

definition calcHash64 :: "u64 \<Rightarrow> byte list \<Rightarrow> u64 outcome" where
  "calcHash64 initValue buf =
     bind_outcome (sirius_assert (buf \<noteq> [])) (\<lambda>_.
       let (h, rest) = hash_chunks initValue buf in Inr (rot1 (h XOR tail_value rest)))"

text \<open>The seed of the code of one replicator.\<close>

definition init_code :: "hash256 \<Rightarrow> key \<Rightarrow> u64 outcome" where
  "init_code tx replicator =
     bind_outcome (calcHash64 0 (hash_bytes tx)) (\<lambda>h. calcHash64 h (hash_bytes replicator))"

text \<open>
  A file is read in pieces of at most 4096 bytes, and every code is advanced by each piece; a
  missing file ends the loop over the entries of its folder.  The codes are the second argument.
\<close>

function file_pieces :: "byte list \<Rightarrow> byte list list" where
  "file_pieces [] = []"
| "file_pieces (b # bs) = take 4096 (b # bs) # file_pieces (drop 4096 (b # bs))"
  by pat_completeness auto
termination by (relation "measure length") auto

fun hash_pieces :: "byte list list \<Rightarrow> u64 \<Rightarrow> u64 outcome" where
  "hash_pieces [] h = Inr h"
| "hash_pieces (p # ps) h = bind_outcome (calcHash64 h p) (hash_pieces ps)"

fun map_outcome :: "('a \<Rightarrow> 'b outcome) \<Rightarrow> 'a list \<Rightarrow> 'b list outcome" where
  "map_outcome f [] = Inr []"
| "map_outcome f (x # xs) =
     bind_outcome (f x) (\<lambda>y. bind_outcome (map_outcome f xs) (\<lambda>ys. Inr (y # ys)))"

fun calculateVerifyCodes ::
  "(hash256 \<Rightarrow> byte list option) \<Rightarrow> (string \<times> child) list \<Rightarrow> u64 list \<Rightarrow> u64 list outcome" where
  "calculateVerifyCodes content [] codes = Inr codes"
| "calculateVerifyCodes content ((n, CFolder a cs) # es) codes =
     bind_outcome (calculateVerifyCodes content cs codes) (\<lambda>codes'. calculateVerifyCodes content es codes')"
| "calculateVerifyCodes content ((n, CFile f) # es) codes =
     (case content (fl_hash f) of
        None \<Rightarrow> Inr codes
      | Some bs \<Rightarrow>
          bind_outcome (map_outcome (hash_pieces (file_pieces bs)) codes) (\<lambda>codes'.
            calculateVerifyCodes content es codes'))"

definition verify_codes :: "(hash256 \<Rightarrow> byte list option) \<Rightarrow> verification_request \<Rightarrow> folder \<Rightarrow> u64 list outcome" where
  "verify_codes content request tree =
     bind_outcome (map_outcome (init_code (vr_tx request)) (vr_replicators request)) (\<lambda>codes.
       calculateVerifyCodes content (snd tree) codes)"

subsection \<open>Codes of different replicators\<close>

lemma bit_rot1: "n < 64 \<Longrightarrow> bit (rot1 h) n = bit h ((n + 1) mod 64)"
  by (cases "n = 63") (auto simp: rot1_def bit_simps dest: bit_imp_le_length)

lemma rot1_xor: "rot1 (a XOR b) = rot1 a XOR rot1 b"
  by (rule bit_word_eqI) (simp add: bit_rot1 bit_simps)

lemma rot1_xor_cancel: "rot1 (a XOR c) XOR rot1 (b XOR c) = rot1 (a XOR b)"
proof -
  have "(a XOR c) XOR (b XOR c) = a XOR b" by (rule bit_word_eqI) (auto simp: bit_simps)
  then show ?thesis by (simp flip: rot1_xor)
qed

lemma rot1_inject: "rot1 a = rot1 b \<longleftrightarrow> a = b"
proof
  assume eq: "rot1 a = rot1 b"
  show "a = b"
  proof (rule bit_word_eqI)
    fix n
    assume "n < LENGTH(64)"
    then have "(n + 63) mod 64 < 64" "((n + 63) mod 64 + 1) mod 64 = n"
      by (simp_all add: mod_simps)
    then show "bit a n = bit b n" using eq bit_rot1 by metis
  qed
qed simp

text \<open>The number of rotations a buffer of \<open>n\<close> bytes causes.\<close>

definition rotations :: "nat \<Rightarrow> nat" where
  "rotations n = n div 8 + 1"

lemma funpow_rot1_shift: "(rot1 ^^ n) (rot1 x) = rot1 ((rot1 ^^ n) x)"
  by (simp flip: funpow_swap1)

lemma hash_chunks_xor:
  "fst (hash_chunks a bs) XOR fst (hash_chunks b bs) = (rot1 ^^ (length bs div 8)) (a XOR b) \<and>
   snd (hash_chunks a bs) = snd (hash_chunks b bs)"
proof (induction a bs arbitrary: b rule: hash_chunks.induct)
  case (1 h b0 b1 b2 b3 b4 b5 b6 b7 bs)
  let ?c = "of_le_bytes [b0, b1, b2, b3, b4, b5, b6, b7] :: u64"
  have "(8 + length bs) div 8 = Suc (length bs div 8)" by simp
  then have "(rot1 ^^ (length (b0 # b1 # b2 # b3 # b4 # b5 # b6 # b7 # bs) div 8)) (h XOR b) =
      (rot1 ^^ (length bs div 8)) (rot1 (h XOR b))" by (simp add: funpow_swap1)
  with 1 [of "rot1 (b XOR ?c)"] show ?case
    by (simp add: rot1_xor_cancel del: of_le_bytes.simps)
qed simp_all

lemma calcHash64_xor:
  assumes "calcHash64 a buf = Inr x" and "calcHash64 b buf = Inr y"
  shows "x XOR y = (rot1 ^^ rotations (length buf)) (a XOR b)"
proof -
  obtain h r where a: "hash_chunks a buf = (h, r)" by fastforce
  obtain k where b: "hash_chunks b buf = (k, r)" using hash_chunks_xor [of a buf b] a by (cases "hash_chunks b buf") simp
  have "x XOR y = rot1 (h XOR tail_value r) XOR rot1 (k XOR tail_value r)"
    using assms a b by (auto simp: calcHash64_def bind_outcome_Inr_iff)
  also have "\<dots> = rot1 (h XOR k)" by (rule rot1_xor_cancel)
  finally show ?thesis
    using hash_chunks_xor [of a buf b] a b by (simp add: rotations_def)
qed

lemma funpow_add_apply: "(f ^^ m) ((f ^^ n) x) = (f ^^ (m + n)) x"
  by (simp add: funpow_add)

lemma hash_pieces_xor:
  assumes "hash_pieces ps a = Inr x" and "hash_pieces ps b = Inr y"
  shows "x XOR y = (rot1 ^^ (\<Sum>p\<leftarrow>ps. rotations (length p))) (a XOR b)"
  using assms
proof (induction ps a arbitrary: b rule: hash_pieces.induct)
  case (2 p ps a)
  then obtain a' b' where "calcHash64 a p = Inr a'" "hash_pieces ps a' = Inr x"
    "calcHash64 b p = Inr b'" "hash_pieces ps b' = Inr y"
    by (auto simp: bind_outcome_Inr_iff)
  with "2.IH" calcHash64_xor [of a p a' b b'] show ?case
    by (simp add: funpow_add_apply add.commute)
qed simp

text \<open>The rotations a file of \<open>n\<close> bytes causes: 513 for every full piece of 4096 bytes.\<close>

definition file_rotations :: "nat \<Rightarrow> nat" where
  "file_rotations n = n div 4096 * 513 + (if n mod 4096 = 0 then 0 else rotations (n mod 4096))"

lemma file_rotations_pieces: "(\<Sum>p\<leftarrow>file_pieces bs. rotations (length p)) = file_rotations (length bs)"
proof (induction bs rule: file_pieces.induct)
  case (2 b bs)
  let ?n = "length (b # bs)"
  show ?case
  proof (cases "?n < 4096")
    case True
    with 2 show ?thesis by (simp add: file_rotations_def)
  next
    case False
    then obtain m where m: "?n = 4096 + m" using le_iff_add by (metis not_le)
    moreover have "(4096 + m) div 4096 = Suc (m div 4096)" by simp
    ultimately have "file_rotations ?n = 513 + file_rotations m"
      by (simp only: file_rotations_def mod_add_self1) simp
    with 2 m show ?thesis by (simp add: rotations_def)
  qed
qed (simp add: file_rotations_def)

text \<open>The rotations of a whole tree depend on the sizes of its files alone.\<close>

fun tree_rotations :: "(hash256 \<Rightarrow> nat option) \<Rightarrow> (string \<times> child) list \<Rightarrow> nat" where
  "tree_rotations sz [] = 0"
| "tree_rotations sz ((n, CFolder a cs) # es) = tree_rotations sz cs + tree_rotations sz es"
| "tree_rotations sz ((n, CFile f) # es) =
     (case sz (fl_hash f) of None \<Rightarrow> 0 | Some n \<Rightarrow> file_rotations n + tree_rotations sz es)"

lemma map_outcome_nth:
  "map_outcome f xs = Inr ys \<Longrightarrow> length ys = length xs \<and> (\<forall>i<length xs. f (xs ! i) = Inr (ys ! i))"
  by (induction xs arbitrary: ys) (auto simp: bind_outcome_Inr_iff nth_Cons split: nat.splits)

lemma calculateVerifyCodes_xor:
  assumes "calculateVerifyCodes content es codes = Inr codes'" and "i < length codes" and "j < length codes"
  shows "length codes' = length codes \<and> codes' ! i XOR codes' ! j =
    (rot1 ^^ tree_rotations (\<lambda>h. map_option length (content h)) es) (codes ! i XOR codes ! j)"
  using assms
proof (induction content es codes arbitrary: codes' rule: calculateVerifyCodes.induct)
  case (2 content n a cs es codes)
  then obtain c1 where "calculateVerifyCodes content cs codes = Inr c1"
    "calculateVerifyCodes content es c1 = Inr codes'"
    by (auto simp: bind_outcome_Inr_iff)
  with "2.IH" "2.prems"(2,3) show ?case by (simp add: funpow_add_apply add.commute)
next
  case (3 content n f es codes)
  show ?case
  proof (cases "content (fl_hash f)")
    case (Some bs)
    then obtain c1 where c1: "map_outcome (hash_pieces (file_pieces bs)) codes = Inr c1"
      "calculateVerifyCodes content es c1 = Inr codes'"
      using "3.prems"(1) by (auto simp: bind_outcome_Inr_iff)
    note n = map_outcome_nth [OF c1(1)]
    have "c1 ! i XOR c1 ! j = (rot1 ^^ file_rotations (length bs)) (codes ! i XOR codes ! j)"
      using hash_pieces_xor [of "file_pieces bs" "codes ! i" "c1 ! i" "codes ! j" "c1 ! j"] n "3.prems"(2,3)
      by (simp add: file_rotations_pieces)
    with "3.IH" [OF Some c1(2)] n "3.prems"(2,3) Some show ?thesis
      by (simp add: funpow_add_apply add.commute)
  qed (use "3.prems" in simp)
qed simp

text \<open>
  C35. A verification code proves less than it should.  The codes of two replicators of a shard
  differ by a rotation of the difference of their seeds, and the rotation depends only on the
  sizes of the files.  So whoever has the list of files with their sizes and the code another
  replicator has sent computes his own code without any of the data.
\<close>

theorem verification_code_follows_from_another_code:
  assumes "verify_codes content request tree = Inr codes"
    and "map_outcome (init_code (vr_tx request)) (vr_replicators request) = Inr seeds"
    and "i < length (vr_replicators request)" and "j < length (vr_replicators request)"
  shows "codes ! i = codes ! j XOR
    (rot1 ^^ tree_rotations (\<lambda>h. map_option length (content h)) (snd tree)) (seeds ! i XOR seeds ! j)"
proof -
  have l: "length seeds = length (vr_replicators request)" using map_outcome_nth [OF assms(2)] by simp
  have "calculateVerifyCodes content (snd tree) seeds = Inr codes"
    using assms(1,2) by (auto simp: verify_codes_def bind_outcome_Inr_iff)
  from calculateVerifyCodes_xor [OF this] l assms(3,4) have
    "codes ! i XOR codes ! j =
      (rot1 ^^ tree_rotations (\<lambda>h. map_option length (content h)) (snd tree)) (seeds ! i XOR seeds ! j)"
    by simp
  moreover have "a = b XOR (a XOR b)" for a b :: u64 by (rule bit_word_eqI) (auto simp: bit_simps)
  ultimately show ?thesis by metis
qed

subsection \<open>The verification task\<close>

record verification_task =
  vt_request :: verification_request
  vt_ourKey :: key
  vt_driveKey :: key
  vt_myVerifyCodesCalculated :: bool
  vt_codeTimerRun :: bool
  vt_verifyApproveTxSent :: bool
  vt_verificationCodes :: "u64 list"
  vt_verifyCodeTimer :: bool
  vt_verifyOpinionTimer :: bool
  vt_myCodeInfo :: "verification_code option"
  vt_myOpinion :: "verify_approval option"
  vt_receivedCodes :: "(key, verification_code) std_map"
  vt_myVerificationApprovalTxInfo :: "verify_approval option"
  vt_mustBeInterrupted :: bool
  vt_sent :: "verify_approval list"

text \<open>
  \<open>vt_sent\<close> records the transactions handed to the event handler.  Sharing codes and opinions
  with the other replicators changes no state and is left out.
\<close>

definition processedVerificationOpinion ::
  "verify_approval \<Rightarrow> verification_task \<Rightarrow> (bool \<times> verification_task) outcome" where
  "processedVerificationOpinion info t =
     (case va_opinions info of
        [op] \<Rightarrow>
          (if vr_tx (vt_request t) \<noteq> va_tx info then Inr (False, t)
           else if vr_shardId (vt_request t) \<noteq> va_shardId info then Inr (True, t)
           else if vo_publicKey op \<notin> set (vr_replicators (vt_request t)) then Inr (True, t)
           else if length (vo_opinions op) \<noteq> length (vr_replicators (vt_request t)) then Inr (True, t)
           else
             let mine = (case vt_myVerificationApprovalTxInfo t of None \<Rightarrow> info | Some m \<Rightarrow> m);
                 t1 = t\<lparr>vt_myVerificationApprovalTxInfo := Some mine\<rparr>
             in bind_outcome (sirius_assert (va_tx mine = va_tx info)) (\<lambda>_.
                  if vo_publicKey op \<in> vo_publicKey ` set (va_opinions mine) then Inr (True, t1)
                  else
                    let mine' = mine\<lparr>va_opinions := va_opinions mine @ [op]\<rparr>;
                        t2 = t1\<lparr>vt_myVerificationApprovalTxInfo := Some mine'\<rparr>
                    in if vt_myOpinion t2 \<noteq> None \<and>
                          length (vr_replicators (vt_request t2)) * 2 div 3 < length (va_opinions mine') \<and>
                          \<not> vt_verifyOpinionTimer t2
                       then Inr (True, t2\<lparr>vt_verifyOpinionTimer := True\<rparr>)
                       else Inr (True, t2)))
      | _ \<Rightarrow> Inl AssertionFailure)"

definition opinion_byte :: "verification_task \<Rightarrow> nat \<Rightarrow> byte" where
  "opinion_byte t i =
     (let k = vr_replicators (vt_request t) ! i
      in if k = vt_ourKey t then 1
         else case map_find k (vt_receivedCodes t) of
                Some c \<Rightarrow> (if vc_code c = vt_verificationCodes t ! i then 1 else 0)
              | None \<Rightarrow> 0)"

definition my_verify_opinion :: "(byte list \<Rightarrow> signature) \<Rightarrow> verification_task \<Rightarrow> verify_approval" where
  "my_verify_opinion sign t =
     (let req = vt_request t
      in \<lparr>va_tx = vr_tx req, va_driveKey = vt_driveKey t, va_shardId = vr_shardId req,
          va_opinions = [verify_opinion_sign sign (vr_tx req) (vt_driveKey t) (vr_shardId req)
            \<lparr>vo_publicKey = vt_ourKey t,
             vo_opinions = map (opinion_byte t) [0..<length (vr_replicators req)], vo_signature = []\<rparr>]\<rparr>)"

definition verifyCodeTimerExpired :: "(byte list \<Rightarrow> signature) \<Rightarrow> verification_task \<Rightarrow> verification_task outcome" where
  "verifyCodeTimerExpired sign t =
     bind_outcome (sirius_assert (\<not> vt_mustBeInterrupted t)) (\<lambda>_.
     bind_outcome (sirius_assert (vt_myVerifyCodesCalculated t)) (\<lambda>_.
     bind_outcome (sirius_assert (\<not> vt_verifyApproveTxSent t)) (\<lambda>_.
       let my = my_verify_opinion sign t
       in bind_outcome (processedVerificationOpinion my (t\<lparr>vt_myOpinion := Some my\<rparr>)) (\<lambda>(b, t').
            bind_outcome (sirius_assert b) (\<lambda>_. Inr t')))))"

text \<open>\<^verbatim>\<open>replicatorNumber-1\<close> wraps for an empty shard, so that the comparison fails.\<close>

definition checkVerifyCodeNumber :: "(byte list \<Rightarrow> signature) \<Rightarrow> verification_task \<Rightarrow> verification_task outcome" where
  "checkVerifyCodeNumber sign t =
     bind_outcome (sirius_assert (vt_myVerifyCodesCalculated t)) (\<lambda>_.
       if vt_myOpinion t \<noteq> None then Inr t
       else if Suc (length (vt_receivedCodes t)) = length (vr_replicators (vt_request t))
       then verifyCodeTimerExpired sign (t\<lparr>vt_verifyCodeTimer := False\<rparr>)
       else if \<not> vt_codeTimerRun t
       then Inr (t\<lparr>vt_codeTimerRun := True, vt_verifyCodeTimer := True\<rparr>)
       else Inr t)"

definition processedVerificationCode ::
  "(byte list \<Rightarrow> signature) \<Rightarrow> verification_code \<Rightarrow> verification_task \<Rightarrow> (bool \<times> verification_task) outcome" where
  "processedVerificationCode sign info t =
     (if vc_tx info \<noteq> vr_tx (vt_request t) then Inr (False, t)
      else if vc_replicatorKey info \<notin> set (vr_replicators (vt_request t)) then Inr (True, t)
      else if map_contains (vc_replicatorKey info) (vt_receivedCodes t) then Inr (True, t)
      else let t1 = t\<lparr>vt_receivedCodes := map_put (vc_replicatorKey info) info (vt_receivedCodes t)\<rparr>
           in if vt_myVerifyCodesCalculated t1
              then bind_outcome (checkVerifyCodeNumber sign t1) (\<lambda>t2. Inr (True, t2))
              else Inr (True, t1))"

text \<open>
  \<^verbatim>\<open>verificationCodesCompleted\<close>, with the codes the verification thread has computed; our key not
  being in the shard reads beyond the codes.
\<close>

definition verificationCodesCompleted ::
  "(byte list \<Rightarrow> signature) \<Rightarrow> u64 list \<Rightarrow> verification_task \<Rightarrow> verification_task outcome" where
  "verificationCodesCompleted sign codes t =
     (if vt_mustBeInterrupted t then Inr t
      else let i = length (takeWhile (\<lambda>k. k \<noteq> vt_ourKey t) (vr_replicators (vt_request t)))
           in if length codes \<le> i then Inl UseAfterFree
              else let info = code_sign sign \<lparr>vc_tx = vr_tx (vt_request t), vc_replicatorKey = vt_ourKey t,
                              vc_driveKey = vt_driveKey t, vc_code = codes ! i, vc_signature = []\<rparr>
                   in checkVerifyCodeNumber sign
                        (t\<lparr>vt_verificationCodes := codes, vt_myVerifyCodesCalculated := True,
                           vt_myCodeInfo := Some info\<rparr>))"

definition verifyOpinionTimerExpired :: "verification_task \<Rightarrow> verification_task outcome" where
  "verifyOpinionTimerExpired t =
     bind_outcome (sirius_assert (\<not> vt_mustBeInterrupted t)) (\<lambda>_.
       case vt_myVerificationApprovalTxInfo t of
         None \<Rightarrow> Inl NullDereference
       | Some info \<Rightarrow> Inr (t\<lparr>vt_verifyApproveTxSent := True, vt_sent := vt_sent t @ [info]\<rparr>))"

definition verification_terminate :: "verification_task \<Rightarrow> verification_task" where
  "verification_terminate t =
     t\<lparr>vt_verifyCodeTimer := False, vt_verifyOpinionTimer := False, vt_mustBeInterrupted := True\<rparr>"

definition new_verification_task :: "key \<Rightarrow> key \<Rightarrow> verification_request \<Rightarrow> verification_task" where
  "new_verification_task ourKey driveKey req =
     \<lparr>vt_request = req, vt_ourKey = ourKey, vt_driveKey = driveKey, vt_myVerifyCodesCalculated = False,
      vt_codeTimerRun = False, vt_verifyApproveTxSent = False, vt_verificationCodes = [],
      vt_verifyCodeTimer = False, vt_verifyOpinionTimer = False, vt_myCodeInfo = None,
      vt_myOpinion = None, vt_receivedCodes = [], vt_myVerificationApprovalTxInfo = None,
      vt_mustBeInterrupted = False, vt_sent = []\<rparr>"

fun feed_opinions :: "verify_approval list \<Rightarrow> verification_task \<Rightarrow> verification_task outcome" where
  "feed_opinions [] t = Inr t"
| "feed_opinions (o' # os) t =
     bind_outcome (processedVerificationOpinion o' t) (\<lambda>(b, t1).
       bind_outcome (sirius_assert b) (\<lambda>_. feed_opinions os t1))"

fun feed_codes ::
  "(byte list \<Rightarrow> signature) \<Rightarrow> verification_code list \<Rightarrow> verification_task \<Rightarrow> verification_task outcome" where
  "feed_codes sign [] t = Inr t"
| "feed_codes sign (c # cs) t =
     bind_outcome (processedVerificationCode sign c t) (\<lambda>(b, t1).
       bind_outcome (sirius_assert b) (\<lambda>_. feed_codes sign cs t1))"

definition createDriveVerificationTask ::
  "(byte list \<Rightarrow> signature) \<Rightarrow> key \<Rightarrow> key \<Rightarrow> verification_request \<Rightarrow> verify_approval list \<Rightarrow>
   verification_code list \<Rightarrow> verification_task outcome" where
  "createDriveVerificationTask sign ourKey driveKey req receivedOpinions receivedCodes =
     bind_outcome (feed_opinions receivedOpinions (new_verification_task ourKey driveKey req))
       (feed_codes sign receivedCodes)"

subsection \<open>What a verification transaction contains\<close>

datatype verification_event = CodeReceived verification_code | VerifyOpinionReceived verify_approval |
  CodesCompleted "u64 list" | CodeTimer | VerifyOpinionTimer | VerificationCancelled

definition continue_with :: "verification_task \<Rightarrow> verification_task outcome \<Rightarrow> verification_task" where
  "continue_with t r = (case r of Inl _ \<Rightarrow> t | Inr t' \<Rightarrow> t')"

definition continue_with2 :: "verification_task \<Rightarrow> (bool \<times> verification_task) outcome \<Rightarrow> verification_task" where
  "continue_with2 t r = (case r of Inl _ \<Rightarrow> t | Inr (b, t') \<Rightarrow> t')"

text \<open>A fault stops the program, so the state stays; a timer's callback runs while the timer is set.\<close>

fun verification_step ::
  "(byte list \<Rightarrow> signature) \<Rightarrow> verification_task \<Rightarrow> verification_event \<Rightarrow> verification_task" where
  "verification_step sign t (CodeReceived c) =
     continue_with2 t (processedVerificationCode sign c t)"
| "verification_step sign t (VerifyOpinionReceived o') =
     continue_with2 t (processedVerificationOpinion o' t)"
| "verification_step sign t (CodesCompleted codes) = continue_with t (verificationCodesCompleted sign codes t)"
| "verification_step sign t CodeTimer =
     (if vt_verifyCodeTimer t then continue_with t (verifyCodeTimerExpired sign t) else t)"
| "verification_step sign t VerifyOpinionTimer =
     (if vt_verifyOpinionTimer t then continue_with t (verifyOpinionTimerExpired t) else t)"
| "verification_step sign t VerificationCancelled = verification_terminate t"

text \<open>Opinions of distinct members of the shard on the request, each about the whole shard.\<close>

definition good_opinions :: "verification_request \<Rightarrow> verify_approval \<Rightarrow> bool" where
  "good_opinions req info \<longleftrightarrow>
     va_tx info = vr_tx req \<and> va_shardId info = vr_shardId req \<and>
     distinct (map vo_publicKey (va_opinions info)) \<and>
     (\<forall>op\<in>set (va_opinions info). vo_publicKey op \<in> set (vr_replicators req) \<and>
        length (vo_opinions op) = length (vr_replicators req))"

definition two_thirds :: "verification_request \<Rightarrow> verify_approval \<Rightarrow> bool" where
  "two_thirds req info \<longleftrightarrow> length (vr_replicators req) * 2 div 3 < length (va_opinions info)"

definition verification_inv :: "verification_request \<Rightarrow> verification_task \<Rightarrow> bool" where
  "verification_inv req t \<longleftrightarrow>
     vt_request t = req \<and>
     (\<forall>m. vt_myVerificationApprovalTxInfo t = Some m \<longrightarrow> good_opinions req m) \<and>
     (vt_verifyOpinionTimer t \<longrightarrow> (\<exists>m. vt_myVerificationApprovalTxInfo t = Some m \<and> two_thirds req m)) \<and>
     (\<forall>info\<in>set (vt_sent t). good_opinions req info \<and> two_thirds req info)"

lemma processedVerificationOpinion_inv:
  assumes "verification_inv req t" and "processedVerificationOpinion info t = Inr (b, t')"
  shows "verification_inv req t'"
proof (cases "vt_myVerificationApprovalTxInfo t")
  case None
  then show ?thesis
    using assms
    by (auto simp: processedVerificationOpinion_def verification_inv_def good_opinions_def Let_def
        bind_outcome_Inr_iff split: list.splits if_splits)
next
  case (Some m)
  then have "good_opinions req m" and req: "vt_request t = req" using assms(1) by (simp_all add: verification_inv_def)
  then have "good_opinions req (m\<lparr>va_opinions := va_opinions m @ [op]\<rparr>)"
    if "vo_publicKey op \<notin> vo_publicKey ` set (va_opinions m)" "vo_publicKey op \<in> set (vr_replicators req)"
      "length (vo_opinions op) = length (vr_replicators req)" for op
    using that by (auto simp: good_opinions_def)
  then show ?thesis
    using assms Some req
    by (auto simp: processedVerificationOpinion_def verification_inv_def two_thirds_def Let_def
        bind_outcome_Inr_iff split: list.splits if_splits)
qed

text \<open>
  A predicate on tasks that the storing of an opinion keeps, that depends on none of the fields
  about codes, and that the end of the opinion timer and a cancellation keep, is kept by
  every event.
\<close>

locale opinion_closed =
  fixes P :: "verification_task \<Rightarrow> bool"
  assumes opinion: "P t \<Longrightarrow> processedVerificationOpinion info t = Inr (b, t') \<Longrightarrow> P t'"
    and my_opinion: "P (t\<lparr>vt_myOpinion := a\<rparr>) = P t"
    and received: "P (t\<lparr>vt_receivedCodes := c\<rparr>) = P t"
    and code_timer: "P (t\<lparr>vt_verifyCodeTimer := r\<rparr>) = P t"
    and timer_run: "P (t\<lparr>vt_codeTimerRun := r\<rparr>) = P t"
    and codes: "P (t\<lparr>vt_verificationCodes := v, vt_myVerifyCodesCalculated := r, vt_myCodeInfo := i\<rparr>) = P t"
    and opinion_timer: "P t \<Longrightarrow> vt_verifyOpinionTimer t \<Longrightarrow> verifyOpinionTimerExpired t = Inr t' \<Longrightarrow> P t'"
    and cancelled: "P t \<Longrightarrow> P (verification_terminate t)"
begin

lemma verifyCodeTimerExpired_keeps: "P t \<Longrightarrow> verifyCodeTimerExpired sign t = Inr t' \<Longrightarrow> P t'"
  using opinion [of "t\<lparr>vt_myOpinion := Some (my_verify_opinion sign t)\<rparr>"]
  by (auto simp: verifyCodeTimerExpired_def bind_outcome_Inr_iff Let_def my_opinion)

lemma checkVerifyCodeNumber_keeps: "P t \<Longrightarrow> checkVerifyCodeNumber sign t = Inr t' \<Longrightarrow> P t'"
  by (auto simp: checkVerifyCodeNumber_def bind_outcome_Inr_iff timer_run code_timer split: if_splits
      intro: verifyCodeTimerExpired_keeps [of "t\<lparr>vt_verifyCodeTimer := False\<rparr>" sign])

lemma processedVerificationCode_keeps:
  assumes "P t" and "processedVerificationCode sign c t = Inr (b, t')"
  shows "P t'"
proof -
  let ?t1 = "t\<lparr>vt_receivedCodes := map_put (vc_replicatorKey c) c (vt_receivedCodes t)\<rparr>"
  have "t' = t \<or> t' = ?t1 \<or> checkVerifyCodeNumber sign ?t1 = Inr t'"
    using assms(2) by (auto simp: processedVerificationCode_def Let_def bind_outcome_Inr_iff split: if_splits)
  then show ?thesis
    using assms(1) checkVerifyCodeNumber_keeps [of ?t1 sign t'] by (auto simp: received)
qed

lemma verificationCodesCompleted_keeps: "P t \<Longrightarrow> verificationCodesCompleted sign cs t = Inr t' \<Longrightarrow> P t'"
  by (auto simp: verificationCodesCompleted_def Let_def codes split: if_splits
      intro: checkVerifyCodeNumber_keeps [rotated])

lemma step_keeps: "P t \<Longrightarrow> P (verification_step sign t e)"
  by (cases e) (auto simp: continue_with_def continue_with2_def split: sum.splits
    intro: processedVerificationCode_keeps opinion verificationCodesCompleted_keeps
      verifyCodeTimerExpired_keeps opinion_timer cancelled)

end

interpretation vi: opinion_closed "verification_inv req" for req
proof unfold_locales
  show "verification_inv req t'"
    if "verification_inv req t" "vt_verifyOpinionTimer t" "verifyOpinionTimerExpired t = Inr t'" for t t'
    using that
    by (auto simp: verifyOpinionTimerExpired_def verification_inv_def bind_outcome_Inr_iff split: option.splits)
  show "verification_inv req t'" if "verification_inv req t" "processedVerificationOpinion info t = Inr (b, t')"
    for t info b t'
    using that by (rule processedVerificationOpinion_inv)
qed (auto simp: verification_terminate_def verification_inv_def)

interpretation vf: event_system "verification_step sign"
    "\<lambda>t. \<exists>ourKey driveKey. t = new_verification_task ourKey driveKey req" "verification_inv req"
  for sign req
proof unfold_locales
  show "verification_inv req t" if "\<exists>ourKey driveKey. t = new_verification_task ourKey driveKey req" for t
    using that by (auto simp: new_verification_task_def verification_inv_def)
qed (rule vi.step_keeps)

text \<open>
  C14. Every verification transaction that is handed over carries opinions of more than two
  thirds of the shard: distinct members of it, each with one verdict per replicator, all for
  the same request and shard.
\<close>

theorem verification_transaction_has_a_quorum:
  "\<forall>info\<in>set (vt_sent (run (verification_step sign) (new_verification_task ourKey driveKey req) es)).
     good_opinions req info \<and> two_thirds req info"
proof -
  have "verification_inv req (run (verification_step sign) (new_verification_task ourKey driveKey req) es)"
    by (rule vf.reachable_invar) blast
  then show ?thesis by (simp add: verification_inv_def)
qed

text \<open>
  The verdicts are right: when the codes have been computed and the time for codes is over,
  the own opinion about a replicator of the shard is 1 exactly when it is the replicator itself
  or its code was received and equals the computed one.
\<close>

lemma verification_verdicts:
  assumes "i < length (vr_replicators (vt_request t))"
  shows "\<exists>op. va_opinions (my_verify_opinion sign t) = [op] \<and> vo_publicKey op = vt_ourKey t \<and>
    length (vo_opinions op) = length (vr_replicators (vt_request t)) \<and>
    vo_opinions op ! i \<in> {0, 1} \<and>
    (vo_opinions op ! i = 1 \<longleftrightarrow> vr_replicators (vt_request t) ! i = vt_ourKey t \<or>
       (\<exists>c. map_find (vr_replicators (vt_request t) ! i) (vt_receivedCodes t) = Some c \<and>
          vc_code c = vt_verificationCodes t ! i))"
  using assms
  by (auto simp: my_verify_opinion_def verify_opinion_sign_def opinion_byte_def Let_def split: option.splits)

definition lone_task :: "key \<Rightarrow> key \<Rightarrow> verification_request \<Rightarrow> verification_task" where
  "lone_task ourKey driveKey req = new_verification_task ourKey driveKey (req\<lparr>vr_replicators := [ourKey]\<rparr>)"

lemma lone_opinion:
  assumes "processedVerificationOpinion info t = Inr (b, t')" and "vr_replicators (vt_request t) = [k]"
    and "\<forall>m. vt_myVerificationApprovalTxInfo t = Some m \<longrightarrow> k \<in> vo_publicKey ` set (va_opinions m)"
  shows "vt_verifyOpinionTimer t' = vt_verifyOpinionTimer t \<and> vt_request t' = vt_request t \<and> vt_sent t' = vt_sent t \<and>
    (\<forall>m. vt_myVerificationApprovalTxInfo t' = Some m \<longrightarrow> k \<in> vo_publicKey ` set (va_opinions m))"
  using assms
  by (auto simp: processedVerificationOpinion_def Let_def bind_outcome_Inr_iff
      split: list.splits if_splits option.splits)

definition lone_inv :: "key \<Rightarrow> verification_task \<Rightarrow> bool" where
  "lone_inv k t \<longleftrightarrow> vr_replicators (vt_request t) = [k] \<and> \<not> vt_verifyOpinionTimer t \<and> vt_sent t = [] \<and>
     (\<forall>m. vt_myVerificationApprovalTxInfo t = Some m \<longrightarrow> k \<in> vo_publicKey ` set (va_opinions m))"

interpretation li: opinion_closed "lone_inv k" for k
proof unfold_locales
  show "lone_inv k t'" if "lone_inv k t" "processedVerificationOpinion info t = Inr (b, t')" for t info b t'
    using lone_opinion [OF that(2), of k] that(1) by (auto simp: lone_inv_def)
qed (auto simp: lone_inv_def verification_terminate_def)

interpretation lo: event_system "verification_step sign"
    "\<lambda>t. \<exists>driveKey req. t = lone_task k driveKey req" "lone_inv k" for sign k
proof unfold_locales
  show "lone_inv k t" if "\<exists>driveKey req. t = lone_task k driveKey req" for t
    using that by (auto simp: lone_task_def new_verification_task_def lone_inv_def)
qed (rule li.step_keeps)

text \<open>
  The first opinion a task stores is taken for a duplicate of itself, so it never starts the
  timer.  A shard of one replicator therefore never completes a verification: its codes are
  computed, its opinion is stored, and no timer is set, after which no event sends a
  transaction.
\<close>

lemma lone_replicator_never_sends:
  "vt_sent (run (verification_step sign) (lone_task ourKey driveKey req) es) = []"
proof -
  have "lone_inv ourKey (run (verification_step sign) (lone_task ourKey driveKey req) es)"
    by (rule lo.reachable_invar) blast
  then show ?thesis by (simp add: lone_inv_def)
qed

subsection \<open>A shard of two replicators\<close>

definition pair_request :: verification_request where
  "pair_request = \<lparr>vr_tx = 5, vr_shardId = 0, vr_approvedModification = 4, vr_replicators = [1, 2],
     vr_durationMs = 1000, vr_blockedReplicators = []\<rparr>"

definition pair_events :: "verification_event list" where
  "pair_events =
     [VerifyOpinionReceived \<lparr>va_tx = 5, va_driveKey = 9, va_shardId = 0,
        va_opinions = [\<lparr>vo_publicKey = 2, vo_opinions = [1, 1], vo_signature = []\<rparr>]\<rparr>,
      CodeReceived \<lparr>vc_tx = 5, vc_replicatorKey = 2, vc_driveKey = 9, vc_code = 11, vc_signature = []\<rparr>,
      CodesCompleted [10, 11], VerifyOpinionTimer]"

definition pair_run :: verification_task where
  "pair_run = run (verification_step (\<lambda>_. [])) (new_verification_task 1 9 pair_request) pair_events"

theorem verification_code_follows_from_another_code_witness:
  "\<exists>codes seeds. verify_codes (\<lambda>_. Some [1, 2, 3]) pair_request sample = Inr codes \<and>
     map_outcome (init_code 5) [1, 2] = Inr seeds \<and>
     codes ! 0 = codes ! 1 XOR (rot1 ^^ tree_rotations (\<lambda>_. Some 3) (snd sample)) (seeds ! 0 XOR seeds ! 1)"
proof -
  have seeds: "\<exists>seeds. map_outcome (init_code (vr_tx pair_request)) (vr_replicators pair_request) = Inr seeds"
    by (simp add: pair_request_def init_code_def calcHash64_def hash_bytes_def le_bytes_def split: prod.splits)
  then obtain seeds where s: "map_outcome (init_code (vr_tx pair_request)) (vr_replicators pair_request) = Inr seeds"
    by blast
  then have "\<exists>codes. verify_codes (\<lambda>_. Some [1, 2, 3]) pair_request sample = Inr codes"
  proof -
    have "\<exists>c. calcHash64 h [1, 2, 3] = Inr c" for h by (simp add: calcHash64_def)
    then have "\<exists>cs. map_outcome (hash_pieces (file_pieces [1, 2, 3])) hs = Inr cs" for hs
    proof (induction hs)
      case (Cons h hs)
      then obtain c cs where "calcHash64 h [1, 2, 3] = Inr c"
        "map_outcome (hash_pieces (file_pieces [1, 2, 3])) hs = Inr cs" by metis
      moreover have "hash_pieces (file_pieces [1, 2, 3]) h = Inr c" using calculation(1) by simp
      ultimately show ?case by (simp del: hash_pieces.simps file_pieces.simps)
    qed simp
    then obtain cs where "map_outcome (hash_pieces (file_pieces [1, 2, 3])) seeds = Inr cs" by blast
    with s show ?thesis by (simp add: verify_codes_def sample_def)
  qed
  then obtain codes where c: "verify_codes (\<lambda>_. Some [1, 2, 3]) pair_request sample = Inr codes" by blast
  from verification_code_follows_from_another_code [OF c s, of 0 1] c s show ?thesis
    by (simp add: pair_request_def numeral_3_eq_3)
qed

theorem verification_transaction_has_a_quorum_witness:
  "length (vt_sent pair_run) = 1 \<and> good_opinions pair_request (hd (vt_sent pair_run)) \<and>
   two_thirds pair_request (hd (vt_sent pair_run))"
proof -
  have "length (vt_sent pair_run) = 1" by code_simp
  then have "hd (vt_sent pair_run) \<in> set (vt_sent pair_run)" by (cases "vt_sent pair_run") auto
  with \<open>length (vt_sent pair_run) = 1\<close> show ?thesis
    using verification_transaction_has_a_quorum [of "\<lambda>_. []" 1 9 pair_request pair_events]
    by (simp add: pair_run_def)
qed

end
