(* ===== verification/Flat_Drive.thy ===== *)
theory Flat_Drive
  imports Approval Verification
begin

section \<open>The drive: its queues and its current task\<close>

text \<open>
  Model of \<^verbatim>\<open>DefaultFlatDrive\<close> (\<^verbatim>\<open>src/drive/FlatDrive.cpp\<close>): the requests that wait, the task that
  runs, and the handlers of transactions and messages.  Requests that may be absent
  (\<^verbatim>\<open>mobj\<close>, a \<^verbatim>\<open>unique_ptr\<close>) are options.  The handlers run one at a time on the session thread;
  the end of a task reaches the drive later as a call of \<^verbatim>\<open>runNextTask\<close>.
\<close>

datatype deferred = DModification modification_request | DStream stream_request

fun transactionHash :: "deferred \<Rightarrow> hash256" where
  "transactionHash (DModification r) = mr_transactionHash r"
| "transactionHash (DStream r) = sr_streamId r"

fun maxDataSize :: "deferred \<Rightarrow> u64" where
  "maxDataSize (DModification r) = mr_maxDataSize r"
| "maxDataSize (DStream r) = sr_maxSizeBytes r"

record sync_request =
  sy_modificationIdentifier :: hash256
  sy_rootHash :: hash256

text \<open>
  \<open>EmptyCallback\<close> is a call of a request's callback with no response, for the request of the
  given modification.
\<close>

datatype drive_output = TaskEffect effect | EmptyCallback hash256

record flat_drive =
  dr_params :: drive_params
  dr_recipientShard :: "key list"
  dr_unknownModificationOpinions :: "(hash256, (key, approval_info) std_map) std_map"
  dr_unknownVerificationOpinions :: "(hash256, verify_approval list) std_map"
  dr_unknownVerificationCodeQueue :: "(hash256, verification_code list) std_map"
  dr_closeDriveRequest :: "hash256 option option"
  dr_modificationCancelRequest :: "hash256 option"
  dr_catchingUpRequest :: "catching_up_request option"
  dr_synchronizationRequest :: "sync_request option"
  dr_deferredModificationRequests :: "deferred list"
  dr_deferredManualModificationRequest :: "hash256 option"
  dr_deferredVerificationRequest :: "verification_request option"
  dr_task :: "task option"
  dr_verificationTask :: "verification_task option"
  dr_blockedReplicators :: "key list"
  dr_isStopped :: bool
  dr_outputs :: "drive_output list"

definition add_output :: "drive_output \<Rightarrow> flat_drive \<Rightarrow> flat_drive" where
  "add_output x d = d\<lparr>dr_outputs := dr_outputs d @ [x]\<rparr>"

text \<open>A call of a virtual function of the current task.\<close>

definition task_world :: "task \<Rightarrow> flat_drive \<Rightarrow> world" where
  "task_world t d = \<lparr>w_task = t, w_params = dr_params d, w_effects = []\<rparr>"

definition put_world :: "world \<Rightarrow> flat_drive \<Rightarrow> flat_drive" where
  "put_world w d =
     d\<lparr>dr_task := Some (w_task w), dr_params := w_params w,
       dr_outputs := dr_outputs d @ map TaskEffect (w_effects w)\<rparr>"

definition task_is :: "drive_task_type \<Rightarrow> flat_drive \<Rightarrow> bool" where
  "task_is ty d = (case dr_task d of None \<Rightarrow> False | Some t \<Rightarrow> tk_type t = ty)"

definition initializing :: "flat_drive \<Rightarrow> bool" where
  "initializing d = task_is DRIVE_INITIALIZATION d"

subsection \<open>Running tasks\<close>

text \<open>
  The common end of the \<^verbatim>\<open>run...Task\<close> functions: there is no task, the new one has the expected
  type, and it is started.
\<close>

definition start_task :: "drive_task_type \<Rightarrow> task \<Rightarrow> flat_drive \<Rightarrow> flat_drive outcome" where
  "start_task ty t d =
     bind_outcome (sirius_assert (dr_task d = None)) (\<lambda>_.
       bind_outcome (sirius_assert (tk_type t = ty)) (\<lambda>_.
         bind_outcome (run_task (task_world t d)) (\<lambda>w. Inr (put_world w d))))"

definition runDriveInitializationTask :: "flat_drive \<Rightarrow> flat_drive outcome" where
  "runDriveInitializationTask d = start_task DRIVE_INITIALIZATION (new_task DRIVE_INITIALIZATION 0 0 0) d"

definition runModificationTask :: "modification_request \<Rightarrow> flat_drive \<Rightarrow> flat_drive outcome" where
  "runModificationTask r d =
     (let opinions = map_index (mr_transactionHash r) [] (dr_unknownModificationOpinions d)
      in start_task MODIFICATION_REQUEST (createModificationTask r opinions)
           (d\<lparr>dr_unknownModificationOpinions :=
                map_erase (mr_transactionHash r) (dr_unknownModificationOpinions d)\<rparr>))"

definition runStreamTask :: "stream_request \<Rightarrow> flat_drive \<Rightarrow> flat_drive outcome" where
  "runStreamTask r d = start_task STREAM_REQUEST (createStreamTask r) d"

definition runDeferredModificationTask :: "flat_drive \<Rightarrow> flat_drive outcome" where
  "runDeferredModificationTask d =
     bind_outcome (sirius_assert (dr_task d = None)) (\<lambda>_.
       case dr_deferredModificationRequests d of
         [] \<Rightarrow> Inl UseAfterFree
       | r # rs \<Rightarrow>
           let d1 = d\<lparr>dr_deferredModificationRequests := rs\<rparr>
           in case r of DModification m \<Rightarrow> runModificationTask m d1 | DStream s \<Rightarrow> runStreamTask s d1)"

text \<open>A manual modification that waits is given up before a synchronisation or a catching-up.\<close>

definition drop_manual :: "flat_drive \<Rightarrow> flat_drive" where
  "drop_manual d =
     (case dr_deferredManualModificationRequest d of
        None \<Rightarrow> d
      | Some i \<Rightarrow> add_output (EmptyCallback i) (d\<lparr>dr_deferredManualModificationRequest := None\<rparr>))"

definition runSynchronizationTask :: "flat_drive \<Rightarrow> flat_drive outcome" where
  "runSynchronizationTask d =
     (case dr_synchronizationRequest d of
        None \<Rightarrow> Inl AssertionFailure
      | Some r \<Rightarrow>
          start_task MANUAL_SYNCHRONIZATION
            (new_task MANUAL_SYNCHRONIZATION (sy_modificationIdentifier r) (sy_rootHash r) 0)
            ((drop_manual d)\<lparr>dr_synchronizationRequest := None\<rparr>))"

text \<open>
  \<^verbatim>\<open>runCatchingUpTask\<close>: the queued modifications up to the one caught up to are dropped, and the
  expected download grows by their sizes.
\<close>

definition skip_until :: "hash256 \<Rightarrow> deferred list \<Rightarrow> deferred list \<times> deferred list" where
  "skip_until tx rs =
     (if tx \<in> transactionHash ` set rs
      then (takeWhile (\<lambda>r. transactionHash r \<noteq> tx) rs @ [hd (dropWhile (\<lambda>r. transactionHash r \<noteq> tx) rs)],
            tl (dropWhile (\<lambda>r. transactionHash r \<noteq> tx) rs))
      else ([], rs))"

definition runCatchingUpTask :: "flat_drive \<Rightarrow> flat_drive outcome" where
  "runCatchingUpTask d =
     bind_outcome (sirius_assert (dr_task d = None)) (\<lambda>_.
       case dr_catchingUpRequest d of
         None \<Rightarrow> Inl NullDereference
       | Some r \<Rightarrow>
           let (skipped, rest) = skip_until (cr_modifyTransactionHash r) (dr_deferredModificationRequests d);
               oc = fold (\<lambda>q. increaseApprovedExpectedCumulativeDownload (maxDataSize q)) skipped
                      (dp_opinionController (dr_params d));
               d1 = d\<lparr>dr_params := (dr_params d)\<lparr>dp_opinionController := oc\<rparr>,
                      dr_deferredModificationRequests := rest\<rparr>
           in start_task CATCHING_UP (createCatchingUpTask r)
                ((drop_manual d1)\<lparr>dr_catchingUpRequest := None\<rparr>))"

definition runCancelModificationTask :: "flat_drive \<Rightarrow> flat_drive outcome" where
  "runCancelModificationTask d =
     (case dr_modificationCancelRequest d of
        None \<Rightarrow> Inl AssertionFailure
      | Some tx \<Rightarrow> start_task MODIFICATION_CANCEL (new_task MODIFICATION_CANCEL tx 0 0)
                    (d\<lparr>dr_modificationCancelRequest := None\<rparr>))"

definition runCloseDriveTask :: "flat_drive \<Rightarrow> flat_drive outcome" where
  "runCloseDriveTask d =
     (case dr_closeDriveRequest d of
        None \<Rightarrow> Inl AssertionFailure
      | Some _ \<Rightarrow> start_task DRIVE_CLOSURE (new_task DRIVE_CLOSURE 0 0 0) (d\<lparr>dr_closeDriveRequest := None\<rparr>))"

definition runManualModificationTask :: "flat_drive \<Rightarrow> flat_drive outcome" where
  "runManualModificationTask d =
     (case dr_deferredManualModificationRequest d of
        None \<Rightarrow> Inl NullDereference
      | Some i \<Rightarrow> start_task MANUAL_MODIFICATION (new_task MANUAL_MODIFICATION i 0 0)
                   (d\<lparr>dr_deferredManualModificationRequest := None\<rparr>))"

text \<open>
  \<^verbatim>\<open>runVerificationTask\<close>: the second erase names the opinions again, so the (emptied) entry of
  the code queue stays.
\<close>

definition runVerificationTask :: "(byte list \<Rightarrow> signature) \<Rightarrow> flat_drive \<Rightarrow> flat_drive outcome" where
  "runVerificationTask sign d =
     (case dr_deferredVerificationRequest d of
        None \<Rightarrow> Inl NullDereference
      | Some req \<Rightarrow>
          let tx = vr_tx req;
              opinions = map_index tx [] (dr_unknownVerificationOpinions d);
              codes = map_index tx [] (dr_unknownVerificationCodeQueue d)
          in bind_outcome
               (createDriveVerificationTask sign (dp_replicatorKey (dr_params d)) (dp_driveKey (dr_params d))
                  (req\<lparr>vr_blockedReplicators := []\<rparr>) opinions codes)
               (\<lambda>t. Inr (d\<lparr>dr_unknownVerificationOpinions := map_erase tx (dr_unknownVerificationOpinions d),
                           dr_unknownVerificationCodeQueue := map_put tx [] (dr_unknownVerificationCodeQueue d),
                           dr_blockedReplicators := vr_blockedReplicators req,
                           dr_deferredVerificationRequest := None,
                           dr_verificationTask := Some t\<rparr>)))"

definition verification_due :: "flat_drive \<Rightarrow> bool" where
  "verification_due d \<longleftrightarrow>
     (case dr_deferredVerificationRequest d of
        None \<Rightarrow> False
      | Some req \<Rightarrow> dp_lastApprovedModification (dr_params d) = vr_approvedModification req)"

definition runNextTask :: "(byte list \<Rightarrow> signature) \<Rightarrow> flat_drive \<Rightarrow> flat_drive outcome" where
  "runNextTask sign d =
     (if dr_isStopped d then Inr d
      else let d1 = d\<lparr>dr_task := None\<rparr>
           in if dr_closeDriveRequest d1 \<noteq> None then runCloseDriveTask d1
              else bind_outcome (if verification_due d1 then runVerificationTask sign d1 else Inr d1) (\<lambda>d2.
                if dr_modificationCancelRequest d2 \<noteq> None then runCancelModificationTask d2
                else if dr_catchingUpRequest d2 \<noteq> None then runCatchingUpTask d2
                else if dr_synchronizationRequest d2 \<noteq> None then runSynchronizationTask d2
                else if dr_deferredModificationRequests d2 \<noteq> [] then runDeferredModificationTask d2
                else if dr_deferredManualModificationRequest d2 \<noteq> None then runManualModificationTask d2
                else Inr d2))"

subsection \<open>Verification\<close>

definition startVerification :: "(byte list \<Rightarrow> signature) \<Rightarrow> verification_request \<Rightarrow> flat_drive \<Rightarrow> flat_drive outcome" where
  "startVerification sign req d =
     (let d1 = d\<lparr>dr_deferredVerificationRequest := Some req\<rparr>
      in if initializing d1 then Inr d1
         else if verification_due d1 then runVerificationTask sign d1 else Inr d1)"

definition cancelVerification :: "flat_drive \<Rightarrow> flat_drive" where
  "cancelVerification d =
     d\<lparr>dr_blockedReplicators := [], dr_deferredVerificationRequest := None, dr_verificationTask := None\<rparr>"

definition onVerificationOpinionReceived :: "verify_approval \<Rightarrow> flat_drive \<Rightarrow> flat_drive outcome" where
  "onVerificationOpinionReceived an d =
     (let keep = (\<lambda>d. d\<lparr>dr_unknownVerificationOpinions :=
            map_put (va_tx an) (map_index (va_tx an) [] (dr_unknownVerificationOpinions d) @ [an])
              (dr_unknownVerificationOpinions d)\<rparr>)
      in case dr_verificationTask d of
           None \<Rightarrow> Inr (keep d)
         | Some t \<Rightarrow> bind_outcome (processedVerificationOpinion an t) (\<lambda>(b, t').
             let d1 = d\<lparr>dr_verificationTask := Some t'\<rparr> in Inr (if b then d1 else keep d1)))"

definition onVerificationCodeReceived ::
  "(byte list \<Rightarrow> signature) \<Rightarrow> verification_code \<Rightarrow> flat_drive \<Rightarrow> flat_drive outcome" where
  "onVerificationCodeReceived sign c d =
     (let keep = (\<lambda>d. d\<lparr>dr_unknownVerificationCodeQueue :=
            map_put (vc_tx c) (map_index (vc_tx c) [] (dr_unknownVerificationCodeQueue d) @ [c])
              (dr_unknownVerificationCodeQueue d)\<rparr>)
      in case dr_verificationTask d of
           None \<Rightarrow> Inr (keep d)
         | Some t \<Rightarrow> bind_outcome (processedVerificationCode sign c t) (\<lambda>(b, t').
             let d1 = d\<lparr>dr_verificationTask := Some t'\<rparr> in Inr (if b then d1 else keep d1)))"

subsection \<open>Opinions and transactions\<close>

definition onOpinionReceived :: "approval_info \<Rightarrow> flat_drive \<Rightarrow> flat_drive outcome" where
  "onOpinionReceived an d =
     (let tx = ai_modifyTransactionHash an; k = so_replicatorKey (hd (ai_opinions an));
          keep = (\<lambda>d. d\<lparr>dr_unknownModificationOpinions :=
            map_put tx (map_put k an (map_index tx [] (dr_unknownModificationOpinions d)))
              (dr_unknownModificationOpinions d)\<rparr>)
      in case dr_task d of
           None \<Rightarrow> Inr (keep d)
         | Some t \<Rightarrow> bind_outcome (processedModifyOpinion an (task_world t d)) (\<lambda>(b, w).
             let d1 = put_world w d in Inr (if b then d1 else keep d1)))"

definition onApprovalTransactionHasBeenPublished ::
  "(byte list \<Rightarrow> signature) \<Rightarrow> published_approval \<Rightarrow> flat_drive \<Rightarrow> flat_drive outcome" where
  "onApprovalTransactionHasBeenPublished sign tx d =
     bind_outcome (sirius_assert (dr_synchronizationRequest d = None)) (\<lambda>_.
       let d1 = cancelVerification d;
           request = \<lparr>cr_rootHash = pa_rootHash tx, cr_modifyTransactionHash = pa_modifyTransactionHash tx\<rparr>
       in case dr_task d1 of
            None \<Rightarrow> runNextTask sign (d1\<lparr>dr_catchingUpRequest := Some request\<rparr>)
          | Some t \<Rightarrow> bind_outcome (onApprovalTxPublished tx (task_world t d1)) (\<lambda>(b, w).
              let d2 = put_world w d1
              in Inr (if b then d2\<lparr>dr_catchingUpRequest := Some request\<rparr> else d2)))"

definition onApprovalTransactionHasFailedInvalidOpinions :: "hash256 \<Rightarrow> flat_drive \<Rightarrow> flat_drive" where
  "onApprovalTransactionHasFailedInvalidOpinions tx d =
     (case dr_task d of None \<Rightarrow> d | Some t \<Rightarrow> put_world (onApprovalTxFailed tx (task_world t d)) d)"

definition startModifyDrive ::
  "(byte list \<Rightarrow> signature) \<Rightarrow> modification_request \<Rightarrow> flat_drive \<Rightarrow> flat_drive outcome" where
  "startModifyDrive sign r d =
     (let push = (\<lambda>d. d\<lparr>dr_deferredModificationRequests := dr_deferredModificationRequests d @ [DModification r]\<rparr>)
      in case dr_task d of
           None \<Rightarrow> runNextTask sign (push d)
         | Some t \<Rightarrow> bind_outcome (onModificationInitiated (task_world t d)) (\<lambda>w. Inr (push (put_world w d))))"

definition startStream :: "(byte list \<Rightarrow> signature) \<Rightarrow> stream_request \<Rightarrow> flat_drive \<Rightarrow> flat_drive outcome" where
  "startStream sign r d =
     (let push = (\<lambda>d. d\<lparr>dr_deferredModificationRequests := dr_deferredModificationRequests d @ [DStream r]\<rparr>)
      in case dr_task d of
           None \<Rightarrow> runNextTask sign (push d)
         | Some t \<Rightarrow> Inr (push (put_world (onStreamStarted (task_world t d)) d)))"

text \<open>
  \<^verbatim>\<open>cancelModifyDrive\<close>: when the current task takes the cancellation the request is moved away, and
  the search of the queue that follows reads it again.
\<close>

fun erase_first :: "('a \<Rightarrow> bool) \<Rightarrow> 'a list \<Rightarrow> 'a list" where
  "erase_first P [] = []"
| "erase_first P (x # xs) = (if P x then xs else x # erase_first P xs)"

definition cancelModifyDrive :: "hash256 \<Rightarrow> flat_drive \<Rightarrow> flat_drive outcome" where
  "cancelModifyDrive tx d =
     (let erase = (\<lambda>d. d\<lparr>dr_deferredModificationRequests :=
            erase_first (\<lambda>r. transactionHash r = tx) (dr_deferredModificationRequests d)\<rparr>)
      in case dr_task d of
           None \<Rightarrow> Inr (erase d)
         | Some t \<Rightarrow> bind_outcome (shouldCancelModify tx (task_world t d)) (\<lambda>(b, w).
             let d1 = put_world w d
             in if b
                then if dr_deferredModificationRequests d1 \<noteq> [] then Inl NullDereference
                     else Inr (d1\<lparr>dr_modificationCancelRequest := Some tx\<rparr>)
                else Inr (erase d1)))"

definition initiateManualModifications ::
  "(byte list \<Rightarrow> signature) \<Rightarrow> hash256 \<Rightarrow> flat_drive \<Rightarrow> flat_drive outcome" where
  "initiateManualModifications sign i d =
     bind_outcome (sirius_assert (dr_deferredManualModificationRequest d = None)) (\<lambda>_.
       case dr_task d of
         None \<Rightarrow> runNextTask sign (d\<lparr>dr_deferredManualModificationRequest := Some i\<rparr>)
       | Some t \<Rightarrow> Inr ((put_world (onManualModificationInitiated (task_world t d)) d)
                     \<lparr>dr_deferredManualModificationRequest := Some i\<rparr>))"

definition manualSynchronize ::
  "(byte list \<Rightarrow> signature) \<Rightarrow> sync_request \<Rightarrow> flat_drive \<Rightarrow> flat_drive outcome" where
  "manualSynchronize sign r d =
     (let accept = (\<lambda>d. d\<lparr>dr_catchingUpRequest := None, dr_synchronizationRequest := Some r\<rparr>)
      in case dr_task d of
           None \<Rightarrow> runNextTask sign (accept d)
         | Some t \<Rightarrow>
             (case manualSynchronize_task (task_world t d) of
                (b, w) \<Rightarrow> let d1 = put_world w d
                          in Inr (if b then accept d1
                                  else add_output (EmptyCallback (sy_modificationIdentifier r)) d1)))"

definition startDriveClosing :: "(byte list \<Rightarrow> signature) \<Rightarrow> hash256 option \<Rightarrow> flat_drive \<Rightarrow> flat_drive outcome" where
  "startDriveClosing sign removeDriveTx d =
     (let d1 = cancelVerification (d\<lparr>dr_closeDriveRequest := Some removeDriveTx\<rparr>)
      in case dr_task d1 of
           None \<Rightarrow> runNextTask sign d1
         | Some t \<Rightarrow> Inr (put_world (onDriveClose (task_world t d1)) d1))"

definition drive_terminate :: "flat_drive \<Rightarrow> flat_drive" where
  "drive_terminate d =
     (let d1 = (case dr_task d of None \<Rightarrow> d | Some t \<Rightarrow> put_world (terminate_task (task_world t d)) d)
      in d1\<lparr>dr_verificationTask := None\<rparr>)"

subsection \<open>Connections and queries\<close>

definition acceptConnectionFromReplicator :: "key \<Rightarrow> flat_drive \<Rightarrow> bool" where
  "acceptConnectionFromReplicator k d =
     (if dr_blockedReplicators d \<noteq> [] \<and>
         \<not> (task_is MODIFICATION_REQUEST d \<or>
            dr_deferredModificationRequests d \<noteq> []) \<and>
         k \<in> set (dr_blockedReplicators d)
      then False else k \<in> set (dr_recipientShard d))"

definition acceptConnectionFromClient :: "key \<Rightarrow> hash256 \<Rightarrow> flat_drive \<Rightarrow> bool" where
  "acceptConnectionFromClient client fileHash d \<longleftrightarrow>
     client = dp_driveOwner (dr_params d) \<and> fileHash = dp_rootHash (dr_params d)"

definition setReplicators :: "key list \<Rightarrow> flat_drive \<Rightarrow> flat_drive" where
  "setReplicators ks d = d\<lparr>dr_params := (dr_params d)\<lparr>dp_allReplicators := ks\<rparr>\<rparr>"

definition setShardDonator :: "key list \<Rightarrow> flat_drive \<Rightarrow> flat_drive" where
  "setShardDonator ks d = d\<lparr>dr_params := (dr_params d)\<lparr>dp_donatorShard := ks\<rparr>\<rparr>"

definition setShardRecipient :: "key list \<Rightarrow> flat_drive \<Rightarrow> flat_drive" where
  "setShardRecipient ks d = d\<lparr>dr_recipientShard := ks\<rparr>"

text \<open>\<^verbatim>\<open>getDriveStatus\<close>: whether the modification is queued, and the type of the current task.\<close>

definition getDriveStatus :: "hash256 \<Rightarrow> flat_drive \<Rightarrow> bool \<times> drive_task_type option" where
  "getDriveStatus tx d =
     (list_ex (\<lambda>r. case r of DModification m \<Rightarrow> mr_transactionHash m = tx | DStream _ \<Rightarrow> False)
        (dr_deferredModificationRequests d),
      map_option tk_type (dr_task d))"

text \<open>\<^verbatim>\<open>getFileInfo\<close>: \<open>None\<close> for the empty response, else the hash and size of an existing file.\<close>

definition getFileInfo :: "string \<Rightarrow> flat_drive \<Rightarrow> (hash256 \<times> u64) option option" where
  "getFileInfo path d =
     (if initializing d then None
      else Some (case getEntryPtr path (dp_fsTree (dr_params d)) of
                   Some (CFile f) \<Rightarrow> Some (fl_hash f, fl_size f)
                 | _ \<Rightarrow> None))"

definition getActualModificationId :: "flat_drive \<Rightarrow> hash256 option" where
  "getActualModificationId d = (if initializing d then None else Some (dp_lastApprovedModification (dr_params d)))"

definition getFilesystem :: "flat_drive \<Rightarrow> folder option" where
  "getFilesystem d = (if initializing d then None else Some (dp_fsTree (dr_params d)))"

end
