(* ===== verification/Drive_Schedule.thy ===== *)
theory Drive_Schedule
  imports Flat_Drive "HOL-Library.Sublist"
begin

section \<open>The order in which a drive runs its tasks\<close>

text \<open>
  The handlers of \<^verbatim>\<open>DefaultFlatDrive\<close> as one step function over the events a drive receives,
  and what holds along every run: a drive without a task has no request waiting, and the
  modifications are started in the order in which they arrived.  Then what a catching-up takes
  off the queue, and what goes wrong when a running modification is cancelled.
\<close>

subsection \<open>Events of a drive\<close>

text \<open>
  \<open>TaskEnded\<close> is the call of \<^verbatim>\<open>runNextTask\<close> by a finished task, \<open>Stop\<close> the stop of the
  replicator.
\<close>

datatype drive_event = TaskEnded | ModifyTx modification_request | StreamTx stream_request | CancelTx hash256 |
  ManualTx hash256 | SyncTx sync_request | CloseTx "hash256 option" | ApprovalTx published_approval |
  ApprovalFailedTx hash256 | OpinionMsg approval_info | VerifyTx verification_request | VerifyCancelTx |
  VerifyOpinionMsg verify_approval | VerifyCodeMsg verification_code | Stop

fun drive_handle :: "(byte list \<Rightarrow> signature) \<Rightarrow> drive_event \<Rightarrow> flat_drive \<Rightarrow> flat_drive outcome" where
  "drive_handle sign TaskEnded d = runNextTask sign d"
| "drive_handle sign (ModifyTx r) d = startModifyDrive sign r d"
| "drive_handle sign (StreamTx r) d = startStream sign r d"
| "drive_handle sign (CancelTx tx) d = cancelModifyDrive tx d"
| "drive_handle sign (ManualTx i) d = initiateManualModifications sign i d"
| "drive_handle sign (SyncTx r) d = manualSynchronize sign r d"
| "drive_handle sign (CloseTx tx) d = startDriveClosing sign tx d"
| "drive_handle sign (ApprovalTx tx) d = onApprovalTransactionHasBeenPublished sign tx d"
| "drive_handle sign (ApprovalFailedTx tx) d = Inr (onApprovalTransactionHasFailedInvalidOpinions tx d)"
| "drive_handle sign (OpinionMsg an) d = onOpinionReceived an d"
| "drive_handle sign (VerifyTx r) d = startVerification sign r d"
| "drive_handle sign VerifyCancelTx d = Inr (cancelVerification d)"
| "drive_handle sign (VerifyOpinionMsg an) d = onVerificationOpinionReceived an d"
| "drive_handle sign (VerifyCodeMsg c) d = onVerificationCodeReceived sign c d"
| "drive_handle sign Stop d = Inr (d\<lparr>dr_isStopped := True\<rparr>)"

text \<open>
  The trace beside the drive: the modifications and streams that arrived, and those whose task
  was started, each by its transaction hash.  A task is started by a handler that finds no task
  and by the end of a task, unless the replicator has stopped.  A fault ends the program, so the
  state stays.
\<close>

fun arrives :: "drive_event \<Rightarrow> hash256 list" where
  "arrives (ModifyTx r) = [mr_transactionHash r]"
| "arrives (StreamTx r) = [sr_streamId r]"
| "arrives _ = []"

definition starts :: "drive_event \<Rightarrow> flat_drive \<Rightarrow> flat_drive \<Rightarrow> hash256 list" where
  "starts e d d' =
     (if \<not> dr_isStopped d \<and> (dr_task d = None \<or> e = TaskEnded)
      then (case dr_task d' of
              None \<Rightarrow> []
            | Some t \<Rightarrow> if tk_type t \<in> {MODIFICATION_REQUEST, STREAM_REQUEST} then [tk_tx t] else [])
      else [])"

record drive_trace =
  tr_drive :: flat_drive
  tr_arrived :: "hash256 list"
  tr_started :: "hash256 list"

definition drive_step :: "(byte list \<Rightarrow> signature) \<Rightarrow> drive_trace \<Rightarrow> drive_event \<Rightarrow> drive_trace" where
  "drive_step sign s e =
     (case drive_handle sign e (tr_drive s) of
        Inl _ \<Rightarrow> s
      | Inr d \<Rightarrow> \<lparr>tr_drive = d, tr_arrived = tr_arrived s @ arrives e,
                 tr_started = tr_started s @ starts e (tr_drive s) d\<rparr>)"

definition queue :: "flat_drive \<Rightarrow> hash256 list" where
  "queue d = map transactionHash (dr_deferredModificationRequests d)"

definition nothing_waits :: "flat_drive \<Rightarrow> bool" where
  "nothing_waits d \<longleftrightarrow> dr_closeDriveRequest d = None \<and> dr_modificationCancelRequest d = None \<and>
     dr_catchingUpRequest d = None \<and> dr_synchronizationRequest d = None \<and>
     dr_deferredModificationRequests d = [] \<and> dr_deferredManualModificationRequest d = None"

definition idle_ok :: "flat_drive \<Rightarrow> bool" where
  "idle_ok d \<longleftrightarrow> (dr_task d = None \<and> \<not> dr_isStopped d \<longrightarrow> nothing_waits d)"

definition in_order :: "drive_event \<Rightarrow> flat_drive \<Rightarrow> flat_drive \<Rightarrow> bool" where
  "in_order e d d' \<longleftrightarrow> subseq (starts e d d' @ queue d') (queue d @ arrives e)"

subsection \<open>Starting a task\<close>

lemma run_task_fields:
  assumes "run_task w = Inr w'"
  shows "tk_type (w_task w') = tk_type (w_task w) \<and> tk_tx (w_task w') = tk_tx (w_task w)"
  using assms
  by (auto simp: run_task_def modify_run_def sync_run_def cancel_run_def close_run_def bind_outcome_Inr_iff
      Let_def finishTask_def update_finishTask_def manual_finishTask_def emit_def
      split: drive_task_type.splits prod.splits if_splits)

lemma put_world_simps [simp]:
  "dr_deferredModificationRequests (put_world w d) = dr_deferredModificationRequests d"
  "dr_isStopped (put_world w d) = dr_isStopped d"
  "dr_task (put_world w d) = Some (w_task w)"
  by (simp_all add: put_world_def)

lemma start_task_Inr:
  assumes "start_task ty t d = Inr d'"
  shows "\<exists>t'. dr_task d' = Some t' \<and> tk_type t' = ty \<and> tk_tx t' = tk_tx t \<and>
    dr_deferredModificationRequests d' = dr_deferredModificationRequests d \<and> dr_isStopped d' = dr_isStopped d"
proof -
  obtain w where w: "run_task (task_world t d) = Inr w" "d' = put_world w d" "tk_type t = ty"
    using assms by (auto simp: start_task_def bind_outcome_Inr_iff)
  then show ?thesis using run_task_fields [OF w(1)] by (simp add: task_world_def)
qed

text \<open>
  Every function that starts a task leaves a running task; only those of the queue start a
  modification, and they start the first one.
\<close>

definition started_task :: "flat_drive \<Rightarrow> flat_drive \<Rightarrow> bool" where
  "started_task d d' \<longleftrightarrow> (\<exists>t. dr_task d' = Some t \<and> subseq
     ((if tk_type t \<in> {MODIFICATION_REQUEST, STREAM_REQUEST} then [tk_tx t] else []) @ queue d') (queue d))"

lemma started_other:
  assumes "start_task ty t d1 = Inr d'" and "ty \<notin> {MODIFICATION_REQUEST, STREAM_REQUEST}"
    and "subseq (queue d1) (queue d)"
  shows "started_task d d'"
proof -
  from start_task_Inr [OF assms(1)] obtain t' where t': "dr_task d' = Some t'" "tk_type t' = ty"
    "dr_deferredModificationRequests d' = dr_deferredModificationRequests d1" by blast
  then have "queue d' = queue d1" by (simp add: queue_def)
  with t' assms(2,3) show ?thesis by (simp add: started_task_def)
qed

lemma drop_manual_queue [simp]: "dr_deferredModificationRequests (drop_manual d) = dr_deferredModificationRequests d"
  by (simp add: drop_manual_def add_output_def split: option.splits)

lemma skip_until_suffix: "suffix (snd (skip_until tx rs)) rs"
  unfolding skip_until_def
  by (auto intro: suffix_order.trans [OF suffix_tl suffix_dropWhile])

lemma runDeferred_started:
  assumes "runDeferredModificationTask d = Inr d'"
  shows "started_task d d'"
  using assms
  by (auto simp: runDeferredModificationTask_def bind_outcome_Inr_iff runModificationTask_def runStreamTask_def
      Let_def started_task_def queue_def createModificationTask_def createStreamTask_def new_task_def
      split: list.splits deferred.splits dest!: start_task_Inr)

lemma runCatchingUp_started:
  assumes "runCatchingUpTask d = Inr d'"
  shows "started_task d d'"
proof -
  obtain r where "dr_catchingUpRequest d = Some r"
    using assms by (auto simp: runCatchingUpTask_def bind_outcome_Inr_iff split: option.splits)
  moreover have "subseq (map transactionHash x2) (map transactionHash rs)" if "skip_until tx rs = (x1, x2)" for tx rs x1 x2
    using skip_until_suffix [of tx rs] that by (auto intro: subseq_map suffix_imp_subseq)
  ultimately show ?thesis
    using assms
    by (auto simp: runCatchingUpTask_def bind_outcome_Inr_iff Let_def queue_def
        split: prod.splits elim!: started_other)
qed

lemma runNextTask_started:
  assumes "runNextTask sign d = Inr d'" and "\<not> dr_isStopped d"
  shows "started_task d d' \<or> dr_task d' = None \<and> nothing_waits d' \<and> queue d' = queue d"
proof -
  define d1 where "d1 = d\<lparr>dr_task := None\<rparr>"
  have q1: "queue d1 = queue d" "dr_task d1 = None" by (simp_all add: d1_def queue_def)
  show ?thesis
  proof (cases "dr_closeDriveRequest d1")
    case (Some c)
    then have "runCloseDriveTask d1 = Inr d'" using assms by (simp add: runNextTask_def d1_def)
    then show ?thesis
      using Some q1 by (auto simp: runCloseDriveTask_def queue_def elim!: started_other)
  next
    case None
    then obtain d2 where d2: "(if verification_due d1 then runVerificationTask sign d1 else Inr d1) = Inr d2"
      and run: "(if dr_modificationCancelRequest d2 \<noteq> None then runCancelModificationTask d2
          else if dr_catchingUpRequest d2 \<noteq> None then runCatchingUpTask d2
          else if dr_synchronizationRequest d2 \<noteq> None then runSynchronizationTask d2
          else if dr_deferredModificationRequests d2 \<noteq> [] then runDeferredModificationTask d2
          else if dr_deferredManualModificationRequest d2 \<noteq> None then runManualModificationTask d2
          else Inr d2) = Inr d'"
      using assms unfolding d1_def
      by (auto simp: runNextTask_def Let_def bind_outcome_Inr_iff simp del: not_None_eq split del: if_split)
    have q2: "queue d2 = queue d" "dr_task d2 = None" "dr_closeDriveRequest d2 = None"
      using d2 q1 None
      by (auto simp: runVerificationTask_def Let_def bind_outcome_Inr_iff queue_def split: if_splits option.splits)
    have "started_task d2 d' \<or> d' = d2 \<and> nothing_waits d2"
      using run q2(3) runCatchingUp_started [of d2 d'] runDeferred_started [of d2 d']
      by (auto simp: runCancelModificationTask_def runSynchronizationTask_def runManualModificationTask_def
          nothing_waits_def queue_def split: if_splits option.splits elim!: started_other)
    then show ?thesis using q2 by (auto simp: started_task_def)
  qed
qed

subsection \<open>Every event keeps the schedule\<close>

definition step_ok :: "drive_event \<Rightarrow> flat_drive \<Rightarrow> flat_drive \<Rightarrow> bool" where
  "step_ok e d d' \<longleftrightarrow> idle_ok d' \<and> in_order e d d'"

lemma step_ok_next:
  assumes "runNextTask sign d1 = Inr d'" and "dr_task d = None \<or> e = TaskEnded"
    and "dr_isStopped d1 = dr_isStopped d" and "subseq (queue d1) (queue d @ arrives e)"
  shows "step_ok e d d'"
proof (cases "dr_isStopped d1")
  case True
  then have "d' = d1" using assms(1) by (simp add: runNextTask_def)
  then show ?thesis using True assms(3,4) by (simp add: step_ok_def idle_ok_def in_order_def starts_def)
next
  case False
  have "\<not> dr_isStopped d" using False assms(3) by simp
  then show ?thesis
    using runNextTask_started [OF assms(1) False] assms(2,4)
    by (fastforce simp: step_ok_def idle_ok_def in_order_def starts_def started_task_def
        intro: subseq_order.trans)
qed

text \<open>A handler that finds a task leaves a task; one that only notes something changes neither task nor queues.\<close>

lemma step_ok_busy:
  assumes "dr_task d \<noteq> None" and "dr_task d' \<noteq> None" and "e \<noteq> TaskEnded"
    and "subseq (queue d') (queue d @ arrives e)"
  shows "step_ok e d d'"
  using assms by (auto simp: step_ok_def idle_ok_def in_order_def starts_def)

lemma step_ok_note:
  assumes "idle_ok d" and "dr_task d' = dr_task d" and "e \<noteq> TaskEnded" and "subseq (queue d') (queue d)"
    and "nothing_waits d \<Longrightarrow> nothing_waits d'" and "dr_isStopped d \<Longrightarrow> dr_isStopped d'"
  shows "step_ok e d d'"
  using assms by (auto simp: step_ok_def idle_ok_def in_order_def starts_def intro: subseq_order.trans split: option.splits)

lemma erase_first_subseq: "subseq (erase_first P xs) xs"
  by (induction xs) auto

lemma verification_note:
  assumes "runVerificationTask sign d = Inr d'"
  shows "dr_task d' = dr_task d \<and> queue d' = queue d \<and> nothing_waits d' = nothing_waits d \<and>
    dr_isStopped d' = dr_isStopped d"
  using assms
  by (auto simp: runVerificationTask_def Let_def bind_outcome_Inr_iff queue_def nothing_waits_def split: option.splits)

lemma drive_handle_ok:
  assumes "idle_ok d" and "drive_handle sign e d = Inr d'"
  shows "step_ok e d d'"
proof (cases e)
  case TaskEnded
  then show ?thesis using assms by (auto intro: step_ok_next)
next
  case (ModifyTx r)
  then show ?thesis using assms
    by (auto simp: startModifyDrive_def Let_def bind_outcome_Inr_iff queue_def
        split: option.splits elim!: step_ok_next intro!: step_ok_busy)
next
  case (StreamTx r)
  then show ?thesis using assms
    by (auto simp: startStream_def Let_def bind_outcome_Inr_iff queue_def
        split: option.splits elim!: step_ok_next intro!: step_ok_busy)
next
  case (CancelTx tx)
  have "subseq (map transactionHash (erase_first P rs)) (map transactionHash rs)" for P rs
    by (intro subseq_map erase_first_subseq)
  then show ?thesis using CancelTx assms
    by (cases "dr_task d")
      (auto simp: cancelModifyDrive_def Let_def bind_outcome_Inr_iff queue_def nothing_waits_def
        split: if_splits intro: step_ok_busy step_ok_note)
next
  case (ManualTx i)
  then show ?thesis using assms
    by (auto simp: initiateManualModifications_def Let_def bind_outcome_Inr_iff queue_def
        split: option.splits elim!: step_ok_next intro!: step_ok_busy)
next
  case (SyncTx r)
  then show ?thesis using assms
    by (auto simp: manualSynchronize_def Let_def bind_outcome_Inr_iff queue_def add_output_def
        split: option.splits prod.splits elim!: step_ok_next intro!: step_ok_busy)
next
  case (CloseTx tx)
  then show ?thesis using assms
    by (auto simp: startDriveClosing_def cancelVerification_def Let_def bind_outcome_Inr_iff queue_def
        split: option.splits elim!: step_ok_next intro!: step_ok_busy)
next
  case (ApprovalTx tx)
  then show ?thesis using assms
    by (auto simp: onApprovalTransactionHasBeenPublished_def cancelVerification_def Let_def bind_outcome_Inr_iff queue_def
        split: option.splits elim!: step_ok_next intro!: step_ok_busy)
next
  case (ApprovalFailedTx tx)
  then show ?thesis using assms
    by (cases "dr_task d")
      (auto simp: onApprovalTransactionHasFailedInvalidOpinions_def queue_def
        intro: step_ok_busy step_ok_note)
next
  case (OpinionMsg an)
  then show ?thesis using assms
    by (cases "dr_task d")
      (auto simp: onOpinionReceived_def Let_def bind_outcome_Inr_iff queue_def nothing_waits_def
        intro: step_ok_busy step_ok_note)
next
  case (VerifyTx r)
  then show ?thesis using assms
    by (auto simp: startVerification_def Let_def queue_def nothing_waits_def
        split: option.splits if_splits intro!: step_ok_note dest!: verification_note)
next
  case VerifyCancelTx
  then show ?thesis using assms
    by (auto simp: cancelVerification_def queue_def nothing_waits_def intro!: step_ok_note)
next
  case (VerifyOpinionMsg an)
  then show ?thesis using assms
    by (auto simp: onVerificationOpinionReceived_def Let_def bind_outcome_Inr_iff queue_def nothing_waits_def
        split: option.splits intro!: step_ok_note)
next
  case (VerifyCodeMsg c)
  then show ?thesis using assms
    by (auto simp: onVerificationCodeReceived_def Let_def bind_outcome_Inr_iff queue_def nothing_waits_def
        split: option.splits intro!: step_ok_note)
next
  case Stop
  then show ?thesis using assms
    by (auto simp: step_ok_def idle_ok_def in_order_def queue_def starts_def split: option.splits)
qed

definition schedule_ok :: "drive_trace \<Rightarrow> bool" where
  "schedule_ok s \<longleftrightarrow> idle_ok (tr_drive s) \<and> subseq (tr_started s @ queue (tr_drive s)) (tr_arrived s)"

text \<open>The start: no modification has been started, and what waits has arrived.\<close>

definition schedule_start :: "drive_trace \<Rightarrow> bool" where
  "schedule_start s \<longleftrightarrow> idle_ok (tr_drive s) \<and> tr_started s = [] \<and> tr_arrived s = queue (tr_drive s)"

lemma drive_step_ok:
  assumes "schedule_ok s"
  shows "schedule_ok (drive_step sign s e)"
proof (cases "drive_handle sign e (tr_drive s)")
  case (Inr d)
  with assms have ok: "step_ok e (tr_drive s) d" by (auto simp: schedule_ok_def intro: drive_handle_ok)
  have "subseq (tr_started s @ starts e (tr_drive s) d @ queue d) (tr_started s @ queue (tr_drive s) @ arrives e)"
    using ok unfolding step_ok_def in_order_def
    by (blast intro: list_emb_append_mono subseq_order.refl)
  moreover have "subseq (tr_started s @ queue (tr_drive s) @ arrives e) (tr_arrived s @ arrives e)"
    using assms unfolding append_assoc [symmetric] schedule_ok_def
    by (blast intro: list_emb_append_mono subseq_order.refl)
  ultimately show ?thesis
    using ok Inr by (auto simp: schedule_ok_def drive_step_def step_ok_def intro: subseq_order.trans)
qed (use assms in \<open>simp add: drive_step_def\<close>)

interpretation ds: event_system "drive_step sign" schedule_start schedule_ok for sign
  by unfold_locales (simp add: schedule_start_def schedule_ok_def, rule drive_step_ok)

text \<open>
  C2. Modifications are executed in the order in which they were ordered: along every run of a
  drive, whatever transactions, messages and ends of tasks come in whatever order, the
  modifications and streams whose tasks were started, followed by those still queued, are a
  subsequence of those that arrived.  So none overtakes another, and none is started more
  often than it arrived.
\<close>

theorem modifications_start_in_order:
  assumes "schedule_start s"
  shows "subseq (tr_started (run (drive_step sign) s es) @ queue (tr_drive (run (drive_step sign) s es)))
    (tr_arrived (run (drive_step sign) s es))"
  using ds.reachable_invar [OF assms] by (simp add: schedule_ok_def)

text \<open>
  A drive is never idle while something waits: after every run, unless the replicator was
  stopped, a drive that has no task has no closing, cancellation, catching-up,
  synchronisation, modification, stream or manual modification request waiting.
\<close>

lemma idle_drive_has_no_work:
  assumes "schedule_start s" and "tr_drive (run (drive_step sign) s es) = d"
    and "dr_task d = None" and "\<not> dr_isStopped d"
  shows "nothing_waits d"
  using ds.reachable_invar [OF assms(1)] assms(2-4) by (auto simp: schedule_ok_def idle_ok_def)

subsection \<open>Catching up\<close>

lemma skip_until_split:
  assumes "transactionHash q = tx" and "tx \<notin> transactionHash ` set xs"
  shows "skip_until tx (xs @ q # ys) = (xs @ [q], ys)"
proof -
  have "\<forall>r\<in>set xs. transactionHash r \<noteq> tx" using assms(2) by auto
  then show ?thesis using assms(1) by (auto simp: skip_until_def)
qed

lemma fold_increase:
  "oc_approvedExpectedCumulativeDownload (fold (\<lambda>q. increaseApprovedExpectedCumulativeDownload (maxDataSize q)) qs oc) =
     oc_approvedExpectedCumulativeDownload oc + sum_list (map maxDataSize qs)"
  by (induction qs arbitrary: oc) (simp_all add: increaseApprovedExpectedCumulativeDownload_def add_ac)

text \<open>
  C26. Catching up: a drive that was left behind takes off its queue the modifications up to and
  including the approved one and nothing else, accounts for their sizes in the download it
  expects, and starts to download the approved tree, whatever waited for a manual modification
  being given up.
\<close>

theorem catching_up_drops_the_approved_prefix:
  assumes "dr_task d = None" and "dr_catchingUpRequest d = Some r"
    and "dp_lastApprovedModification (dr_params d) \<noteq> cr_modifyTransactionHash r"
    and "dr_deferredModificationRequests d = xs @ q # ys"
    and "transactionHash q = cr_modifyTransactionHash r" and "cr_modifyTransactionHash r \<notin> transactionHash ` set xs"
  shows "\<exists>d' t. runCatchingUpTask d = Inr d' \<and> dr_task d' = Some t \<and> tk_type t = CATCHING_UP \<and>
    tk_requestHash t = cr_rootHash r \<and> (tk_downloading t \<longleftrightarrow> cr_rootHash r \<noteq> dp_rootHash (dr_params d)) \<and>
    dr_deferredModificationRequests d' = ys \<and> dr_catchingUpRequest d' = None \<and>
    dr_deferredManualModificationRequest d' = None \<and>
    oc_approvedExpectedCumulativeDownload (dp_opinionController (dr_params d')) =
      oc_approvedExpectedCumulativeDownload (dp_opinionController (dr_params d)) +
      sum_list (map maxDataSize (xs @ [q]))"
  using assms
  by (auto simp: runCatchingUpTask_def skip_until_split Let_def start_task_def createCatchingUpTask_def new_task_def
      run_task_def sync_run_def task_world_def put_world_def drop_manual_def add_output_def fold_increase
      increaseApprovedExpectedCumulativeDownload_def
      split: option.splits)

subsection \<open>Cancelling the running modification\<close>

text \<open>
  C34. Cancelling crashes: on an idle drive, a modification, a second modification and the
  cancellation of the first one make the replicator dereference a null pointer: the request is
  moved away when the running task takes the cancellation, and the search of the queue then
  reads it.
\<close>

theorem cancelling_before_queued_modification_crashes:
  assumes "dr_task d = None" and "nothing_waits d" and "\<not> dr_isStopped d" and "dr_deferredVerificationRequest d = None"
    and "\<not> map_contains (mr_clientDataInfoHash r1) (dp_torrentHandleMap (dr_params d))"
  shows "bind_outcome (drive_handle sign (ModifyTx r1) d) (\<lambda>d1.
           bind_outcome (drive_handle sign (ModifyTx r2) d1) (\<lambda>d2.
             drive_handle sign (CancelTx (mr_transactionHash r1)) d2)) = Inl NullDereference"
  using assms
  by (simp add: startModifyDrive_def runNextTask_def nothing_waits_def verification_due_def
      runDeferredModificationTask_def runModificationTask_def start_task_def createModificationTask_def new_task_def
      run_task_def modify_run_def task_world_def put_world_def onModificationInitiated_def
      cancelModifyDrive_def shouldCancelModify_def modify_shouldCancelModify_def Let_def)

subsection \<open>The theorems on a small drive\<close>

definition sample_drive :: flat_drive where
  "sample_drive =
     \<lparr>dr_params = sample_params, dr_recipientShard = [2, 3], dr_unknownModificationOpinions = [],
      dr_unknownVerificationOpinions = [], dr_unknownVerificationCodeQueue = [], dr_closeDriveRequest = None,
      dr_modificationCancelRequest = None, dr_catchingUpRequest = None, dr_synchronizationRequest = None,
      dr_deferredModificationRequests = [], dr_deferredManualModificationRequest = None,
      dr_deferredVerificationRequest = None, dr_task = None, dr_verificationTask = None,
      dr_blockedReplicators = [], dr_isStopped = False, dr_outputs = []\<rparr>"

definition sample_request :: "hash256 \<Rightarrow> modification_request" where
  "sample_request tx = \<lparr>mr_clientDataInfoHash = tx + 100, mr_transactionHash = tx, mr_maxDataSize = 10,
     mr_replicatorList = [2, 3], mr_isCanceled = False\<rparr>"

definition sample_trace :: drive_trace where
  "sample_trace = \<lparr>tr_drive = sample_drive, tr_arrived = [], tr_started = []\<rparr>"

definition sample_events :: "drive_event list" where
  "sample_events = [ModifyTx (sample_request 51), ModifyTx (sample_request 52), TaskEnded, TaskEnded]"

lemma sample_trace_start: "schedule_start sample_trace"
  by code_simp

lemma sample_trace_run:
  "tr_started (run (drive_step (\<lambda>m. m)) sample_trace sample_events) = [51, 52]"
  "dr_task (tr_drive (run (drive_step (\<lambda>m. m)) sample_trace sample_events)) = None"
  "\<not> dr_isStopped (tr_drive (run (drive_step (\<lambda>m. m)) sample_trace sample_events))"
  by code_simp+

theorem modifications_start_in_order_witness:
  "schedule_start sample_trace \<and>
   subseq ([51, 52] @ queue (tr_drive (run (drive_step (\<lambda>m. m)) sample_trace sample_events)))
     (tr_arrived (run (drive_step (\<lambda>m. m)) sample_trace sample_events))"
  using modifications_start_in_order [OF sample_trace_start, of "\<lambda>m. m" sample_events] sample_trace_start
  by (simp add: sample_trace_run)

definition left_behind :: flat_drive where
  "left_behind = sample_drive\<lparr>dr_catchingUpRequest := Some \<lparr>cr_rootHash = 61, cr_modifyTransactionHash = 52\<rparr>,
     dr_deferredModificationRequests := map (\<lambda>tx. DModification (sample_request tx)) [51, 52, 53]\<rparr>"

theorem catching_up_drops_the_approved_prefix_witness:
  "\<exists>d'. runCatchingUpTask left_behind = Inr d' \<and>
     dr_deferredModificationRequests d' = [DModification (sample_request 53)] \<and>
     oc_approvedExpectedCumulativeDownload (dp_opinionController (dr_params d')) = 120"
  using catching_up_drops_the_approved_prefix [of left_behind "\<lparr>cr_rootHash = 61, cr_modifyTransactionHash = 52\<rparr>"
      "[DModification (sample_request 51)]" "DModification (sample_request 52)" "[DModification (sample_request 53)]"]
  by (auto simp: left_behind_def sample_drive_def sample_request_def sample_params_def new_controller_def)

theorem cancelling_before_queued_modification_crashes_witness:
  "bind_outcome (drive_handle (\<lambda>m. m) (ModifyTx (sample_request 51)) sample_drive) (\<lambda>d1.
     bind_outcome (drive_handle (\<lambda>m. m) (ModifyTx (sample_request 52)) d1) (\<lambda>d2.
       drive_handle (\<lambda>m. m) (CancelTx 51) d2)) = Inl NullDereference"
proof -
  have "dr_task sample_drive = None" "nothing_waits sample_drive" "\<not> dr_isStopped sample_drive"
    "dr_deferredVerificationRequest sample_drive = None"
    "\<not> map_contains (mr_clientDataInfoHash (sample_request 51)) (dp_torrentHandleMap (dr_params sample_drive))"
    by code_simp+
  from cancelling_before_queued_modification_crashes [OF this, of "\<lambda>m. m" "sample_request 52"] show ?thesis
    by (simp add: sample_request_def)
qed

end
