(* ===== verification/Download_Receipts.thy ===== *)
theory Download_Receipts
  imports Drive_Types
begin

section \<open>Receipts of a download channel\<close>

text \<open>
  Model of the channel data of \<^verbatim>\<open>include/drive/Replicator.h\<close>, of the receipt message of
  \<^verbatim>\<open>include/drive/RcptMessage.h\<close>, and of the part of \<^verbatim>\<open>src/drive/DownloadLimiter.h\<close> that
  accounts for a receipt.  A client signs, per replicator, the cumulative size it lets that
  replicator upload; a replicator remembers for every replicator and client the largest size
  accepted and the largest size refused because the channel had run out.
\<close>

subsection \<open>The receipt message\<close>

type_synonym rcpt_message = "byte list"

definition mk_rcpt :: "hash256 \<Rightarrow> key \<Rightarrow> key \<Rightarrow> u64 \<Rightarrow> signature \<Rightarrow> rcpt_message" where
  "mk_rcpt dnChannelId client replicator downloadedSz sign =
     hash_bytes dnChannelId @ hash_bytes client @ hash_bytes replicator @ le_bytes 8 downloadedSz @ sign"

definition isValidSize :: "rcpt_message \<Rightarrow> bool" where
  "isValidSize m \<longleftrightarrow> length m = 32 + 32 + 32 + 8 + 64"

definition rcpt_channelId :: "rcpt_message \<Rightarrow> hash256" where
  "rcpt_channelId m = bytes_hash (take 32 m)"

definition rcpt_clientKey :: "rcpt_message \<Rightarrow> key" where
  "rcpt_clientKey m = bytes_hash (take 32 (drop 32 m))"

definition rcpt_replicatorKey :: "rcpt_message \<Rightarrow> key" where
  "rcpt_replicatorKey m = bytes_hash (take 32 (drop 64 m))"

text \<open>An empty message, the value a map creates, has size 0.\<close>

definition rcpt_downloadedSize :: "rcpt_message \<Rightarrow> u64" where
  "rcpt_downloadedSize m = (if m = [] then 0 else of_le_bytes (take 8 (drop 96 m)))"

definition rcpt_signature :: "rcpt_message \<Rightarrow> signature" where
  "rcpt_signature m = take 64 (drop 104 m)"

text \<open>The buffers the client signs.\<close>

definition rcpt_signed :: "rcpt_message \<Rightarrow> byte list" where
  "rcpt_signed m = hash_bytes (rcpt_channelId m) @ hash_bytes (rcpt_clientKey m) @
     hash_bytes (rcpt_replicatorKey m) @ take 8 (drop 96 m)"

lemma rcpt_accessors:
  assumes "length sign = 64"
  shows "isValidSize (mk_rcpt ch cl rp n sign)"
    and "rcpt_channelId (mk_rcpt ch cl rp n sign) = ch" and "rcpt_clientKey (mk_rcpt ch cl rp n sign) = cl"
    and "rcpt_replicatorKey (mk_rcpt ch cl rp n sign) = rp"
    and "rcpt_downloadedSize (mk_rcpt ch cl rp n sign) = n" and "rcpt_signature (mk_rcpt ch cl rp n sign) = sign"
    and "rcpt_signed (mk_rcpt ch cl rp n sign) = hash_bytes ch @ hash_bytes cl @ hash_bytes rp @ le_bytes 8 n"
proof -
  have "mk_rcpt ch cl rp n sign \<noteq> []"
    using length_hash_bytes [of ch] by (auto simp: mk_rcpt_def simp del: length_hash_bytes)
  then show "rcpt_downloadedSize (mk_rcpt ch cl rp n sign) = n"
    by (auto simp: mk_rcpt_def rcpt_downloadedSize_def)
qed (use assms in \<open>simp_all add: mk_rcpt_def isValidSize_def rcpt_channelId_def rcpt_clientKey_def rcpt_replicatorKey_def
        rcpt_signature_def rcpt_signed_def\<close>)

text \<open>
  A receipt message carries its fields: built from them it has the valid size, every
  accessor returns the field, and what is verified is what the client signed.
\<close>

lemma rcpt_message_round_trip:
  assumes "length sign = 64"
  shows "isValidSize (mk_rcpt ch cl rp n sign) \<and>
    rcpt_channelId (mk_rcpt ch cl rp n sign) = ch \<and> rcpt_clientKey (mk_rcpt ch cl rp n sign) = cl \<and>
    rcpt_replicatorKey (mk_rcpt ch cl rp n sign) = rp \<and>
    rcpt_downloadedSize (mk_rcpt ch cl rp n sign) = n \<and> rcpt_signature (mk_rcpt ch cl rp n sign) = sign \<and>
    rcpt_signed (mk_rcpt ch cl rp n sign) = hash_bytes ch @ hash_bytes cl @ hash_bytes rp @ le_bytes 8 n"
  using assms by (simp add: rcpt_accessors)

subsection \<open>Receipt sizes of one replicator\<close>

record receipt_sizes =
  rs_acceptedSize :: u64
  rs_notAcceptedSize :: u64

type_synonym upload_request = "(key, receipt_sizes) std_map"

definition no_receipts :: receipt_sizes where
  "no_receipts = \<lparr>rs_acceptedSize = 0, rs_notAcceptedSize = 0\<rparr>"

text \<open>
  \<^verbatim>\<open>m_clientMap[clientKey]\<close> creates a missing cell, so the two queries change the map; the
  functions return the value, and \<open>touch\<close> is the change.
\<close>

definition touch :: "key \<Rightarrow> upload_request \<Rightarrow> upload_request" where
  "touch client m = map_emplace client no_receipts m"

definition lastAcceptedReceiptSize :: "key \<Rightarrow> upload_request \<Rightarrow> u64" where
  "lastAcceptedReceiptSize client m = rs_acceptedSize (map_index client no_receipts m)"

definition max_size :: "receipt_sizes \<Rightarrow> u64" where
  "max_size r = (if rs_acceptedSize r < rs_notAcceptedSize r then rs_notAcceptedSize r else rs_acceptedSize r)"

definition maxReceiptSize :: "key \<Rightarrow> upload_request \<Rightarrow> u64" where
  "maxReceiptSize client m = max_size (map_index client no_receipts m)"

definition totalAcceptedReceiptSize :: "upload_request \<Rightarrow> u64" where
  "totalAcceptedReceiptSize m = accumulate (map (\<lambda>e. rs_acceptedSize (snd e)) m)"

definition totalReceiptSize :: "upload_request \<Rightarrow> u64" where
  "totalReceiptSize m = accumulate (map (\<lambda>e. max_size (snd e)) m)"

definition saveReceiptSize :: "key \<Rightarrow> u64 \<Rightarrow> upload_request \<Rightarrow> upload_request outcome" where
  "saveReceiptSize client tobeUploadedSize m =
     (case map_find client m of
        None \<Rightarrow> Inl AssertionFailure
      | Some r \<Rightarrow> bind_outcome (sirius_assert (rs_acceptedSize r \<le> tobeUploadedSize)) (\<lambda>_.
          Inr (map_put client (r\<lparr>rs_acceptedSize := tobeUploadedSize\<rparr>) m)))"

definition saveNotAcceptedReceiptSize :: "key \<Rightarrow> u64 \<Rightarrow> upload_request \<Rightarrow> upload_request outcome" where
  "saveNotAcceptedReceiptSize client n m =
     (case map_find client m of
        None \<Rightarrow> Inl AssertionFailure
      | Some r \<Rightarrow> Inr (if rs_notAcceptedSize r < n
                       then map_put client (r\<lparr>rs_notAcceptedSize := n\<rparr>) m else m))"

definition fix_cell :: "receipt_sizes \<Rightarrow> receipt_sizes" where
  "fix_cell r =
     (if rs_acceptedSize r < rs_notAcceptedSize r
      then \<lparr>rs_acceptedSize = rs_notAcceptedSize r, rs_notAcceptedSize = 0\<rparr> else r)"

definition tryFixReceiptSize :: "u64 \<Rightarrow> upload_request \<Rightarrow> upload_request" where
  "tryFixReceiptSize prepaidSize m =
     (if totalReceiptSize m \<le> prepaidSize then map (\<lambda>e. (fst e, fix_cell (snd e))) m else m)"

subsection \<open>Download channels\<close>

record download_opinion =
  do_replicatorKey :: key
  do_downloadLayout :: "key_and_bytes list"
  do_signature :: signature

record opinion_value =
  ov_eventHash :: hash256
  ov_downloadChannelId :: hash256
  ov_opinions :: "(key, download_opinion) std_map"
  ov_modifyApproveTransactionSent :: bool
  ov_approveTransactionReceived :: bool
  ov_timer :: bool
  ov_opinionShareTimer :: bool
  ov_creationTime :: nat

record channel_info =
  ch_isSynchronizing :: bool
  ch_prepaidDownloadSize :: u64
  ch_totalReceiptsSize :: u64
  ch_sentClientMap :: "(key, u64) std_map"
  ch_replicatorUploadRequestMap :: "(key, upload_request) std_map"
  ch_driveKey :: key
  ch_dnReplicatorShard :: "key list"
  ch_downloadOpinionMap :: "(hash256, opinion_value) std_map"
  ch_clientReceiptMap :: "(key, (key, rcpt_message) std_map) std_map"
  ch_isClosed :: bool

datatype rcpt_error = no_error | sirius_no_channel | sirius_no_client_in_channel |
  sirius_bad_signature | sirius_channel_ran_out | sirius_receipt_size_too_small

text \<open>
  \<^verbatim>\<open>acceptUploadSize\<close>: the changed channel, \<^verbatim>\<open>shouldBeDisconnected\<close> and the error code (which
  the caller has set to \<open>no_error\<close>).
\<close>

definition acceptUploadSize ::
  "rcpt_message \<Rightarrow> channel_info \<Rightarrow> (channel_info \<times> bool \<times> rcpt_error) outcome" where
  "acceptUploadSize msg ch =
     (let rk = rcpt_replicatorKey msg; ck = rcpt_clientKey msg; sz = rcpt_downloadedSize msg;
          info0 = map_index rk [] (ch_replicatorUploadRequestMap ch);
          info1 = touch ck (tryFixReceiptSize (ch_prepaidDownloadSize ch) info0);
          lastReceiptSize = maxReceiptSize ck info1;
          put = (\<lambda>info ch. ch\<lparr>ch_replicatorUploadRequestMap :=
                   map_put rk info (ch_replicatorUploadRequestMap ch)\<rparr>)
      in if sz \<le> lastReceiptSize then Inr (put info1 ch, False, no_error)
         else let ch1 = ch\<lparr>ch_totalReceiptsSize :=
                          ch_totalReceiptsSize ch + (sz - lastReceiptSize)\<rparr>
              in if ch_prepaidDownloadSize ch1 < ch_totalReceiptsSize ch1
                 then bind_outcome (saveNotAcceptedReceiptSize ck sz info1) (\<lambda>info2.
                        Inr (put info2 ch1, True, sirius_channel_ran_out))
                 else bind_outcome (saveReceiptSize ck sz info1) (\<lambda>info2.
                        Inr (put info2 ch1, False, no_error)))"

subsection \<open>The total of a channel\<close>

text \<open>
  The accounting invariant of a channel: \<^verbatim>\<open>m_totalReceiptsSize\<close> is the sum over all replicators
  of \<^verbatim>\<open>totalReceiptSize\<close>, that is of the largest receipt of every client.
\<close>

definition channel_balanced :: "channel_info \<Rightarrow> bool" where
  "channel_balanced ch \<longleftrightarrow>
     map_ok (ch_replicatorUploadRequestMap ch) \<and>
     (\<forall>e\<in>set (ch_replicatorUploadRequestMap ch). map_ok (snd e)) \<and>
     ch_totalReceiptsSize ch = (\<Sum>e\<leftarrow>ch_replicatorUploadRequestMap ch. totalReceiptSize (snd e))"

lemma max_size_fix_cell [simp]: "max_size (fix_cell r) = max_size r"
  by (auto simp: max_size_def fix_cell_def)

lemma totalReceiptSize_sum: "totalReceiptSize m = (\<Sum>e\<leftarrow>m. max_size (snd e))"
  by (simp add: totalReceiptSize_def accumulate_eq)

lemma tryFix_total [simp]: "totalReceiptSize (tryFixReceiptSize p m) = totalReceiptSize m"
  by (simp add: tryFixReceiptSize_def totalReceiptSize_sum comp_def)

lemma tryFix_ok [simp]: "map_ok (tryFixReceiptSize p m) = map_ok m"
  by (simp add: tryFixReceiptSize_def)

lemma max_size_no_receipts [simp]: "max_size no_receipts = 0"
  by (simp add: max_size_def no_receipts_def)

lemma touch_total [simp]: "map_ok m \<Longrightarrow> totalReceiptSize (touch c m) = totalReceiptSize m"
  using sum_list_map_put [of m c max_size no_receipts]
  by (simp add: touch_def map_emplace_def map_contains_find totalReceiptSize_sum)

lemma touch_ok [simp]: "map_ok m \<Longrightarrow> map_ok (touch c m)"
  by (simp add: touch_def)

lemma touch_find [simp]: "map_find c (touch c m) = Some (map_index c no_receipts m)"
  by (cases "map_find c m") (simp_all add: touch_def map_index_def)

lemma put_total:
  assumes "map_ok m" and "map_find c m = Some r"
  shows "totalReceiptSize (map_put c r' m) = totalReceiptSize m + (max_size r' - max_size r)"
  using sum_list_map_put_exchange [OF assms, where f = max_size and w = r']
  by (simp add: totalReceiptSize_sum algebra_simps)

lemma channel_total_put:
  assumes "channel_balanced ch" and "map_ok info"
    and "info0 = map_index rk [] (ch_replicatorUploadRequestMap ch)"
  shows "channel_balanced (ch\<lparr>ch_totalReceiptsSize := ch_totalReceiptsSize ch +
      (totalReceiptSize info - totalReceiptSize info0),
    ch_replicatorUploadRequestMap := map_put rk info (ch_replicatorUploadRequestMap ch)\<rparr>)"
proof -
  let ?m = "ch_replicatorUploadRequestMap ch"
  have ok: "map_ok ?m" and oks: "\<forall>e\<in>set ?m. map_ok (snd e)" using assms(1) by (simp_all add: channel_balanced_def)
  have "(\<Sum>e\<leftarrow>map_put rk info ?m. totalReceiptSize (snd e)) =
      (\<Sum>e\<leftarrow>?m. totalReceiptSize (snd e)) + (totalReceiptSize info - totalReceiptSize info0)"
  proof (cases "map_find rk ?m")
    case None
    then show ?thesis
      using sum_list_map_put [OF ok None, of totalReceiptSize info] assms(3)
      by (simp add: map_index_def totalReceiptSize_sum)
  next
    case (Some i)
    then show ?thesis
      using sum_list_map_put_exchange [OF ok Some, where f = totalReceiptSize and w = info] assms(3)
      by (simp add: map_index_def algebra_simps)
  qed
  moreover have "\<forall>e\<in>set (map_put rk info ?m). map_ok (snd e)"
    using oks assms(2) set_put [of rk info ?m] by auto
  ultimately show ?thesis
    using assms(1) ok by (simp add: channel_balanced_def)
qed

lemma map_ok_index: "channel_balanced ch \<Longrightarrow> map_ok (map_index rk [] (ch_replicatorUploadRequestMap ch))"
  by (cases "map_find rk (ch_replicatorUploadRequestMap ch)")
    (force simp: map_index_def channel_balanced_def dest: map_find_in_set)+

lemma max_size_ge: "rs_acceptedSize r \<le> max_size r" "rs_notAcceptedSize r \<le> max_size r"
  by (auto simp: max_size_def)

lemma max_size_update:
  "max_size r < n \<Longrightarrow> max_size (r\<lparr>rs_acceptedSize := n\<rparr>) = n"
  "max_size r < n \<Longrightarrow> max_size (r\<lparr>rs_notAcceptedSize := n\<rparr>) = n"
  by (auto simp: max_size_def split: if_splits)

lemma maxReceiptSize_touch [simp]: "maxReceiptSize c (touch c m) = maxReceiptSize c m"
  by (simp add: maxReceiptSize_def) (simp add: map_index_def)

lemma maxReceiptSize_tryFix [simp]: "maxReceiptSize c (tryFixReceiptSize p m) = maxReceiptSize c m"
proof -
  have "map_find c (map (\<lambda>e. (fst e, fix_cell (snd e))) m) = map_option fix_cell (map_find c m)" for m
    by (induction m) (auto simp: map_find_def)
  then show ?thesis
    by (cases "map_find c m") (simp_all add: maxReceiptSize_def map_index_def tryFixReceiptSize_def)
qed

text \<open>
  C18. Accounting for a receipt never trips an assertion and keeps the channel's total equal to
  the sum of the largest receipts, wrap-around included: an old receipt changes no total, a
  receipt over the prepaid size is recorded as refused and disconnects with
  \<^verbatim>\<open>sirius_channel_ran_out\<close>, any other becomes the accepted size.  Either way the largest
  receipt of that client and replicator becomes the larger of the old and the new one.
\<close>

theorem acceptUploadSize_keeps_the_total:
  assumes bal: "channel_balanced ch" and old: "info0 = map_index (rcpt_replicatorKey msg) [] (ch_replicatorUploadRequestMap ch)"
  shows "\<exists>ch' disc err info'. acceptUploadSize msg ch = Inr (ch', disc, err) \<and> channel_balanced ch' \<and>
    map_find (rcpt_replicatorKey msg) (ch_replicatorUploadRequestMap ch') = Some info' \<and>
    maxReceiptSize (rcpt_clientKey msg) info' =
      max (maxReceiptSize (rcpt_clientKey msg) info0) (rcpt_downloadedSize msg) \<and>
    disc = (err = sirius_channel_ran_out) \<and> (disc \<longrightarrow> ch_prepaidDownloadSize ch < ch_totalReceiptsSize ch') \<and>
    (rcpt_downloadedSize msg \<le> maxReceiptSize (rcpt_clientKey msg) info0 \<longrightarrow>
       ch_totalReceiptsSize ch' = ch_totalReceiptsSize ch \<and> \<not> disc) \<and>
    (maxReceiptSize (rcpt_clientKey msg) info0 < rcpt_downloadedSize msg \<longrightarrow> \<not> disc \<longrightarrow>
       ch_totalReceiptsSize ch' \<le> ch_prepaidDownloadSize ch \<and>
       lastAcceptedReceiptSize (rcpt_clientKey msg) info' = rcpt_downloadedSize msg)"
proof -
  let ?ck = "rcpt_clientKey msg" and ?rk = "rcpt_replicatorKey msg" and ?sz = "rcpt_downloadedSize msg"
  define info1 where "info1 = touch ?ck (tryFixReceiptSize (ch_prepaidDownloadSize ch) info0)"
  have ok0: "map_ok info0" using map_ok_index [OF bal] old by simp
  then have ok1: "map_ok info1" and t1: "totalReceiptSize info1 = totalReceiptSize info0"
    and m1: "maxReceiptSize ?ck info1 = maxReceiptSize ?ck info0"
    by (simp_all add: info1_def)
  obtain r where r: "map_find ?ck info1 = Some r" by (simp add: info1_def)
  have mr: "max_size r = maxReceiptSize ?ck info1" using r by (simp add: maxReceiptSize_def map_index_def)
  note def = acceptUploadSize_def Let_def info1_def [symmetric] old [symmetric]
  note bal1 = channel_total_put [OF bal _ old]
  show ?thesis
  proof (cases "?sz \<le> maxReceiptSize ?ck info0")
    case True
    define ch1 where "ch1 = ch\<lparr>ch_replicatorUploadRequestMap := map_put ?rk info1 (ch_replicatorUploadRequestMap ch)\<rparr>"
    have "channel_balanced ch1" using bal1 [OF ok1] t1 by (simp add: ch1_def)
    moreover have "acceptUploadSize msg ch = Inr (ch1, False, no_error)"
      using True m1 by (simp add: def ch1_def)
    moreover have "map_find ?rk (ch_replicatorUploadRequestMap ch1) = Some info1"
      "ch_totalReceiptsSize ch1 = ch_totalReceiptsSize ch" by (simp_all add: ch1_def)
    moreover have "max (maxReceiptSize ?ck info0) ?sz = maxReceiptSize ?ck info0" using True by simp
    ultimately show ?thesis
      using m1 True
      by (intro exI [of _ ch1] exI [of _ False] exI [of _ no_error] exI [of _ info1]) (simp add: leD)
  next
    case False
    then have lt: "max_size r < ?sz" using mr m1 by simp
    then have "rs_acceptedSize r \<le> ?sz" "rs_notAcceptedSize r < ?sz" using max_size_ge [of r] by auto
    then have save: "saveReceiptSize ?ck ?sz info1 = Inr (map_put ?ck (r\<lparr>rs_acceptedSize := ?sz\<rparr>) info1)"
      "saveNotAcceptedReceiptSize ?ck ?sz info1 = Inr (map_put ?ck (r\<lparr>rs_notAcceptedSize := ?sz\<rparr>) info1)"
      using r by (simp_all add: saveReceiptSize_def saveNotAcceptedReceiptSize_def)
    define ch1 where "ch1 r' = ch\<lparr>ch_totalReceiptsSize := ch_totalReceiptsSize ch + (?sz - maxReceiptSize ?ck info0),
        ch_replicatorUploadRequestMap := map_put ?rk (map_put ?ck r' info1) (ch_replicatorUploadRequestMap ch)\<rparr>" for r'
    have bal2: "channel_balanced (ch1 r')" if "max_size r' = ?sz" for r'
    proof -
      have "totalReceiptSize (map_put ?ck r' info1) - totalReceiptSize info0 = ?sz - maxReceiptSize ?ck info0"
        using put_total [OF ok1 r, of r'] that t1 mr m1 by simp
      with bal1 [of "map_put ?ck r' info1"] ok1 show ?thesis by (simp add: ch1_def)
    qed
    have new: "maxReceiptSize ?ck (map_put ?ck r' info1) = max_size r'"
      "lastAcceptedReceiptSize ?ck (map_put ?ck r' info1) = rs_acceptedSize r'" for r'
      by (simp_all add: maxReceiptSize_def lastAcceptedReceiptSize_def map_index_def)
    have mx: "max (maxReceiptSize ?ck info0) ?sz = ?sz" using False by (intro max_absorb2) simp
    show ?thesis
    proof (cases "ch_prepaidDownloadSize ch < ch_totalReceiptsSize ch + (?sz - maxReceiptSize ?ck info0)")
      case True
      then have "acceptUploadSize msg ch = Inr (ch1 (r\<lparr>rs_notAcceptedSize := ?sz\<rparr>), True, sirius_channel_ran_out)"
        using False m1 save(2) by (simp add: def ch1_def)
      moreover have "map_find ?rk (ch_replicatorUploadRequestMap (ch1 (r\<lparr>rs_notAcceptedSize := ?sz\<rparr>))) =
          Some (map_put ?ck (r\<lparr>rs_notAcceptedSize := ?sz\<rparr>) info1)" by (simp add: ch1_def)
      moreover have "ch_prepaidDownloadSize ch < ch_totalReceiptsSize (ch1 (r\<lparr>rs_notAcceptedSize := ?sz\<rparr>))"
        using True by (simp add: ch1_def)
      ultimately show ?thesis
        using bal2 [OF max_size_update(2) [OF lt]] max_size_update(2) [OF lt] False
        by (intro exI [of _ "ch1 (r\<lparr>rs_notAcceptedSize := ?sz\<rparr>)"] exI [of _ True]
            exI [of _ sirius_channel_ran_out] exI [of _ "map_put ?ck (r\<lparr>rs_notAcceptedSize := ?sz\<rparr>) info1"])
          (simp add: new mx)
    next
      case fits: False
      then have "acceptUploadSize msg ch = Inr (ch1 (r\<lparr>rs_acceptedSize := ?sz\<rparr>), False, no_error)"
        using False m1 save(1) by (simp add: def ch1_def)
      moreover have "map_find ?rk (ch_replicatorUploadRequestMap (ch1 (r\<lparr>rs_acceptedSize := ?sz\<rparr>))) =
          Some (map_put ?ck (r\<lparr>rs_acceptedSize := ?sz\<rparr>) info1)" by (simp add: ch1_def)
      moreover have "ch_totalReceiptsSize (ch1 (r\<lparr>rs_acceptedSize := ?sz\<rparr>)) \<le> ch_prepaidDownloadSize ch"
        using fits by (simp add: ch1_def)
      ultimately show ?thesis
        using bal2 [OF max_size_update(1) [OF lt]] max_size_update(1) [OF lt] False
        by (intro exI [of _ "ch1 (r\<lparr>rs_acceptedSize := ?sz\<rparr>)"] exI [of _ False]
            exI [of _ no_error] exI [of _ "map_put ?ck (r\<lparr>rs_acceptedSize := ?sz\<rparr>) info1"])
          (simp add: new mx)
    qed
  qed
qed

definition sample_channel :: channel_info where
  "sample_channel =
     \<lparr>ch_isSynchronizing = False, ch_prepaidDownloadSize = 100, ch_totalReceiptsSize = 0,
      ch_sentClientMap = [(7, 0)], ch_replicatorUploadRequestMap = [], ch_driveKey = 9,
      ch_dnReplicatorShard = [1, 2], ch_downloadOpinionMap = [], ch_clientReceiptMap = [],
      ch_isClosed = False\<rparr>"

text \<open>
  The repair of refused receipts, \<^verbatim>\<open>tryFixReceiptSize\<close>, compares the receipts of one
  replicator with the size prepaid for the whole channel.  On a channel of 100 bytes where
  replicator 2 has an accepted receipt of 60, a receipt of 80 for replicator 1 is refused; sent a
  second time it is accepted, and 140 bytes are accepted on a channel of 100.
\<close>

lemma refused_receipt_is_accepted_when_repeated:
  "(case acceptUploadSize (mk_rcpt 3 7 2 60 (replicate 64 0)) sample_channel of
      Inr (ch1, d1, e1) \<Rightarrow>
        (case acceptUploadSize (mk_rcpt 3 7 1 80 (replicate 64 0)) ch1 of
           Inr (ch2, d2, e2) \<Rightarrow>
             (case acceptUploadSize (mk_rcpt 3 7 1 80 (replicate 64 0)) ch2 of
                Inr (ch3, d3, e3) \<Rightarrow>
                  e1 = no_error \<and> e2 = sirius_channel_ran_out \<and> e3 = no_error \<and>
                  (\<Sum>e\<leftarrow>ch_replicatorUploadRequestMap ch3. totalAcceptedReceiptSize (snd e)) = 140 \<and>
                  ch_prepaidDownloadSize ch3 = 100
              | Inl _ \<Rightarrow> False)
         | Inl _ \<Rightarrow> False)
    | Inl _ \<Rightarrow> False)"
  by (simp add: acceptUploadSize_def sample_channel_def rcpt_accessors Let_def map_index_def
      map_find_def touch_def map_emplace_def map_contains_def tryFixReceiptSize_def totalReceiptSize_def
      accumulate_def no_receipts_def maxReceiptSize_def max_size_def saveReceiptSize_def
      saveNotAcceptedReceiptSize_def fix_cell_def totalAcceptedReceiptSize_def)

theorem acceptUploadSize_keeps_the_total_witness:
  "\<exists>ch' disc err. acceptUploadSize (mk_rcpt 3 7 2 60 (replicate 64 0)) sample_channel = Inr (ch', disc, err) \<and>
     channel_balanced ch'"
proof -
  have "channel_balanced sample_channel" by code_simp
  from acceptUploadSize_keeps_the_total [OF this refl] show ?thesis by blast
qed

end
