(* ===== verification/Download_Limiter.thy ===== *)
theory Download_Limiter
  imports Download_Receipts Flat_Drive
begin

section \<open>The download limiter of a replicator\<close>

text \<open>
  Model of \<^verbatim>\<open>src/drive/DownloadLimiter.h\<close>, the base class of the replicator that decides whom
  it uploads to: the download channels, what was sent to each client, the receipts, and the
  connections it accepts.  One record holds the fields of the replicator that the limiter
  and the approval of downloads use; \<open>rp_ending\<close> is \<^verbatim>\<open>isEnding()\<close> of the torrent session, and
  \<open>rp_now\<close> the clock in seconds.  Messages and calls of the event handler are outputs.
  Signature verification is the parameter \<open>verify\<close>, \<^verbatim>\<open>rand()\<close> the parameter \<open>rnd\<close>.
\<close>

record dn_approval =
  da_blockHash :: hash256
  da_downloadChannelId :: hash256
  da_opinions :: "download_opinion list"

datatype replicator_output = RcptMsg key rcpt_message | DnOpinionMsg key dn_approval |
  DownloadOpinionReceived dn_approval | DownloadApprovalReady dn_approval

record replicator =
  rp_key :: key
  rp_minReplicatorsNumber :: nat
  rp_receiptLimit :: u64
  rp_channels :: "(hash256, channel_info) std_map"
  rp_channelsBackup :: "(hash256, channel_info) std_map"
  rp_drives :: "(key, flat_drive) std_map"
  rp_ending :: bool
  rp_destructing :: bool
  rp_now :: nat
  rp_outputs :: "replicator_output list"

definition rp_emit :: "replicator_output list \<Rightarrow> replicator \<Rightarrow> replicator" where
  "rp_emit os rp = rp\<lparr>rp_outputs := rp_outputs rp @ os\<rparr>"

definition put_channel :: "hash256 \<Rightarrow> channel_info \<Rightarrow> replicator \<Rightarrow> replicator" where
  "put_channel c ch rp = rp\<lparr>rp_channels := map_put c ch (rp_channels rp)\<rparr>"

text \<open>The two reasons for which every handler does nothing.\<close>

definition inactive :: "replicator \<Rightarrow> bool" where
  "inactive rp \<longleftrightarrow> rp_destructing rp \<or> rp_ending rp"

subsection \<open>Channels\<close>

text \<open>
  \<^verbatim>\<open>addChannelInfo\<close>: what a restart restores from the saved channels is the sent sizes, the
  receipts per replicator and the opinions, whose timers and creation times are fresh.
\<close>

definition restored_opinion :: "nat \<Rightarrow> opinion_value \<Rightarrow> opinion_value" where
  "restored_opinion now ov = ov\<lparr>ov_timer := False, ov_opinionShareTimer := False, ov_creationTime := now\<rparr>"

definition new_channel :: "key \<Rightarrow> u64 \<Rightarrow> key \<Rightarrow> key list \<Rightarrow> key list \<Rightarrow> bool \<Rightarrow> channel_info" where
  "new_channel self prepaidDownloadSize driveKey replicatorsList clients willBeSyncronized =
     \<lparr>ch_isSynchronizing = willBeSyncronized, ch_prepaidDownloadSize = prepaidDownloadSize,
      ch_totalReceiptsSize = 0,
      ch_sentClientMap = fold (\<lambda>c. map_emplace c 0) clients [],
      ch_replicatorUploadRequestMap = fold (\<lambda>r m. if r \<noteq> self then map_emplace r [] m else m) replicatorsList [],
      ch_driveKey = driveKey, ch_dnReplicatorShard = replicatorsList, ch_downloadOpinionMap = [],
      ch_clientReceiptMap = [], ch_isClosed = False\<rparr>"

definition addChannelInfo ::
  "hash256 \<Rightarrow> u64 \<Rightarrow> key \<Rightarrow> key list \<Rightarrow> key list \<Rightarrow> bool \<Rightarrow> replicator \<Rightarrow> replicator" where
  "addChannelInfo channelId prepaidDownloadSize driveKey replicatorsList clients willBeSyncronized rp =
     (if rp_destructing rp \<or> map_contains channelId (rp_channels rp) then rp
      else let ch = new_channel (rp_key rp) prepaidDownloadSize driveKey replicatorsList clients willBeSyncronized
           in case map_find channelId (rp_channelsBackup rp) of
                None \<Rightarrow> put_channel channelId ch rp
              | Some b \<Rightarrow>
                  (put_channel channelId
                     (ch\<lparr>ch_sentClientMap := ch_sentClientMap b,
                         ch_replicatorUploadRequestMap := ch_replicatorUploadRequestMap b,
                         ch_downloadOpinionMap :=
                           map (\<lambda>e. (fst e, restored_opinion (rp_now rp) (snd e))) (ch_downloadOpinionMap b)\<rparr>) rp)
                  \<lparr>rp_channelsBackup := map_erase channelId (rp_channelsBackup rp)\<rparr>)"

definition increaseChannelSize :: "hash256 \<Rightarrow> u64 \<Rightarrow> replicator \<Rightarrow> replicator" where
  "increaseChannelSize channelId prepaidDownloadSize rp =
     (if rp_destructing rp then rp
      else case map_find channelId (rp_channels rp) of
             None \<Rightarrow> rp
           | Some ch \<Rightarrow> put_channel channelId
               (ch\<lparr>ch_prepaidDownloadSize := ch_prepaidDownloadSize ch + prepaidDownloadSize\<rparr>) rp)"

definition removeChannelInfo :: "hash256 \<Rightarrow> replicator \<Rightarrow> replicator" where
  "removeChannelInfo channelId rp =
     (if rp_destructing rp then rp else rp\<lparr>rp_channels := map_erase channelId (rp_channels rp)\<rparr>)"

definition asyncSetChanelShard :: "hash256 \<Rightarrow> key list \<Rightarrow> replicator \<Rightarrow> replicator" where
  "asyncSetChanelShard channelId replicatorKeys rp =
     (case map_find channelId (rp_channels rp) of
        None \<Rightarrow> rp
      | Some ch \<Rightarrow> put_channel channelId (ch\<lparr>ch_dnReplicatorShard := replicatorKeys\<rparr>) rp)"

subsection \<open>Connections and pieces\<close>

text \<open>
  \<^verbatim>\<open>checkDownloadLimit\<close>: whether another piece may be sent to the client.  Reading the accepted
  size creates a missing cell.
\<close>

definition checkDownloadLimit :: "key \<Rightarrow> hash256 \<Rightarrow> replicator \<Rightarrow> bool \<times> rcpt_error \<times> replicator" where
  "checkDownloadLimit peerKey downloadChannelId rp =
     (if inactive rp then (False, no_error, rp)
      else case map_find downloadChannelId (rp_channels rp) of
             None \<Rightarrow> (False, sirius_no_channel, rp)
           | Some ch \<Rightarrow>
               if ch_isSynchronizing ch then (False, sirius_no_channel, rp)
               else let sentSize = map_index peerKey 0 (ch_sentClientMap ch);
                        (receiptSize, rp') =
                          (case map_find (rp_key rp) (ch_replicatorUploadRequestMap ch) of
                             None \<Rightarrow> (0, rp)
                           | Some info \<Rightarrow> (lastAcceptedReceiptSize peerKey info,
                               put_channel downloadChannelId (ch\<lparr>ch_replicatorUploadRequestMap :=
                                 map_put (rp_key rp) (touch peerKey info) (ch_replicatorUploadRequestMap ch)\<rparr>) rp))
                    in if receiptSize + rp_receiptLimit rp < sentSize
                       then (False, sirius_receipt_size_too_small, rp')
                       else (True, no_error, rp'))"

datatype connection_status = REJECTED | LIMITED | UNLIMITED

definition acceptClientConnection ::
  "hash256 \<Rightarrow> key \<Rightarrow> key \<Rightarrow> hash256 \<Rightarrow> replicator \<Rightarrow> connection_status \<times> rcpt_error" where
  "acceptClientConnection channelId peerKey driveKey fileHash rp =
     (if inactive rp then (REJECTED, no_error)
      else if (case map_find driveKey (rp_drives rp) of
                 None \<Rightarrow> False | Some d \<Rightarrow> acceptConnectionFromClient peerKey fileHash d)
      then (UNLIMITED, no_error)
      else case map_find channelId (rp_channels rp) of
             None \<Rightarrow> (REJECTED, sirius_no_channel)
           | Some ch \<Rightarrow>
               if \<not> map_contains peerKey (ch_sentClientMap ch) then (REJECTED, sirius_no_client_in_channel)
               else if ch_totalReceiptsSize ch < ch_prepaidDownloadSize ch then (LIMITED, no_error)
               else (REJECTED, sirius_channel_ran_out))"

definition acceptReplicatorConnection :: "key \<Rightarrow> key \<Rightarrow> replicator \<Rightarrow> connection_status" where
  "acceptReplicatorConnection driveKey peerKey rp =
     (if inactive rp then REJECTED
      else case map_find driveKey (rp_drives rp) of
             None \<Rightarrow> REJECTED
           | Some d \<Rightarrow> if acceptConnectionFromReplicator peerKey d then UNLIMITED else REJECTED)"

text \<open>The traffic of the current modification of a drive; a missing cell is created.\<close>

definition change_traffic :: "key \<Rightarrow> key \<Rightarrow> (modify_traffic \<Rightarrow> modify_traffic) \<Rightarrow> replicator \<Rightarrow> replicator" where
  "change_traffic driveKey peer f rp =
     (case map_find driveKey (rp_drives rp) of
        None \<Rightarrow> rp
      | Some d \<Rightarrow>
          let dp = dr_params d; mi = dp_modifyInfos dp;
              cell = map_index peer \<lparr>mt_receivedSize = 0, mt_requestedSize = 0\<rparr> (mi_modifyInfo mi);
              mi' = mi\<lparr>mi_modifyInfo := map_put peer (f cell) (mi_modifyInfo mi)\<rparr>
          in rp\<lparr>rp_drives := map_put driveKey (d\<lparr>dr_params := dp\<lparr>dp_modifyInfos := mi'\<rparr>\<rparr>) (rp_drives rp)\<rparr>)"

definition onPieceRequestReceivedFromReplicator :: "key \<Rightarrow> key \<Rightarrow> u64 \<Rightarrow> replicator \<Rightarrow> bool \<times> replicator" where
  "onPieceRequestReceivedFromReplicator driveKey receiverPublicKey pieceSize rp =
     (if inactive rp then (False, rp)
      else (True, change_traffic driveKey receiverPublicKey
              (\<lambda>t. t\<lparr>mt_requestedSize := mt_requestedSize t + pieceSize\<rparr>) rp))"

definition onPieceReceived :: "key \<Rightarrow> key \<Rightarrow> u64 \<Rightarrow> replicator \<Rightarrow> replicator" where
  "onPieceReceived driveKey senderPublicKey pieceSize rp =
     (if inactive rp then rp
      else change_traffic driveKey senderPublicKey
             (\<lambda>t. t\<lparr>mt_receivedSize := mt_receivedSize t + pieceSize\<rparr>) rp)"

definition onPieceSent :: "hash256 \<Rightarrow> key \<Rightarrow> u64 \<Rightarrow> replicator \<Rightarrow> replicator" where
  "onPieceSent txHash receiverPublicKey pieceSize rp =
     (if inactive rp then rp
      else case map_find txHash (rp_channels rp) of
             None \<Rightarrow> rp
           | Some ch \<Rightarrow>
               (case map_find receiverPublicKey (ch_sentClientMap ch) of
                  None \<Rightarrow> rp
                | Some sent \<Rightarrow> put_channel txHash
                    (ch\<lparr>ch_sentClientMap := map_put receiverPublicKey (sent + pieceSize) (ch_sentClientMap ch)\<rparr>) rp))"

subsection \<open>Receipts\<close>

text \<open>\<^verbatim>\<open>getLastClientReceipt\<close>: the last receipt of the client for this replicator.\<close>

definition getLastClientReceipt :: "hash256 \<Rightarrow> key \<Rightarrow> replicator \<Rightarrow> rcpt_message option" where
  "getLastClientReceipt downloadChannelId clientPublicKey rp =
     (if rp_destructing rp then None
      else Option.bind (map_find downloadChannelId (rp_channels rp)) (\<lambda>ch.
             Option.bind (map_find clientPublicKey (ch_clientReceiptMap ch)) (\<lambda>m. map_find (rp_key rp) m)))"

definition sendReceiptToOtherReplicators :: "hash256 \<Rightarrow> key \<Rightarrow> u64 \<Rightarrow> signature \<Rightarrow> replicator \<Rightarrow> replicator" where
  "sendReceiptToOtherReplicators downloadChannelId clientPublicKey downloadedSz sign rp =
     (let msg = mk_rcpt downloadChannelId clientPublicKey (rp_key rp) downloadedSz sign
      in case map_find downloadChannelId (rp_channels rp) of
           None \<Rightarrow> rp
         | Some ch \<Rightarrow> rp_emit (map (\<lambda>r. RcptMsg r msg)
                         (filter (\<lambda>r. r \<noteq> rp_key rp) (ch_dnReplicatorShard ch))) rp)"

text \<open>
  The replicators a receipt of another replicator is forwarded to: up to four, drawn at random
  without repetition.  \<open>k\<close> counts those drawn so far.
\<close>

function pick_receivers :: "(nat \<Rightarrow> nat) \<Rightarrow> nat \<Rightarrow> key list \<Rightarrow> key list" where
  "pick_receivers rnd k candidates =
     (if candidates = [] \<or> 4 \<le> k then []
      else let i = rnd k mod length candidates
           in candidates ! i #
              pick_receivers rnd (Suc k) (butlast (candidates[i := last candidates])))"
  by pat_completeness auto

termination
  by (relation "measure (\<lambda>(rnd, k, candidates). length candidates)") auto

declare pick_receivers.simps [simp del]

text \<open>The receipt is kept when it is the first of the client or larger than the kept one.\<close>

definition save_receipt :: "rcpt_message \<Rightarrow> channel_info \<Rightarrow> bool \<times> channel_info" where
  "save_receipt msg ch =
     (let ck = rcpt_clientKey msg; rk = rcpt_replicatorKey msg
      in case map_find ck (ch_clientReceiptMap ch) of
           None \<Rightarrow> (True, ch\<lparr>ch_clientReceiptMap := map_put ck [(rk, msg)] (ch_clientReceiptMap ch)\<rparr>)
         | Some m \<Rightarrow>
             let larger = rcpt_downloadedSize (map_index rk [] m) < rcpt_downloadedSize msg;
                 m' = (if larger then map_put rk msg m else map_emplace rk [] m)
             in (larger, ch\<lparr>ch_clientReceiptMap := map_put ck m' (ch_clientReceiptMap ch)\<rparr>))"

text \<open>\<^verbatim>\<open>acceptReceiptImpl\<close>: the replicator, \<^verbatim>\<open>shouldBeDisconnected\<close> and the error code.\<close>

definition acceptReceiptImpl ::
  "(key \<Rightarrow> byte list \<Rightarrow> signature \<Rightarrow> bool) \<Rightarrow> (nat \<Rightarrow> nat) \<Rightarrow> rcpt_message \<Rightarrow> bool \<Rightarrow> replicator \<Rightarrow>
   (replicator \<times> bool \<times> rcpt_error) outcome" where
  "acceptReceiptImpl verify rnd msg shouldBeDisconnected rp =
     (if rp_destructing rp then Inr (rp, shouldBeDisconnected, no_error)
      else case map_find (rcpt_channelId msg) (rp_channels rp) of
             None \<Rightarrow> Inr (rp, True, sirius_no_channel)
           | Some ch \<Rightarrow>
               if \<not> map_contains (rcpt_clientKey msg) (ch_sentClientMap ch)
               then Inr (rp, True, sirius_no_client_in_channel)
               else if \<not> verify (rcpt_clientKey msg) (rcpt_signed msg) (rcpt_signature msg)
               then Inr (rp, True, sirius_bad_signature)
               else bind_outcome (acceptUploadSize msg ch) (\<lambda>(ch1, disconnect, err).
                 let (shouldBeForwarded, ch2) = save_receipt msg ch1;
                     rp1 = put_channel (rcpt_channelId msg) ch2 rp
                 in Inr (if \<not> shouldBeForwarded then rp1
                         else if rcpt_replicatorKey msg = rp_key rp
                         then sendReceiptToOtherReplicators (rcpt_channelId msg) (rcpt_clientKey msg)
                                (rcpt_downloadedSize msg) (rcpt_signature msg) rp1
                         else rp_emit (map (\<lambda>r. RcptMsg r msg)
                                (pick_receivers rnd 0 (filter (\<lambda>r. r \<noteq> rp_key rp) (ch_dnReplicatorShard ch2)))) rp1,
                         disconnect, err)))"

definition acceptReceipt ::
  "(key \<Rightarrow> byte list \<Rightarrow> signature \<Rightarrow> bool) \<Rightarrow> (nat \<Rightarrow> nat) \<Rightarrow> hash256 \<Rightarrow> key \<Rightarrow> u64 \<Rightarrow> signature \<Rightarrow> bool \<Rightarrow>
   replicator \<Rightarrow> (replicator \<times> bool \<times> rcpt_error) outcome" where
  "acceptReceipt verify rnd downloadChannelId clientPublicKey downloadedSz sign shouldBeDisconnected rp =
     (if inactive rp then Inr (rp, shouldBeDisconnected, no_error)
      else acceptReceiptImpl verify rnd
             (mk_rcpt downloadChannelId clientPublicKey (rp_key rp) downloadedSz sign) shouldBeDisconnected rp)"

definition acceptReceiptFromAnotherReplicator ::
  "(key \<Rightarrow> byte list \<Rightarrow> signature \<Rightarrow> bool) \<Rightarrow> (nat \<Rightarrow> nat) \<Rightarrow> rcpt_message \<Rightarrow> replicator \<Rightarrow> replicator outcome" where
  "acceptReceiptFromAnotherReplicator verify rnd msg rp =
     (if inactive rp then Inr rp
      else bind_outcome (acceptReceiptImpl verify rnd msg False rp) (\<lambda>(rp', _). Inr rp'))"
subsection \<open>What can happen to a channel\<close>

text \<open>
  The events of the limiter.  A piece is sent to a client only after \<^verbatim>\<open>checkDownloadLimit\<close> has
  allowed it; this is how the torrent session calls its delegate.
\<close>

datatype limiter_event = SendPiece hash256 key u64 | ClientReceipt hash256 key u64 signature |
  ReplicatorReceipt rcpt_message | AddChannel hash256 u64 key "key list" "key list" bool |
  IncreaseChannel hash256 u64 | RemoveChannel hash256 | SetShard hash256 "key list" |
  PieceRequested key key u64 | PieceReceived key key u64

definition or_same :: "replicator \<Rightarrow> replicator outcome \<Rightarrow> replicator" where
  "or_same rp r = (case r of Inl _ \<Rightarrow> rp | Inr rp' \<Rightarrow> rp')"

fun limiter_step ::
  "(key \<Rightarrow> byte list \<Rightarrow> signature \<Rightarrow> bool) \<Rightarrow> (nat \<Rightarrow> nat) \<Rightarrow> replicator \<Rightarrow> limiter_event \<Rightarrow> replicator" where
  "limiter_step verify rnd rp (SendPiece c k n) =
     (case checkDownloadLimit k c rp of (ok, _, rp') \<Rightarrow> if ok then onPieceSent c k n rp' else rp')"
| "limiter_step verify rnd rp (ClientReceipt c k n sign) =
     or_same rp (bind_outcome (acceptReceipt verify rnd c k n sign False rp) (\<lambda>(rp', _). Inr rp'))"
| "limiter_step verify rnd rp (ReplicatorReceipt msg) = or_same rp (acceptReceiptFromAnotherReplicator verify rnd msg rp)"
| "limiter_step verify rnd rp (AddChannel c n d rs ks b) = addChannelInfo c n d rs ks b rp"
| "limiter_step verify rnd rp (IncreaseChannel c n) = increaseChannelSize c n rp"
| "limiter_step verify rnd rp (RemoveChannel c) = removeChannelInfo c rp"
| "limiter_step verify rnd rp (SetShard c ks) = asyncSetChanelShard c ks rp"
| "limiter_step verify rnd rp (PieceRequested d k n) = snd (onPieceRequestReceivedFromReplicator d k n rp)"
| "limiter_step verify rnd rp (PieceReceived d k n) = onPieceReceived d k n rp"

definition accepted :: "key \<Rightarrow> key \<Rightarrow> channel_info \<Rightarrow> u64" where
  "accepted rk k ch = lastAcceptedReceiptSize k (map_index rk [] (ch_replicatorUploadRequestMap ch))"

definition sent :: "key \<Rightarrow> channel_info \<Rightarrow> u64" where
  "sent k ch = map_index k 0 (ch_sentClientMap ch)"

text \<open>Between two states of a channel the accepted sizes only grow; the other fields compared stay.\<close>

definition grows :: "channel_info \<Rightarrow> channel_info \<Rightarrow> bool" where
  "grows ch ch' \<longleftrightarrow> ch_isSynchronizing ch' = ch_isSynchronizing ch \<and> ch_sentClientMap ch' = ch_sentClientMap ch \<and>
     ch_downloadOpinionMap ch' = ch_downloadOpinionMap ch \<and> ch_dnReplicatorShard ch' = ch_dnReplicatorShard ch \<and>
     (\<forall>rk k. accepted rk k ch \<le> accepted rk k ch')"

lemma grows_refl [simp]: "grows ch ch"
  by (simp add: grows_def)

lemma fix_cell_accepted: "rs_acceptedSize r \<le> rs_acceptedSize (fix_cell r)"
  by (auto simp: fix_cell_def)

lemma lastAccepted_tryFix: "lastAcceptedReceiptSize k m \<le> lastAcceptedReceiptSize k (tryFixReceiptSize p m)"
  by (auto simp: lastAcceptedReceiptSize_def tryFixReceiptSize_def map_index_def map_find_map_snd fix_cell_accepted
      split: option.splits)

lemma lastAccepted_touch [simp]: "lastAcceptedReceiptSize k (touch c m) = lastAcceptedReceiptSize k m"
  by (auto simp: lastAcceptedReceiptSize_def touch_def map_index_def no_receipts_def split: option.splits)

lemma lastAccepted_saveNot:
  "saveNotAcceptedReceiptSize c n m = Inr m' \<Longrightarrow> lastAcceptedReceiptSize k m' = lastAcceptedReceiptSize k m"
  by (auto simp: saveNotAcceptedReceiptSize_def lastAcceptedReceiptSize_def map_index_def split: option.splits if_splits)

lemma lastAccepted_save:
  "saveReceiptSize c n m = Inr m' \<Longrightarrow> lastAcceptedReceiptSize k m \<le> lastAcceptedReceiptSize k m'"
  by (cases "k = c")
    (auto simp: saveReceiptSize_def lastAcceptedReceiptSize_def map_index_def bind_outcome_Inr_iff split: option.splits)

lemma grows_put:
  assumes "\<And>k. lastAcceptedReceiptSize k (map_index rk [] (ch_replicatorUploadRequestMap ch)) \<le> lastAcceptedReceiptSize k info"
    and "ch_replicatorUploadRequestMap ch' = map_put rk info (ch_replicatorUploadRequestMap ch)"
    and "ch_isSynchronizing ch' = ch_isSynchronizing ch" and "ch_sentClientMap ch' = ch_sentClientMap ch"
    and "ch_downloadOpinionMap ch' = ch_downloadOpinionMap ch" and "ch_dnReplicatorShard ch' = ch_dnReplicatorShard ch"
  shows "grows ch ch'"
  using assms by (simp add: grows_def accepted_def map_index_put)

lemma acceptUploadSize_grows:
  assumes "acceptUploadSize msg ch = Inr (ch', b, e)"
  shows "grows ch ch'"
proof -
  let ?rk = "rcpt_replicatorKey msg" and ?ck = "rcpt_clientKey msg"
  let ?info = "touch ?ck (tryFixReceiptSize (ch_prepaidDownloadSize ch) (map_index ?rk [] (ch_replicatorUploadRequestMap ch)))"
  have base: "lastAcceptedReceiptSize k (map_index ?rk [] (ch_replicatorUploadRequestMap ch)) \<le> lastAcceptedReceiptSize k ?info" for k
    by (simp add: lastAccepted_tryFix)
  obtain info where "ch_replicatorUploadRequestMap ch' = map_put ?rk info (ch_replicatorUploadRequestMap ch)"
    "ch_isSynchronizing ch' = ch_isSynchronizing ch" "ch_sentClientMap ch' = ch_sentClientMap ch"
    "ch_downloadOpinionMap ch' = ch_downloadOpinionMap ch" "ch_dnReplicatorShard ch' = ch_dnReplicatorShard ch"
    "info = ?info \<or> saveNotAcceptedReceiptSize ?ck (rcpt_downloadedSize msg) ?info = Inr info \<or>
       saveReceiptSize ?ck (rcpt_downloadedSize msg) ?info = Inr info"
    using assms by (fastforce simp: acceptUploadSize_def Let_def bind_outcome_Inr_iff split: if_splits)
  moreover from this(6) have "lastAcceptedReceiptSize k ?info \<le> lastAcceptedReceiptSize k info" for k
    using lastAccepted_saveNot lastAccepted_save by fastforce
  ultimately show ?thesis by (intro grows_put [of ?rk ch info]) (auto intro: order.trans [OF base])
qed
text \<open>
  Every event either leaves a channel, or lets it grow, or adds a piece that was allowed, or
  creates the channel anew.
\<close>

definition served :: "key \<Rightarrow> u64 \<Rightarrow> u64 \<Rightarrow> channel_info \<Rightarrow> channel_info \<Rightarrow> bool" where
  "served rk limit n ch ch' \<longleftrightarrow> (\<exists>k. \<not> ch_isSynchronizing ch \<and> \<not> accepted rk k ch + limit < sent k ch \<and>
     ch_isSynchronizing ch' = ch_isSynchronizing ch \<and> ch_downloadOpinionMap ch' = ch_downloadOpinionMap ch \<and>
     ch_dnReplicatorShard ch' = ch_dnReplicatorShard ch \<and>
     (\<forall>j. sent j ch' = (if j = k then sent k ch + n else sent j ch)) \<and> (\<forall>j. accepted rk j ch' = accepted rk j ch))"

text \<open>The download approval transactions announced so far.\<close>

definition announced :: "replicator \<Rightarrow> dn_approval list" where
  "announced rp = List.map_filter (\<lambda>x. case x of DownloadApprovalReady a \<Rightarrow> Some a | _ \<Rightarrow> None) (rp_outputs rp)"

definition same_rest :: "replicator \<Rightarrow> replicator \<Rightarrow> bool" where
  "same_rest rp rp' \<longleftrightarrow> rp_key rp' = rp_key rp \<and> rp_receiptLimit rp' = rp_receiptLimit rp \<and>
     rp_channelsBackup rp' = rp_channelsBackup rp \<and> rp_minReplicatorsNumber rp' = rp_minReplicatorsNumber rp \<and>
     rp_now rp' = rp_now rp \<and> announced rp' = announced rp"

lemma same_rest_refl [simp]: "same_rest rp rp"
  by (simp add: same_rest_def)

lemma same_rest_trans: "same_rest a b \<Longrightarrow> same_rest b c \<Longrightarrow> same_rest a c"
  by (simp add: same_rest_def)

lemma announced_receipts [simp]: "announced (rp_emit (map (\<lambda>r. RcptMsg r msg) rs) rp) = announced rp"
  by (induction rs arbitrary: rp) (simp_all add: announced_def rp_emit_def map_filter_simps map_filter_def)

lemma put_channel_simps [simp]:
  "rp_channels (put_channel c ch rp) = map_put c ch (rp_channels rp)"
  "rp_channelsBackup (put_channel c ch rp) = rp_channelsBackup rp"
  "rp_key (put_channel c ch rp) = rp_key rp"
  "rp_receiptLimit (put_channel c ch rp) = rp_receiptLimit rp"
  "inactive (put_channel c ch rp) = inactive rp"
  "same_rest rp (put_channel c ch rp)"
  by (simp_all add: put_channel_def inactive_def same_rest_def announced_def)

lemma rp_emit_simps [simp]:
  "rp_channels (rp_emit os rp) = rp_channels rp"
  "rp_channelsBackup (rp_emit os rp) = rp_channelsBackup rp"
  "rp_key (rp_emit os rp) = rp_key rp"
  "rp_receiptLimit (rp_emit os rp) = rp_receiptLimit rp"
  by (simp_all add: rp_emit_def)

lemma emit_receipts_rest [simp]: "same_rest rp (rp_emit (map (\<lambda>r. RcptMsg r msg) rs) rp)"
  unfolding same_rest_def by (simp add: rp_emit_def [of _ rp]) (simp add: rp_emit_def [symmetric])

lemma sendReceipt_simps [simp]:
  "rp_channels (sendReceiptToOtherReplicators c k n sign rp) = rp_channels rp"
  "same_rest rp (sendReceiptToOtherReplicators c k n sign rp)"
  by (simp_all add: sendReceiptToOtherReplicators_def Let_def split: option.splits)

lemma save_receipt_grows: "grows ch (snd (save_receipt msg ch))"
  by (simp add: save_receipt_def grows_def accepted_def Let_def split: option.splits)

text \<open>What an event other than the addition and the removal of a channel does to the channels.\<close>

definition touches_one :: "(channel_info \<Rightarrow> channel_info \<Rightarrow> bool) \<Rightarrow> replicator \<Rightarrow> replicator \<Rightarrow> bool" where
  "touches_one R rp rp' \<longleftrightarrow> same_rest rp rp' \<and>
     (map_ok (rp_channels rp) \<longrightarrow> map_ok (rp_channels rp')) \<and>
     ((\<forall>j. map_find j (rp_channels rp') = map_find j (rp_channels rp)) \<or>
      (\<exists>c ch ch'. map_find c (rp_channels rp) = Some ch \<and> R ch ch' \<and>
         (\<forall>j. map_find j (rp_channels rp') = (if j = c then Some ch' else map_find j (rp_channels rp)))))"

lemma touches_one_refl [simp]: "touches_one R rp rp"
  by (simp add: touches_one_def)

lemma touches_one_find:
  assumes "touches_one R rp rp'" and "map_find c (rp_channels rp') = Some ch"
  shows "map_find c (rp_channels rp) = Some ch \<or> (\<exists>ch0. map_find c (rp_channels rp) = Some ch0 \<and> R ch0 ch)"
proof -
  consider "\<forall>j. map_find j (rp_channels rp') = map_find j (rp_channels rp)"
    | a x y where "map_find a (rp_channels rp) = Some x" "R x y"
      "\<forall>j. map_find j (rp_channels rp') = (if j = a then Some y else map_find j (rp_channels rp))"
    using assms(1) unfolding touches_one_def by blast
  then show ?thesis using assms(2) by cases (auto split: if_splits)
qed

lemma touches_one_put: "map_find c (rp_channels rp) = Some ch \<Longrightarrow> R ch ch' \<Longrightarrow> touches_one R rp (put_channel c ch' rp)"
  by (auto simp: touches_one_def)

lemma touches_one_mono: "touches_one R rp rp' \<Longrightarrow> (\<And>a b. R a b \<Longrightarrow> S a b) \<Longrightarrow> touches_one S rp rp'"
  unfolding touches_one_def by blast

lemma grows_trans: "grows a b \<Longrightarrow> grows b c \<Longrightarrow> grows a c"
  unfolding grows_def by (metis order.trans)

lemma touches_one_channels:
  assumes "touches_one R rp rp1" and "same_rest rp1 rp2" and "rp_channels rp2 = rp_channels rp1"
  shows "touches_one R rp rp2"
  using assms by (auto simp: touches_one_def intro: same_rest_trans)

lemma acceptReceiptImpl_touches:
  assumes "acceptReceiptImpl verify rnd msg b0 rp = Inr (rp', b, e)"
  shows "touches_one grows rp rp'"
proof (cases "rp' = rp")
  case False
  then obtain ch ch1 where ch: "map_find (rcpt_channelId msg) (rp_channels rp) = Some ch"
    and up: "acceptUploadSize msg ch = Inr (ch1, b, e)"
    using assms by (auto simp: acceptReceiptImpl_def bind_outcome_Inr_iff Let_def case_prod_beta split: if_splits option.splits)
  let ?rp1 = "put_channel (rcpt_channelId msg) (snd (save_receipt msg ch1)) rp"
  have "touches_one grows rp ?rp1"
    using ch grows_trans [OF acceptUploadSize_grows [OF up] save_receipt_grows] by (rule touches_one_put)
  moreover have "same_rest ?rp1 rp' \<and> rp_channels rp' = rp_channels ?rp1"
    using assms ch up False
    by (auto simp: acceptReceiptImpl_def Let_def case_prod_beta split: if_splits)
  ultimately show ?thesis by (blast intro: touches_one_channels)
qed simp

lemma sent_put_sent: "sent j (ch\<lparr>ch_sentClientMap := map_put k v (ch_sentClientMap ch)\<rparr>) = (if j = k then v else sent j ch)"
  by (simp add: sent_def map_index_put)

lemma touch_accepted:
  assumes "map_find rk (ch_replicatorUploadRequestMap ch) = Some info"
  shows "accepted r k (ch\<lparr>ch_replicatorUploadRequestMap := map_put rk (touch k' info) (ch_replicatorUploadRequestMap ch)\<rparr>) =
    accepted r k ch"
  using assms by (auto simp: accepted_def map_index_def)
lemma checkDownloadLimit_touches: "touches_one grows rp (snd (snd (checkDownloadLimit k c rp)))"
  by (auto simp: checkDownloadLimit_def Let_def touch_accepted grows_def
      intro!: touches_one_put split: option.splits)

text \<open>
  Sending a piece: the two calls together keep all channels, or serve one client of one channel
  within the limit.
\<close>

lemma send_piece_touches:
  "touches_one (\<lambda>ch ch'. grows ch ch' \<or> served (rp_key rp) (rp_receiptLimit rp) n ch ch') rp
     (limiter_step verify rnd rp (SendPiece c k n))"
proof (cases "fst (checkDownloadLimit k c rp)")
  case False
  then show ?thesis
    using touches_one_mono [OF checkDownloadLimit_touches [of rp k c]] by (simp add: case_prod_beta)
next
  case True
  then obtain ch where ch: "map_find c (rp_channels rp) = Some ch" "\<not> inactive rp" "\<not> ch_isSynchronizing ch"
    by (auto simp: checkDownloadLimit_def split: if_splits option.splits)
  define ch1 where "ch1 = (case map_find (rp_key rp) (ch_replicatorUploadRequestMap ch) of
      None \<Rightarrow> ch | Some info \<Rightarrow> ch\<lparr>ch_replicatorUploadRequestMap :=
        map_put (rp_key rp) (touch k info) (ch_replicatorUploadRequestMap ch)\<rparr>)"
  have 1: "snd (snd (checkDownloadLimit k c rp)) = (if ch1 = ch then rp else put_channel c ch1 rp) \<or>
      snd (snd (checkDownloadLimit k c rp)) = put_channel c ch1 rp"
    using ch by (auto simp: checkDownloadLimit_def Let_def ch1_def split: option.splits)
  have lim: "\<not> accepted (rp_key rp) k ch + rp_receiptLimit rp < sent k ch"
    using True ch by (auto simp: checkDownloadLimit_def Let_def accepted_def sent_def map_index_def lastAcceptedReceiptSize_def
        no_receipts_def split: option.splits if_splits)
  have same: "accepted r j ch1 = accepted r j ch" "ch_sentClientMap ch1 = ch_sentClientMap ch"
    "ch_isSynchronizing ch1 = ch_isSynchronizing ch" "ch_downloadOpinionMap ch1 = ch_downloadOpinionMap ch"
    "ch_dnReplicatorShard ch1 = ch_dnReplicatorShard ch" for r j
    by (simp_all add: ch1_def touch_accepted split: option.splits)
  have "served (rp_key rp) (rp_receiptLimit rp) n ch
      (ch1\<lparr>ch_sentClientMap := map_put k (v + n) (ch_sentClientMap ch1)\<rparr>)"
    if "map_find k (ch_sentClientMap ch) = Some v" for v
  proof -
    have v: "sent k ch = v" using that by (simp add: sent_def map_index_def)
    have "accepted (rp_key rp) j (ch1\<lparr>ch_sentClientMap := x\<rparr>) = accepted (rp_key rp) j ch" for j x
      using same(1) [of "rp_key rp" j] by (simp add: accepted_def)
    moreover have "sent j ch1 = sent j ch" for j by (simp add: sent_def same)
    ultimately show ?thesis
      unfolding served_def using lim ch(3) same(3-5) v
      by (intro exI [of _ k]) (auto simp: sent_put_sent)
  qed
  moreover have "grows ch ch1" by (simp add: grows_def same)
  moreover define rp1 where "rp1 = snd (snd (checkDownloadLimit k c rp))"
  have rp1: "rp1 = rp \<and> ch1 = ch \<or> rp1 = put_channel c ch1 rp" using 1 by (auto simp: rp1_def split: if_splits)
  moreover have "limiter_step verify rnd rp (SendPiece c k n) = onPieceSent c k n rp1"
    using True by (simp add: rp1_def case_prod_beta)
  moreover have "map_find c (rp_channels rp1) = Some ch1" "\<not> inactive rp1" using rp1 ch by auto
  ultimately show ?thesis
    using ch(1) same(2) unfolding touches_one_def
    by (auto simp: onPieceSent_def split: option.splits
        intro!: exI [of _ c] same_rest_trans [OF put_channel_simps(6) put_channel_simps(6)])
qed

definition channel_step :: "limiter_event \<Rightarrow> replicator \<Rightarrow> channel_info \<Rightarrow> channel_info \<Rightarrow> bool" where
  "channel_step e rp ch ch' \<longleftrightarrow> grows ch ch' \<or>
     (\<exists>c k n. e = SendPiece c k n \<and> served (rp_key rp) (rp_receiptLimit rp) n ch ch')"

lemma channels_unchanged:
  "same_rest rp rp' \<Longrightarrow> rp_channels rp' = rp_channels rp \<Longrightarrow> touches_one R rp rp'"
  by (simp add: touches_one_def)

lemma change_traffic_touches: "touches_one R rp (change_traffic d k f rp)"
  by (auto simp: change_traffic_def same_rest_def announced_def Let_def intro!: channels_unchanged split: option.splits)

lemma receipt_touches:
  "touches_one grows rp (limiter_step verify rnd rp (ClientReceipt c k n sign))"
  "touches_one grows rp (limiter_step verify rnd rp (ReplicatorReceipt msg))"
  by (auto simp: or_same_def acceptReceipt_def acceptReceiptFromAnotherReplicator_def case_prod_beta bind_outcome_Inr_iff
      split: sum.splits dest: acceptReceiptImpl_touches)

lemma limiter_step_cases:
  obtains (add) c n d rs ks b where "e = AddChannel c n d rs ks b"
  | (remove) c where "e = RemoveChannel c"
  | (shard) c ks where "e = SetShard c ks"
  | (other) "\<And>rp. touches_one (channel_step e rp) rp (limiter_step verify rnd rp e)"
proof (cases e)
  case (SendPiece c k n)
  show ?thesis
    by (rule other) (use SendPiece touches_one_mono [OF send_piece_touches [where verify = verify and rnd = rnd and c = c and k = k and n = n]] in
        \<open>simp add: channel_step_def\<close>)
next
  case (ClientReceipt c k n sign)
  then show ?thesis
    using other touches_one_mono [OF receipt_touches(1)] by (metis channel_step_def)
next
  case (ReplicatorReceipt msg)
  then show ?thesis
    using other touches_one_mono [OF receipt_touches(2)] by (metis channel_step_def)
next
  case (IncreaseChannel c n)
  show ?thesis
    by (rule other) (auto simp: IncreaseChannel increaseChannelSize_def channel_step_def grows_def accepted_def
        intro!: touches_one_put split: option.splits)
next
  case (PieceRequested d k n)
  show ?thesis
    by (rule other) (simp add: PieceRequested onPieceRequestReceivedFromReplicator_def change_traffic_touches)
next
  case (PieceReceived d k n)
  show ?thesis
    by (rule other) (simp add: PieceReceived onPieceReceived_def change_traffic_touches)
qed (use add remove shard in blast)+
subsection \<open>Nothing is sent without receipts\<close>











subsection \<open>Channels that wait for a synchronisation\<close>

definition waits_for_sync :: "hash256 \<Rightarrow> replicator \<Rightarrow> bool" where
  "waits_for_sync c rp \<longleftrightarrow> map_ok (rp_channels rp) \<and> (\<exists>ch. map_find c (rp_channels rp) = Some ch \<and> ch_isSynchronizing ch)"

lemma touches_one_waits:
  assumes "touches_one (channel_step e rp) rp rp'" and "waits_for_sync c rp"
  shows "waits_for_sync c rp'"
proof -
  obtain ch where ch: "map_find c (rp_channels rp) = Some ch" "ch_isSynchronizing ch"
    using assms(2) by (auto simp: waits_for_sync_def)
  obtain ch' where ch': "map_find c (rp_channels rp') = Some ch'"
    using assms(1) ch(1) unfolding touches_one_def by (metis option.distinct(1))
  have "ch_isSynchronizing ch'"
    using touches_one_find [OF assms(1) ch'] ch by (auto simp: channel_step_def grows_def served_def)
  then show ?thesis using assms ch' by (auto simp: waits_for_sync_def touches_one_def)
qed

lemma limiter_step_waits:
  assumes "waits_for_sync c rp"
  shows "waits_for_sync c (guarded (\<lambda>e. e \<noteq> RemoveChannel c) (limiter_step verify rnd) rp e)"
proof (cases rule: limiter_step_cases [where e = e and verify = verify and rnd = rnd])
  case (add c' n d rs ks b)
  then show ?thesis using assms
    by (auto simp: guarded_def waits_for_sync_def addChannelInfo_def map_contains_find Let_def put_channel_def
        split: option.splits)
next
  case (remove c')
  then show ?thesis using assms
    by (auto simp: guarded_def waits_for_sync_def removeChannelInfo_def map_find_erase)
next
  case (shard c' ks)
  then show ?thesis using assms
    by (auto simp: guarded_def waits_for_sync_def asyncSetChanelShard_def put_channel_def split: option.splits)
next
  case other
  from other [of rp] show ?thesis using assms by (auto simp: guarded_def intro: touches_one_waits)
qed

interpretation sy: event_system "guarded (\<lambda>e. e \<noteq> RemoveChannel c) (limiter_step verify rnd)" "waits_for_sync c" "waits_for_sync c"
  for c verify rnd
  by unfold_locales (assumption, rule limiter_step_waits)

text \<open>
  A channel added to be synchronised never serves its clients: as long as it is not removed,
  whatever happens, \<^verbatim>\<open>checkDownloadLimit\<close> refuses every piece, for nothing resets the flag.
\<close>

lemma synchronizing_channel_never_serves:
  assumes "map_ok (rp_channels rp)" and "\<not> rp_destructing rp" and "\<not> map_contains c (rp_channels rp)"
    and "RemoveChannel c \<notin> set es"
  shows "\<not> fst (checkDownloadLimit k c (run (limiter_step verify rnd) (addChannelInfo c n d rs ks True rp) es))"
proof -
  let ?rp = "addChannelInfo c n d rs ks True rp"
  have "waits_for_sync c ?rp"
    using assms(1-3)
    by (auto simp: waits_for_sync_def addChannelInfo_def new_channel_def put_channel_def Let_def split: option.splits)
  then have "waits_for_sync c (run (guarded (\<lambda>e. e \<noteq> RemoveChannel c) (limiter_step verify rnd)) ?rp es)"
    by (rule sy.run_invar)
  moreover have "list_all (\<lambda>e. e \<noteq> RemoveChannel c) es" using assms(4) by (auto simp: list_all_iff)
  ultimately have "waits_for_sync c (run (limiter_step verify rnd) ?rp es)" by (simp add: run_guarded)
  then show ?thesis by (auto simp: waits_for_sync_def checkDownloadLimit_def)
qed

subsection \<open>After a restart\<close>

text \<open>
  A restart reopens a channel that ran out: while the channel is there, a client of a channel
  whose receipts have used up the prepaid size is rejected; after the replicator was
  restarted and told of the channel again with the same prepaid size, the client is accepted,
  although the accepted receipts are restored.
\<close>

lemma restart_reopens_an_exhausted_channel:
  assumes "\<not> inactive rp" and "map_find c (rp_channels rp) = Some ch"
    and "map_contains k (ch_sentClientMap ch)" and "ch_prepaidDownloadSize ch \<le> ch_totalReceiptsSize ch"
    and "0 < ch_prepaidDownloadSize ch" and "\<not> map_contains d (rp_drives rp)"
    and "rp' = addChannelInfo c (ch_prepaidDownloadSize ch) (ch_driveKey ch) (ch_dnReplicatorShard ch) ks False
           (rp\<lparr>rp_channels := [], rp_channelsBackup := rp_channels rp\<rparr>)"
  shows "acceptClientConnection c k d h rp = (REJECTED, sirius_channel_ran_out) \<and>
    acceptClientConnection c k d h rp' = (LIMITED, no_error) \<and>
    (\<exists>ch'. map_find c (rp_channels rp') = Some ch' \<and> (\<forall>rk j. accepted rk j ch' = accepted rk j ch))"
  using assms
  by (auto simp: acceptClientConnection_def addChannelInfo_def new_channel_def put_channel_def inactive_def accepted_def
      map_contains_find map_find_Cons Let_def split: option.splits)

subsection \<open>Forwarding a receipt\<close>

lemma swap_remove:
  assumes "distinct cs" and "i < length cs"
  shows "distinct (butlast (cs[i := last cs])) \<and> set (butlast (cs[i := last cs])) = set cs - {cs ! i}"
proof -
  obtain xs y where cs: "cs = xs @ [y]" using assms(2) by (metis length_0_conv less_nat_zero_code rev_exhaust)
  show ?thesis
  proof (cases "i = length xs")
    case True
    then show ?thesis using assms(1) by (auto simp: cs)
  next
    case False
    then have "i < length xs" using assms(2) by (simp add: cs)
    then show ?thesis using assms(1)
      by (auto simp: cs nth_append list_update_append butlast_append distinct_list_update set_update_distinct)
  qed
qed

lemma pick_receivers_props:
  assumes "distinct candidates"
  shows "distinct (pick_receivers rnd k candidates) \<and> set (pick_receivers rnd k candidates) \<subseteq> set candidates \<and>
    length (pick_receivers rnd k candidates) = min (4 - k) (length candidates)"
  using assms
proof (induction rnd k candidates rule: pick_receivers.induct)
  case (1 rnd k cs)
  show ?case
  proof (cases "cs = [] \<or> 4 \<le> k")
    case False
    define i where "i = rnd k mod length cs"
    have "i < length cs" using False by (simp add: i_def)
    note rest = swap_remove [OF 1(2) this]
    have "pick_receivers rnd k cs = cs ! i # pick_receivers rnd (Suc k) (butlast (cs[i := last cs]))"
      using False by (simp add: pick_receivers.simps [of rnd k cs] Let_def i_def)
    moreover have "min (4 - k) (length cs) = Suc (min (4 - Suc k) (length cs - 1))"
      using False by (cases cs) auto
    ultimately show ?thesis
      using 1(1) [OF False i_def] rest \<open>i < length cs\<close> by auto
  qed (auto simp: pick_receivers.simps)
qed
lemma acceptUploadSize_keeps:
  assumes "acceptUploadSize msg ch = Inr (ch', b, e)"
  shows "ch_clientReceiptMap ch' = ch_clientReceiptMap ch \<and> ch_dnReplicatorShard ch' = ch_dnReplicatorShard ch"
  using assms by (auto simp: acceptUploadSize_def Let_def bind_outcome_Inr_iff split: if_splits)

text \<open>
  Receipts spread: a valid receipt for another replicator that is larger than the one kept is
  kept and sent on unchanged to as many replicators of the shard as there are, four at
  most, all different and not the replicator itself; a receipt that is not larger is not sent
  on.
\<close>

lemma new_receipt_is_forwarded:
  assumes "\<not> rp_destructing rp" and "map_find (rcpt_channelId msg) (rp_channels rp) = Some ch"
    and "map_contains (rcpt_clientKey msg) (ch_sentClientMap ch)"
    and "verify (rcpt_clientKey msg) (rcpt_signed msg) (rcpt_signature msg)"
    and "acceptUploadSize msg ch = Inr (ch1, disconnect, err)"
    and "rcpt_replicatorKey msg \<noteq> rp_key rp" and "distinct (ch_dnReplicatorShard ch)"
    and "map_find (rcpt_clientKey msg) (ch_clientReceiptMap ch) = Some kept"
  shows "\<exists>rp' rs. acceptReceiptImpl verify rnd msg b rp = Inr (rp', disconnect, err) \<and>
    rp_outputs rp' = rp_outputs rp @ map (\<lambda>r. RcptMsg r msg) rs \<and> distinct rs \<and>
    set rs \<subseteq> set (ch_dnReplicatorShard ch) - {rp_key rp} \<and>
    length rs = (if rcpt_downloadedSize (map_index (rcpt_replicatorKey msg) [] kept) < rcpt_downloadedSize msg
                 then min 4 (card (set (ch_dnReplicatorShard ch) - {rp_key rp})) else 0)"
proof -
  let ?others = "filter (\<lambda>r. r \<noteq> rp_key rp) (ch_dnReplicatorShard ch)"
  let ?larger = "rcpt_downloadedSize (map_index (rcpt_replicatorKey msg) [] kept) < rcpt_downloadedSize msg"
  let ?rs = "if ?larger then pick_receivers rnd 0 ?others else []"
  have d: "distinct ?others" using assms(7) by simp
  have "set (ch_dnReplicatorShard ch) - {rp_key rp} = set ?others" by auto
  then have "card (set (ch_dnReplicatorShard ch) - {rp_key rp}) = length ?others"
    using distinct_card [OF d] by simp
  then have "distinct ?rs \<and> set ?rs \<subseteq> set (ch_dnReplicatorShard ch) - {rp_key rp} \<and>
      length ?rs = (if ?larger then min 4 (card (set (ch_dnReplicatorShard ch) - {rp_key rp})) else 0)"
    using pick_receivers_props [OF d, of rnd 0] by auto
  moreover have "\<exists>rp'. acceptReceiptImpl verify rnd msg b rp = Inr (rp', disconnect, err) \<and>
      rp_outputs rp' = rp_outputs rp @ map (\<lambda>r. RcptMsg r msg) ?rs"
    using assms acceptUploadSize_keeps [OF assms(5)]
    by (simp add: acceptReceiptImpl_def save_receipt_def Let_def rp_emit_def put_channel_def)
  ultimately show ?thesis by blast
qed

subsection \<open>The theorems on a small replicator\<close>




end
