(* ===== verification/Download_Approval.thy ===== *)
theory Download_Approval
  imports Download_Limiter
begin

section \<open>Approving downloads\<close>

text \<open>
  Model of the part of \<^verbatim>\<open>src/drive/Replicator.cpp\<close> by which the replicators of a channel agree,
  for an event of the blockchain, on how much each of them has uploaded: every replicator signs
  its opinion and shares it; enough opinions start a timer; when the timer expires a download
  approval transaction is announced.  The state is that of the download limiter; all events of the
  limiter may come in between.  Opinions older than an hour are dropped.
\<close>

definition dn_message :: "hash256 \<Rightarrow> hash256 \<Rightarrow> key_and_bytes list \<Rightarrow> byte list" where
  "dn_message blockHash downloadChannelId layout =
     hash_bytes downloadChannelId @ hash_bytes blockHash @ layout_bytes layout"

definition dn_sign :: "(byte list \<Rightarrow> signature) \<Rightarrow> hash256 \<Rightarrow> hash256 \<Rightarrow> download_opinion \<Rightarrow> download_opinion" where
  "dn_sign sign blockHash downloadChannelId op =
     op\<lparr>do_signature := sign (dn_message blockHash downloadChannelId (do_downloadLayout op))\<rparr>"

definition dn_verify ::
  "(key \<Rightarrow> byte list \<Rightarrow> signature \<Rightarrow> bool) \<Rightarrow> hash256 \<Rightarrow> hash256 \<Rightarrow> download_opinion \<Rightarrow> bool" where
  "dn_verify verify blockHash downloadChannelId op =
     verify (do_replicatorKey op) (dn_message blockHash downloadChannelId (do_downloadLayout op)) (do_signature op)"

text \<open>\<^verbatim>\<open>createMyOpinion\<close>: the accepted receipts of every replicator of the shard.\<close>

definition createMyOpinion :: "replicator \<Rightarrow> channel_info \<Rightarrow> download_opinion" where
  "createMyOpinion rp info =
     \<lparr>do_replicatorKey = rp_key rp,
      do_downloadLayout = map (\<lambda>r. (r, case map_find r (ch_replicatorUploadRequestMap info) of
                                          None \<Rightarrow> 0 | Some m \<Rightarrow> totalAcceptedReceiptSize m))
                            (ch_dnReplicatorShard info),
      do_signature = []\<rparr>"

definition new_opinion_value :: "hash256 \<Rightarrow> hash256 \<Rightarrow> nat \<Rightarrow> opinion_value" where
  "new_opinion_value eventHash downloadChannelId now =
     \<lparr>ov_eventHash = eventHash, ov_downloadChannelId = downloadChannelId, ov_opinions = [],
      ov_modifyApproveTransactionSent = False, ov_approveTransactionReceived = False, ov_timer = False,
      ov_opinionShareTimer = False, ov_creationTime = now\<rparr>"

definition put_event :: "hash256 \<Rightarrow> hash256 \<Rightarrow> opinion_value \<Rightarrow> channel_info \<Rightarrow> replicator \<Rightarrow> replicator" where
  "put_event c ev ov ch rp =
     put_channel c (ch\<lparr>ch_downloadOpinionMap := map_put ev ov (ch_downloadOpinionMap ch)\<rparr>) rp"

text \<open>\<^verbatim>\<open>addOpinion\<close>: outdated entries of all channels are dropped first.\<close>

definition drop_outdated :: "nat \<Rightarrow> channel_info \<Rightarrow> channel_info" where
  "drop_outdated now ch =
     ch\<lparr>ch_downloadOpinionMap :=
       filter (\<lambda>e. \<not> ov_creationTime (snd e) + 60 * 60 < now) (ch_downloadOpinionMap ch)\<rparr>"

definition dn_required :: "replicator \<Rightarrow> channel_info \<Rightarrow> nat" where
  "dn_required rp ch = max (rp_minReplicatorsNumber rp) (length (ch_dnReplicatorShard ch)) * 2 div 3 + 1"

definition insert_opinion :: "nat \<Rightarrow> download_opinion \<Rightarrow> opinion_value \<Rightarrow> opinion_value" where
  "insert_opinion required op ov =
     (let ops = map_put (do_replicatorKey op) op (ov_opinions ov)
      in ov\<lparr>ov_opinions := ops, ov_timer := ov_timer ov \<or> required \<le> length ops\<rparr>)"

definition addOpinion :: "dn_approval \<Rightarrow> replicator \<Rightarrow> replicator outcome" where
  "addOpinion an rp =
     (let rp1 = rp\<lparr>rp_channels := map (\<lambda>e. (fst e, drop_outdated (rp_now rp) (snd e))) (rp_channels rp)\<rparr>;
          c = da_downloadChannelId an; ev = da_blockHash an
      in case map_find c (rp_channels rp1) of
           None \<Rightarrow> Inr rp1
         | Some ch \<Rightarrow>
             (case da_opinions an of
                [] \<Rightarrow> Inl UseAfterFree
              | op # _ \<Rightarrow>
                  let ov = (case map_find ev (ch_downloadOpinionMap ch) of
                              None \<Rightarrow> new_opinion_value ev c (rp_now rp) | Some ov \<Rightarrow> ov)
                  in Inr (put_event c ev (insert_opinion (dn_required rp1 ch) op ov) ch rp1)))"

definition asyncOnDownloadOpinionReceived :: "dn_approval \<Rightarrow> replicator \<Rightarrow> replicator outcome" where
  "asyncOnDownloadOpinionReceived an rp =
     (if rp_destructing rp \<or> length (da_opinions an) \<noteq> 1 then Inr rp else addOpinion an rp)"

definition onDownloadApprovalTimeExpired :: "hash256 \<Rightarrow> hash256 \<Rightarrow> replicator \<Rightarrow> replicator outcome" where
  "onDownloadApprovalTimeExpired channelId blockHash rp =
     (case map_find channelId (rp_channels rp) of
        None \<Rightarrow> Inl AssertionFailure
      | Some ch \<Rightarrow>
          (case map_find blockHash (ch_downloadOpinionMap ch) of
             None \<Rightarrow> Inl UseAfterFree
           | Some ov \<Rightarrow>
               if ov_modifyApproveTransactionSent ov \<or> ov_approveTransactionReceived ov then Inr rp
               else Inr (rp_emit [DownloadApprovalReady \<lparr>da_blockHash = ov_eventHash ov,
                            da_downloadChannelId = ov_downloadChannelId ov, da_opinions = map snd (ov_opinions ov)\<rparr>]
                      (put_event channelId blockHash (ov\<lparr>ov_modifyApproveTransactionSent := True\<rparr>) ch rp))))"

text \<open>\<^verbatim>\<open>shareDownloadOpinion\<close>: the own opinion is sent to the shard, and again when a timer expires.\<close>

definition shareDownloadOpinion :: "hash256 \<Rightarrow> hash256 \<Rightarrow> replicator \<Rightarrow> replicator outcome" where
  "shareDownloadOpinion downloadChannel eventHash rp =
     (case map_find downloadChannel (rp_channels rp) of
        None \<Rightarrow> Inl AssertionFailure
      | Some ch \<Rightarrow>
          (case map_find eventHash (ch_downloadOpinionMap ch) of
             None \<Rightarrow> Inl AssertionFailure
           | Some ov \<Rightarrow>
               (case map_find (rp_key rp) (ov_opinions ov) of
                  None \<Rightarrow> Inl AssertionFailure
                | Some op \<Rightarrow>
                    Inr (rp_emit (map (\<lambda>r. DnOpinionMsg r \<lparr>da_blockHash = eventHash,
                              da_downloadChannelId = downloadChannel, da_opinions = [op]\<rparr>)
                            (filter (\<lambda>r. r \<noteq> rp_key rp) (ch_dnReplicatorShard ch)))
                      (put_event downloadChannel eventHash (ov\<lparr>ov_opinionShareTimer := True\<rparr>) ch rp)))))"

definition doInitiateDownloadApprovalTransactionInfo ::
  "(byte list \<Rightarrow> signature) \<Rightarrow> hash256 \<Rightarrow> hash256 \<Rightarrow> replicator \<Rightarrow> replicator outcome" where
  "doInitiateDownloadApprovalTransactionInfo sign blockHash channelId rp =
     (case map_find channelId (rp_channels rp) of
        None \<Rightarrow> Inr rp
      | Some ch \<Rightarrow>
          bind_outcome
            (addOpinion \<lparr>da_blockHash = blockHash, da_downloadChannelId = channelId,
               da_opinions = [dn_sign sign blockHash channelId (createMyOpinion rp ch)]\<rparr> rp)
            (shareDownloadOpinion channelId blockHash))"

definition asyncInitiateDownloadApprovalTransactionInfo ::
  "(byte list \<Rightarrow> signature) \<Rightarrow> hash256 \<Rightarrow> hash256 \<Rightarrow> replicator \<Rightarrow> replicator outcome" where
  "asyncInitiateDownloadApprovalTransactionInfo sign blockHash channelId rp =
     (if rp_destructing rp then Inr rp else doInitiateDownloadApprovalTransactionInfo sign blockHash channelId rp)"

text \<open>\<^verbatim>\<open>closeDriveChannels\<close>: one opinion for every channel of the drive, in the order of the channels.\<close>

fun initiate_all :: "(byte list \<Rightarrow> signature) \<Rightarrow> hash256 \<Rightarrow> hash256 list \<Rightarrow> replicator \<Rightarrow> replicator outcome" where
  "initiate_all sign blockHash [] rp = Inr rp"
| "initiate_all sign blockHash (c # cs) rp =
     bind_outcome (doInitiateDownloadApprovalTransactionInfo sign blockHash c rp) (initiate_all sign blockHash cs)"

definition closeDriveChannels :: "(byte list \<Rightarrow> signature) \<Rightarrow> hash256 \<Rightarrow> key \<Rightarrow> replicator \<Rightarrow> replicator outcome" where
  "closeDriveChannels sign blockHash driveKey rp =
     initiate_all sign blockHash (map fst (filter (\<lambda>e. ch_driveKey (snd e) = driveKey) (rp_channels rp))) rp"

text \<open>
  A failed transaction: the opinions are taken back and offered to the event handler again, which
  decides whether they come back.
\<close>

definition asyncDownloadApprovalTransactionHasFailedInvalidOpinions :: "hash256 \<Rightarrow> hash256 \<Rightarrow> replicator \<Rightarrow> replicator" where
  "asyncDownloadApprovalTransactionHasFailedInvalidOpinions eventHash channelId rp =
     (if rp_destructing rp then rp
      else case map_find channelId (rp_channels rp) of
             None \<Rightarrow> rp
           | Some ch \<Rightarrow>
               if ch_isClosed ch then rp
               else case map_find eventHash (ch_downloadOpinionMap ch) of
                      None \<Rightarrow> rp
                    | Some ov \<Rightarrow>
                        if ov_approveTransactionReceived ov then rp
                        else rp_emit (map (\<lambda>e. DownloadOpinionReceived \<lparr>da_blockHash = ov_eventHash ov,
                                  da_downloadChannelId = ov_downloadChannelId ov, da_opinions = [snd e]\<rparr>) (ov_opinions ov))
                               (put_event channelId eventHash
                                  (ov\<lparr>ov_timer := False, ov_opinions := [], ov_modifyApproveTransactionSent := False\<rparr>) ch rp))"

definition asyncDownloadApprovalTransactionHasBeenPublished :: "hash256 \<Rightarrow> hash256 \<Rightarrow> bool \<Rightarrow> replicator \<Rightarrow> replicator" where
  "asyncDownloadApprovalTransactionHasBeenPublished eventHash channelId channelMustBeClosed rp =
     (if rp_destructing rp then rp
      else case map_find channelId (rp_channels rp) of
             None \<Rightarrow> rp
           | Some ch \<Rightarrow>
               if channelMustBeClosed then rp\<lparr>rp_channels := map_erase channelId (rp_channels rp)\<rparr>
               else case map_find eventHash (ch_downloadOpinionMap ch) of
                      None \<Rightarrow> rp
                    | Some ov \<Rightarrow> put_event channelId eventHash
                        (ov\<lparr>ov_timer := False, ov_opinionShareTimer := False, ov_approveTransactionReceived := True\<rparr>) ch rp)"
subsection \<open>Events\<close>

text \<open>
  The events of the limiter and those of the approval.  A timer's callback runs only while the
  timer exists.  Opinions are checked by the event handler before they come back as
  \<^verbatim>\<open>asyncOnDownloadOpinionReceived\<close>.
\<close>

datatype dn_event = DnInitiate hash256 hash256 | DnOpinion dn_approval | DnTimer hash256 hash256 |
  DnShareTimer hash256 hash256 | DnFailed hash256 hash256 | DnPublished hash256 hash256 bool |
  DnClosing hash256 key | DnTick nat | DnLimiter limiter_event

definition find_event :: "hash256 \<Rightarrow> hash256 \<Rightarrow> replicator \<Rightarrow> opinion_value option" where
  "find_event c ev rp =
     Option.bind (map_find c (rp_channels rp)) (\<lambda>ch. map_find ev (ch_downloadOpinionMap ch))"

definition timer_is_set :: "(opinion_value \<Rightarrow> bool) \<Rightarrow> hash256 \<Rightarrow> hash256 \<Rightarrow> replicator \<Rightarrow> bool" where
  "timer_is_set t c ev rp = (case find_event c ev rp of None \<Rightarrow> False | Some ov \<Rightarrow> t ov)"

definition dn_admitted :: "(key \<Rightarrow> byte list \<Rightarrow> signature \<Rightarrow> bool) \<Rightarrow> dn_approval \<Rightarrow> bool" where
  "dn_admitted verify an \<longleftrightarrow> list_all (dn_verify verify (da_blockHash an) (da_downloadChannelId an)) (da_opinions an)"

fun dn_handle ::
  "(key \<Rightarrow> byte list \<Rightarrow> signature \<Rightarrow> bool) \<Rightarrow> (byte list \<Rightarrow> signature) \<Rightarrow> (nat \<Rightarrow> nat) \<Rightarrow> dn_event \<Rightarrow> replicator \<Rightarrow>
   replicator outcome" where
  "dn_handle verify sign rnd (DnInitiate ev c) rp = asyncInitiateDownloadApprovalTransactionInfo sign ev c rp"
| "dn_handle verify sign rnd (DnOpinion an) rp =
     (if dn_admitted verify an then asyncOnDownloadOpinionReceived an rp else Inr rp)"
| "dn_handle verify sign rnd (DnTimer c ev) rp =
     (if timer_is_set ov_timer c ev rp then onDownloadApprovalTimeExpired c ev rp else Inr rp)"
| "dn_handle verify sign rnd (DnShareTimer c ev) rp =
     (if timer_is_set ov_opinionShareTimer c ev rp then shareDownloadOpinion c ev rp else Inr rp)"
| "dn_handle verify sign rnd (DnFailed ev c) rp =
     Inr (asyncDownloadApprovalTransactionHasFailedInvalidOpinions ev c rp)"
| "dn_handle verify sign rnd (DnPublished ev c b) rp =
     Inr (asyncDownloadApprovalTransactionHasBeenPublished ev c b rp)"
| "dn_handle verify sign rnd (DnClosing ev d) rp = closeDriveChannels sign ev d rp"
| "dn_handle verify sign rnd (DnTick n) rp = Inr (rp\<lparr>rp_now := rp_now rp + n\<rparr>)"
| "dn_handle verify sign rnd (DnLimiter e) rp = Inr (limiter_step verify rnd rp e)"


subsection \<open>What a collection of opinions holds\<close>

definition opinions_ok :: "(key \<Rightarrow> byte list \<Rightarrow> signature \<Rightarrow> bool) \<Rightarrow> hash256 \<Rightarrow> hash256 \<Rightarrow> opinion_value \<Rightarrow> bool" where
  "opinions_ok verify c ev ov \<longleftrightarrow> ov_eventHash ov = ev \<and> ov_downloadChannelId ov = c \<and> map_ok (ov_opinions ov) \<and>
     (\<forall>(k, op)\<in>set (ov_opinions ov). do_replicatorKey op = k \<and> dn_verify verify ev c op)"

definition quorum_ok :: "nat \<Rightarrow> opinion_value \<Rightarrow> bool" where
  "quorum_ok q ov \<longleftrightarrow> (ov_timer ov \<longrightarrow> q \<le> length (ov_opinions ov))"

definition channel_ok :: "(key \<Rightarrow> byte list \<Rightarrow> signature \<Rightarrow> bool) \<Rightarrow> replicator \<Rightarrow> hash256 \<Rightarrow> channel_info \<Rightarrow> bool" where
  "channel_ok verify rp c ch \<longleftrightarrow> map_ok (ch_downloadOpinionMap ch) \<and>
     (\<forall>ev ov. map_find ev (ch_downloadOpinionMap ch) = Some ov \<longrightarrow>
        opinions_ok verify c ev ov \<and> quorum_ok (dn_required rp ch) ov)"

definition backup_ok :: "(key \<Rightarrow> byte list \<Rightarrow> signature \<Rightarrow> bool) \<Rightarrow> hash256 \<Rightarrow> channel_info \<Rightarrow> bool" where
  "backup_ok verify c ch \<longleftrightarrow> map_ok (ch_downloadOpinionMap ch) \<and>
     (\<forall>ev ov. map_find ev (ch_downloadOpinionMap ch) = Some ov \<longrightarrow> opinions_ok verify c ev ov)"

definition approvals_ok :: "(key \<Rightarrow> byte list \<Rightarrow> signature \<Rightarrow> bool) \<Rightarrow> (byte list \<Rightarrow> signature) \<Rightarrow> replicator \<Rightarrow> bool" where
  "approvals_ok verify sign rp \<longleftrightarrow> map_ok (rp_channels rp) \<and> map_ok (rp_channelsBackup rp) \<and>
     (\<forall>m. verify (rp_key rp) m (sign m)) \<and>
     (\<forall>c ch. map_find c (rp_channels rp) = Some ch \<longrightarrow> channel_ok verify rp c ch) \<and>
     (\<forall>c ch. map_find c (rp_channelsBackup rp) = Some ch \<longrightarrow> backup_ok verify c ch)"






lemma rp_emit_ok [simp]: "approvals_ok verify sign (rp_emit os rp) = approvals_ok verify sign rp"
  by (simp add: approvals_ok_def rp_emit_def channel_ok_def dn_required_def)












lemma restored_opinion_ok [simp]:
  "opinions_ok verify c ev (restored_opinion now ov) = opinions_ok verify c ev ov" "quorum_ok q (restored_opinion now ov)"
  by (simp_all add: restored_opinion_def opinions_ok_def quorum_ok_def)





subsection \<open>Announced transactions\<close>


lemma announced_put_channel [simp]: "announced (put_channel c ch rp) = announced rp"
  by (simp add: announced_def put_channel_def)

lemma announced_update [simp]:
  "announced (rp\<lparr>rp_channels := m\<rparr>) = announced rp" "announced (rp\<lparr>rp_now := n\<rparr>) = announced rp"
  "announced (rp\<lparr>rp_channelsBackup := m\<rparr>) = announced rp"
  by (simp_all add: announced_def)

lemma announced_put_event [simp]: "announced (put_event c ev ov ch rp) = announced rp"
  by (simp add: put_event_def)

lemma map_filter_messages [simp]:
  "List.map_filter (\<lambda>x. case x of DownloadApprovalReady a \<Rightarrow> Some a | _ \<Rightarrow> None) (map (\<lambda>r. DnOpinionMsg r (f r)) rs) = []"
  "List.map_filter (\<lambda>x. case x of DownloadApprovalReady a \<Rightarrow> Some a | _ \<Rightarrow> None) (map (\<lambda>r. DownloadOpinionReceived (g r)) ss) = []"
  by (simp_all add: map_filter_def)









subsection \<open>A transaction is announced once\<close>

text \<open>
  What an event other than the approval timer does to the entry of one event of one channel: it
  keeps the entry with its flag while it is not outdated, and creates it with the current time.
\<close>

definition entry_kept :: "hash256 \<Rightarrow> hash256 \<Rightarrow> replicator \<Rightarrow> replicator \<Rightarrow> bool" where
  "entry_kept c ev rp rp' \<longleftrightarrow> (map_find c (rp_channels rp) \<noteq> None \<longrightarrow> map_find c (rp_channels rp') \<noteq> None) \<and>
     (case find_event c ev rp of
        None \<Rightarrow> (\<forall>ov'. find_event c ev rp' = Some ov' \<longrightarrow> ov_creationTime ov' = rp_now rp)
      | Some ov \<Rightarrow> rp_now rp \<le> ov_creationTime ov + 60 * 60 \<longrightarrow>
          (\<exists>ov'. find_event c ev rp' = Some ov' \<and> ov_creationTime ov' = ov_creationTime ov \<and>
             (ov_modifyApproveTransactionSent ov \<longrightarrow> ov_modifyApproveTransactionSent ov')))"

lemma entry_kept_same: "find_event c ev rp' = find_event c ev rp \<Longrightarrow>
    (map_find c (rp_channels rp) \<noteq> None \<Longrightarrow> map_find c (rp_channels rp') \<noteq> None) \<Longrightarrow> entry_kept c ev rp rp'"
  by (auto simp: entry_kept_def split: option.splits)

lemma entry_kept_refl [simp]: "entry_kept c ev rp rp"
  by (simp add: entry_kept_same)




lemma put_event_channels [simp]:
  "map_find c (rp_channels (put_event c' ev ov ch rp)) =
     (if c = c' then Some (ch\<lparr>ch_downloadOpinionMap := map_put ev ov (ch_downloadOpinionMap ch)\<rparr>) else map_find c (rp_channels rp))"
  "rp_now (put_event c' ev ov ch rp) = rp_now rp"
  by (simp_all add: put_event_def put_channel_def)

lemma find_event_emit [simp]: "find_event c ev (rp_emit os rp) = find_event c ev rp"
  by (simp add: find_event_def)


lemma entry_kept_emit [simp]: "entry_kept c ev rp (rp_emit os rp') = entry_kept c ev rp rp'"
  by (simp add: entry_kept_def split: option.splits)



lemma rp_now_emit [simp]: "rp_now (rp_emit os rp) = rp_now rp"
  by (simp add: rp_emit_def)














text \<open>
  After a failed transaction the timer that shares the own opinion trips an assertion: the
  failure clears the opinions but not that timer, so unless the event handler has returned the
  own opinion before the timer expires, the replicator does not find it and stops.
\<close>

lemma share_timer_fails_after_rejection:
  assumes "\<not> rp_destructing rp" and "map_find c (rp_channels rp) = Some ch" and "\<not> ch_isClosed ch"
    and "map_find ev (ch_downloadOpinionMap ch) = Some ov" and "ov_opinionShareTimer ov"
    and "\<not> ov_approveTransactionReceived ov"
  shows "bind_outcome (dn_handle verify sign rnd (DnFailed ev c) rp) (dn_handle verify sign rnd (DnShareTimer c ev)) =
    Inl AssertionFailure"
  using assms
  by (simp add: asyncDownloadApprovalTransactionHasFailedInvalidOpinions_def timer_is_set_def find_event_def put_event_def
      shareDownloadOpinion_def)

subsection \<open>The theorems on a small replicator\<close>









end
