(* ===== verification/Kademlia.thy ===== *)
theory Kademlia
  imports Codecs Std_Map
begin

section \<open>The search for the endpoints of replicators\<close>

text \<open>
  Model of \<^verbatim>\<open>src/drive/KademliaBucket.h\<close>, \<^verbatim>\<open>src/drive/KademliaHashTable.h\<close> and of the catalogue and
  the searches of \<^verbatim>\<open>src/drive/Kademlia.cpp\<close>; (de)serialisation of the messages is left out.  A peer is known by its key; peers are kept in
  buckets by the length of the prefix their key shares with the own one.  Loops that may not end
  are partial functions into options, whose value \<open>None\<close> is that they do not return.  Requests to
  other peers are outputs.  What \<^verbatim>\<open>PeerInfo::Verify\<close> answers is the parameter \<open>verified\<close>: it reads
  port and time through pointers made of their values, so its answer does not follow from the
  message.  An endpoint is its address and port.
\<close>

subsection \<open>Buckets\<close>

definition BUCKET_NUMBER :: nat where
  "BUCKET_NUMBER = 32 * 8"

definition BUCKET_SIZE :: nat where
  "BUCKET_SIZE = 4"

text \<open>
  \<^verbatim>\<open>equalPrefixLength\<close>: the four 64-bit words of the keys in memory, from each of which the loop
  looks at eight bits; \<^verbatim>\<open>index\<close> is carried along as in the code.
\<close>

definition key_words :: "key \<Rightarrow> u64 list" where
  "key_words k = map (\<lambda>i. of_le_bytes (take 8 (drop (8 * i) (hash_bytes k)))) [0, 1, 2, 3]"

fun scan_bits :: "nat \<Rightarrow> u64 \<Rightarrow> nat \<Rightarrow> nat option" where
  "scan_bits 0 xorValue index = None"
| "scan_bits (Suc n) xorValue index =
     (if xorValue AND 1 \<noteq> 0 then Some index else scan_bits n (drop_bit 1 xorValue) index)"

fun scan_words :: "(u64 \<times> u64) list \<Rightarrow> nat \<Rightarrow> nat option" where
  "scan_words [] index = None"
| "scan_words ((a, b) # ws) index =
     (case scan_bits 8 (a XOR b) index of Some i \<Rightarrow> Some i | None \<Rightarrow> scan_words ws index)"

definition equalPrefixLength :: "key \<Rightarrow> key \<Rightarrow> nat outcome" where
  "equalPrefixLength aKey bKey =
     (case scan_words (zip (key_words aKey) (key_words bKey)) 0 of
        Some i \<Rightarrow> Inr i
      | None \<Rightarrow> bind_outcome (sirius_assert (aKey \<noteq> bKey)) (\<lambda>_. Inr (BUCKET_NUMBER - 1)))"

record peer_info =
  pi_publicKey :: key
  pi_address :: string
  pi_port :: "16 word"
  pi_timeInSeconds :: u64
  pi_signature :: "byte list"

type_synonym endpoint = "string \<times> 16 word"
type_synonym bucket = "peer_info list"

definition peer_endpoint :: "peer_info \<Rightarrow> endpoint" where
  "peer_endpoint p = (pi_address p, pi_port p)"

definition getPeer :: "key \<Rightarrow> bucket \<Rightarrow> peer_info option" where
  "getPeer k nodes = find (\<lambda>p. pi_publicKey p = k) nodes"

fun refresh_first :: "peer_info \<Rightarrow> bucket \<Rightarrow> bucket" where
  "refresh_first info [] = []"
| "refresh_first info (p # ps) =
     (if pi_publicKey p = pi_publicKey info
      then (if pi_timeInSeconds p < pi_timeInSeconds info then info else p) # ps
      else p # refresh_first info ps)"

definition addPeer :: "peer_info \<Rightarrow> bucket \<Rightarrow> bucket" where
  "addPeer info nodes =
     (if getPeer (pi_publicKey info) nodes \<noteq> None then refresh_first info nodes
      else if length nodes < BUCKET_SIZE then nodes @ [info] else nodes)"

subsection \<open>The hash table\<close>

record hash_table =
  ht_myKey :: key
  ht_buckets :: "bucket list"

definition new_hash_table :: "key \<Rightarrow> hash_table" where
  "new_hash_table k = \<lparr>ht_myKey = k, ht_buckets = replicate BUCKET_NUMBER []\<rparr>"

definition calcBucketIndex :: "key \<Rightarrow> hash_table \<Rightarrow> nat outcome" where
  "calcBucketIndex candidate ht = equalPrefixLength (ht_myKey ht) candidate"

definition getPeerInfo :: "key \<Rightarrow> hash_table \<Rightarrow> (nat \<times> endpoint option) outcome" where
  "getPeerInfo k ht =
     bind_outcome (equalPrefixLength (ht_myKey ht) k) (\<lambda>bucketIndex.
       Inr (bucketIndex, map_option peer_endpoint (getPeer k (ht_buckets ht ! bucketIndex))))"

text \<open>
  \<^verbatim>\<open>onRequestFromAnotherPeer\<close>: the two loops that are to fill the answer from the neighbouring
  buckets.  Neither changes the bucket index, so the test of the index is a constant of the loop.
\<close>

fun push_while_space :: "bucket \<Rightarrow> bucket \<Rightarrow> bucket" where
  "push_while_space [] result = result"
| "push_while_space (p # ps) result =
     (if BUCKET_SIZE \<le> length result then result else push_while_space ps (result @ [p]))"

partial_function (option) fill_loop :: "bool \<Rightarrow> bucket \<Rightarrow> bucket \<Rightarrow> bucket option" where
  "fill_loop atEnd nodes result =
     (if length result < BUCKET_SIZE
      then if atEnd then Some result else fill_loop atEnd nodes (push_while_space nodes result)
      else Some result)"

definition fill_up :: "bucket \<Rightarrow> nat \<Rightarrow> bucket \<Rightarrow> bucket option" where
  "fill_up nodes bucketI result = fill_loop (bucketI = 0) nodes result"

definition fill_down :: "bucket \<Rightarrow> nat \<Rightarrow> bucket \<Rightarrow> bucket option" where
  "fill_down nodes bucketI result = fill_loop (BUCKET_NUMBER \<le> bucketI) nodes result"

definition onRequestFromAnotherPeer :: "key \<Rightarrow> hash_table \<Rightarrow> bucket outcome" where
  "onRequestFromAnotherPeer searchedKey ht =
     bind_outcome (calcBucketIndex searchedKey ht) (\<lambda>bucketIndex.
       let nodes = ht_buckets ht ! bucketIndex
       in case getPeer searchedKey nodes of
            Some p \<Rightarrow> Inr [p]
          | None \<Rightarrow>
              bind_outcome (of_option Diverges (fill_up nodes bucketIndex nodes)) (\<lambda>result.
                of_option Diverges (fill_down nodes bucketIndex result)))"

definition addPeerInfo :: "peer_info \<Rightarrow> hash_table \<Rightarrow> hash_table outcome" where
  "addPeerInfo info ht =
     bind_outcome (calcBucketIndex (pi_publicKey info) ht) (\<lambda>i.
       Inr (ht\<lparr>ht_buckets := (ht_buckets ht)[i := addPeer info (ht_buckets ht ! i)]\<rparr>))"

definition couldBeAdded :: "key \<Rightarrow> hash_table \<Rightarrow> bool outcome" where
  "couldBeAdded k ht =
     bind_outcome (calcBucketIndex k ht) (\<lambda>i. Inr (length (ht_buckets ht ! i) < BUCKET_NUMBER))"

subsection \<open>Searches and the catalogue\<close>

record candidate =
  cd_endpoint :: endpoint
  cd_publicKey :: key
  cd_xorValue :: key

definition mk_candidate :: "key \<Rightarrow> key \<Rightarrow> endpoint \<Rightarrow> candidate" where
  "mk_candidate myPeerKey k ep = \<lparr>cd_endpoint = ep, cd_publicKey = k, cd_xorValue = k XOR myPeerKey\<rparr>"

record peer_search =
  ps_targetPeerKey :: key
  ps_bucketIndex :: nat
  ps_candidates :: "candidate list"
  ps_triedPeers :: "key list"

datatype kademlia_output = GetPeerIpRequest key key endpoint

record catalogue =
  ca_publicKey :: key
  ca_bootstraps :: "(key \<times> endpoint) list"
  ca_myPort :: "8 word"
  ca_myPeerInfo :: "peer_info option"
  ca_localEndpointMap :: "(key, endpoint) std_map"
  ca_hashTable :: hash_table
  ca_searcherMap :: "(key, peer_search) std_map"
  ca_sent :: "kademlia_output list"

text \<open>
  The loop of the constructor of \<^verbatim>\<open>PeerSearchInfo\<close>: it reads the bucket of its parameter in every
  round, and leaves only where no candidate was found and the index is 0.
\<close>

partial_function (option) collect_candidates ::
  "candidate list \<Rightarrow> candidate \<Rightarrow> nat \<Rightarrow> candidate list \<Rightarrow> (nat \<times> candidate list) option" where
  "collect_candidates nodes bootstrap bucketIndex candidates =
     (let candidates' = candidates @ nodes
      in if candidates' = []
         then if bucketIndex = 0 then Some (0, [bootstrap])
              else collect_candidates nodes bootstrap (bucketIndex - 1) candidates'
         else collect_candidates nodes bootstrap bucketIndex candidates')"

text \<open>\<^verbatim>\<open>sendNextRequest\<close>: the last candidate is asked.  The torrent session is taken to be alive.\<close>

definition sendNextRequest :: "key \<Rightarrow> peer_search \<Rightarrow> (peer_search \<times> kademlia_output) outcome" where
  "sendNextRequest self ps =
     (if ps_candidates ps = [] then Inl UseAfterFree
      else let c = last (ps_candidates ps)
           in Inr (ps\<lparr>ps_triedPeers := List.insert (cd_publicKey c) (ps_triedPeers ps),
                     ps_candidates := butlast (ps_candidates ps)\<rparr>,
                   GetPeerIpRequest (ps_targetPeerKey ps) self (cd_endpoint c)))"

definition onTimer :: "key \<Rightarrow> peer_search \<Rightarrow> (peer_search \<times> kademlia_output list) outcome" where
  "onTimer self ps =
     (if ps_candidates ps = [] then Inr (ps, [])
      else bind_outcome (sendNextRequest self ps) (\<lambda>(ps', x). Inr (ps', [x])))"

definition newPeerSearchInfo :: "key \<Rightarrow> nat \<Rightarrow> catalogue \<Rightarrow> (peer_search \<times> kademlia_output) outcome" where
  "newPeerSearchInfo targetPeerKey bucketIndex ca =
     (case ca_bootstraps ca of
        [] \<Rightarrow> Inl UseAfterFree
      | (bk, bep) # _ \<Rightarrow>
          bind_outcome
            (of_option Diverges (collect_candidates
               (map (\<lambda>p. mk_candidate (ca_publicKey ca) (pi_publicKey p) (peer_endpoint p))
                  (ht_buckets (ca_hashTable ca) ! bucketIndex))
               (mk_candidate (ca_publicKey ca) bk bep) bucketIndex []))
            (\<lambda>(i, cs). sendNextRequest (ca_publicKey ca)
               \<lparr>ps_targetPeerKey = targetPeerKey, ps_bucketIndex = i, ps_candidates = sort_key cd_xorValue cs,
                ps_triedPeers = []\<rparr>))"

text \<open>
  The constructor of the catalogue.  Its hash table is made without the own key, so the key of the
  table is whatever the memory holds, the parameter \<open>tableKey\<close>.  The listening port of the session
  is an \<^verbatim>\<open>int\<close> that \<^verbatim>\<open>createEndpointCatalogue\<close> takes as a \<^verbatim>\<open>uint8_t\<close>.
\<close>

definition new_catalogue :: "key \<Rightarrow> key \<Rightarrow> (key \<times> endpoint) list \<Rightarrow> 8 word \<Rightarrow> catalogue outcome" where
  "new_catalogue self tableKey bootstraps myPort =
     (let bs = filter (\<lambda>b. fst b \<noteq> self) bootstraps
      in bind_outcome (sirius_assert (bs \<noteq> [])) (\<lambda>_.
           Inr \<lparr>ca_publicKey = self, ca_bootstraps = bs, ca_myPort = myPort, ca_myPeerInfo = None,
                ca_localEndpointMap = fold (\<lambda>b. map_put (fst b) (snd b)) bs [],
                ca_hashTable = new_hash_table tableKey, ca_searcherMap = [], ca_sent = []\<rparr>))"

definition createEndpointCatalogue :: "key \<Rightarrow> key \<Rightarrow> (key \<times> endpoint) list \<Rightarrow> int \<Rightarrow> catalogue outcome" where
  "createEndpointCatalogue self tableKey bootstraps listeningPort = new_catalogue self tableKey bootstraps (of_int listeningPort)"

definition getEndpoint :: "key \<Rightarrow> catalogue \<Rightarrow> (endpoint option \<times> catalogue) outcome" where
  "getEndpoint k ca =
     (case map_find k (ca_localEndpointMap ca) of
        Some ep \<Rightarrow> Inr (Some ep, ca)
      | None \<Rightarrow>
          bind_outcome (getPeerInfo k (ca_hashTable ca)) (\<lambda>(bucketIndex, found).
            case found of
              Some ep \<Rightarrow> Inr (Some ep, ca)
            | None \<Rightarrow>
                if map_contains k (ca_searcherMap ca) then Inr (None, ca)
                else bind_outcome (newPeerSearchInfo k bucketIndex ca) (\<lambda>(ps, x).
                       Inr (None, ca\<lparr>ca_searcherMap := map_put k ps (ca_searcherMap ca), ca_sent := ca_sent ca @ [x]\<rparr>))))"

text \<open>\<^verbatim>\<open>onGetPeerIpRequest\<close>: the answer to another peer; a peer that may be added is asked for itself.\<close>

definition onGetPeerIpRequest :: "key \<Rightarrow> key \<Rightarrow> endpoint \<Rightarrow> catalogue \<Rightarrow> (bucket \<times> catalogue) outcome" where
  "onGetPeerIpRequest peerKey requesterKey requesterEndpoint ca =
     bind_outcome (couldBeAdded requesterKey (ca_hashTable ca)) (\<lambda>add.
       let ca1 = (if add then ca\<lparr>ca_sent := ca_sent ca @ [GetPeerIpRequest requesterKey (ca_publicKey ca) requesterEndpoint]\<rparr>
                  else ca)
       in bind_outcome (onRequestFromAnotherPeer peerKey (ca_hashTable ca1)) (\<lambda>peers. Inr (peers, ca1)))"

text \<open>\<^verbatim>\<open>onGetPeerIpResponse\<close> of a search, and of the catalogue that finds the search.\<close>

definition add_candidate :: "(peer_info \<Rightarrow> bool) \<Rightarrow> key \<Rightarrow> peer_info \<Rightarrow> peer_search \<Rightarrow> peer_search" where
  "add_candidate verified self p s =
     (if \<not> verified p then s
      else if pi_publicKey p \<in> set (ps_triedPeers s) then s
      else if pi_publicKey p \<in> cd_publicKey ` set (ps_candidates s) then s
      else s\<lparr>ps_candidates := ps_candidates s @ [mk_candidate self (pi_publicKey p) (peer_endpoint p)]\<rparr>)"

definition new_candidates :: "(peer_info \<Rightarrow> bool) \<Rightarrow> key \<Rightarrow> peer_info list \<Rightarrow> peer_search \<Rightarrow> peer_search" where
  "new_candidates verified self response s = fold (add_candidate verified self) response s"

definition search_onGetPeerIpResponse ::
  "(peer_info \<Rightarrow> bool) \<Rightarrow> peer_info list \<Rightarrow> key \<Rightarrow> peer_search \<Rightarrow> hash_table \<Rightarrow>
   (peer_search \<times> hash_table \<times> kademlia_output list) outcome" where
  "search_onGetPeerIpResponse verified response self s ht =
     (case response of
        [p] \<Rightarrow>
          if pi_publicKey p = ps_targetPeerKey s
          then bind_outcome (addPeerInfo p ht) (\<lambda>ht'. Inr (s, ht', []))
          else let s1 = new_candidates verified self [p] s
               in bind_outcome (sendNextRequest self (s1\<lparr>ps_candidates := sort_key cd_xorValue (ps_candidates s1)\<rparr>))
                    (\<lambda>(s2, x). Inr (s2, ht, [x]))
      | _ \<Rightarrow>
          let s1 = new_candidates verified self response s
          in bind_outcome (sendNextRequest self (s1\<lparr>ps_candidates := sort_key cd_xorValue (ps_candidates s1)\<rparr>))
               (\<lambda>(s2, x). Inr (s2, ht, [x])))"

definition onGetPeerIpResponse ::
  "(peer_info \<Rightarrow> bool) \<Rightarrow> key \<Rightarrow> peer_info list \<Rightarrow> catalogue \<Rightarrow> catalogue outcome" where
  "onGetPeerIpResponse verified peerKey response ca =
     (if response = [] \<or> \<not> list_all verified response then Inr ca
      else case map_find peerKey (ca_searcherMap ca) of
             None \<Rightarrow> Inr ca
           | Some s \<Rightarrow>
               bind_outcome (search_onGetPeerIpResponse verified response (ca_publicKey ca) s (ca_hashTable ca))
                 (\<lambda>(s', ht, xs). Inr (ca\<lparr>ca_searcherMap := map_put peerKey s' (ca_searcherMap ca), ca_hashTable := ht,
                                        ca_sent := ca_sent ca @ xs\<rparr>)))"

text \<open>
  The own address: another peer tells what endpoint it sees, signed with its own key; \<open>sign\<close> is
  what \<^verbatim>\<open>PeerInfo::Sign\<close> stores.  The first accepted answer makes the replicator ask the bootstrap
  nodes for itself.
\<close>

definition mk_peer_info :: "key \<Rightarrow> endpoint \<Rightarrow> u64 \<Rightarrow> peer_info" where
  "mk_peer_info k ep now = \<lparr>pi_publicKey = k, pi_address = fst ep, pi_port = snd ep, pi_timeInSeconds = now, pi_signature = []\<rparr>"

definition onGetMyIpRequest ::
  "(key \<Rightarrow> peer_info \<Rightarrow> byte list) \<Rightarrow> u64 \<Rightarrow> 16 word \<Rightarrow> endpoint \<Rightarrow> catalogue \<Rightarrow> peer_info option" where
  "onGetMyIpRequest sign ticks port requesterEndpoint ca =
     (if port = snd requesterEndpoint
      then let r = mk_peer_info (ca_publicKey ca) requesterEndpoint ticks
           in Some (r\<lparr>pi_signature := sign (ca_publicKey ca) r\<rparr>)
      else None)"

definition enterToSwarm :: "catalogue \<Rightarrow> catalogue" where
  "enterToSwarm ca =
     (let k = hash_bytes (ca_publicKey ca);
          searchedKey = bytes_hash (k[0 := k ! 31 XOR 1])
      in ca\<lparr>ca_sent := ca_sent ca @ map (\<lambda>b. GetPeerIpRequest (ca_publicKey ca) searchedKey (snd b)) (ca_bootstraps ca)\<rparr>)"

definition onGetMyIpResponse ::
  "(peer_info \<Rightarrow> bool) \<Rightarrow> (key \<Rightarrow> peer_info \<Rightarrow> byte list) \<Rightarrow> u64 \<Rightarrow> peer_info \<Rightarrow> catalogue \<Rightarrow> catalogue" where
  "onGetMyIpResponse verified sign now response ca =
     (if \<not> verified response then ca
      else if ucast (ca_myPort ca) \<noteq> pi_port response then ca
      else let firstResponse = (ca_myPeerInfo ca = None);
               me = mk_peer_info (ca_publicKey ca) (peer_endpoint response) now;
               ca1 = ca\<lparr>ca_myPeerInfo := Some (me\<lparr>pi_signature := sign (ca_publicKey ca) me\<rparr>)\<rparr>
           in if firstResponse then enterToSwarm ca1 else ca1)"

subsection \<open>Two buckets\<close>

lemma scan_bits_index: "scan_bits n x index = Some i \<Longrightarrow> i = index"
  by (induction n x index rule: scan_bits.induct) (auto split: if_splits)

lemma scan_words_index: "scan_words ws index = Some i \<Longrightarrow> i = index"
  by (induction ws index rule: scan_words.induct) (auto split: option.splits dest: scan_bits_index)

lemma scan_bits_0: "scan_bits n 0 index = None"
  by (induction n) auto

lemma scan_words_same: "scan_words (zip ws ws) index = None"
  by (induction ws) (auto simp: scan_bits_0)

lemma equalPrefixLength_cases:
  "equalPrefixLength a b = (if a = b then Inl AssertionFailure
     else if scan_words (zip (key_words a) (key_words b)) 0 = None then Inr 255 else Inr 0)"
  by (auto simp: equalPrefixLength_def scan_words_same BUCKET_NUMBER_def split: option.splits dest: scan_words_index)

text \<open>
  The prefix length is decided by the bytes 0, 8, 16 and 24 of the keys: it is 255 when they
  agree, and 0 otherwise.
\<close>

lemma scan_bits_None: "scan_bits n x index = None \<longleftrightarrow> (\<forall>j<n. \<not> bit x j)"
proof (induction n arbitrary: x)
  case (Suc n)
  have "x AND 1 = 0 \<longleftrightarrow> \<not> bit x 0" by (simp add: and_one_eq bit_0 even_iff_mod_2_eq_zero)
  then show ?case using Suc [of "drop_bit 1 x"] by (auto simp: bit_drop_bit_eq less_Suc_eq_0_disj)
qed simp

lemma first_byte:
  fixes b c :: byte
  shows "scan_bits 8 (of_le_bytes (b # bs) XOR of_le_bytes (c # cs)) index = None \<longleftrightarrow> b = c"
proof -
  have "bit (of_le_bytes (d # ds) :: u64) j = bit d j" if "j < 8" for d ds j
    using that by (simp add: bit_simps)
  then have "scan_bits 8 (of_le_bytes (b # bs) XOR of_le_bytes (c # cs)) index = None \<longleftrightarrow> (\<forall>j<8. bit b j = bit c j)"
    by (simp add: scan_bits_None bit_xor_iff)
  also have "\<dots> \<longleftrightarrow> b = c" by (auto simp: bit_eq_iff dest: bit_imp_le_length)
  finally show ?thesis .
qed

lemma key_word_Cons:
  assumes "i < 4"
  shows "take 8 (drop (8 * i) (hash_bytes k)) = hash_bytes k ! (8 * i) # take 7 (drop (Suc (8 * i)) (hash_bytes k))"
proof -
  have "drop (8 * i) (hash_bytes k) = hash_bytes k ! (8 * i) # drop (Suc (8 * i)) (hash_bytes k)"
    using assms by (simp add: Cons_nth_drop_Suc)
  then show ?thesis by (simp add: take_Cons')
qed

lemma all_less_4: "(\<forall>i<4. P i) \<longleftrightarrow> P 0 \<and> P 1 \<and> P 2 \<and> P (3 :: nat)"
  by (simp add: numeral_eq_Suc less_Suc_eq) blast

lemma prefix_index:
  assumes "a \<noteq> b"
  shows "equalPrefixLength a b =
    Inr (if \<forall>i<4. hash_bytes a ! (8 * i) = hash_bytes b ! (8 * i) then 255 else 0)"
proof -
  have "scan_bits 8 (of_le_bytes (take 8 (drop (8 * i) (hash_bytes a))) XOR of_le_bytes (take 8 (drop (8 * i) (hash_bytes b)))) 0 = None
      \<longleftrightarrow> hash_bytes a ! (8 * i) = hash_bytes b ! (8 * i)" if "i < 4" for i
    unfolding key_word_Cons [OF that] by (rule first_byte)
  from this [of 0] this [of 1] this [of 2] this [of 3]
  have "scan_words (zip (key_words a) (key_words b)) 0 = None \<longleftrightarrow>
      (\<forall>i\<in>{0, 1, 2, 3}. hash_bytes a ! (8 * i) = hash_bytes b ! (8 * i))"
    by (auto simp: key_words_def split: option.splits)
  then show ?thesis using assms by (simp only: equalPrefixLength_cases all_less_4) simp
qed

lemma hash_bytes_nth: "i < 32 \<Longrightarrow> hash_bytes k ! i = ucast (drop_bit (8 * (31 - i)) k)"
  using nth_upt [of 0 "31 - i" 32] by (simp add: hash_bytes_def le_bytes_def rev_nth)

definition bucket_ok :: "key \<Rightarrow> nat \<Rightarrow> bucket \<Rightarrow> bool" where
  "bucket_ok self i nodes \<longleftrightarrow> length nodes \<le> BUCKET_SIZE \<and> distinct (map pi_publicKey nodes) \<and>
     (\<forall>p\<in>set nodes. equalPrefixLength self (pi_publicKey p) = Inr i)"

definition table_ok :: "hash_table \<Rightarrow> bool" where
  "table_ok ht \<longleftrightarrow> length (ht_buckets ht) = BUCKET_NUMBER \<and>
     (\<forall>i<BUCKET_NUMBER. bucket_ok (ht_myKey ht) i (ht_buckets ht ! i))"

lemma refresh_first_keys [simp]: "map pi_publicKey (refresh_first info nodes) = map pi_publicKey nodes"
  by (induction nodes) auto

lemma refresh_first_set: "set (refresh_first info nodes) \<subseteq> insert info (set nodes)"
  by (induction nodes) auto

lemma getPeer_None_iff: "getPeer k nodes = None \<longleftrightarrow> k \<notin> pi_publicKey ` set nodes"
  by (auto simp: getPeer_def find_None_iff)

lemma addPeer_ok:
  assumes "bucket_ok self i nodes" and "equalPrefixLength self (pi_publicKey info) = Inr i"
  shows "bucket_ok self i (addPeer info nodes)"
proof (cases "getPeer (pi_publicKey info) nodes")
  case None
  then show ?thesis using assms by (auto simp: addPeer_def bucket_ok_def getPeer_None_iff)
next
  case (Some p)
  have "length (refresh_first info nodes) = length nodes"
    by (metis length_map refresh_first_keys)
  then show ?thesis using Some assms refresh_first_set [of info nodes] by (auto simp: addPeer_def bucket_ok_def)
qed

lemma bucket_index: "equalPrefixLength a b = Inr i \<Longrightarrow> i < BUCKET_NUMBER"
  by (auto simp: equalPrefixLength_cases BUCKET_NUMBER_def split: if_splits)

lemma addPeerInfo_ok:
  assumes "table_ok ht" and "addPeerInfo info ht = Inr ht'"
  shows "table_ok ht'"
proof -
  obtain i where i: "equalPrefixLength (ht_myKey ht) (pi_publicKey info) = Inr i"
    and ht': "ht' = ht\<lparr>ht_buckets := (ht_buckets ht)[i := addPeer info (ht_buckets ht ! i)]\<rparr>"
    using assms(2) by (auto simp: addPeerInfo_def bind_outcome_Inr_iff calcBucketIndex_def)
  then show ?thesis
    using assms(1) addPeer_ok [of _ i _ info] bucket_index [OF i]
    by (auto simp: table_ok_def nth_list_update)
qed

definition table_step :: "hash_table \<Rightarrow> peer_info \<Rightarrow> hash_table" where
  "table_step ht info = (case addPeerInfo info ht of Inl _ \<Rightarrow> ht | Inr ht' \<Rightarrow> ht')"

lemma new_hash_table_ok: "table_ok (new_hash_table k)"
  by (simp add: table_ok_def new_hash_table_def bucket_ok_def)

interpretation kt: event_system table_step "\<lambda>ht. ht = new_hash_table k" table_ok for k
  by unfold_locales (auto simp: new_hash_table_ok table_step_def split: sum.splits intro: addPeerInfo_ok)

definition peers :: "hash_table \<Rightarrow> peer_info list" where
  "peers ht = concat (ht_buckets ht)"

lemma unused_bucket:
  assumes "table_ok ht" and "i < BUCKET_NUMBER" and "i \<noteq> 0" and "i \<noteq> 255"
  shows "ht_buckets ht ! i = []"
proof -
  have "bucket_ok (ht_myKey ht) i (ht_buckets ht ! i)" using assms by (simp add: table_ok_def)
  then have "p \<notin> set (ht_buckets ht ! i)" for p
    using assms(3,4) by (auto simp: bucket_ok_def equalPrefixLength_cases split: if_splits)
  then show ?thesis by (metis list.set_intros(1) neq_Nil_conv)
qed

lemma table_capacity:
  assumes "table_ok ht"
  shows "length (peers ht) \<le> 2 * BUCKET_SIZE"
proof -
  let ?l = "\<lambda>i. length (ht_buckets ht ! i)"
  have n: "length (ht_buckets ht) = 256" using assms by (simp add: table_ok_def BUCKET_NUMBER_def)
  have "length (peers ht) = (\<Sum>i<256. ?l i)"
    unfolding peers_def length_concat sum_list_sum_nth by (simp add: n atLeast0LessThan)
  also have "\<dots> = (\<Sum>i\<in>{0, 255}. ?l i)"
    by (rule sum.mono_neutral_right) (auto simp: unused_bucket [OF assms] BUCKET_NUMBER_def)
  also have "\<dots> = ?l 0 + ?l 255" by simp
  also have "?l i \<le> BUCKET_SIZE" if "i < 256" for i
    using assms that by (simp add: table_ok_def bucket_ok_def BUCKET_NUMBER_def)
  then have "?l 0 + ?l 255 \<le> 2 * BUCKET_SIZE" by (simp add: add_mono mult_2)
  finally show ?thesis .
qed

text \<open>
  C36. The table of known peers degenerates: whatever peers are added in whatever order, two
  different keys have the prefix length 0 or 255, all buckets but these two stay empty, and
  the table, meant for 256 buckets of 4 peers, never knows more than 8.
\<close>

theorem table_never_knows_more_than_eight_peers:
  assumes "ht = run table_step (new_hash_table k) infos"
  shows "length (peers ht) \<le> 8 \<and> (\<forall>i. 0 < i \<and> i < 255 \<longrightarrow> ht_buckets ht ! i = []) \<and>
    distinct (map pi_publicKey (ht_buckets ht ! 0)) \<and> distinct (map pi_publicKey (ht_buckets ht ! 255))"
proof -
  have ok: "table_ok ht" using kt.reachable_invar [OF refl] assms by simp
  then show ?thesis
    using table_capacity [OF ok] unused_bucket [OF ok]
    by (simp add: BUCKET_SIZE_def BUCKET_NUMBER_def table_ok_def bucket_ok_def)
qed
subsection \<open>Adding and finding a peer\<close>

lemma getPeer_refresh:
  "getPeer k (refresh_first info nodes) =
     (case getPeer k nodes of
        None \<Rightarrow> None
      | Some p \<Rightarrow> Some (if pi_publicKey info = k \<and> pi_timeInSeconds p < pi_timeInSeconds info then info else p))"
  by (induction nodes) (auto simp: getPeer_def split: option.splits)

lemma getPeer_append: "getPeer k (nodes @ [info]) = (case getPeer k nodes of None \<Rightarrow> if pi_publicKey info = k then Some info else None | Some p \<Rightarrow> Some p)"
  by (induction nodes) (auto simp: getPeer_def)

lemma getPeer_addPeer:
  "getPeer k (addPeer info nodes) =
     (if k \<noteq> pi_publicKey info then getPeer k nodes
      else case getPeer k nodes of
             None \<Rightarrow> if length nodes < BUCKET_SIZE then Some info else None
           | Some p \<Rightarrow> Some (if pi_timeInSeconds p < pi_timeInSeconds info then info else p))"
  by (auto simp: addPeer_def getPeer_refresh getPeer_append split: option.splits)

text \<open>
  A peer that was added is found: after \<^verbatim>\<open>addPeerInfo\<close> of a peer other than the own one the
  look-up of its key gives the newer of its old and its new information; an unknown peer is
  dropped exactly when its bucket is full; the look-up of every other key is unchanged.
\<close>

lemma added_peer_is_found:
  assumes "table_ok ht" and "pi_publicKey info \<noteq> ht_myKey ht"
  shows "\<exists>ht' i. addPeerInfo info ht = Inr ht' \<and> i < BUCKET_NUMBER \<and>
    getPeerInfo (pi_publicKey info) ht' = Inr (i,
      case getPeer (pi_publicKey info) (ht_buckets ht ! i) of
        None \<Rightarrow> if length (ht_buckets ht ! i) < BUCKET_SIZE then Some (peer_endpoint info) else None
      | Some p \<Rightarrow> Some (peer_endpoint (if pi_timeInSeconds p < pi_timeInSeconds info then info else p))) \<and>
    (\<forall>k. k \<noteq> pi_publicKey info \<longrightarrow> getPeerInfo k ht' = getPeerInfo k ht)"
proof -
  have "\<exists>i. equalPrefixLength (ht_myKey ht) (pi_publicKey info) = Inr i"
    using assms(2) by (simp add: equalPrefixLength_cases)
  then obtain i where i: "equalPrefixLength (ht_myKey ht) (pi_publicKey info) = Inr i" ..
  note lt = bucket_index [OF i]
  let ?ht' = "ht\<lparr>ht_buckets := (ht_buckets ht)[i := addPeer info (ht_buckets ht ! i)]\<rparr>"
  have len: "length (ht_buckets ht) = BUCKET_NUMBER" using assms(1) by (simp add: table_ok_def)
  have "getPeerInfo k ?ht' = getPeerInfo k ht" if "k \<noteq> pi_publicKey info" for k
    using that lt len by (cases "equalPrefixLength (ht_myKey ht) k") (auto simp: getPeerInfo_def nth_list_update getPeer_addPeer)
  moreover have "addPeerInfo info ht = Inr ?ht'" by (simp add: addPeerInfo_def calcBucketIndex_def i)
  ultimately show ?thesis
    using lt len i
    by (intro exI [of _ ?ht'] exI [of _ i]) (auto simp: getPeerInfo_def nth_list_update getPeer_addPeer split: option.splits)
qed

subsection \<open>Requests that never return\<close>

lemma push_while_space_append: "push_while_space nodes result = result @ take (BUCKET_SIZE - length result) nodes"
  by (induction nodes result rule: push_while_space.induct) (auto simp: take_Cons')

lemma fill_loop_stuck:
  assumes "fill_loop atEnd nodes result = Some y"
  shows "nodes = [] \<longrightarrow> atEnd \<or> BUCKET_SIZE \<le> length result"
proof (rule fill_loop.raw_induct [OF _ assms], goal_cases)
  case (1 f atEnd nodes result y)
  from 1(2) 1(1) [of atEnd nodes _ y] show ?case by (fastforce split: if_splits)
qed

lemma fill_loop_returns:
  assumes "nodes \<noteq> []"
  shows "\<exists>r. fill_loop atEnd nodes result = Some r \<and> set result \<subseteq> set r \<and> set r \<subseteq> set result \<union> set nodes \<and>
    (if atEnd \<or> BUCKET_SIZE \<le> length result then r = result else length r = BUCKET_SIZE)"
proof (induction "BUCKET_SIZE - length result" arbitrary: result rule: less_induct)
  case less
  show ?case
  proof (cases "length result < BUCKET_SIZE \<and> \<not> atEnd")
    case True
    let ?r = "push_while_space nodes result"
    have r: "?r = result @ take (BUCKET_SIZE - length result) nodes" by (rule push_while_space_append)
    have "length result < length ?r" using True assms by (simp add: r)
    then have "BUCKET_SIZE - length ?r < BUCKET_SIZE - length result" using True by linarith
    from less [OF this] obtain r' where r': "fill_loop atEnd nodes ?r = Some r'" "set ?r \<subseteq> set r'"
      "set r' \<subseteq> set ?r \<union> set nodes" "if atEnd \<or> BUCKET_SIZE \<le> length ?r then r' = ?r else length r' = BUCKET_SIZE" by blast
    have "set ?r \<subseteq> set result \<union> set nodes" "set result \<subseteq> set ?r" "length ?r \<le> BUCKET_SIZE"
      using True by (auto simp: r dest: in_set_takeD)
    then show ?thesis using r' True by (subst fill_loop.simps) (auto split: if_splits)
  qed (subst fill_loop.simps, auto)
qed

text \<open>
  A request for a peer that nobody knows hangs the replicator: the answer to a request for
  another key than the own one is the peer itself when it is known; the peers of its bucket,
  repeated up to four, when the bucket has peers; and when the bucket is empty the request
  never returns.
\<close>

lemma request_for_a_peer_of_an_empty_bucket_never_returns:
  assumes "table_ok ht" and "k \<noteq> ht_myKey ht"
  shows "\<exists>i<BUCKET_NUMBER. calcBucketIndex k ht = Inr i \<and>
    (case getPeer k (ht_buckets ht ! i) of
       Some p \<Rightarrow> onRequestFromAnotherPeer k ht = Inr [p]
     | None \<Rightarrow> if ht_buckets ht ! i = [] then onRequestFromAnotherPeer k ht = Inl Diverges
               else \<exists>r. onRequestFromAnotherPeer k ht = Inr r \<and> length r = BUCKET_SIZE \<and> set r = set (ht_buckets ht ! i))"
proof -
  have "\<exists>i. equalPrefixLength (ht_myKey ht) k = Inr i" using assms(2) by (simp add: equalPrefixLength_cases)
  then obtain i where i: "calcBucketIndex k ht = Inr i" by (auto simp: calcBucketIndex_def)
  then have lt: "i < BUCKET_NUMBER" using bucket_index by (auto simp: calcBucketIndex_def)
  let ?nodes = "ht_buckets ht ! i"
  have size: "length ?nodes \<le> BUCKET_SIZE" using assms(1) lt by (simp add: table_ok_def bucket_ok_def)
  have "onRequestFromAnotherPeer k ht = Inl Diverges" if "?nodes = []" "getPeer k ?nodes = None"
  proof -
    have "fill_down [] i [] = None"
      using fill_loop_stuck [of "BUCKET_NUMBER \<le> i" "[]" "[]"] lt
      by (cases "fill_down [] i []") (auto simp: fill_down_def BUCKET_SIZE_def)
    moreover have "fill_up [] i [] = None \<or> fill_up [] i [] = Some []"
      using fill_loop_stuck [of "i = 0" "[]" "[]"]
      by (cases "fill_up [] i []") (auto simp: fill_up_def BUCKET_SIZE_def fill_loop.simps [of True])
    ultimately show ?thesis using that i by (auto simp: onRequestFromAnotherPeer_def Let_def)
  qed
  moreover have "\<exists>r. onRequestFromAnotherPeer k ht = Inr r \<and> length r = BUCKET_SIZE \<and> set r = set ?nodes"
    if "?nodes \<noteq> []" "getPeer k ?nodes = None"
  proof -
    from fill_loop_returns [OF that(1), of "i = 0" ?nodes] obtain r where r: "fill_up ?nodes i ?nodes = Some r"
      "set r = set ?nodes" "length r \<le> BUCKET_SIZE" using size by (auto simp: fill_up_def split: if_splits)
    from fill_loop_returns [OF that(1), of "BUCKET_NUMBER \<le> i" r] obtain r' where "fill_down ?nodes i r = Some r'"
      "set r' = set ?nodes" "length r' = BUCKET_SIZE" using r lt by (auto simp: fill_down_def split: if_splits)
    then show ?thesis using that r i by (simp add: onRequestFromAnotherPeer_def Let_def)
  qed
  ultimately show ?thesis using i lt by (auto simp: onRequestFromAnotherPeer_def Let_def split: option.splits)
qed

lemma collect_candidates_stuck:
  assumes "collect_candidates nodes bootstrap bucketIndex candidates = Some y"
  shows "nodes = [] \<and> candidates = []"
proof (rule collect_candidates.raw_induct [OF _ assms], goal_cases)
  case (1 f nodes bootstrap bucketIndex candidates y)
  from 1(2) 1(1) [of nodes bootstrap _ _ y] show ?case by (fastforce simp: Let_def split: if_splits)
qed

lemma collect_candidates_bootstrap: "collect_candidates [] bootstrap bucketIndex [] = Some (0, [bootstrap])"
  by (induction bucketIndex) (subst collect_candidates.simps, simp)+

text \<open>
  A search never starts once a peer is known: looking up a key that is neither a bootstrap
  node's nor in the table, and for which no search runs, asks the first bootstrap node when
  the bucket of the key is empty, and never returns when the bucket has a peer.
\<close>

lemma search_with_known_peers_never_returns:
  assumes "table_ok (ca_hashTable ca)" and "map_find k (ca_localEndpointMap ca) = None"
    and "ca_bootstraps ca = (bk, bep) # bs" and "\<not> map_contains k (ca_searcherMap ca)"
    and "calcBucketIndex k (ca_hashTable ca) = Inr i" and "getPeer k (ht_buckets (ca_hashTable ca) ! i) = None"
  shows "if ht_buckets (ca_hashTable ca) ! i = []
    then \<exists>ca'. getEndpoint k ca = Inr (None, ca') \<and> map_contains k (ca_searcherMap ca') \<and>
           ca_sent ca' = ca_sent ca @ [GetPeerIpRequest k (ca_publicKey ca) bep]
    else getEndpoint k ca = Inl Diverges"
proof -
  have "collect_candidates (c # cs) b i [] = None" for c cs b
    using collect_candidates_stuck [of "c # cs" b i "[]"] by (cases "collect_candidates (c # cs) b i []") auto
  then show ?thesis
    using assms
    by (auto simp: getEndpoint_def getPeerInfo_def calcBucketIndex_def newPeerSearchInfo_def collect_candidates_bootstrap
        sendNextRequest_def mk_candidate_def map_contains_find neq_Nil_conv Let_def)
qed
subsection \<open>A search asks every peer once\<close>

datatype search_event = STimer | SResponse "peer_info list"

type_synonym search_state = "peer_search \<times> hash_table \<times> kademlia_output list"

definition search_handle :: "(peer_info \<Rightarrow> bool) \<Rightarrow> key \<Rightarrow> search_state \<Rightarrow> search_event \<Rightarrow> search_state outcome" where
  "search_handle verified self st e = (case st of (s, ht, xs) \<Rightarrow>
     (case e of
        STimer \<Rightarrow> bind_outcome (onTimer self s) (\<lambda>(s', ys). Inr (s', ht, xs @ ys))
      | SResponse r \<Rightarrow> bind_outcome (search_onGetPeerIpResponse verified r self s ht) (\<lambda>(s', ht', ys). Inr (s', ht', xs @ ys))))"

definition search_step :: "(peer_info \<Rightarrow> bool) \<Rightarrow> key \<Rightarrow> search_state \<Rightarrow> search_event \<Rightarrow> search_state" where
  "search_step verified self st e = (case search_handle verified self st e of Inl _ \<Rightarrow> st | Inr st' \<Rightarrow> st')"

definition fresh_candidates :: "peer_search \<Rightarrow> bool" where
  "fresh_candidates s \<longleftrightarrow> distinct (ps_triedPeers s) \<and> distinct (map cd_publicKey (ps_candidates s)) \<and>
     set (ps_triedPeers s) \<inter> cd_publicKey ` set (ps_candidates s) = {}"

definition search_ok :: "key \<Rightarrow> key \<Rightarrow> search_state \<Rightarrow> bool" where
  "search_ok self k st \<longleftrightarrow> (case st of (s, ht, xs) \<Rightarrow> fresh_candidates s \<and> ps_targetPeerKey s = k \<and>
     length xs = length (ps_triedPeers s) \<and> (\<forall>x\<in>set xs. \<exists>ep. x = GetPeerIpRequest k self ep))"

lemma sendNextRequest_fresh:
  assumes "sendNextRequest self s = Inr (s', x)" and "fresh_candidates s"
  shows "fresh_candidates s' \<and> length (ps_triedPeers s') = Suc (length (ps_triedPeers s)) \<and>
    ps_targetPeerKey s' = ps_targetPeerKey s \<and> (\<exists>ep. x = GetPeerIpRequest (ps_targetPeerKey s) self ep)"
proof -
  from assms(1) have "ps_candidates s \<noteq> []" by (auto simp: sendNextRequest_def)
  then obtain cs c where cs: "ps_candidates s = cs @ [c]" by (metis rev_exhaust)
  have new: "cd_publicKey c \<notin> set (ps_triedPeers s)" "cd_publicKey c \<notin> cd_publicKey ` set cs"
    "set (ps_triedPeers s) \<inter> cd_publicKey ` set cs = {}"
    using assms(2) by (auto simp: cs fresh_candidates_def)
  have "s' = s\<lparr>ps_triedPeers := cd_publicKey c # ps_triedPeers s, ps_candidates := cs\<rparr>"
    "x = GetPeerIpRequest (ps_targetPeerKey s) self (cd_endpoint c)"
    using assms(1) new(1) by (simp_all add: sendNextRequest_def cs Let_def)
  then show ?thesis using assms(2) new by (simp add: fresh_candidates_def cs)
qed

lemma add_candidate_fresh:
  "fresh_candidates s \<Longrightarrow> fresh_candidates (add_candidate verified self p s)"
  "ps_triedPeers (add_candidate verified self p s) = ps_triedPeers s"
  "ps_targetPeerKey (add_candidate verified self p s) = ps_targetPeerKey s"
  by (auto simp: add_candidate_def fresh_candidates_def mk_candidate_def)

lemma new_candidates_fresh:
  "fresh_candidates s \<Longrightarrow> fresh_candidates (new_candidates verified self response s)"
  "ps_triedPeers (new_candidates verified self response s) = ps_triedPeers s"
  "ps_targetPeerKey (new_candidates verified self response s) = ps_targetPeerKey s"
  unfolding new_candidates_def by (induction response arbitrary: s) (simp_all add: add_candidate_fresh)

lemma sorted_candidates_fresh [simp]:
  "fresh_candidates (s\<lparr>ps_candidates := sort_key cd_xorValue (ps_candidates s)\<rparr>) = fresh_candidates s"
  by (simp add: fresh_candidates_def distinct_map)

lemma response_asks_fresh:
  assumes "search_onGetPeerIpResponse verified r self s ht = Inr (s', ht', ys)" and "fresh_candidates s"
  shows "fresh_candidates s' \<and> length (ps_triedPeers s') = length ys + length (ps_triedPeers s) \<and>
    ps_targetPeerKey s' = ps_targetPeerKey s \<and> (\<forall>y\<in>set ys. \<exists>ep. y = GetPeerIpRequest (ps_targetPeerKey s) self ep)"
proof -
  let ?s1 = "new_candidates verified self r s"
  have fresh: "fresh_candidates (?s1\<lparr>ps_candidates := sort_key cd_xorValue (ps_candidates ?s1)\<rparr>)"
    using assms(2) by (simp add: new_candidates_fresh)
  have "(s' = s \<and> ys = []) \<or>
    (\<exists>x. sendNextRequest self (?s1\<lparr>ps_candidates := sort_key cd_xorValue (ps_candidates ?s1)\<rparr>) = Inr (s', x) \<and> ys = [x])"
    using assms(1)
    by (auto simp: search_onGetPeerIpResponse_def bind_outcome_Inr_iff Let_def split: list.splits if_splits)
  then show ?thesis
    using assms(2) sendNextRequest_fresh [OF _ fresh] by (auto simp: new_candidates_fresh)
qed

lemma search_handle_ok:
  assumes "search_handle verified self st e = Inr st'" and "search_ok self k st"
  shows "search_ok self k st'"
proof (cases e)
  case STimer
  then show ?thesis
    using assms sendNextRequest_fresh [of self "fst st"]
    by (fastforce simp: search_handle_def search_ok_def onTimer_def bind_outcome_Inr_iff split: prod.splits if_splits)
next
  case (SResponse r)
  then show ?thesis
    using assms response_asks_fresh [of verified r self "fst st" "fst (snd st)"]
    by (fastforce simp: search_handle_def search_ok_def bind_outcome_Inr_iff split: prod.splits)
qed

interpretation se: event_system "search_step verified self" "search_ok self k" "search_ok self k" for verified self k
  by unfold_locales (auto simp: search_step_def split: sum.splits intro: search_handle_ok)

lemma new_search_ok:
  assumes "newPeerSearchInfo k i ca = Inr (s, x)"
  shows "search_ok (ca_publicKey ca) k (s, ht, [x])"
proof -
  from assms obtain bk bep bs j cs where
    "collect_candidates (map (\<lambda>p. mk_candidate (ca_publicKey ca) (pi_publicKey p) (peer_endpoint p))
       (ht_buckets (ca_hashTable ca) ! i)) (mk_candidate (ca_publicKey ca) bk bep) i [] = Some (j, cs)"
    and s: "sendNextRequest (ca_publicKey ca) \<lparr>ps_targetPeerKey = k, ps_bucketIndex = j,
      ps_candidates = sort_key cd_xorValue cs, ps_triedPeers = []\<rparr> = Inr (s, x)"
    by (auto simp: newPeerSearchInfo_def bind_outcome_Inr_iff split: list.splits)
  from collect_candidates_stuck [OF this(1)] this(1) have "cs = [mk_candidate (ca_publicKey ca) bk bep]"
    by (simp add: collect_candidates_bootstrap)
  then show ?thesis using sendNextRequest_fresh [OF s] by (simp add: search_ok_def fresh_candidates_def)
qed

text \<open>
  A search asks every peer once: from the start of a search for a key on, whatever answers
  come in and whenever its timer expires, the requests it has sent are as many as the different
  peers it has tried, and all of them are for its key.
\<close>

lemma search_asks_each_peer_once:
  assumes "newPeerSearchInfo k i ca = Inr (s, x)"
    and "run (search_step verified (ca_publicKey ca)) (s, ca_hashTable ca, [x]) es = (s', ht', xs)"
  shows "distinct (ps_triedPeers s') \<and> length xs = length (ps_triedPeers s') \<and>
    (\<forall>y\<in>set xs. \<exists>ep. y = GetPeerIpRequest k (ca_publicKey ca) ep) \<and>
    set (ps_triedPeers s') \<inter> cd_publicKey ` set (ps_candidates s') = {}"
  using se.run_invar [OF new_search_ok [OF assms(1), of "ca_hashTable ca"], of verified es] assms(2)
  by (auto simp: search_ok_def fresh_candidates_def)

text \<open>An answer that brings no new peer to a search without candidates reads the end of an empty vector.\<close>

lemma answer_without_news_crashes:
  assumes "ps_candidates s = []" and "pi_publicKey ` set r \<subseteq> set (ps_triedPeers s)" and "ps_targetPeerKey s \<notin> pi_publicKey ` set r"
  shows "search_onGetPeerIpResponse verified r self s ht = Inl UseAfterFree"
proof -
  have "fold (add_candidate verified self) ps s = s" if "set ps \<subseteq> set r" for ps
    using that assms(1,2) by (induction ps) (auto simp: add_candidate_def image_subset_iff)
  then have "new_candidates verified self r s = s" by (simp add: new_candidates_def)
  then show ?thesis
    using assms by (auto simp: search_onGetPeerIpResponse_def sendNextRequest_def Let_def split: list.splits)
qed

subsection \<open>The own address\<close>

datatype catalogue_event =
    CGetEndpoint key
  | CPeerIpRequest key key endpoint
  | CPeerIpResponse key "peer_info list"
  | CMyIpResponse peer_info u64

definition catalogue_handle ::
  "(peer_info \<Rightarrow> bool) \<Rightarrow> (key \<Rightarrow> peer_info \<Rightarrow> byte list) \<Rightarrow> catalogue \<Rightarrow> catalogue_event \<Rightarrow> catalogue outcome" where
  "catalogue_handle verified sign ca e =
     (case e of
        CGetEndpoint k \<Rightarrow> bind_outcome (getEndpoint k ca) (\<lambda>(_, ca'). Inr ca')
      | CPeerIpRequest k requester ep \<Rightarrow> bind_outcome (onGetPeerIpRequest k requester ep ca) (\<lambda>(_, ca'). Inr ca')
      | CPeerIpResponse k response \<Rightarrow> onGetPeerIpResponse verified k response ca
      | CMyIpResponse response now \<Rightarrow> Inr (onGetMyIpResponse verified sign now response ca))"

definition catalogue_step ::
  "(peer_info \<Rightarrow> bool) \<Rightarrow> (key \<Rightarrow> peer_info \<Rightarrow> byte list) \<Rightarrow> catalogue \<Rightarrow> catalogue_event \<Rightarrow> catalogue" where
  "catalogue_step verified sign ca e = (case catalogue_handle verified sign ca e of Inl _ \<Rightarrow> ca | Inr ca' \<Rightarrow> ca')"

definition catalogue_ok :: "8 word \<Rightarrow> catalogue \<Rightarrow> bool" where
  "catalogue_ok port ca \<longleftrightarrow> ca_myPort ca = port \<and> table_ok (ca_hashTable ca) \<and>
     (case ca_myPeerInfo ca of None \<Rightarrow> True | Some p \<Rightarrow> pi_publicKey p = ca_publicKey ca \<and> pi_port p = ucast port)"

lemma response_table:
  assumes "search_onGetPeerIpResponse verified r self s ht = Inr (s', ht', ys)" and "table_ok ht"
  shows "table_ok ht'"
  using assms
  by (auto simp: search_onGetPeerIpResponse_def bind_outcome_Inr_iff Let_def split: list.splits if_splits intro: addPeerInfo_ok)

lemma catalogue_handle_ok:
  assumes "catalogue_handle verified sign ca e = Inr ca'" and "catalogue_ok port ca"
  shows "catalogue_ok port ca'"
proof (cases e)
  case (CGetEndpoint k)
  then show ?thesis
    using assms by (auto simp: catalogue_handle_def getEndpoint_def bind_outcome_Inr_iff catalogue_ok_def split: option.splits if_splits)
next
  case (CPeerIpRequest k requester ep)
  then show ?thesis
    using assms by (auto simp: catalogue_handle_def onGetPeerIpRequest_def bind_outcome_Inr_iff catalogue_ok_def Let_def split: option.splits if_splits)
next
  case (CPeerIpResponse k response)
  then show ?thesis
    using assms response_table
    by (fastforce simp: catalogue_handle_def onGetPeerIpResponse_def bind_outcome_Inr_iff catalogue_ok_def split: option.splits if_splits)
next
  case (CMyIpResponse response now)
  then show ?thesis
    using assms
    by (auto simp: catalogue_handle_def onGetMyIpResponse_def enterToSwarm_def catalogue_ok_def mk_peer_info_def peer_endpoint_def Let_def
        split: option.splits if_splits)
qed

interpretation cs: event_system "catalogue_step verified sign" "catalogue_ok port" "catalogue_ok port" for verified sign port
  by unfold_locales (auto simp: catalogue_step_def split: sum.splits intro: catalogue_handle_ok)

lemma createEndpointCatalogue_ok:
  "createEndpointCatalogue self tableKey bootstraps listeningPort = Inr ca \<Longrightarrow> catalogue_ok (of_int listeningPort) ca"
  by (auto simp: createEndpointCatalogue_def new_catalogue_def bind_outcome_Inr_iff catalogue_ok_def new_hash_table_ok Let_def)

text \<open>
  The catalogue keeps the listening port in 8 bits: in every state reached from its creation,
  an own address it has accepted has the listening port modulo 256.  So on a listening port above
  255 a truthful answer, one with the real port, never changes the catalogue, and the
  swarm is not entered.
\<close>

lemma own_address_is_accepted_modulo_256:
  assumes "createEndpointCatalogue self tableKey bootstraps listeningPort = Inr ca0" and "0 \<le> listeningPort" and "listeningPort < 65536"
    and "ca = run (catalogue_step verified sign) ca0 es"
  shows "(\<forall>p. ca_myPeerInfo ca = Some p \<longrightarrow> uint (pi_port p) = listeningPort mod 256) \<and>
    (\<forall>response now. 256 \<le> listeningPort \<and> uint (pi_port response) = listeningPort \<longrightarrow>
       onGetMyIpResponse verified sign now response ca = ca)"
proof -
  have "catalogue_ok (of_int listeningPort) ca"
    using cs.run_invar [OF createEndpointCatalogue_ok [OF assms(1)]] assms(4) by simp
  moreover have "uint (ucast (of_int listeningPort :: 8 word) :: 16 word) = listeningPort mod 256"
    by (simp add: unsigned_ucast_eq take_bit_eq_mod unsigned_of_int)
  moreover have "listeningPort mod 256 < 256" by simp
  ultimately show ?thesis
    by (auto simp: catalogue_ok_def onGetMyIpResponse_def)
qed

subsection \<open>The theorems on a small table\<close>

definition sample_peer :: peer_info where
  "sample_peer = \<lparr>pi_publicKey = 2 ^ 248, pi_address = ''10.0.0.2'', pi_port = 7904, pi_timeInSeconds = 5, pi_signature = []\<rparr>"

definition other_key :: key where
  "other_key = 2 ^ 249"

lemma sample_indices:
  "equalPrefixLength 7 (pi_publicKey sample_peer) = Inr 0" "equalPrefixLength 7 other_key = Inr 0" "equalPrefixLength 7 8 = Inr 255"
proof -
  have b: "hash_bytes 7 ! 0 \<noteq> hash_bytes (pi_publicKey sample_peer) ! 0" "hash_bytes 7 ! 0 \<noteq> hash_bytes other_key ! 0"
    "hash_bytes 7 ! 0 = hash_bytes 8 ! 0" "hash_bytes 7 ! 8 = hash_bytes 8 ! 8" "hash_bytes 7 ! 16 = hash_bytes 8 ! 16"
    "hash_bytes 7 ! 24 = hash_bytes 8 ! 24"
    by (simp_all add: hash_bytes_nth sample_peer_def other_key_def)
  have n: "7 \<noteq> pi_publicKey sample_peer" "7 \<noteq> other_key" "7 \<noteq> (8 :: key)"
    by (simp_all add: sample_peer_def other_key_def)
  show "equalPrefixLength 7 (pi_publicKey sample_peer) = Inr 0"
    unfolding prefix_index [OF n(1)] all_less_4 by (simp add: b(1))
  show "equalPrefixLength 7 other_key = Inr 0"
    unfolding prefix_index [OF n(2)] all_less_4 by (simp add: b(2))
  show "equalPrefixLength 7 8 = Inr 255"
    unfolding prefix_index [OF n(3)] all_less_4 by (simp add: b(3-6))
qed

lemma other_keys: "other_key \<noteq> 9" "pi_publicKey sample_peer \<noteq> other_key"
  by (simp_all add: other_key_def sample_peer_def)

definition sample_table :: hash_table where
  "sample_table = run table_step (new_hash_table 7) [sample_peer]"

lemma sample_table_ok: "table_ok sample_table"
  unfolding sample_table_def by (rule kt.reachable_invar) simp

lemma sample_table_simps:
  "ht_myKey sample_table = 7" "ht_buckets sample_table ! 0 = [sample_peer]" "ht_buckets sample_table ! 255 = []"
  by (simp_all add: sample_table_def table_step_def addPeerInfo_def calcBucketIndex_def new_hash_table_def sample_indices
      addPeer_def getPeer_def BUCKET_SIZE_def BUCKET_NUMBER_def)

theorem table_never_knows_more_than_eight_peers_witness:
  "length (peers sample_table) \<le> 8"
  using table_never_knows_more_than_eight_peers [OF sample_table_def] by simp

definition sample_catalogue :: catalogue where
  "sample_catalogue = \<lparr>ca_publicKey = 7, ca_bootstraps = [(9, (''10.0.0.9'', 7904))], ca_myPort = 224, ca_myPeerInfo = None,
     ca_localEndpointMap = [(9, (''10.0.0.9'', 7904))], ca_hashTable = sample_table, ca_searcherMap = [], ca_sent = []\<rparr>"

lemma sample_search:
  "newPeerSearchInfo 8 255 sample_catalogue =
     Inr (\<lparr>ps_targetPeerKey = 8, ps_bucketIndex = 0, ps_candidates = [], ps_triedPeers = [9]\<rparr>, GetPeerIpRequest 8 7 (''10.0.0.9'', 7904))"
  by (simp add: newPeerSearchInfo_def sample_catalogue_def sample_table_simps collect_candidates_bootstrap sendNextRequest_def mk_candidate_def)

end
