(* ===== verification/Http_Server.thy ===== *)
theory Http_Server
  imports Codecs
begin

section \<open>The HTTP server of the viewer\<close>

text \<open>
  Model of the server that hands out the files of a stream (\<^verbatim>\<open>src/drive/http_*.cpp\<close>): the parser of
  requests, a state machine that consumes one character at a time, the handler that maps a URI to a
  file below the document root, the replies, the connections and their manager.  A socket is what
  it delivers: the pieces of data read from it.  The file system is a function from the path that
  is opened to the bytes of the file.  The version numbers, which nothing reads, wrap at
  32 bits.
\<close>

subsection \<open>Requests and the parser\<close>

record http_header =
  hd_name :: string
  hd_value :: string

record http_request =
  rq_method :: string
  rq_uri :: string
  rq_http_version_major :: u32
  rq_http_version_minor :: u32
  rq_headers :: "http_header list"

definition empty_request :: http_request where
  "empty_request = \<lparr>rq_method = [], rq_uri = [], rq_http_version_major = 0, rq_http_version_minor = 0, rq_headers = []\<rparr>"

datatype result_type = good | bad | indeterminate

datatype parser_state =
    method_start | in_method | in_uri | http_version_h | http_version_t_1 | http_version_t_2 | http_version_p
  | http_version_slash | http_version_major_start | http_version_major | http_version_minor_start | http_version_minor
  | expecting_newline_1 | header_line_start | header_lws | header_name | space_before_header_value | header_value
  | expecting_newline_2 | expecting_newline_3

definition code_of :: "char \<Rightarrow> nat" where
  "code_of c = of_char c"

definition is_char :: "char \<Rightarrow> bool" where
  "is_char c = (code_of c \<le> 127)"

definition is_ctl :: "char \<Rightarrow> bool" where
  "is_ctl c = (code_of c \<le> 31 \<or> code_of c = 127)"

definition is_tspecial :: "char \<Rightarrow> bool" where
  "is_tspecial c = (c \<in> set (''()<>@,;:'' @ [CHR 0x5C, CHR 0x22] @ ''/[]?={} '' @ [CHR 0x09]))"

definition is_digit :: "char \<Rightarrow> bool" where
  "is_digit c = (48 \<le> code_of c \<and> code_of c \<le> 57)"

definition CR :: char where "CR = CHR 0x0D"

definition LF :: char where "LF = CHR 0x0A"

definition with_digit :: "u32 \<Rightarrow> char \<Rightarrow> u32" where
  "with_digit n c = n * 10 + of_nat (code_of c) - 48"

text \<open>The last header gets another character.\<close>

definition push_name :: "char \<Rightarrow> http_header list \<Rightarrow> http_header list" where
  "push_name c hs = butlast hs @ [(last hs)\<lparr>hd_name := hd_name (last hs) @ [c]\<rparr>]"

definition push_value :: "char \<Rightarrow> http_header list \<Rightarrow> http_header list" where
  "push_value c hs = butlast hs @ [(last hs)\<lparr>hd_value := hd_value (last hs) @ [c]\<rparr>]"

text \<open>\<^verbatim>\<open>consume\<close>: the result, the next state and the request; the state stays as it is when the input is bad.\<close>

definition expect :: "char \<Rightarrow> char \<Rightarrow> parser_state \<Rightarrow> parser_state \<Rightarrow> http_request \<Rightarrow> result_type \<times> parser_state \<times> http_request" where
  "expect c input s s' r = (if input = c then (indeterminate, s', r) else (bad, s, r))"

fun consume :: "char \<Rightarrow> parser_state \<Rightarrow> http_request \<Rightarrow> result_type \<times> parser_state \<times> http_request" where
  "consume c method_start r =
     (if \<not> is_char c \<or> is_ctl c \<or> is_tspecial c then (bad, method_start, r)
      else (indeterminate, in_method, r\<lparr>rq_method := rq_method r @ [c]\<rparr>))"
| "consume c in_method r =
     (if c = CHR '' '' then (indeterminate, in_uri, r)
      else if \<not> is_char c \<or> is_ctl c \<or> is_tspecial c then (bad, in_method, r)
      else (indeterminate, in_method, r\<lparr>rq_method := rq_method r @ [c]\<rparr>))"
| "consume c in_uri r =
     (if c = CHR '' '' then (indeterminate, http_version_h, r)
      else if is_ctl c then (bad, in_uri, r)
      else (indeterminate, in_uri, r\<lparr>rq_uri := rq_uri r @ [c]\<rparr>))"
| "consume c http_version_h r = expect (CHR ''H'') c http_version_h http_version_t_1 r"
| "consume c http_version_t_1 r = expect (CHR ''T'') c http_version_t_1 http_version_t_2 r"
| "consume c http_version_t_2 r = expect (CHR ''T'') c http_version_t_2 http_version_p r"
| "consume c http_version_p r = expect (CHR ''P'') c http_version_p http_version_slash r"
| "consume c http_version_slash r =
     (if c = CHR ''/''
      then (indeterminate, http_version_major_start, r\<lparr>rq_http_version_major := 0, rq_http_version_minor := 0\<rparr>)
      else (bad, http_version_slash, r))"
| "consume c http_version_major_start r =
     (if is_digit c
      then (indeterminate, http_version_major, r\<lparr>rq_http_version_major := with_digit (rq_http_version_major r) c\<rparr>)
      else (bad, http_version_major_start, r))"
| "consume c http_version_major r =
     (if c = CHR ''.'' then (indeterminate, http_version_minor_start, r)
      else if is_digit c
      then (indeterminate, http_version_major, r\<lparr>rq_http_version_major := with_digit (rq_http_version_major r) c\<rparr>)
      else (bad, http_version_major, r))"
| "consume c http_version_minor_start r =
     (if is_digit c
      then (indeterminate, http_version_minor, r\<lparr>rq_http_version_minor := with_digit (rq_http_version_minor r) c\<rparr>)
      else (bad, http_version_minor_start, r))"
| "consume c http_version_minor r =
     (if c = CR then (indeterminate, expecting_newline_1, r)
      else if is_digit c
      then (indeterminate, http_version_minor, r\<lparr>rq_http_version_minor := with_digit (rq_http_version_minor r) c\<rparr>)
      else (bad, http_version_minor, r))"
| "consume c expecting_newline_1 r = expect LF c expecting_newline_1 header_line_start r"
| "consume c header_line_start r =
     (if c = CR then (indeterminate, expecting_newline_3, r)
      else if rq_headers r \<noteq> [] \<and> (c = CHR '' '' \<or> c = CHR 0x09) then (indeterminate, header_lws, r)
      else if \<not> is_char c \<or> is_ctl c \<or> is_tspecial c then (bad, header_line_start, r)
      else (indeterminate, header_name, r\<lparr>rq_headers := rq_headers r @ [\<lparr>hd_name = [c], hd_value = []\<rparr>]\<rparr>))"
| "consume c header_lws r =
     (if c = CR then (indeterminate, expecting_newline_2, r)
      else if c = CHR '' '' \<or> c = CHR 0x09 then (indeterminate, header_lws, r)
      else if is_ctl c then (bad, header_lws, r)
      else (indeterminate, header_value, r\<lparr>rq_headers := push_value c (rq_headers r)\<rparr>))"
| "consume c header_name r =
     (if c = CHR '':'' then (indeterminate, space_before_header_value, r)
      else if \<not> is_char c \<or> is_ctl c \<or> is_tspecial c then (bad, header_name, r)
      else (indeterminate, header_name, r\<lparr>rq_headers := push_name c (rq_headers r)\<rparr>))"
| "consume c space_before_header_value r = expect (CHR '' '') c space_before_header_value header_value r"
| "consume c header_value r =
     (if c = CR then (indeterminate, expecting_newline_2, r)
      else if is_ctl c then (bad, header_value, r)
      else (indeterminate, header_value, r\<lparr>rq_headers := push_value c (rq_headers r)\<rparr>))"
| "consume c expecting_newline_2 r = expect LF c expecting_newline_2 header_line_start r"
| "consume c expecting_newline_3 r = (if c = LF then good else bad, expecting_newline_3, r)"

text \<open>\<^verbatim>\<open>parse\<close>: the result, what is left of the input, the state and the request.\<close>

fun parse :: "string \<Rightarrow> parser_state \<Rightarrow> http_request \<Rightarrow> result_type \<times> string \<times> parser_state \<times> http_request" where
  "parse [] s r = (indeterminate, [], s, r)"
| "parse (c # cs) s r =
     (let (result, s', r') = consume c s r
      in if result = good \<or> result = bad then (result, cs, s', r') else parse cs s' r')"

subsection \<open>Replies\<close>

datatype status_type =
    ok | created | accepted | no_content | multiple_choices | moved_permanently | moved_temporarily | not_modified
  | bad_request | unauthorized | forbidden | not_found | internal_server_error | not_implemented | bad_gateway
  | service_unavailable

record http_reply =
  rp_status :: status_type
  rp_headers :: "http_header list"
  rp_content :: string

definition crlf :: string where
  "crlf = [CR, LF]"

definition status_line :: "status_type \<Rightarrow> string" where
  "status_line st = (case st of
       ok \<Rightarrow> ''HTTP/1.0 200 OK'' | created \<Rightarrow> ''HTTP/1.0 201 Created'' | accepted \<Rightarrow> ''HTTP/1.0 202 Accepted''
     | no_content \<Rightarrow> ''HTTP/1.0 204 No Content'' | multiple_choices \<Rightarrow> ''HTTP/1.0 300 Multiple Choices''
     | moved_permanently \<Rightarrow> ''HTTP/1.0 301 Moved Permanently'' | moved_temporarily \<Rightarrow> ''HTTP/1.0 302 Moved Temporarily''
     | not_modified \<Rightarrow> ''HTTP/1.0 304 Not Modified'' | bad_request \<Rightarrow> ''HTTP/1.0 400 Bad Request''
     | unauthorized \<Rightarrow> ''HTTP/1.0 401 Unauthorized'' | forbidden \<Rightarrow> ''HTTP/1.0 403 Forbidden''
     | not_found \<Rightarrow> ''HTTP/1.0 404 Not Found'' | internal_server_error \<Rightarrow> ''HTTP/1.0 500 Internal Server Error''
     | not_implemented \<Rightarrow> ''HTTP/1.0 501 Not Implemented'' | bad_gateway \<Rightarrow> ''HTTP/1.0 502 Bad Gateway''
     | service_unavailable \<Rightarrow> ''HTTP/1.0 503 Service Unavailable'') @ crlf"

definition header_text :: "http_header \<Rightarrow> string" where
  "header_text h = hd_name h @ '': '' @ hd_value h @ crlf"

definition to_buffers :: "http_reply \<Rightarrow> string" where
  "to_buffers rep = status_line (rp_status rep) @ concat (map header_text (rp_headers rep)) @ crlf @ rp_content rep"

definition page :: "string \<Rightarrow> string \<Rightarrow> string" where
  "page title heading = ''<html><head><title>'' @ title @ ''</title></head><body><h1>'' @ heading @ ''</h1></body></html>''"

definition stock_content :: "status_type \<Rightarrow> string" where
  "stock_content st = (case st of
       ok \<Rightarrow> [] | created \<Rightarrow> page ''Created'' ''201 Created'' | accepted \<Rightarrow> page ''Accepted'' ''202 Accepted''
     | no_content \<Rightarrow> page ''No Content'' ''204 Content'' | multiple_choices \<Rightarrow> page ''Multiple Choices'' ''300 Multiple Choices''
     | moved_permanently \<Rightarrow> page ''Moved Permanently'' ''301 Moved Permanently''
     | moved_temporarily \<Rightarrow> page ''Moved Temporarily'' ''302 Moved Temporarily''
     | not_modified \<Rightarrow> page ''Not Modified'' ''304 Not Modified'' | bad_request \<Rightarrow> page ''Bad Request'' ''400 Bad Request''
     | unauthorized \<Rightarrow> page ''Unauthorized'' ''401 Unauthorized'' | forbidden \<Rightarrow> page ''Forbidden'' ''403 Forbidden''
     | not_found \<Rightarrow> page ''Not Found'' ''404 Not Found''
     | internal_server_error \<Rightarrow> page ''Internal Server Error'' ''500 Internal Server Error''
     | not_implemented \<Rightarrow> page ''Not Implemented'' ''501 Not Implemented'' | bad_gateway \<Rightarrow> page ''Bad Gateway'' ''502 Bad Gateway''
     | service_unavailable \<Rightarrow> page ''Service Unavailable'' ''503 Service Unavailable'')"

definition content_headers :: "string \<Rightarrow> string \<Rightarrow> http_header list" where
  "content_headers content mime =
     [\<lparr>hd_name = ''Content-Length'', hd_value = decimal (length content)\<rparr>, \<lparr>hd_name = ''Content-Type'', hd_value = mime\<rparr>]"

definition stock_reply :: "status_type \<Rightarrow> http_reply" where
  "stock_reply st = \<lparr>rp_status = st, rp_headers = content_headers (stock_content st) ''text/html'', rp_content = stock_content st\<rparr>"

subsection \<open>The request handler\<close>

definition extension_to_type :: "string \<Rightarrow> string" where
  "extension_to_type extension =
     (if extension = ''gif'' then ''image/gif'' else if extension = ''htm'' then ''text/html''
      else if extension = ''html'' then ''text/html'' else if extension = ''jpg'' then ''image/jpeg''
      else if extension = ''png'' then ''image/png'' else ''text/plain'')"

text \<open>
  \<^verbatim>\<open>is >> std::hex >> value\<close>: blanks are skipped, a sign and a prefix \<^verbatim>\<open>0x\<close> are accepted, and the
  reading stops at the first character that is not a digit; at least one digit is needed.
\<close>

definition is_blank :: "char \<Rightarrow> bool" where
  "is_blank c = (c = CHR '' '' \<or> 9 \<le> code_of c \<and> code_of c \<le> 13)"

definition hex_value :: "char \<Rightarrow> nat option" where
  "hex_value c =
     (let n = code_of c
      in if 48 \<le> n \<and> n \<le> 57 then Some (n - 48)
         else if 65 \<le> n \<and> n \<le> 70 then Some (n - 55)
         else if 97 \<le> n \<and> n \<le> 102 then Some (n - 87) else None)"

definition read_digits :: "string \<Rightarrow> int option" where
  "read_digits s =
     (let ds = takeWhile (\<lambda>c. hex_value c \<noteq> None) s
      in if ds = [] then None else Some (foldl (\<lambda>n c. 16 * n + int (the (hex_value c))) 0 ds))"

definition read_unsigned :: "string \<Rightarrow> int option" where
  "read_unsigned s = (case s of
       z # x # ds \<Rightarrow> if z = CHR ''0'' \<and> (x = CHR ''x'' \<or> x = CHR ''X'') then read_digits ds else read_digits s
     | _ \<Rightarrow> read_digits s)"

definition read_hex :: "string \<Rightarrow> int option" where
  "read_hex s =
     (case dropWhile is_blank s of
        [] \<Rightarrow> None
      | c # cs \<Rightarrow>
          if c = CHR ''-'' then map_option uminus (read_unsigned cs)
          else if c = CHR ''+'' then read_unsigned cs else read_unsigned (c # cs))"

fun url_decode :: "string \<Rightarrow> string option" where
  "url_decode [] = Some []"
| "url_decode (c # cs) =
     (if c = CHR ''%'' then
        (case cs of
           a # b # rest \<Rightarrow>
             (case read_hex [a, b] of
                None \<Rightarrow> None
              | Some v \<Rightarrow> map_option ((#) (char_of (nat (v mod 256)))) (url_decode rest))
         | _ \<Rightarrow> None)
      else if c = CHR ''+'' then map_option ((#) (CHR '' '')) (url_decode cs)
      else map_option ((#) c) (url_decode cs))"

text \<open>\<^verbatim>\<open>request_path.find("..")\<close>\<close>

fun has_dotdot :: "string \<Rightarrow> bool" where
  "has_dotdot (c # d # cs) = (c = CHR ''.'' \<and> d = CHR ''.'' \<or> has_dotdot (d # cs))"
| "has_dotdot _ = False"

definition after_last :: "char \<Rightarrow> string \<Rightarrow> string" where
  "after_last c s = rev (takeWhile (\<lambda>x. x \<noteq> c) (rev s))"

definition extension_of :: "string \<Rightarrow> string" where
  "extension_of path =
     (let name = after_last (CHR ''/'') path
      in if CHR ''.'' \<in> set name then after_last (CHR ''.'') name else [])"

text \<open>The path that is asked for, \<open>None\<close> for a bad request.\<close>

definition request_path :: "http_request \<Rightarrow> string option" where
  "request_path req =
     (case url_decode (rq_uri req) of
        None \<Rightarrow> None
      | Some p \<Rightarrow>
          if p = [] \<or> hd p \<noteq> CHR ''/'' \<or> has_dotdot p then None
          else Some (if last p = CHR ''/'' then p @ ''index.html'' else p))"

text \<open>\<^verbatim>\<open>c_str\<close> ends at the first null character.\<close>

definition c_str :: "string \<Rightarrow> string" where
  "c_str s = takeWhile (\<lambda>c. c \<noteq> CHR 0x00) s"

definition handle_request :: "(string \<Rightarrow> string option) \<Rightarrow> string \<Rightarrow> http_request \<Rightarrow> http_reply" where
  "handle_request files doc_root req =
     (case request_path req of
        None \<Rightarrow> stock_reply bad_request
      | Some p \<Rightarrow>
          (case files (c_str (doc_root @ p)) of
             None \<Rightarrow> stock_reply not_found
           | Some content \<Rightarrow>
               \<lparr>rp_status = ok, rp_headers = content_headers content (extension_to_type (extension_of p)), rp_content = content\<rparr>))"

subsection \<open>Connections\<close>

datatype connection_phase = Reading | Writing http_reply

record connection =
  cn_request :: http_request
  cn_parser :: parser_state
  cn_phase :: connection_phase

definition new_connection :: connection where
  "new_connection = \<lparr>cn_request = empty_request, cn_parser = method_start, cn_phase = Reading\<rparr>"

text \<open>The handler of \<^verbatim>\<open>async_read_some\<close>: a piece of data, or an error.\<close>

definition on_read :: "(string \<Rightarrow> string option) \<Rightarrow> string \<Rightarrow> string \<Rightarrow> connection \<Rightarrow> connection" where
  "on_read files doc_root buffer c =
     (if cn_phase c \<noteq> Reading then c
      else let (result, _, s, r) = parse buffer (cn_parser c) (cn_request c);
               c' = c\<lparr>cn_parser := s, cn_request := r\<rparr>
           in case result of
                good \<Rightarrow> c'\<lparr>cn_phase := Writing (handle_request files doc_root r)\<rparr>
              | bad \<Rightarrow> c'\<lparr>cn_phase := Writing (stock_reply bad_request)\<rparr>
              | indeterminate \<Rightarrow> c')"

text \<open>
  The manager: the connections by number.  A read error other than the abortion of the operation
  and the end of a write remove the connection and close its socket.
\<close>

type_synonym connections = "(nat \<times> connection) list"

datatype connection_event = Accepted | Read nat string | ReadFailed nat | Written nat | StopAll

record server =
  sv_connections :: connections
  sv_next :: nat
  sv_accepting :: bool
  sv_sent :: "(nat \<times> string) list"

definition new_server :: server where
  "new_server = \<lparr>sv_connections = [], sv_next = 0, sv_accepting = True, sv_sent = []\<rparr>"

definition manager_start :: "server \<Rightarrow> server" where
  "manager_start s = s\<lparr>sv_connections := (sv_next s, new_connection) # sv_connections s, sv_next := Suc (sv_next s)\<rparr>"

definition manager_stop :: "nat \<Rightarrow> server \<Rightarrow> server" where
  "manager_stop i s = s\<lparr>sv_connections := filter (\<lambda>e. fst e \<noteq> i) (sv_connections s)\<rparr>"

definition manager_stop_all :: "server \<Rightarrow> server" where
  "manager_stop_all s = s\<lparr>sv_connections := []\<rparr>"

definition server_step :: "(string \<Rightarrow> string option) \<Rightarrow> string \<Rightarrow> server \<Rightarrow> connection_event \<Rightarrow> server" where
  "server_step files doc_root s e =
     (case e of
        Accepted \<Rightarrow> if sv_accepting s then manager_start s else s
      | Read i buffer \<Rightarrow>
          s\<lparr>sv_connections := map (\<lambda>(j, c). (j, if j = i then on_read files doc_root buffer c else c)) (sv_connections s)\<rparr>
      | ReadFailed i \<Rightarrow> manager_stop i s
      | Written i \<Rightarrow>
          (case map_of (sv_connections s) i of
             Some c \<Rightarrow> (case cn_phase c of
                          Writing rep \<Rightarrow> manager_stop i (s\<lparr>sv_sent := sv_sent s @ [(i, to_buffers rep)]\<rparr>)
                        | _ \<Rightarrow> s)
           | None \<Rightarrow> s)
      | StopAll \<Rightarrow> manager_stop_all (s\<lparr>sv_accepting := False\<rparr>))"

subsection \<open>Pieces of data\<close>

lemma parse_append:
  "parse (a @ b) s r =
     (let (result, rest, s', r') = parse a s r in if result = indeterminate then parse b s' r' else (result, rest @ b, s', r'))"
proof (induction a s r rule: parse.induct)
  case (2 c cs s r)
  obtain result s' r' where c: "consume c s r = (result, s', r')" by (rule prod_cases3)
  show ?case
  proof (cases "result = good \<or> result = bad")
    case False
    then have "result = indeterminate" by (cases result) auto
    then show ?thesis using "2.IH" [OF c [symmetric] refl refl False] by (simp add: c Let_def)
  qed (auto simp: c)
qed simp

lemma parse_indeterminate: "parse a s r = (indeterminate, rest, s', r') \<Longrightarrow> rest = []"
  by (induction a s r rule: parse.induct) (auto simp: Let_def split: prod.splits if_splits)

text \<open>
  C31. How the data of a connection are cut into pieces does not matter: reading a
  sequence of pieces one after the other leaves the connection with the same request, state of the parser
  and reply as reading their concatenation at once.
\<close>

theorem reading_in_pieces:
  "fold (on_read files doc_root) pieces c = on_read files doc_root (concat pieces) c"
proof (induction pieces arbitrary: c)
  case Nil
  show ?case by (simp add: on_read_def)
next
  case (Cons a pieces)
  obtain result rest s r where p: "parse a (cn_parser c) (cn_request c) = (result, rest, s, r)" by (metis prod_cases4)
  have "on_read files doc_root (concat pieces) (on_read files doc_root a c) = on_read files doc_root (a @ concat pieces) c"
    by (cases result) (simp_all add: on_read_def p parse_append Let_def split: prod.splits)
  then show ?case by (simp add: Cons.IH)
qed

subsection \<open>Requests that are written and read back\<close>

definition token :: "char \<Rightarrow> bool" where
  "token c \<longleftrightarrow> is_char c \<and> \<not> is_ctl c \<and> \<not> is_tspecial c"

definition header_ok :: "http_header \<Rightarrow> bool" where
  "header_ok h \<longleftrightarrow> hd_name h \<noteq> [] \<and> list_all token (hd_name h) \<and> list_all (\<lambda>c. \<not> is_ctl c) (hd_value h)"

definition request_ok :: "http_request \<Rightarrow> bool" where
  "request_ok r \<longleftrightarrow> rq_method r \<noteq> [] \<and> list_all token (rq_method r) \<and> list_all (\<lambda>c. \<not> is_ctl c \<and> c \<noteq> CHR '' '') (rq_uri r) \<and>
     list_all header_ok (rq_headers r)"

definition print_request :: "http_request \<Rightarrow> string" where
  "print_request r = rq_method r @ '' '' @ rq_uri r @ '' HTTP/'' @ decimal (unat (rq_http_version_major r)) @ ''.'' @
     decimal (unat (rq_http_version_minor r)) @ crlf @ concat (map header_text (rq_headers r)) @ crlf"

lemma special_chars:
  "\<not> token (CHR '' '')" "\<not> token (CHR '':'')" "\<not> token CR" "is_ctl CR" "\<not> is_digit (CHR ''.'')" "\<not> is_digit CR" "is_ctl (CHR 0x09)" "\<not> token (CHR 0x09)"
  by code_simp+

lemma parse_method:
  assumes "list_all token w"
  shows "parse (w @ rest) in_method r = parse rest in_method (r\<lparr>rq_method := rq_method r @ w\<rparr>)"
  using assms
proof (induction w arbitrary: r)
  case (Cons c w)
  then have "c \<noteq> CHR '' ''" using special_chars by auto
  with Cons show ?case by (simp add: token_def)
qed simp

lemma parse_uri:
  assumes "list_all (\<lambda>c. \<not> is_ctl c \<and> c \<noteq> CHR '' '') w"
  shows "parse (w @ rest) in_uri r = parse rest in_uri (r\<lparr>rq_uri := rq_uri r @ w\<rparr>)"
  using assms by (induction w arbitrary: r) simp_all

lemma parse_value:
  assumes "list_all (\<lambda>c. \<not> is_ctl c) w"
  shows "parse (w @ rest) header_value (r\<lparr>rq_headers := hs @ [h]\<rparr>) =
    parse rest header_value (r\<lparr>rq_headers := hs @ [h\<lparr>hd_value := hd_value h @ w\<rparr>]\<rparr>)"
  using assms
proof (induction w arbitrary: h)
  case (Cons c w)
  then have "c \<noteq> CR" using special_chars by auto
  with Cons show ?case by (simp add: push_value_def)
qed simp

lemma parse_name:
  assumes "list_all token w"
  shows "parse (w @ rest) header_name (r\<lparr>rq_headers := hs @ [h]\<rparr>) =
    parse rest header_name (r\<lparr>rq_headers := hs @ [h\<lparr>hd_name := hd_name h @ w\<rparr>]\<rparr>)"
  using assms
proof (induction w arbitrary: h)
  case (Cons c w)
  then have "c \<noteq> CHR '':''" using special_chars by auto
  with Cons show ?case by (simp add: push_name_def token_def)
qed simp

text \<open>Numbers: the digits of a number are read back, at 32 bits.\<close>

lemma digit_char: "d < 10 \<Longrightarrow> code_of (char_of (48 + d)) = 48 + d"
  by (simp add: code_of_def)

lemma decimal_digits: "list_all is_digit (decimal n) \<and> decimal n \<noteq> []"
proof (induction n rule: decimal.induct)
  case (1 n)
  show ?case
  proof (cases "n < 10")
    case True
    then show ?thesis by (subst decimal.simps, subst (2) decimal.simps) (simp add: is_digit_def digit_char)
  next
    case False
    have "is_digit (char_of (48 + n mod 10))" by (simp add: is_digit_def digit_char)
    then show ?thesis using "1.IH" [OF False] False by (subst decimal.simps, subst (2) decimal.simps) simp
  qed
qed

lemma with_digit_char: "d < 10 \<Longrightarrow> with_digit n (char_of (48 + d)) = n * 10 + of_nat d"
  by (simp add: with_digit_def digit_char)

lemma decimal_read: "foldl with_digit 0 (decimal n) = of_nat n"
proof (induction n rule: decimal.induct)
  case (1 n)
  show ?case
  proof (cases "n < 10")
    case True
    then show ?thesis by (subst decimal.simps) (simp add: with_digit_char)
  next
    case False
    have "foldl with_digit 0 (decimal n) = of_nat (n div 10) * 10 + of_nat (n mod 10)"
      using "1.IH" [OF False] False by (subst decimal.simps) (simp add: with_digit_char)
    also have "\<dots> = of_nat (n div 10 * 10 + n mod 10)" by (simp only: of_nat_add of_nat_mult of_nat_numeral)
    finally show ?thesis by (simp only: div_mult_mod_eq)
  qed
qed

lemma parse_major:
  assumes "list_all is_digit w"
  shows "parse (w @ rest) http_version_major r =
    parse rest http_version_major (r\<lparr>rq_http_version_major := foldl with_digit (rq_http_version_major r) w\<rparr>)"
  using assms
proof (induction w arbitrary: r)
  case (Cons c w)
  then have "c \<noteq> CHR ''.''" using special_chars by auto
  with Cons show ?case by simp
qed simp

lemma parse_minor:
  assumes "list_all is_digit w"
  shows "parse (w @ rest) http_version_minor r =
    parse rest http_version_minor (r\<lparr>rq_http_version_minor := foldl with_digit (rq_http_version_minor r) w\<rparr>)"
  using assms
proof (induction w arbitrary: r)
  case (Cons c w)
  then have "c \<noteq> CR" using special_chars by auto
  with Cons show ?case by simp
qed simp

lemma parse_major_number:
  assumes "list_all is_digit w" "w \<noteq> []"
  shows "parse (w @ CHR ''.'' # rest) http_version_major_start r =
    parse rest http_version_minor_start (r\<lparr>rq_http_version_major := foldl with_digit (rq_http_version_major r) w\<rparr>)"
proof -
  obtain d ds where w: "w = d # ds" "is_digit d" "list_all is_digit ds" using assms by (cases w) auto
  then show ?thesis using parse_major [of ds "CHR ''.'' # rest"] by simp
qed

lemma parse_minor_number:
  assumes "list_all is_digit w" "w \<noteq> []"
  shows "parse (w @ CR # LF # rest) http_version_minor_start r =
    parse rest header_line_start (r\<lparr>rq_http_version_minor := foldl with_digit (rq_http_version_minor r) w\<rparr>)"
proof -
  obtain d ds where w: "w = d # ds" "is_digit d" "list_all is_digit ds" using assms by (cases w) auto
  then show ?thesis using parse_minor [of ds "CR # LF # rest"] by (simp add: crlf_def expect_def)
qed

lemma parse_headers:
  assumes "list_all header_ok hs"
  shows "parse (concat (map header_text hs) @ rest) header_line_start r = parse rest header_line_start (r\<lparr>rq_headers := rq_headers r @ hs\<rparr>)"
  using assms
proof (induction hs arbitrary: r)
  case (Cons h hs)
  then obtain c n where n: "hd_name h = c # n" "token c" "list_all token n" by (cases "hd_name h") (auto simp: header_ok_def)
  have c: "c \<noteq> CR" "c \<noteq> CHR '' ''" "c \<noteq> CHR 0x09" using n(2) special_chars by auto
  have h: "\<lparr>hd_name = hd_name h, hd_value = hd_value h\<rparr> = h" by (cases h) simp
  have val: "parse (hd_value h @ CR # LF # rest') header_value (r\<lparr>rq_headers := rq_headers r @ [\<lparr>hd_name = c # n, hd_value = []\<rparr>]\<rparr>) =
      parse rest' header_line_start (r\<lparr>rq_headers := rq_headers r @ [h]\<rparr>)" for rest'
    using parse_value [of "hd_value h" "CR # LF # rest'"] Cons.prems by (simp add: n(1) [symmetric] expect_def h header_ok_def)
  have "parse (header_text h @ rest') header_line_start r = parse rest' header_line_start (r\<lparr>rq_headers := rq_headers r @ [h]\<rparr>)" for rest'
    using c n(2) parse_name [OF n(3)] val by (simp add: header_text_def n(1) token_def crlf_def expect_def)
  then show ?case using Cons by simp
qed simp

text \<open>
  C30. The parser reads back what a well-formed request looks like on the wire: the text of a request
  whose method and header names are non-empty tokens, whose URI has no blank and no control character
  and whose header values have no control character is accepted, with exactly this request, and
  what follows it is left in the input.
\<close>

theorem printed_request_is_read_back:
  assumes "request_ok r"
  shows "parse (print_request r @ rest) method_start empty_request = (good, rest, expecting_newline_3, r)"
proof -
  obtain c w where m: "rq_method r = c # w" "token c" "list_all token w"
    using assms by (cases "rq_method r") (auto simp: request_ok_def)
  have u: "list_all (\<lambda>c. \<not> is_ctl c \<and> c \<noteq> CHR '' '') (rq_uri r)" using assms by (simp add: request_ok_def)
  have h: "list_all header_ok (rq_headers r)"
    using assms by (simp add: request_ok_def)
  let ?line = "decimal (unat (rq_http_version_major r)) @ ''.'' @ decimal (unat (rq_http_version_minor r)) @ crlf @
     concat (map header_text (rq_headers r)) @ crlf @ rest"
  have "parse (print_request r @ rest) method_start empty_request =
      parse ?line http_version_major_start (empty_request\<lparr>rq_method := rq_method r, rq_uri := rq_uri r\<rparr>)"
    using m u by (simp add: print_request_def token_def parse_method parse_uri empty_request_def expect_def)
  also have "\<dots> = (good, rest, expecting_newline_3, r)"
    using parse_headers [OF h, of "CR # LF # rest"] decimal_digits
    by (simp add: parse_major_number parse_minor_number decimal_read empty_request_def crlf_def)
  finally show ?thesis .
qed

definition sample_request :: http_request where
  "sample_request = \<lparr>rq_method = ''GET'', rq_uri = ''/a%20b.html'', rq_http_version_major = 1, rq_http_version_minor = 10,
     rq_headers = [\<lparr>hd_name = ''Host'', hd_value = ''x y''\<rparr>]\<rparr>"

theorem printed_request_is_read_back_witness:
  "parse (print_request sample_request @ ''next'') method_start empty_request = (good, ''next'', expecting_newline_3, sample_request)"
proof -
  have "request_ok sample_request" by code_simp
  then show ?thesis by (rule printed_request_is_read_back)
qed

subsection \<open>What the parser accepts\<close>

definition parsing_ok :: "parser_state \<Rightarrow> http_request \<Rightarrow> bool" where
  "parsing_ok s r \<longleftrightarrow> (s \<noteq> method_start \<longrightarrow> rq_method r \<noteq> []) \<and> list_all token (rq_method r) \<and>
     list_all (\<lambda>c. \<not> is_ctl c \<and> c \<noteq> CHR '' '') (rq_uri r) \<and> list_all header_ok (rq_headers r) \<and>
     (s \<in> {header_lws, header_name, space_before_header_value, header_value} \<longrightarrow> rq_headers r \<noteq> [])"

lemma push_ok:
  assumes "hs \<noteq> []" and "list_all header_ok hs"
  shows "token c \<Longrightarrow> list_all header_ok (push_name c hs)" and "\<not> is_ctl c \<Longrightarrow> list_all header_ok (push_value c hs)"
    and "push_name c hs \<noteq> []" and "push_value c hs \<noteq> []"
proof -
  have "list_all header_ok (butlast hs)" "header_ok (last hs)"
    using assms by (auto simp: list_all_iff dest: in_set_butlastD)
  then show "token c \<Longrightarrow> list_all header_ok (push_name c hs)" and "\<not> is_ctl c \<Longrightarrow> list_all header_ok (push_value c hs)"
    by (auto simp: push_name_def push_value_def header_ok_def)
qed (simp_all add: push_name_def push_value_def)

lemma consume_ok: "consume c s r = (result, s', r') \<Longrightarrow> parsing_ok s r \<Longrightarrow> parsing_ok s' r'"
  by (cases s) (auto simp: parsing_ok_def expect_def token_def header_ok_def push_ok split: if_splits)

lemma parse_ok: "parse cs s r = (result, rest, s', r') \<Longrightarrow> parsing_ok s r \<Longrightarrow> parsing_ok s' r'"
proof (induction cs s r rule: parse.induct)
  case (2 c cs s r)
  obtain res s1 r1 where c: "consume c s r = (res, s1, r1)" by (rule prod_cases3)
  show ?case
  proof (cases "res = good \<or> res = bad")
    case True
    then show ?thesis using "2.prems" consume_ok [OF c] by (auto simp: c)
  next
    case False
    then show ?thesis using "2.IH" [OF c [symmetric] refl refl False] "2.prems" consume_ok [OF c] by (simp add: c)
  qed
qed simp

lemma good_state: "parse cs s r = (good, rest, s', r') \<Longrightarrow> s' = expecting_newline_3"
proof (induction cs s r rule: parse.induct)
  case (2 c cs s r)
  obtain res s1 r1 where c: "consume c s r = (res, s1, r1)" by (rule prod_cases3)
  show ?case
  proof (cases "res = good \<or> res = bad")
    case True
    then have "consume c s r = (good, s', r')" using "2.prems" by (auto simp: c)
    then show ?thesis by (cases s) (auto simp: expect_def split: if_splits)
  next
    case False
    then show ?thesis using "2.IH" [OF c [symmetric] refl refl False] "2.prems" by (simp add: c)
  qed
qed simp

text \<open>
  Whatever the client sends, a request that the parser accepts is well-formed: its method and the names
  of its headers are non-empty tokens, its URI has no blanks and no control characters, and no
  header value has a control character.
\<close>

lemma accepted_request_is_well_formed:
  assumes "parse cs method_start empty_request = (good, rest, s, r)"
  shows "request_ok r"
proof -
  have "parsing_ok method_start empty_request" by (simp add: parsing_ok_def empty_request_def)
  from parse_ok [OF assms this] good_state [OF assms] show ?thesis
    by (simp add: parsing_ok_def request_ok_def header_ok_def)
qed

subsection \<open>The file that is served\<close>

lemma has_dotdot_iff: "has_dotdot p \<longleftrightarrow> (\<exists>a b. p = a @ ''..'' @ b)"
proof
  show "has_dotdot p \<Longrightarrow> \<exists>a b. p = a @ ''..'' @ b"
  proof (induction p rule: has_dotdot.induct)
    case (1 c d cs)
    show ?case
    proof (cases "c = CHR ''.'' \<and> d = CHR ''.''")
      case True
      then show ?thesis by (intro exI [of _ "[]"] exI [of _ cs]) simp
    next
      case False
      with 1 obtain a b where "d # cs = a @ ''..'' @ b" by auto
      then show ?thesis by (intro exI [of _ "c # a"] exI [of _ b]) simp
    qed
  qed simp_all
next
  have "has_dotdot (a @ ''..'' @ b)" for a b
  proof (induction a)
    case (Cons c a)
    then show ?case by (cases "a @ ''..'' @ b") auto
  qed simp
  then show "\<exists>a b. p = a @ ''..'' @ b \<Longrightarrow> has_dotdot p" by auto
qed

lemma dotdot_index: "\<not> has_dotdot p \<Longrightarrow> p \<noteq> [] \<Longrightarrow> last p = CHR ''/'' \<Longrightarrow> \<not> has_dotdot (p @ ''index.html'')"
by (induction p rule: has_dotdot.induct) auto

text \<open>
  C29. The server only opens files below its document root: the path it opens is the document root
  followed by a path that begins with a slash and contains no two dots in a row (up to a null
  character, where the operating system stops reading); a reply with status 200 carries
  exactly the content of that file with its length, and every other reply is the page of status 400
  or of status 404.
\<close>

theorem served_file_is_below_the_root:
  "(\<exists>p content. handle_request files doc_root req =
      \<lparr>rp_status = ok, rp_headers = [\<lparr>hd_name = ''Content-Length'', hd_value = decimal (length content)\<rparr>,
         \<lparr>hd_name = ''Content-Type'', hd_value = extension_to_type (extension_of p)\<rparr>], rp_content = content\<rparr> \<and>
      files (takeWhile (\<lambda>c. c \<noteq> CHR 0x00) (doc_root @ p)) = Some content \<and> hd p = CHR ''/'' \<and> p \<noteq> [] \<and> (\<nexists>a b. p = a @ ''..'' @ b)) \<or>
   handle_request files doc_root req = stock_reply not_found \<or> handle_request files doc_root req = stock_reply bad_request"
proof (cases "request_path req")
  case None
  then show ?thesis by (simp add: handle_request_def)
next
  case (Some p)
  then have "hd p = CHR ''/''" "p \<noteq> []" "\<not> has_dotdot p"
    using dotdot_index by (auto simp: request_path_def hd_append split: option.splits if_splits)
  then show ?thesis
    using Some by (cases "files (c_str (doc_root @ p))") (auto simp: handle_request_def c_str_def content_headers_def has_dotdot_iff)
qed

subsection \<open>The server\<close>

definition proper_reply :: "(string \<Rightarrow> string option) \<Rightarrow> string \<Rightarrow> http_reply \<Rightarrow> bool" where
  "proper_reply files doc_root rep \<longleftrightarrow>
     rep = stock_reply bad_request \<or> (\<exists>r. request_ok r \<and> rep = handle_request files doc_root r)"

definition connection_ok :: "(string \<Rightarrow> string option) \<Rightarrow> string \<Rightarrow> connection \<Rightarrow> bool" where
  "connection_ok files doc_root c \<longleftrightarrow> parsing_ok (cn_parser c) (cn_request c) \<and>
     (case cn_phase c of Reading \<Rightarrow> True | Writing rep \<Rightarrow> proper_reply files doc_root rep)"

definition server_ok :: "(string \<Rightarrow> string option) \<Rightarrow> string \<Rightarrow> server \<Rightarrow> bool" where
  "server_ok files doc_root s \<longleftrightarrow> distinct (map fst (sv_connections s)) \<and> distinct (map fst (sv_sent s)) \<and>
     fst ` set (sv_connections s) \<inter> fst ` set (sv_sent s) = {} \<and>
     (\<forall>i\<in>fst ` set (sv_connections s) \<union> fst ` set (sv_sent s). i < sv_next s) \<and>
     (\<forall>e\<in>set (sv_connections s). connection_ok files doc_root (snd e)) \<and>
     (\<forall>e\<in>set (sv_sent s). \<exists>rep. proper_reply files doc_root rep \<and> snd e = to_buffers rep)"

lemma on_read_ok:
  assumes "connection_ok files doc_root c"
  shows "connection_ok files doc_root (on_read files doc_root buffer c)"
proof (cases "cn_phase c = Reading")
  case True
  obtain result rest s r where p: "parse buffer (cn_parser c) (cn_request c) = (result, rest, s, r)" by (metis prod_cases4)
  have ok: "parsing_ok s r" using parse_ok [OF p] assms by (simp add: connection_ok_def)
  have "request_ok r" if "result = good"
    using ok good_state [OF p [unfolded that]] by (simp add: parsing_ok_def request_ok_def)
  then show ?thesis
    using True ok by (cases result) (auto simp: on_read_def p connection_ok_def proper_reply_def)
qed (use assms in \<open>simp add: on_read_def\<close>)

lemma server_step_ok:
  assumes "server_ok files doc_root s"
  shows "server_ok files doc_root (server_step files doc_root s e)"
proof (cases e)
  case Accepted
  have "connection_ok files doc_root new_connection"
    by (simp add: connection_ok_def new_connection_def parsing_ok_def empty_request_def)
  moreover have "sv_next s \<notin> fst ` set (sv_connections s)" "sv_next s \<notin> fst ` set (sv_sent s)"
    using assms unfolding server_ok_def by blast+
  moreover have "\<forall>i\<in>fst ` set (sv_connections s) \<union> fst ` set (sv_sent s). i < Suc (sv_next s)"
    using assms unfolding server_ok_def by (meson less_SucI)
  ultimately show ?thesis using assms unfolding Accepted server_step_def manager_start_def server_ok_def by auto
next
  case (Read i buffer)
  let ?f = "\<lambda>(j, c). (j, if j = i then on_read files doc_root buffer c else c)"
  define cs where "cs = map ?f (sv_connections s)"
  have fst: "map fst cs = map fst (sv_connections s)" by (auto simp: cs_def case_prod_unfold)
  have set: "fst ` set cs = fst ` set (sv_connections s)" using arg_cong [OF fst, of set] by simp
  have "\<forall>e\<in>set cs. connection_ok files doc_root (snd e)"
    using assms on_read_ok by (auto simp: server_ok_def cs_def)
  moreover have "server_step files doc_root s e = s\<lparr>sv_connections := cs\<rparr>" by (simp add: Read server_step_def cs_def)
  ultimately show ?thesis using assms fst set by (simp add: server_ok_def)
next
  case (ReadFailed i)
  then show ?thesis using assms by (auto simp: server_step_def manager_stop_def server_ok_def distinct_map_filter)
next
  case (Written i)
  show ?thesis
  proof (cases "\<exists>c rep. map_of (sv_connections s) i = Some c \<and> cn_phase c = Writing rep")
    case True
    then obtain c rep where c: "map_of (sv_connections s) i = Some c" "cn_phase c = Writing rep" by blast
    then have mem: "(i, c) \<in> set (sv_connections s)" by (blast dest: map_of_SomeD)
    then have "connection_ok files doc_root (snd (i, c))" using assms unfolding server_ok_def by blast
    then have rep: "proper_reply files doc_root rep" by (simp add: connection_ok_def c(2))
    have i: "i \<in> fst ` set (sv_connections s)" using mem by (metis fst_conv imageI)
    then have fresh: "i \<notin> fst ` set (sv_sent s)" "i < sv_next s" using assms unfolding server_ok_def by blast+
    have "server_step files doc_root s e =
        s\<lparr>sv_sent := sv_sent s @ [(i, to_buffers rep)], sv_connections := filter (\<lambda>e. fst e \<noteq> i) (sv_connections s)\<rparr>"
      by (simp add: Written server_step_def c manager_stop_def)
    then show ?thesis
      using assms rep fresh by (auto simp: server_ok_def distinct_map_filter)
  qed (use assms in \<open>auto simp: Written server_step_def split: option.splits connection_phase.splits\<close>)
next
  case StopAll
  then show ?thesis using assms by (auto simp: server_step_def manager_stop_all_def server_ok_def)
qed

lemma new_server_ok: "server_ok files doc_root new_server"
  by (simp add: new_server_def server_ok_def)

interpretation hs: event_system "server_step files doc_root" "\<lambda>s. s = new_server" "server_ok files doc_root" for files doc_root
  by unfold_locales (simp_all add: server_step_ok new_server_ok)

text \<open>
  Every connection is answered at most once and with a proper reply: whatever connections are
  accepted, whatever pieces of data and errors arrive and whenever the server is stopped, no
  connection is sent two replies, and every reply that is sent is the page of status 400 or what
  the handler answers to a well-formed request.
\<close>

lemma connections_are_answered_once:
  "distinct (map fst (sv_sent (run (server_step files doc_root) new_server es))) \<and>
   list_all (\<lambda>(i, text). text = to_buffers (stock_reply bad_request) \<or>
       (\<exists>r. request_ok r \<and> text = to_buffers (handle_request files doc_root r))) (sv_sent (run (server_step files doc_root) new_server es))"
proof -
  have "server_ok files doc_root (run (server_step files doc_root) new_server es)" by (rule hs.reachable_invar) (rule refl)
  then show ?thesis by (fastforce simp: server_ok_def list_all_iff proper_reply_def)
qed

end
