(* ===== verification/Disk.thy ===== *)
theory Disk
  imports Std_Map
begin

section \<open>Files on the disk and streams\<close>

text \<open>
  What the tasks use of \<^verbatim>\<open>std::filesystem\<close> and \<^verbatim>\<open>std::fstream\<close> in the drive folder, where a file
  is named by a hash.  A name refers to an inode that holds the bytes: a stream keeps its inode,
  so removing or renaming a file does not disturb the streams that are open on it.  A stream for
  writing collects bytes in a buffer; how many of them a write passes on to the disk is up to the
  library and is an argument, flushing and closing pass on all.
\<close>

record disk =
  dk_names :: "(hash256, nat) std_map"
  dk_data :: "nat \<Rightarrow> byte list"
  dk_next :: nat

record stream =
  sm_open :: bool
  sm_inode :: nat
  sm_pos :: nat
  sm_buffer :: "byte list"
  sm_eof :: bool

text \<open>\<^verbatim>\<open>fs::exists\<close> and \<^verbatim>\<open>fs::file_size\<close>, \<open>None\<close> where the latter throws or sets the error code.\<close>

definition file_data :: "hash256 \<Rightarrow> disk \<Rightarrow> byte list option" where
  "file_data h dk = map_option (dk_data dk) (map_find h (dk_names dk))"

definition file_size :: "hash256 \<Rightarrow> disk \<Rightarrow> u64 option" where
  "file_size h dk = map_option (\<lambda>bs. of_nat (length bs)) (file_data h dk)"

definition remove_file :: "hash256 \<Rightarrow> disk \<Rightarrow> disk" where
  "remove_file h dk = dk\<lparr>dk_names := map_erase h (dk_names dk)\<rparr>"

definition rename_file :: "hash256 \<Rightarrow> hash256 \<Rightarrow> disk \<Rightarrow> disk" where
  "rename_file a b dk =
     (case map_find a (dk_names dk) of
        None \<Rightarrow> dk
      | Some i \<Rightarrow> dk\<lparr>dk_names := map_put b i (map_erase a (dk_names dk))\<rparr>)"

definition closed_stream :: stream where
  "closed_stream = \<lparr>sm_open = False, sm_inode = 0, sm_pos = 0, sm_buffer = [], sm_eof = False\<rparr>"

definition stream_on :: "nat \<Rightarrow> stream" where
  "stream_on i = \<lparr>sm_open = True, sm_inode = i, sm_pos = 0, sm_buffer = [], sm_eof = False\<rparr>"

text \<open>\<^verbatim>\<open>open\<close> for reading, and for writing, which creates the file or drops its content.\<close>

definition open_read :: "hash256 \<Rightarrow> disk \<Rightarrow> stream" where
  "open_read h dk = (case map_find h (dk_names dk) of None \<Rightarrow> closed_stream | Some i \<Rightarrow> stream_on i)"

definition open_write :: "hash256 \<Rightarrow> disk \<Rightarrow> stream \<times> disk" where
  "open_write h dk =
     (case map_find h (dk_names dk) of
        Some i \<Rightarrow> (stream_on i, dk\<lparr>dk_data := (dk_data dk)(i := [])\<rparr>)
      | None \<Rightarrow> (stream_on (dk_next dk),
                 \<lparr>dk_names = map_put h (dk_next dk) (dk_names dk), dk_data = (dk_data dk)(dk_next dk := []),
                  dk_next = Suc (dk_next dk)\<rparr>))"

definition write_at :: "nat \<Rightarrow> byte list \<Rightarrow> byte list \<Rightarrow> byte list" where
  "write_at pos bs c = take pos c @ replicate (pos - length c) 0 @ bs @ drop (pos + length bs) c"

definition spill :: "nat \<Rightarrow> stream \<Rightarrow> disk \<Rightarrow> stream \<times> disk" where
  "spill k s dk =
     (let bs = take k (sm_buffer s); i = sm_inode s
      in (s\<lparr>sm_buffer := drop k (sm_buffer s), sm_pos := sm_pos s + length bs\<rparr>,
          dk\<lparr>dk_data := (dk_data dk)(i := write_at (sm_pos s) bs (dk_data dk i))\<rparr>))"

definition stream_write :: "nat \<Rightarrow> byte list \<Rightarrow> stream \<Rightarrow> disk \<Rightarrow> stream \<times> disk" where
  "stream_write k bs s dk = spill k (s\<lparr>sm_buffer := sm_buffer s @ bs\<rparr>) dk"

definition stream_flush :: "stream \<Rightarrow> disk \<Rightarrow> stream \<times> disk" where
  "stream_flush s dk = (if sm_buffer s = [] then (s, dk) else spill (length (sm_buffer s)) s dk)"

definition stream_close :: "stream \<Rightarrow> disk \<Rightarrow> stream \<times> disk" where
  "stream_close s dk = (let (s', dk') = stream_flush s dk in (s'\<lparr>sm_open := False\<rparr>, dk'))"

text \<open>\<^verbatim>\<open>read\<close> with \<^verbatim>\<open>gcount\<close>: a read that meets the end of the file makes all further ones fail.\<close>

definition stream_read :: "nat \<Rightarrow> stream \<Rightarrow> disk \<Rightarrow> byte list \<times> stream" where
  "stream_read n s dk =
     (if sm_eof s then ([], s)
      else let rest = drop (sm_pos s) (dk_data dk (sm_inode s))
           in (take n rest, s\<lparr>sm_pos := sm_pos s + min n (length rest), sm_eof := length rest < n\<rparr>))"

subsection \<open>Appending\<close>

text \<open>The only writer of a file appends: its position is the length of what reached the disk.\<close>

definition appending :: "stream \<Rightarrow> disk \<Rightarrow> bool" where
  "appending s dk \<longleftrightarrow> sm_pos s = length (dk_data dk (sm_inode s))"

definition written :: "stream \<Rightarrow> disk \<Rightarrow> byte list" where
  "written s dk = dk_data dk (sm_inode s) @ sm_buffer s"

lemma write_at_end [simp]: "write_at (length c) bs c = c @ bs"
  by (simp add: write_at_def)

lemma spill_appending:
  assumes "appending s dk" and "spill k s dk = (s', dk')"
  shows "appending s' dk' \<and> written s' dk' = written s dk \<and> sm_inode s' = sm_inode s \<and> sm_open s' = sm_open s \<and>
    dk_names dk' = dk_names dk \<and> (\<forall>i. i \<noteq> sm_inode s \<longrightarrow> dk_data dk' i = dk_data dk i)"
  using assms by (auto simp: spill_def appending_def written_def Let_def)

lemma stream_write_appending:
  assumes "appending s dk" and "stream_write k bs s dk = (s', dk')"
  shows "appending s' dk' \<and> written s' dk' = written s dk @ bs \<and> sm_inode s' = sm_inode s \<and> dk_names dk' = dk_names dk"
  using spill_appending [of "s\<lparr>sm_buffer := sm_buffer s @ bs\<rparr>" dk k s' dk'] assms
  by (auto simp: stream_write_def appending_def written_def)

lemma stream_close_appending:
  assumes "appending s dk" and "stream_close s dk = (s', dk')"
  shows "dk_data dk' (sm_inode s) = written s dk \<and> dk_names dk' = dk_names dk"
  using assms by (auto simp: stream_close_def stream_flush_def spill_def appending_def written_def Let_def split: if_splits prod.splits)

lemma spill_elsewhere: "spill k s dk = (s', dk') \<Longrightarrow> i \<noteq> sm_inode s \<Longrightarrow> dk_data dk' i = dk_data dk i"
  by (auto simp: spill_def Let_def)

lemma spill_fields:
  "spill k s dk = (s', dk') \<Longrightarrow> dk_names dk' = dk_names dk \<and> dk_next dk' = dk_next dk \<and> sm_inode s' = sm_inode s"
  by (auto simp: spill_def Let_def)

lemma stream_ops_fields:
  "stream_write k bs s dk = (s', dk') \<Longrightarrow> dk_names dk' = dk_names dk \<and> dk_next dk' = dk_next dk \<and> sm_inode s' = sm_inode s"
  "stream_flush s dk = (s', dk') \<Longrightarrow> dk_names dk' = dk_names dk \<and> dk_next dk' = dk_next dk \<and> sm_inode s' = sm_inode s"
  "stream_close s dk = (s', dk') \<Longrightarrow> dk_names dk' = dk_names dk \<and> dk_next dk' = dk_next dk \<and> sm_inode s' = sm_inode s"
  by (auto simp: stream_write_def stream_flush_def stream_close_def dest: spill_fields split: if_splits prod.splits)

lemma stream_ops_elsewhere:
  "stream_write k bs s dk = (s', dk') \<Longrightarrow> i \<noteq> sm_inode s \<Longrightarrow> dk_data dk' i = dk_data dk i"
  "stream_flush s dk = (s', dk') \<Longrightarrow> i \<noteq> sm_inode s \<Longrightarrow> dk_data dk' i = dk_data dk i"
  "stream_close s dk = (s', dk') \<Longrightarrow> i \<noteq> sm_inode s \<Longrightarrow> dk_data dk' i = dk_data dk i"
  by (auto simp: stream_write_def stream_flush_def stream_close_def dest: spill_elsewhere split: if_splits prod.splits)

lemma stream_read_fields [simp]: "sm_inode (snd (stream_read n s dk)) = sm_inode s"
  by (simp add: stream_read_def Let_def)

text \<open>Inodes in use are below the counter, so a new file never shares one.\<close>

definition disk_ok :: "disk \<Rightarrow> bool" where
  "disk_ok dk \<longleftrightarrow> map_ok (dk_names dk) \<and> inj_on (\<lambda>h. map_find h (dk_names dk)) {h. map_contains h (dk_names dk)} \<and>
     (\<forall>h i. map_find h (dk_names dk) = Some i \<longrightarrow> i < dk_next dk)"

end
