(* ===== verification/Folder_Iterator.thy ===== *)
theory Folder_Iterator
  imports Fs_Locks
begin

section \<open>Iterators over folders\<close>

text \<open>
  Model of \<^verbatim>\<open>src/drive/FolderIterator.h\<close> and \<^verbatim>\<open>FolderIterator.cpp\<close>.  An iterator keeps a stack of
  references to the children of folders of the tree, each with an iterator of \<^verbatim>\<open>std::map\<close>.  A
  reference is the path of the folder with its statistics node, which tells the folder from one
  put in its place later; following it when the folder is gone is \<open>UseAfterFree\<close>.  An iterator of
  a map is the key it stands at, \<open>None\<close> at the end.
\<close>

record stack_entry =
  se_path :: "string list"
  se_node :: nat
  se_it :: "string option"

record folder_iterator =
  it_stack :: "stack_entry list"
  it_statisticsNode :: nat
  it_recursive :: bool

definition map_begin :: "children \<Rightarrow> string option" where
  "map_begin cs = (case cs of [] \<Rightarrow> None | e # _ \<Rightarrow> Some (fst e))"

definition map_next :: "string \<Rightarrow> children \<Rightarrow> string option" where
  "map_next k cs = map_begin (dropWhile (\<lambda>e. fst e \<le> k) cs)"

definition mk_stack_entry :: "string list \<Rightarrow> folder \<Rightarrow> stack_entry" where
  "mk_stack_entry ns d = \<lparr>se_path = ns, se_node = fd_stat (fst d), se_it = map_begin (snd d)\<rparr>"

definition entry_children :: "folder \<Rightarrow> stack_entry \<Rightarrow> children outcome" where
  "entry_children d e =
     (case walk (se_path e) d of
        None \<Rightarrow> Inl UseAfterFree
      | Some f \<Rightarrow> if fd_stat (fst f) = se_node e then Inr (snd f) else Inl UseAfterFree)"

text \<open>The constructor, with the block it adds to the folder, and the destructor.\<close>

definition new_folder_iterator :: "string list \<Rightarrow> folder \<Rightarrow> bool \<Rightarrow> stats \<Rightarrow> (folder_iterator \<times> stats) outcome" where
  "new_folder_iterator ns d recursive st =
     bind_outcome (of_option Diverges (folder_addBlock (fd_stat (fst d)) st)) (\<lambda>st'.
       Inr (\<lparr>it_stack = (if snd d = [] then [] else [mk_stack_entry ns d]),
             it_statisticsNode = fd_stat (fst d), it_recursive = recursive\<rparr>, st'))"

definition destroy_folder_iterator :: "folder_iterator \<Rightarrow> stats \<Rightarrow> stats outcome" where
  "destroy_folder_iterator it st = of_option Diverges (folder_removeBlock (it_statisticsNode it) st)"

definition hasNext :: "folder_iterator \<Rightarrow> bool" where
  "hasNext it \<longleftrightarrow> it_stack it \<noteq> []"

definition clearStack :: "stack_entry list \<Rightarrow> stack_entry list" where
  "clearStack es = dropWhile (\<lambda>e. se_it e = None) es"

definition next_entry :: "folder \<Rightarrow> folder_iterator \<Rightarrow> ((string \<times> u32) option \<times> folder_iterator) outcome" where
  "next_entry d it =
     (case it_stack it of
        [] \<Rightarrow> Inr (None, it)
      | e # es \<Rightarrow>
          bind_outcome (entry_children d e) (\<lambda>cs.
            bind_outcome (of_option UseAfterFree (se_it e)) (\<lambda>k.
              bind_outcome (of_option UseAfterFree (map_find k cs)) (\<lambda>c.
                let pushed = (case c of
                                CFile f \<Rightarrow> []
                              | CFolder a ds \<Rightarrow> if it_recursive it \<and> ds \<noteq> [] then [mk_stack_entry (se_path e @ [k]) (a, ds)] else [])
                in Inr (Some (child_name c, of_nat (length es)),
                        it\<lparr>it_stack := clearStack (pushed @ e\<lparr>se_it := map_next k cs\<rparr> # es)\<rparr>)))))"

text \<open>The answers of a number of calls of \<^verbatim>\<open>next\<close> on a tree that does not change.\<close>

fun nexts :: "nat \<Rightarrow> folder \<Rightarrow> folder_iterator \<Rightarrow> ((string \<times> u32) option list \<times> folder_iterator) outcome" where
  "nexts 0 d it = Inr ([], it)"
| "nexts (Suc n) d it =
     bind_outcome (next_entry d it) (\<lambda>(x, it1).
       bind_outcome (nexts n d it1) (\<lambda>(xs, it2). Inr (x # xs, it2)))"

subsection \<open>The listing of a folder\<close>

text \<open>The entries below a folder in the order of the names, folders before what they contain, with their depth.\<close>

fun listing :: "bool \<Rightarrow> nat \<Rightarrow> (string \<times> child) list \<Rightarrow> (string \<times> u32) list" where
  "listing r n [] = []"
| "listing r n ((k, CFile f) # es) = (k, of_nat n) # listing r n es"
| "listing r n ((k, CFolder a cs) # es) = (k, of_nat n) # (if r then listing r (Suc n) cs else []) @ listing r n es"

text \<open>What an iterator still has to deliver: the rest of the folder of every entry of its stack.\<close>

definition rest_of :: "folder \<Rightarrow> stack_entry \<Rightarrow> (string \<times> child) list" where
  "rest_of d e = (case walk (se_path e) d of
     None \<Rightarrow> [] | Some f \<Rightarrow> (case se_it e of None \<Rightarrow> [] | Some k \<Rightarrow> dropWhile (\<lambda>x. fst x < k) (snd f)))"

fun pending :: "folder \<Rightarrow> bool \<Rightarrow> stack_entry list \<Rightarrow> (string \<times> u32) list" where
  "pending d r [] = []"
| "pending d r (e # es) = listing r (length es) (rest_of d e) @ pending d r es"

definition entry_ok :: "folder \<Rightarrow> stack_entry \<Rightarrow> bool" where
  "entry_ok d e \<longleftrightarrow> (\<exists>f. walk (se_path e) d = Some f \<and> fd_stat (fst f) = se_node e \<and>
     (case se_it e of None \<Rightarrow> True | Some k \<Rightarrow> map_contains k (snd f)))"

definition iterator_ok :: "folder \<Rightarrow> folder_iterator \<Rightarrow> bool" where
  "iterator_ok d it \<longleftrightarrow> (\<forall>e\<in>set (it_stack it). entry_ok d e) \<and>
     (case it_stack it of [] \<Rightarrow> True | e # _ \<Rightarrow> se_it e \<noteq> None)"

lemma dropWhile_less_find:
  assumes "map_ok m" and "map_find k m = Some v"
  shows "dropWhile (\<lambda>x. fst x < k) m = (k, v) # dropWhile (\<lambda>x. fst x \<le> k) m"
  using assms
proof (induction m)
  case (Cons e m)
  show ?case
  proof (cases "fst e = k")
    case True
    then have "dropWhile (\<lambda>x. fst x \<le> k) m = m"
      using Cons.prems(1) by (cases m) (auto simp: map_ok_Cons)
    then show ?thesis using True Cons.prems(2) by (simp add: map_find_def prod_eq_iff)
  next
    case False
    then have "map_find k m = Some v" using Cons.prems(2) by (simp add: map_find_def split: if_splits)
    moreover from this have "fst e < k"
      using Cons.prems(1) by (metis map_ok_Cons map_find_def map_of_SomeD fst_conv)
    ultimately show ?thesis using Cons by (simp add: map_ok_Cons)
  qed
qed (simp add: map_find_def)

lemma map_next_rest:
  assumes "map_ok cs"
  shows "(case map_next k cs of None \<Rightarrow> [] | Some j \<Rightarrow> dropWhile (\<lambda>x. fst x < j) cs) = dropWhile (\<lambda>x. fst x \<le> k) cs"
    and "map_next k cs = Some j \<Longrightarrow> map_contains j cs"
proof -
  show "(case map_next k cs of None \<Rightarrow> [] | Some j \<Rightarrow> dropWhile (\<lambda>x. fst x < j) cs) = dropWhile (\<lambda>x. fst x \<le> k) cs"
    using assms
  proof (induction cs)
    case (Cons e cs)
    show ?case
    proof (cases "fst e \<le> k")
      case True
      have "fst e < j" if "map_next k cs = Some j" for j
        using that Cons.prems by (auto simp: map_next_def map_begin_def map_ok_Cons split: list.splits)
          (metis fst_conv list.set_intros(1) set_dropWhileD)
      then show ?thesis using True Cons by (auto simp: map_next_def map_ok_Cons split: option.splits)
    qed (simp add: map_next_def map_begin_def)
  qed (simp add: map_next_def map_begin_def)
  show "map_next k cs = Some j \<Longrightarrow> map_contains j cs"
    by (auto simp: map_next_def map_begin_def map_contains_def map_of_eq_None_iff split: list.splits)
      (metis list.set_intros(1) set_dropWhileD fst_conv image_eqI)
qed

lemma rest_of_begin:
  assumes "walk ns d = Some f"
  shows "rest_of d (mk_stack_entry ns f) = snd f"
  using assms by (auto simp: rest_of_def mk_stack_entry_def map_begin_def split: list.splits option.splits)

lemma mk_stack_entry_ok: "walk ns d = Some f \<Longrightarrow> entry_ok d (mk_stack_entry ns f)"
  by (auto simp: entry_ok_def mk_stack_entry_def map_begin_def map_contains_def split: list.splits)

lemma pending_clearStack [simp]: "pending d r (clearStack es) = pending d r es"
  by (induction es) (auto simp: clearStack_def rest_of_def split: option.splits)

lemma clearStack_ok:
  assumes "\<forall>e\<in>set es. entry_ok d e"
  shows "iterator_ok d (it\<lparr>it_stack := clearStack es\<rparr>)"
proof -
  have "\<forall>e\<in>set (clearStack es). entry_ok d e"
    using assms by (auto simp: clearStack_def dest: set_dropWhileD)
  moreover have "case clearStack es of [] \<Rightarrow> True | e # _ \<Rightarrow> se_it e \<noteq> None"
    unfolding clearStack_def by (induction es) auto
  ultimately show ?thesis by (simp add: iterator_ok_def)
qed

lemma next_entry_delivers:
  assumes "tree_ok d" and "iterator_ok d it" and "it_stack it = e # es"
  shows "\<exists>x it'. next_entry d it = Inr (Some x, it') \<and> iterator_ok d it' \<and> it_recursive it' = it_recursive it \<and>
    pending d (it_recursive it) (it_stack it) = x # pending d (it_recursive it) (it_stack it')"
proof -
  let ?r = "it_recursive it"
  from assms(2,3) obtain k where k: "se_it e = Some k" by (auto simp: iterator_ok_def)
  from assms(2,3) have "entry_ok d e" "\<forall>e\<in>set es. entry_ok d e" by (auto simp: iterator_ok_def)
  then obtain a cs c where w: "walk (se_path e) d = Some (a, cs)" "fd_stat a = se_node e"
    and c: "map_find k cs = Some c"
    using k by (fastforce simp: entry_ok_def map_contains_find)
  from tree_ok_walk [OF assms(1) w(1)] have ok: "tree_ok (a, cs)" .
  then have cs: "map_ok cs" "child_name c = k" using tree_ok_child [OF ok] c by (auto simp: tree_ok_def entries_ok_iff)
  let ?e' = "e\<lparr>se_it := map_next k cs\<rparr>"
  let ?p = "case c of CFile f \<Rightarrow> [] | CFolder b ds \<Rightarrow> if ?r \<and> ds \<noteq> [] then [mk_stack_entry (se_path e @ [k]) (b, ds)] else []"
  let ?it' = "it\<lparr>it_stack := clearStack (?p @ ?e' # es)\<rparr>"
  have "next_entry d it = Inr (Some (k, of_nat (length es)), ?it')"
    using assms(3) w k c cs(2) by (simp add: next_entry_def entry_children_def Let_def)
  moreover have "entry_ok d ?e'"
    using w map_next_rest(2) [OF cs(1), of k] by (auto simp: entry_ok_def split: option.splits)
  moreover have sub: "walk (se_path e @ [k]) d = Some (b, ds)" if "c = CFolder b ds" for b ds
    using w(1) c that by (simp add: look_folder_walk [symmetric] look_append)
  then have "\<forall>x\<in>set ?p. entry_ok d x"
    by (cases c) (auto intro: mk_stack_entry_ok)
  ultimately have "iterator_ok d ?it'"
    using \<open>\<forall>e\<in>set es. entry_ok d e\<close> by (intro clearStack_ok) auto
  moreover have "rest_of d e = (k, c) # rest_of d ?e'"
    using w k dropWhile_less_find [OF cs(1) c] map_next_rest(1) [OF cs(1), of k] by (simp add: rest_of_def cong: option.case_cong)
  then have "pending d ?r (it_stack it) = (k, of_nat (length es)) # pending d ?r (it_stack ?it')"
    using sub rest_of_begin by (cases c) (auto simp: assms(3))
  ultimately show ?thesis
    using \<open>next_entry d it = Inr (Some (k, of_nat (length es)), ?it')\<close> by (intro exI [of _ ?it'] exI) auto
qed

lemma nexts_delivers:
  assumes "tree_ok d" and "iterator_ok d it"
  shows "\<exists>it'. nexts (length (pending d (it_recursive it) (it_stack it)) + m) d it =
    Inr (map Some (pending d (it_recursive it) (it_stack it)) @ replicate m None, it') \<and> \<not> hasNext it'"
  using assms(2)
proof (induction "length (pending d (it_recursive it) (it_stack it))" arbitrary: it)
  case 0
  then have "it_stack it = []" using next_entry_delivers [OF assms(1)] by (cases "it_stack it") fastforce+
  then have "nexts m d it = Inr (replicate m None, it)" by (induction m) (simp_all add: next_entry_def)
  then show ?case using 0 \<open>it_stack it = []\<close> by (auto simp: hasNext_def)
next
  case (Suc n)
  then obtain e es where "it_stack it = e # es" by (cases "it_stack it") auto
  from next_entry_delivers [OF assms(1) Suc.prems this] obtain x it1 where
    1: "next_entry d it = Inr (Some x, it1)" "iterator_ok d it1" "it_recursive it1 = it_recursive it"
    "pending d (it_recursive it) (it_stack it) = x # pending d (it_recursive it) (it_stack it1)" by blast
  from Suc.hyps(1) [of it1] Suc.hyps(2) 1 show ?case by fastforce
qed

text \<open>
  C28. An iterator over a folder delivers its listing: on a tree that does not change, the calls of
  \<^verbatim>\<open>next\<close> return the entries of the folder in the order of their names, each once, a recursive
  iterator every entry below the folder directly after the folder that contains it, with its
  depth; afterwards \<^verbatim>\<open>hasNext\<close> is false and further calls return nothing.
\<close>

theorem iterator_lists_the_folder:
  assumes "tree_ok d" and "walk ns d = Some f" and "new_folder_iterator ns f recursive st = Inr (it, st')"
  shows "\<exists>it'. nexts (length (listing recursive 0 (snd f)) + m) d it =
    Inr (map Some (listing recursive 0 (snd f)) @ replicate m None, it') \<and> \<not> hasNext it'"
proof -
  have it: "it_stack it = (if snd f = [] then [] else [mk_stack_entry ns f])" "it_recursive it = recursive"
    using assms(3) by (auto simp: new_folder_iterator_def bind_outcome_Inr_iff)
  then have "pending d (it_recursive it) (it_stack it) = listing recursive 0 (snd f)"
    using rest_of_begin [OF assms(2)] by simp
  moreover have "iterator_ok d it"
    using it mk_stack_entry_ok [OF assms(2)] by (auto simp: iterator_ok_def mk_stack_entry_def map_begin_def split: list.splits)
  ultimately show ?thesis using nexts_delivers [OF assms(1), of it m] by simp
qed

theorem iterator_lists_the_folder_witness:
  "\<exists>it st' it'. new_folder_iterator [] sample True sample_stats = Inr (it, st') \<and>
     nexts 4 sample it = Inr ([Some (''a'', 0), Some (''f'', 1), Some (''b'', 0), None], it')"
proof -
  obtain it st' where it: "new_folder_iterator [] sample True sample_stats = Inr (it, st')"
    by (simp add: new_folder_iterator_def folder_addBlock_def folder_set_blocks_def update_if_def lock_def sample_stats_simps)
  have l: "listing True 0 (snd sample) = [(''a'', 0), (''f'', 1), (''b'', 0)]" by code_simp
  have "\<exists>it'. nexts (3 + 1) sample it = Inr ([Some (''a'', 0), Some (''f'', 1), Some (''b'', 0), None], it')"
    using iterator_lists_the_folder [OF sample_ok _ it, of 1] by (auto simp: l eval_nat_numeral simp del: nexts.simps)
  then show ?thesis using it by auto
qed

end
