(* ===== verification/Fs_Files.thy ===== *)
theory Fs_Files
  imports Fs_Tree_Props
begin

section \<open>The files of a tree under its operations\<close>

text \<open>
  Removing, moving and creating entries keeps every property of the files of a tree that does not
  speak of their names; a new file has to have it.
\<close>

fun files_of :: "child \<Rightarrow> fs_file list" where
  "files_of (CFile f) = [f]"
| "files_of (CFolder a cs) = files_below cs"

lemma files_below_Cons: "files_below (e # es) = files_of (snd e) @ files_below es"
  by (cases e; cases "snd e") auto

lemma set_files_below: "set (files_below es) = (\<Union>e\<in>set es. set (files_of (snd e)))"
  by (induction es) (simp_all add: files_below_Cons)

definition all_files :: "(fs_file \<Rightarrow> bool) \<Rightarrow> (string \<times> child) list \<Rightarrow> bool" where
  "all_files P es \<longleftrightarrow> (\<forall>f\<in>set (files_below es). P f)"

definition all_in :: "(fs_file \<Rightarrow> bool) \<Rightarrow> child \<Rightarrow> bool" where
  "all_in P c \<longleftrightarrow> (\<forall>f\<in>set (files_of c). P f)"

lemma all_in_simps [simp]:
  "all_in P (CFile f) = P f" "all_in P (CFolder a cs) = all_files P cs" "all_in P (as_child d) = all_files P (snd d)"
  by (simp_all add: all_in_def all_files_def as_child_def)

lemma all_files_simps [simp]: "all_files P []" "all_files P (e # es) \<longleftrightarrow> all_in P (snd e) \<and> all_files P es"
  by (auto simp: all_files_def all_in_def files_below_Cons)

lemma all_files_iff: "all_files P es \<longleftrightarrow> (\<forall>e\<in>set es. all_in P (snd e))"
  by (induction es) auto

lemma all_files_find: "all_files P cs \<Longrightarrow> map_find n cs = Some c \<Longrightarrow> all_in P c"
  by (fastforce simp: all_files_iff map_find_def dest: map_of_SomeD)

lemma all_files_put: "all_in P c \<Longrightarrow> all_files P cs \<Longrightarrow> all_files P (map_put n c cs)"
  using set_put [of n c cs] by (auto simp: all_files_iff)

lemma all_files_erase: "all_files P cs \<Longrightarrow> all_files P (map_erase n cs)"
  using set_erase [of n cs] by (auto simp: all_files_iff)

lemma all_files_emplace: "all_in P c \<Longrightarrow> all_files P cs \<Longrightarrow> all_files P (map_emplace n c cs)"
  by (simp add: map_emplace_def all_files_put)

lemma all_files_walk: "all_files P (snd d) \<Longrightarrow> walk ns d = Some e \<Longrightarrow> all_files P (snd e)"
proof (induction ns arbitrary: d)
  case (Cons n ns)
  then show ?case by (auto split: option.splits child.splits dest: all_files_find)
qed simp

lemma all_files_edit:
  assumes "\<And>cs. all_files P cs \<Longrightarrow> all_files P (g cs)" and "all_files P (snd d)"
  shows "all_files P (snd (edit ns g d))"
  using assms(2)
proof (induction ns arbitrary: d)
  case (Cons n ns)
  then show ?case
    using all_files_find [OF Cons.prems, of n] by (auto intro!: all_files_put split: option.splits child.splits)
qed (simp add: assms(1))

lemma all_files_walk_create: "all_files P (snd d) \<Longrightarrow> all_files P (snd (fst (snd (walk_create ns d st))))"
proof (induction ns arbitrary: d st)
  case (Cons n ns)
  show ?case
  proof (cases "map_find n (snd d)")
    case None
    obtain i st1 where i: "new_folder_node st = (i, st1)" by fastforce
    obtain ok d' st2 where r: "walk_create ns (mk_folder n i) st1 = (ok, d', st2)" by (metis prod_cases3)
    have "all_files P (snd (mk_folder n i))" by (simp add: mk_folder_def)
    from Cons.IH [OF this, of st1] have "all_files P (snd d')" by (simp add: r)
    then show ?thesis using None Cons.prems by (simp add: i r all_files_put)
  next
    case (Some c)
    from all_files_find [OF Cons.prems Some] have c: "all_in P c" .
    show ?thesis
    proof (cases c)
      case (CFolder a cs)
      obtain ok d' st2 where r: "walk_create ns (a, cs) st = (ok, d', st2)" by (metis prod_cases3)
      have "all_files P (snd d')" using Cons.IH [of "(a, cs)" st] c by (simp add: r CFolder)
      then show ?thesis using Some CFolder Cons.prems by (simp add: r all_files_put)
    qed (use Some Cons.prems in simp)
  qed
qed simp

lemma all_files_findChild: "all_files P (snd d) \<Longrightarrow> Option.bind (walk ns d) (findChild n) = Some c \<Longrightarrow> all_in P c"
  by (auto simp: bind_eq_Some_conv findChild_def dest: all_files_walk intro: all_files_find)

lemma addFolder_files:
  "all_files P (snd d) \<Longrightarrow> addFolder p d st = Inr (ok, d', st') \<Longrightarrow> all_files P (snd d')"
  using all_files_walk_create [of P d "path_elems p" st]
  by (auto simp: addFolder_def getFolderPtr_create_def bind_outcome_Inr_iff Let_def split: prod.splits if_splits option.splits)

lemma removeFlat_files:
  "all_files P (snd d) \<Longrightarrow> removeFlat p d st = Inr (ok, d', st', em) \<Longrightarrow> all_files P (snd d')"
  by (auto simp: removeFlat_def bind_outcome_Inr_iff Let_def intro!: all_files_edit all_files_erase split: option.splits)

lemma addModifiableFile_files:
  assumes "all_files P (snd d)" and "addModifiableFile h p n d st = Inr (r, d', st')"
    and "\<And>i. P (mk_file n h 0 True i)"
  shows "all_files P (snd d')"
  using assms all_files_walk_create [of P d "path_elems p" st]
  by (auto simp: addModifiableFile_def getFolderPtr_create_def bind_outcome_Inr_iff Let_def
      intro!: all_files_edit all_files_emplace all_files_erase split: prod.splits if_splits)

lemma all_in_rename:
  assumes "\<And>f n. P (f\<lparr>fl_name := n\<rparr>) = P f"
  shows "all_in P (rename_child n c) = all_in P c"
  by (cases c) (simp_all add: assms)

lemma moveFlat_files:
  assumes "all_files P (snd d)" and "moveFlat src dst d st = Inr (ok, d', st', em)"
    and "\<And>f n. P (f\<lparr>fl_name := n\<rparr>) = P f"
  shows "all_files P (snd d')"
proof -
  have m: "all_files P (snd d2)" if "move_entry sp sn dp dn c d1 st1 em1 = Inr (ok', d2, st2, em2)" "all_files P (snd d1)" "all_in P c"
    for sp sn dp dn c d1 st1 em1 ok' d2 st2 em2
    using that all_in_rename [OF assms(3)]
    by (auto simp: move_entry_def bind_outcome_Inr_iff Let_def intro!: all_files_edit all_files_erase all_files_emplace split: if_splits)
  let ?sp = "path_elems (parent_path src)" and ?dp = "path_elems (parent_path dst)"
  show ?thesis
  proof (cases "Option.bind (walk ?sp d) (findChild (filename src))")
    case None
    then show ?thesis using assms(1,2) by (simp add: moveFlat_def)
  next
    case (Some c)
    show ?thesis
    proof (cases "path_eq dst src")
      case True
      then show ?thesis using assms(1,2) Some by (simp add: moveFlat_def)
    next
      case False
      then obtain ok1 d1 st1 where 1: "(case walk ?dp d of Some _ \<Rightarrow> Inr (True, d, st) | None \<Rightarrow> addFolder (parent_path dst) d st) = Inr (ok1, d1, st1)"
        and 2: "(if \<not> ok1 then Inr (False, d1, st1, emitted_hash c)
           else case Option.bind (walk ?sp d1) (findChild (filename src)) of None \<Rightarrow> Inl UseAfterFree
             | Some c1 \<Rightarrow> move_entry ?sp (filename src) ?dp (filename dst) c1 d1 st1 (emitted_hash c)) = Inr (ok, d', st', em)"
        using assms(2) Some by (auto simp: moveFlat_def bind_outcome_Inr_iff Let_def)
      have d1: "all_files P (snd d1)"
        using 1 assms(1) addFolder_files [OF assms(1)] by (auto split: option.splits)
      show ?thesis
        using 2 d1 m [OF _ d1 all_files_findChild [OF d1]] by (auto split: if_splits option.splits)
    qed
  qed
qed

lemma getUniqueFiles_eq: "getUniqueFiles d hs = fl_hash ` set (files_below (snd d)) \<union> hs"
proof -
  have "getUniqueFiles_children es hs = fl_hash ` set (files_below es) \<union> hs" for es hs
    by (induction es hs rule: getUniqueFiles_children.induct) auto
  then show ?thesis by (simp add: getUniqueFiles_def)
qed

lemma finite_getUniqueFiles [simp]: "finite hs \<Longrightarrow> finite (getUniqueFiles d hs)"
  by (simp add: getUniqueFiles_eq)

subsection \<open>Well-formedness\<close>

lemma addFolder_tree_ok: "tree_ok d \<Longrightarrow> addFolder p d st = Inr (ok, d', st') \<Longrightarrow> tree_ok d'"
  using addFolder_tree [of p d st ok d' st'] walk_create_tree_ok [of d "path_elems p" st] by simp

lemma removeFlat_tree_ok: "tree_ok d \<Longrightarrow> removeFlat p d st = Inr (ok, d', st', em) \<Longrightarrow> tree_ok d'"
  by (auto simp: removeFlat_def bind_outcome_Inr_iff Let_def intro!: tree_ok_edit tree_ok_erase split: option.splits)

lemma addModifiableFile_tree:
  assumes "tree_ok d" and "addModifiableFile h p n d st = Inr (Some k, d', st')"
  shows "k = h \<and> fst (walk_create (path_elems p) d st) \<and>
    (\<exists>i. d' = edit (path_elems p) (map_put n (CFile (mk_file n h 0 True i))) (fst (snd (walk_create (path_elems p) d st))))"
proof -
  obtain ok d1 st1 where w: "walk_create (path_elems p) d st = (ok, d1, st1)" by (metis prod_cases3)
  then have "tree_ok d1" using walk_create_tree_ok [OF assms(1), of "path_elems p" st] by simp
  then show ?thesis
    using assms(2) w by (auto simp: addModifiableFile_def getFolderPtr_create_def bind_outcome_Inr_iff Let_def edit_replace split: if_splits prod.splits)
qed

lemma addModifiableFile_tree_ok:
  assumes "tree_ok d" and "addModifiableFile h p n d st = Inr (r, d', st')"
  shows "tree_ok d'"
proof (cases r)
  case None
  then show ?thesis
    using assms walk_create_tree_ok [OF assms(1), of "path_elems p" st]
    by (auto simp: addModifiableFile_def getFolderPtr_create_def bind_outcome_Inr_iff Let_def split: if_splits prod.splits)
next
  case (Some k)
  have "tree_ok (a, map_put n (CFile (mk_file n h 0 True i)) cs)" if "tree_ok (a, cs)" for a cs i
    using that by (rule tree_ok_put) (simp_all add: mk_file_def)
  moreover from assms(2) Some have "addModifiableFile h p n d st = Inr (Some k, d', st')" by simp
  ultimately show ?thesis
    using addModifiableFile_tree [OF assms(1), of h p n st k d' st'] walk_create_tree_ok [OF assms(1), of "path_elems p" st]
    by (auto intro!: tree_ok_edit)
qed

lemma moveFlat_tree_ok:
  assumes "tree_ok d" and "moveFlat src dst d st = Inr (ok, d', st', em)"
  shows "tree_ok d'"
proof -
  have m: "tree_ok d2" if "move_entry sp sn dp dn c d1 st1 em1 = Inr (ok', d2, st2, em2)" "tree_ok d1" "child_ok c"
    for sp sn dp dn c d1 st1 em1 ok' d2 st2 em2
  proof -
    have "tree_ok (a, map_put dn (rename_child dn c) cs)" if "tree_ok (a, cs)" for a cs
      using that \<open>child_ok c\<close> by (intro tree_ok_put) simp_all
    then show ?thesis
      using that by (auto simp: move_entry_def bind_outcome_Inr_iff Let_def edit_replace intro!: tree_ok_edit tree_ok_erase split: if_splits)
  qed
  let ?sp = "path_elems (parent_path src)" and ?dp = "path_elems (parent_path dst)"
  show ?thesis
  proof (cases "Option.bind (walk ?sp d) (findChild (filename src))")
    case None
    then show ?thesis using assms by (simp add: moveFlat_def)
  next
    case (Some c)
    show ?thesis
    proof (cases "path_eq dst src")
      case True
      then show ?thesis using assms Some by (simp add: moveFlat_def)
    next
      case False
      then obtain ok1 d1 st1 where 1: "(case walk ?dp d of Some _ \<Rightarrow> Inr (True, d, st) | None \<Rightarrow> addFolder (parent_path dst) d st) = Inr (ok1, d1, st1)"
        and 2: "(if \<not> ok1 then Inr (False, d1, st1, emitted_hash c)
           else case Option.bind (walk ?sp d1) (findChild (filename src)) of None \<Rightarrow> Inl UseAfterFree
             | Some c1 \<Rightarrow> move_entry ?sp (filename src) ?dp (filename dst) c1 d1 st1 (emitted_hash c)) = Inr (ok, d', st', em)"
        using assms(2) Some by (auto simp: moveFlat_def bind_outcome_Inr_iff Let_def)
      have d1: "tree_ok d1" using 1 assms(1) addFolder_tree_ok [OF assms(1)] by (auto split: option.splits)
      have "child_ok c1" if "Option.bind (walk ?sp d1) (findChild (filename src)) = Some c1" for c1
        using that tree_ok_walk [OF d1] tree_ok_child by (fastforce simp: bind_eq_Some_conv findChild_def)
      then show ?thesis using 2 d1 m by (auto split: if_splits option.splits)
    qed
  qed
qed

lemma walk_edit_put: "walk ns d = Some e \<Longrightarrow> \<exists>a cs. walk ns (edit ns (map_put n c) d) = Some (a, cs) \<and> map_find n cs = Some c"
proof (induction ns arbitrary: d)
  case Nil
  then show ?case by (simp add: map_find_def)
next
  case (Cons k ns)
  then obtain a cs where "map_find k (snd d) = Some (CFolder a cs)" "walk ns (a, cs) = Some e"
    by (auto split: option.splits child.splits)
  moreover have "(a, snd (edit ns (map_put n c) (a, cs))) = edit ns (map_put n c) (a, cs)"
    by (simp add: prod_eq_iff)
  ultimately show ?case using Cons.IH [of "(a, cs)"] by (auto simp: map_find_def as_child_def)
qed

lemma addModifiableFile_found:
  assumes "tree_ok d" and "addModifiableFile h p n d st = Inr (Some k, d', st')"
  shows "k = h \<and> (\<exists>i. Option.bind (walk (path_elems p) d') (findChild n) = Some (CFile (mk_file n h 0 True i)))"
proof -
  from addModifiableFile_tree [OF assms] obtain i where i: "k = h" "fst (walk_create (path_elems p) d st)"
    "d' = edit (path_elems p) (map_put n (CFile (mk_file n h 0 True i))) (fst (snd (walk_create (path_elems p) d st)))" by blast
  then obtain e where "walk (path_elems p) (fst (snd (walk_create (path_elems p) d st))) = Some e"
    using walk_create_walk [of "path_elems p" d st] by (auto simp: walk_create_ok_iff)
  from walk_edit_put [OF this, of n "CFile (mk_file n h 0 True i)"] i show ?thesis by (auto simp: findChild_def)
qed

subsection \<open>Trees in use\<close>

text \<open>A step of a tree: any of its operations with any arguments and any statistics.\<close>

inductive tree_step :: "folder \<Rightarrow> folder \<Rightarrow> bool" where
  add_file: "addFile dest n h sz d st = (ok, d', st') \<Longrightarrow> tree_step d d'"
| add_modifiable_file: "addModifiableFile h p n d st = Inr (r, d', st') \<Longrightarrow> tree_step d d'"
| add_folder: "addFolder p d st = Inr (ok, d', st') \<Longrightarrow> tree_step d d'"
| remove_entry: "removeFlat p d st = Inr (ok, d', st', em) \<Longrightarrow> tree_step d d'"
| move_entry_to: "moveFlat src dst d st = Inr (ok, d', st', em) \<Longrightarrow> tree_step d d'"

lemma tree_step_ok: "tree_step d d' \<Longrightarrow> tree_ok d \<Longrightarrow> tree_ok d'"
proof (induction rule: tree_step.induct)
  case (add_file dest n h sz d st ok d' st')
  then show ?case
    using addFile_blocked [OF add_file(2), of dest n h sz st] addFile_view [OF add_file(2), of dest n h sz st]
    by (cases "blocked (path_elems dest) d") auto
qed (auto intro: addModifiableFile_tree_ok addFolder_tree_ok removeFlat_tree_ok moveFlat_tree_ok)

lemma tree_steps_ok: "tree_step\<^sup>*\<^sup>* d d' \<Longrightarrow> tree_ok d \<Longrightarrow> tree_ok d'"
  by (induction rule: rtranclp_induct) (auto intro: tree_step_ok)

text \<open>
  C32. Trees keep their shape: a tree that was built from an empty folder by the operations of
  \<^verbatim>\<open>FsTree\<close>, with any arguments and whether or not they succeed, has every entry in the map
  of its folder once, in the order of names and under its own name, so what is found at a path
  has the name the path ends with.
\<close>

theorem trees_keep_their_shape:
  assumes "tree_step\<^sup>*\<^sup>* (mk_folder n i) d"
  shows "tree_ok d \<and> (\<forall>p c. getEntryPtr p d = Some c \<longrightarrow> child_name c = filename p)"
proof -
  have ok: "tree_ok d" using tree_steps_ok [OF assms] by simp
  have "child_name c = filename p" if found: "getEntryPtr p d = Some c" for p c
  proof -
    obtain e where e: "walk (path_elems (parent_path p)) d = Some e" "findChild (filename p) e = Some c"
      using found by (auto simp: getEntryPtr_look look_snoc split: bind_splits)
    show ?thesis using tree_ok_child [OF tree_ok_walk [OF ok e(1)]] e(2) by (simp add: findChild_def)
  qed
  then show ?thesis using ok by blast
qed

theorem trees_keep_their_shape_witness:
  "\<exists>d. tree_step\<^sup>*\<^sup>* (mk_folder [] 0) d \<and> tree_ok d \<and> getEntryPtr ''a/f'' d \<noteq> None"
proof -
  let ?r = "addFile ''a'' ''f'' 7 10 (mk_folder [] 0) (snd (new_folder_node empty_stats))"
  obtain ok d st where r: "?r = (ok, d, st)" by (rule prod_cases3)
  have s: "tree_step\<^sup>*\<^sup>* (mk_folder [] 0) d" using tree_step.add_file [OF r] by blast
  have "getEntryPtr ''a/f'' (fst (snd ?r)) \<noteq> None" by code_simp
  then have "getEntryPtr ''a/f'' d \<noteq> None" by (simp only: r fst_conv snd_conv not_False_eq_True)
  with trees_keep_their_shape [OF s] s show ?thesis by blast
qed

end
