(* ===== verification/Manual_Task.thy ===== *)
theory Manual_Task
  imports Disk Folder_Iterator Fs_Files Drive_Params
begin

section \<open>Manual modifications\<close>

text \<open>
  Model of \<^verbatim>\<open>src/drive/ManualModificationsTask.cpp\<close>: the storage calls of a contract.  A call works
  on the \<^emph>\<open>upper\<close> sandbox, a copy of the \<^emph>\<open>lower\<close> one, which is a copy of the drive and collects
  the calls that succeeded.  Every request is checked on the session thread, its file operations
  run on the background thread, and a continuation on the session thread answers it.  Both
  threads run their jobs in order, so each is a queue of jobs; a job is the closure the code posts,
  as a constructor with what it captures.  Callbacks are numbers, and the answers given to them
  are kept in order.  The object of the task is destroyed when the drive runs its next task; a job
  of the task that runs later is \<open>UseAfterFree\<close>.
\<close>

text \<open>
  What lies outside: the random temporary hashes, whether the operating system opens a file, the
  info hash and the torrent file libtorrent makes of a file, and the hash of a serialised tree.
\<close>

record manual_env =
  ev_random :: "nat \<Rightarrow> hash256"
  ev_openable :: "hash256 \<Rightarrow> bool"
  ev_infoHash :: "byte list \<Rightarrow> hash256"
  ev_torrentSize :: "byte list \<Rightarrow> u64"
  ev_treeHash :: "folder \<Rightarrow> hash256"

datatype open_file_mode = READ | WRITE

datatype response =
    RNothing
  | RInitiated
  | RSandboxInitiated
  | ROpenFile "u64 option"
  | RReadFile "byte list option"
  | RSuccess bool
  | RExists bool
  | RFileSize bool u64
  | RIterator "u64 option"
  | RHasNext bool
  | RNext "(string \<times> u32) option"
  | RApplied bool
  | RStorageHash hash256
  | RStorageApplied

record open_file =
  of_stream :: nat
  of_statisticsNode :: nat

datatype close_callback = SandboxStreamsClosed bool nat | TaskStreamsClosed

datatype background_job =
    CreateStream hash256 open_file_mode u64 string nat
  | ReadStream nat u64 nat
  | WriteStream nat "byte list" nat
  | FlushStream nat nat
  | CloseStream nat u64 nat
  | RemoveUnusedFiles "hash256 set" bool nat
  | ObtainFileSize hash256 nat
  | CloseStreams "nat list" close_callback
  | ValidateAndApply nat
  | DiscardModifications nat
  | ComputeSandboxHash nat
  | AddNewTorrents nat
  | UnusedTorrentsDeleted nat
  | ClearTrash
  | ClearSandbox

datatype session_job =
    FileOpened nat open_file_mode u64 string u64 nat
  | ReadDone "byte list" nat
  | FileWritten bool nat
  | Flushed bool nat
  | FileClosed u64 bool nat
  | Removed u64 nat
  | Moved u64 nat
  | FileSizeObtained u64 nat
  | StreamsClosed close_callback
  | AppliedSandboxModifications bool u64 nat
  | StorageHashEvaluated hash256 nat
  | NewTorrentAdded nat
  | AppliedStorageModifications nat
  | CloseAllFiles
  | RunNextTask

record manual =
  mm_modificationIdentifier :: hash256
  mm_upperSandboxFilesSize :: u64
  mm_lowerSandboxFilesSize :: u64
  mm_lowerSandboxFsTree :: "folder option"
  mm_upperSandboxFsTree :: "folder option"
  mm_sandboxRootHash :: "hash256 option"
  mm_sandboxFsTreeHandle :: bool
  mm_openFilesWrite :: "(u64, open_file) std_map"
  mm_openFilesRead :: "(u64, open_file) std_map"
  mm_folderIterators :: "(u64, folder_iterator) std_map"
  mm_callManagedHashes :: "hash256 set"
  mm_totalFilesOpened :: u64
  mm_totalFolderIteratorsCreated :: u64
  mm_isExecutingQuery :: bool
  mm_taskIsInterrupted :: bool
  mm_taskIsFinished :: bool
  mm_maxOpenedStreams :: u64
  mm_params :: drive_params
  mm_stats :: stats
  mm_restart :: restart_values
  mm_disk :: disk
  mm_torrents :: "(hash256, u64) std_map"
  mm_sandboxFsTreeFile :: "folder option"
  mm_fsTreeFile :: "folder option"
  mm_streams :: "stream list"
  mm_drawn :: nat
  mm_background :: "background_job list"
  mm_session :: "session_job list"
  mm_removedTorrents :: "hash256 list"
  mm_removalCallbacks :: "nat list"
  mm_answers :: "(nat \<times> response) list"
  mm_destroyed :: bool

definition createManualModificationsTask ::
  "hash256 \<Rightarrow> drive_params \<Rightarrow> stats \<Rightarrow> restart_values \<Rightarrow> disk \<Rightarrow> (hash256, u64) std_map \<Rightarrow> manual" where
  "createManualModificationsTask i dp st rv dk tfs =
     \<lparr>mm_modificationIdentifier = i, mm_upperSandboxFilesSize = 0, mm_lowerSandboxFilesSize = 0,
      mm_lowerSandboxFsTree = None, mm_upperSandboxFsTree = None, mm_sandboxRootHash = None,
      mm_sandboxFsTreeHandle = False, mm_openFilesWrite = [], mm_openFilesRead = [], mm_folderIterators = [],
      mm_callManagedHashes = {}, mm_totalFilesOpened = 0, mm_totalFolderIteratorsCreated = 0,
      mm_isExecutingQuery = False, mm_taskIsInterrupted = False, mm_taskIsFinished = False,
      mm_maxOpenedStreams = 5, mm_params = dp, mm_stats = st, mm_restart = rv, mm_disk = dk, mm_torrents = tfs,
      mm_sandboxFsTreeFile = None, mm_fsTreeFile = None, mm_streams = [], mm_drawn = 0, mm_background = [],
      mm_session = [], mm_removedTorrents = [], mm_removalCallbacks = [], mm_answers = [], mm_destroyed = False\<rparr>"

definition answer :: "nat \<Rightarrow> response \<Rightarrow> manual \<Rightarrow> manual" where
  "answer cb r m = m\<lparr>mm_answers := mm_answers m @ [(cb, r)]\<rparr>"

definition executeOnBackgroundThread :: "background_job \<Rightarrow> manual \<Rightarrow> manual" where
  "executeOnBackgroundThread j m = m\<lparr>mm_background := mm_background m @ [j]\<rparr>"

definition executeOnSessionThread :: "session_job \<Rightarrow> manual \<Rightarrow> manual" where
  "executeOnSessionThread j m = m\<lparr>mm_session := mm_session m @ [j]\<rparr>"

text \<open>A query: the flag is set and the job posted.\<close>

definition start_query :: "background_job \<Rightarrow> manual \<Rightarrow> manual" where
  "start_query j m = executeOnBackgroundThread j (m\<lparr>mm_isExecutingQuery := True\<rparr>)"

text \<open>
  The beginning most requests share: the assertions on the upper sandbox and the flag, and the
  refusal after an interruption.
\<close>

definition on_upper :: "manual \<Rightarrow> (folder \<Rightarrow> (bool \<times> manual) outcome) \<Rightarrow> (bool \<times> manual) outcome" where
  "on_upper m f =
     (case mm_upperSandboxFsTree m of
        None \<Rightarrow> Inl AssertionFailure
      | Some t \<Rightarrow>
          bind_outcome (sirius_assert (\<not> mm_isExecutingQuery m)) (\<lambda>_.
            if mm_taskIsInterrupted m then Inr (False, m) else f t))"

definition answered :: "nat \<Rightarrow> response \<Rightarrow> manual \<Rightarrow> (bool \<times> manual) outcome" where
  "answered cb r m = Inr (True, answer cb r m)"

definition queried :: "background_job \<Rightarrow> manual \<Rightarrow> (bool \<times> manual) outcome" where
  "queried j m = Inr (True, start_query j m)"

subsection \<open>The end of the task\<close>

definition mm_finishTask :: "manual \<Rightarrow> manual" where
  "mm_finishTask m =
     (if mm_taskIsFinished m then m
      else executeOnBackgroundThread ClearTrash (m\<lparr>mm_taskIsFinished := True\<rparr>))"

definition mm_terminate :: "manual \<Rightarrow> manual" where
  "mm_terminate m =
     (if mm_taskIsInterrupted m then m
      else let m1 = m\<lparr>mm_taskIsInterrupted := True\<rparr>
           in if \<not> mm_isExecutingQuery m1 then mm_finishTask m1 else m1)"

text \<open>The beginning of the continuations: the query is over, and an interrupted task ends.\<close>

definition query_over :: "nat \<Rightarrow> response \<Rightarrow> manual \<Rightarrow> (manual \<Rightarrow> manual outcome) \<Rightarrow> manual outcome" where
  "query_over cb aborted m f =
     bind_outcome (sirius_assert (mm_isExecutingQuery m)) (\<lambda>_.
       let m1 = m\<lparr>mm_isExecutingQuery := False\<rparr>
       in if mm_taskIsInterrupted m1 then Inr (mm_finishTask (answer cb aborted m1)) else f m1)"

text \<open>Closing all files: the streams are taken out of the maps, whose entries unblock their nodes.\<close>

definition unblock_files :: "open_file list \<Rightarrow> stats \<Rightarrow> stats outcome" where
  "unblock_files fs st =
     fold (\<lambda>f r. bind_outcome r (\<lambda>st. of_option Diverges (file_removeBlock (of_statisticsNode f) st))) fs (Inr st)"

definition closeFiles :: "close_callback \<Rightarrow> manual \<Rightarrow> manual outcome" where
  "closeFiles c m =
     (let files = map snd (mm_openFilesWrite m) @ map snd (mm_openFilesRead m)
      in bind_outcome (unblock_files files (mm_stats m)) (\<lambda>st.
           Inr (start_query (CloseStreams (map of_stream files) c)
                  (m\<lparr>mm_stats := st, mm_openFilesWrite := [], mm_openFilesRead := []\<rparr>))))"

subsection \<open>Starting\<close>

definition drop_tree :: "folder option \<Rightarrow> stats \<Rightarrow> stats" where
  "drop_tree t st = (case t of None \<Rightarrow> st | Some d \<Rightarrow> release_child (as_child d) st)"

definition mm_run :: "nat \<Rightarrow> manual \<Rightarrow> manual" where
  "mm_run cb m =
     (let t = dp_fsTree (mm_params m)
      in answer cb RInitiated (m\<lparr>mm_lowerSandboxFsTree := Some t, mm_stats := copy_tree t (mm_stats m)\<rparr>))"

fun addFolders :: "string list \<Rightarrow> folder \<Rightarrow> stats \<Rightarrow> (folder \<times> stats) outcome" where
  "addFolders [] d st = Inr (d, st)"
| "addFolders (p # ps) d st = bind_outcome (addFolder p d st) (\<lambda>(_, d', st'). addFolders ps d' st')"

definition initiateSandboxModifications :: "string list \<Rightarrow> nat \<Rightarrow> manual \<Rightarrow> (bool \<times> manual) outcome" where
  "initiateSandboxModifications serviceFolders cb m =
     bind_outcome (sirius_assert (\<not> mm_isExecutingQuery m)) (\<lambda>_.
       if mm_taskIsInterrupted m then Inr (False, m)
       else bind_outcome (of_option NullDereference (mm_lowerSandboxFsTree m)) (\<lambda>t.
              let st1 = drop_tree (mm_upperSandboxFsTree m) (copy_tree t (mm_stats m))
              in bind_outcome (of_option Diverges (initializeStatistics t st1)) (\<lambda>st2.
                   bind_outcome (addFolders serviceFolders t st2) (\<lambda>(t', st3).
                     answered cb RSandboxInitiated
                       (m\<lparr>mm_upperSandboxFsTree := Some t', mm_upperSandboxFilesSize := mm_lowerSandboxFilesSize m,
                          mm_stats := st3\<rparr>)))))"

subsection \<open>Opening files\<close>

definition checkUnlock :: "string \<Rightarrow> folder \<Rightarrow> stats \<Rightarrow> bool" where
  "checkUnlock path t st =
     (let (visited, last_child, _) = iterateBranch path t
      in list_all (\<lambda>d. fo_blocks (folder_nodes st (fd_stat (fst d))) = 0) visited \<and>
         (case last_child of
            None \<Rightarrow> True
          | Some (CFolder a cs) \<Rightarrow> folder_total st (fd_stat a) = 0
          | Some (CFile f) \<Rightarrow> fi_blocks (file_nodes st (fl_stat f)) = 0))"

text \<open>\<^verbatim>\<open>addModifiableFile\<close> of the upper sandbox with the next random hash.\<close>

definition add_modifiable :: "manual_env \<Rightarrow> string \<Rightarrow> folder \<Rightarrow> manual \<Rightarrow> (hash256 option \<times> folder \<times> manual) outcome" where
  "add_modifiable env path t m =
     bind_outcome (addModifiableFile (ev_random env (mm_drawn m)) (parent_path path) (filename path) t (mm_stats m))
       (\<lambda>(h, t', st'). Inr (h, t', m\<lparr>mm_drawn := Suc (mm_drawn m), mm_stats := st'\<rparr>))"

definition manage :: "hash256 option \<Rightarrow> manual \<Rightarrow> manual outcome" where
  "manage h m =
     bind_outcome (of_option AssertionFailure h) (\<lambda>h.
       Inr (m\<lparr>mm_callManagedHashes := insert h (mm_callManagedHashes m)\<rparr>))"

text \<open>
  The part of \<^verbatim>\<open>openFile\<close> that prepares the entry of a file to be written, in the folder \<open>d\<close>
  that contains it: \<open>None\<close> when a folder stands in its place.
\<close>

definition prepare_write :: "manual_env \<Rightarrow> string \<Rightarrow> folder \<Rightarrow> folder \<Rightarrow> manual \<Rightarrow> (folder \<times> manual) option outcome" where
  "prepare_write env path d t m =
     (case findChild (filename path) d of
        Some (CFolder a cs) \<Rightarrow> Inr None
      | Some (CFile f) \<Rightarrow>
          if fl_hash f \<in> mm_callManagedHashes m then Inr (Some (t, m))
          else bind_outcome (removeFlat path t (mm_stats m)) (\<lambda>(_, t1, st1, _).
                 bind_outcome (add_modifiable env path t1 (m\<lparr>mm_stats := st1\<rparr>)) (\<lambda>(h, t2, m2).
                   bind_outcome (manage h m2) (\<lambda>m3. Inr (Some (t2, m3)))))
      | None \<Rightarrow>
          bind_outcome (add_modifiable env path t m) (\<lambda>(_, t1, m1).
            bind_outcome (add_modifiable env path t1 m1) (\<lambda>(h, t2, m2).
              bind_outcome (manage h m2) (\<lambda>m3. Inr (Some (t2, m3))))))"

definition start_open :: "open_file_mode \<Rightarrow> string \<Rightarrow> u64 \<Rightarrow> nat \<Rightarrow> folder \<Rightarrow> manual \<Rightarrow> (bool \<times> manual) outcome" where
  "start_open mode path fileId cb t m =
     (case Option.bind (getFolderPtr (parent_path path) t) (findChild (filename path)) of
        Some (CFile f) \<Rightarrow> queried (CreateStream (fl_hash f) mode fileId path cb) (m\<lparr>mm_upperSandboxFsTree := Some t\<rparr>)
      | _ \<Rightarrow> answered cb (ROpenFile None) (m\<lparr>mm_upperSandboxFsTree := Some t\<rparr>))"

definition openFile :: "manual_env \<Rightarrow> open_file_mode \<Rightarrow> string \<Rightarrow> nat \<Rightarrow> manual \<Rightarrow> (bool \<times> manual) outcome" where
  "openFile env mode path cb m = on_upper m (\<lambda>t.
     let full = mm_maxOpenedStreams m \<le> of_nat (length (mm_openFilesRead m)) + of_nat (length (mm_openFilesWrite m));
         m0 = (if full then answer cb (ROpenFile None) m else m);
         fileId = mm_totalFilesOpened m0;
         m1 = m0\<lparr>mm_totalFilesOpened := fileId + 1\<rparr>
     in case getFolderPtr (parent_path path) t of
          None \<Rightarrow> answered cb (ROpenFile None) m1
        | Some d \<Rightarrow>
            if \<not> checkUnlock path t (mm_stats m1) then answered cb (ROpenFile None) m1
            else case mode of
                   READ \<Rightarrow> start_open READ path fileId cb t m1
                 | WRITE \<Rightarrow>
                     bind_outcome (prepare_write env path d t m1) (\<lambda>prepared.
                       case prepared of
                         None \<Rightarrow> answered cb (ROpenFile None) m1
                       | Some (t', m2) \<Rightarrow> start_open WRITE path fileId cb t' m2))"

definition createStream :: "manual_env \<Rightarrow> hash256 \<Rightarrow> open_file_mode \<Rightarrow> u64 \<Rightarrow> string \<Rightarrow> nat \<Rightarrow> manual \<Rightarrow> manual" where
  "createStream env name mode fileId fsPath cb m =
     (let clearedFileSize = (if mode = WRITE then (case file_size name (mm_disk m) of None \<Rightarrow> 0 | Some s \<Rightarrow> s) else 0);
          (s, dk) = (if \<not> ev_openable env name then (closed_stream, mm_disk m)
                     else if mode = READ then (open_read name (mm_disk m), mm_disk m)
                     else open_write name (mm_disk m))
      in executeOnSessionThread (FileOpened (length (mm_streams m)) mode fileId fsPath clearedFileSize cb)
           (m\<lparr>mm_streams := mm_streams m @ [s], mm_disk := dk\<rparr>))"

definition onFileOpened :: "nat \<Rightarrow> open_file_mode \<Rightarrow> u64 \<Rightarrow> string \<Rightarrow> u64 \<Rightarrow> nat \<Rightarrow> manual \<Rightarrow> manual outcome" where
  "onFileOpened s mode fileId fsPath clearedFileSize cb m =
     bind_outcome (sirius_assert (\<not> map_contains fileId (mm_openFilesRead m) \<and> \<not> map_contains fileId (mm_openFilesWrite m))) (\<lambda>_.
       query_over cb RNothing m (\<lambda>m1.
         bind_outcome (sirius_assert (clearedFileSize \<le> mm_upperSandboxFilesSize m1)) (\<lambda>_.
           let m2 = m1\<lparr>mm_upperSandboxFilesSize := mm_upperSandboxFilesSize m1 - clearedFileSize\<rparr>
           in if \<not> sm_open (mm_streams m2 ! s) then Inr (answer cb (ROpenFile None) m2)
              else case Option.bind (mm_upperSandboxFsTree m2) (getEntryPtr fsPath) of
                     Some (CFile f) \<Rightarrow>
                       bind_outcome (of_option Diverges (file_addBlock (fl_stat f) (mm_stats m2))) (\<lambda>st.
                         let file = \<lparr>of_stream = s, of_statisticsNode = fl_stat f\<rparr>;
                             m3 = m2\<lparr>mm_stats := st\<rparr>;
                             m4 = (case mode of
                                     READ \<Rightarrow> m3\<lparr>mm_openFilesRead := map_emplace fileId file (mm_openFilesRead m3)\<rparr>
                                   | WRITE \<Rightarrow> m3\<lparr>mm_openFilesWrite := map_emplace fileId file (mm_openFilesWrite m3)\<rparr>)
                         in Inr (answer cb (ROpenFile (Some fileId)) m4))
                   | _ \<Rightarrow> Inl AssertionFailure)))"

subsection \<open>Reading and writing\<close>

definition readFile :: "u64 \<Rightarrow> u64 \<Rightarrow> nat \<Rightarrow> manual \<Rightarrow> (bool \<times> manual) outcome" where
  "readFile fileId bytes cb m = on_upper m (\<lambda>_.
     case map_find fileId (mm_openFilesRead m) of
       None \<Rightarrow> answered cb (RReadFile None) m
     | Some f \<Rightarrow> queried (ReadStream (of_stream f) bytes cb) m)"

definition readStream :: "nat \<Rightarrow> u64 \<Rightarrow> nat \<Rightarrow> manual \<Rightarrow> manual" where
  "readStream s bytes cb m =
     (let (buffer, stream') = stream_read (unat bytes) (mm_streams m ! s) (mm_disk m)
      in executeOnSessionThread (ReadDone buffer cb) (m\<lparr>mm_streams := (mm_streams m)[s := stream']\<rparr>))"

definition onReadFile :: "byte list \<Rightarrow> nat \<Rightarrow> manual \<Rightarrow> manual outcome" where
  "onReadFile bytes cb m = query_over cb RNothing m (\<lambda>m1. Inr (answer cb (RReadFile (Some bytes)) m1))"

definition writeFile :: "u64 \<Rightarrow> byte list \<Rightarrow> nat \<Rightarrow> manual \<Rightarrow> (bool \<times> manual) outcome" where
  "writeFile fileId buffer cb m = on_upper m (\<lambda>_.
     case map_find fileId (mm_openFilesWrite m) of
       None \<Rightarrow> answered cb (RSuccess False) m
     | Some f \<Rightarrow>
         if dp_maxSize (mm_params m) < mm_upperSandboxFilesSize m + of_nat (length buffer)
         then answered cb (RSuccess False) m
         else queried (WriteStream (of_stream f) buffer cb)
                (m\<lparr>mm_upperSandboxFilesSize := mm_upperSandboxFilesSize m + of_nat (length buffer)\<rparr>))"

text \<open>\<open>k\<close> is the number of buffered bytes the library passes on to the disk.\<close>

definition writeStream :: "nat \<Rightarrow> nat \<Rightarrow> byte list \<Rightarrow> nat \<Rightarrow> manual \<Rightarrow> manual" where
  "writeStream k s buffer cb m =
     (let (stream', dk) = stream_write k buffer (mm_streams m ! s) (mm_disk m)
      in executeOnSessionThread (FileWritten True cb) (m\<lparr>mm_streams := (mm_streams m)[s := stream'], mm_disk := dk\<rparr>))"

definition onFileWritten :: "bool \<Rightarrow> nat \<Rightarrow> manual \<Rightarrow> manual outcome" where
  "onFileWritten success cb m = query_over cb RNothing m (\<lambda>m1. Inr (answer cb (RSuccess success) m1))"

definition flush :: "u64 \<Rightarrow> nat \<Rightarrow> manual \<Rightarrow> (bool \<times> manual) outcome" where
  "flush fileId cb m = on_upper m (\<lambda>_.
     case map_find fileId (mm_openFilesWrite m) of
       None \<Rightarrow> answered cb (RSuccess False) m
     | Some f \<Rightarrow> queried (FlushStream (of_stream f) cb) m)"

definition flushStream :: "nat \<Rightarrow> nat \<Rightarrow> manual \<Rightarrow> manual" where
  "flushStream s cb m =
     (let (stream', dk) = stream_flush (mm_streams m ! s) (mm_disk m)
      in executeOnSessionThread (Flushed True cb) (m\<lparr>mm_streams := (mm_streams m)[s := stream'], mm_disk := dk\<rparr>))"

definition onFlushed :: "bool \<Rightarrow> nat \<Rightarrow> manual \<Rightarrow> manual outcome" where
  "onFlushed success cb m = query_over cb RNothing m (\<lambda>m1. Inr (answer cb (RSuccess success) m1))"

definition closeFile :: "u64 \<Rightarrow> nat \<Rightarrow> manual \<Rightarrow> (bool \<times> manual) outcome" where
  "closeFile fileId cb m = on_upper m (\<lambda>_.
     case map_find fileId (mm_openFilesRead m) of
       Some f \<Rightarrow> queried (CloseStream (of_stream f) fileId cb) m
     | None \<Rightarrow>
         (case map_find fileId (mm_openFilesWrite m) of
            Some f \<Rightarrow> queried (CloseStream (of_stream f) fileId cb) m
          | None \<Rightarrow> answered cb (RSuccess False) m))"

definition close_stream :: "nat \<Rightarrow> manual \<Rightarrow> manual" where
  "close_stream s m =
     (let (stream', dk) = stream_close (mm_streams m ! s) (mm_disk m)
      in m\<lparr>mm_streams := (mm_streams m)[s := stream'], mm_disk := dk\<rparr>)"

definition closeStream :: "nat \<Rightarrow> u64 \<Rightarrow> nat \<Rightarrow> manual \<Rightarrow> manual" where
  "closeStream s fileId cb m = executeOnSessionThread (FileClosed fileId True cb) (close_stream s m)"

definition closeStreams :: "nat list \<Rightarrow> close_callback \<Rightarrow> manual \<Rightarrow> manual" where
  "closeStreams ss c m = executeOnSessionThread (StreamsClosed c) (fold close_stream ss m)"

definition onFileClosed :: "u64 \<Rightarrow> bool \<Rightarrow> nat \<Rightarrow> manual \<Rightarrow> manual outcome" where
  "onFileClosed fileId success cb m = query_over cb RNothing m (\<lambda>m1.
     case map_find fileId (mm_openFilesRead m1) of
       Some f \<Rightarrow>
         bind_outcome (unblock_files [f] (mm_stats m1)) (\<lambda>st.
           Inr (answer cb (RSuccess success) (m1\<lparr>mm_stats := st, mm_openFilesRead := map_erase fileId (mm_openFilesRead m1)\<rparr>)))
     | None \<Rightarrow>
         (case map_find fileId (mm_openFilesWrite m1) of
            Some f \<Rightarrow>
              bind_outcome (unblock_files [f] (mm_stats m1)) (\<lambda>st.
                Inr (answer cb (RSuccess success) (m1\<lparr>mm_stats := st, mm_openFilesWrite := map_erase fileId (mm_openFilesWrite m1)\<rparr>)))
          | None \<Rightarrow> Inr m1))"

subsection \<open>Removing and moving entries\<close>

text \<open>\<^verbatim>\<open>obtainUnusedFiles\<close>: the files of an entry made in this call; they are no longer managed.\<close>

definition obtainUnusedFiles :: "child \<Rightarrow> manual \<Rightarrow> hash256 set \<times> manual" where
  "obtainUnusedFiles c m =
     (let possiblyRemovedFiles = (case c of CFile f \<Rightarrow> {fl_hash f} | CFolder a cs \<Rightarrow> getUniqueFiles (a, cs) {});
          filesToRemove = possiblyRemovedFiles \<inter> mm_callManagedHashes m
      in (filesToRemove, m\<lparr>mm_callManagedHashes := mm_callManagedHashes m - filesToRemove\<rparr>))"

definition processRemoveRequest :: "string \<Rightarrow> nat \<Rightarrow> folder \<Rightarrow> manual \<Rightarrow> manual outcome" where
  "processRemoveRequest path cb t m =
     (if \<not> checkUnlock path t (mm_stats m) then Inr (answer cb (RSuccess False) m)
      else case getEntryPtr path t of
             None \<Rightarrow> Inr (answer cb (RSuccess False) m)
           | Some c \<Rightarrow>
               let (filesToRemove, m1) = obtainUnusedFiles c m
               in bind_outcome (removeFlat path t (mm_stats m1)) (\<lambda>(_, t', st', _).
                    Inr (start_query (RemoveUnusedFiles filesToRemove False cb)
                           (m1\<lparr>mm_upperSandboxFsTree := Some t', mm_stats := st'\<rparr>))))"

definition removeFsTreeEntry :: "string \<Rightarrow> nat \<Rightarrow> manual \<Rightarrow> (bool \<times> manual) outcome" where
  "removeFsTreeEntry path cb m = on_upper m (\<lambda>t.
     bind_outcome (processRemoveRequest path cb t m) (\<lambda>m'. Inr (True, m')))"

text \<open>The loop of \<^verbatim>\<open>removeUnusedFiles\<close>: a file whose size cannot be read is only logged.\<close>

fun remove_files :: "hash256 list \<Rightarrow> u64 \<Rightarrow> disk \<Rightarrow> u64 \<times> disk" where
  "remove_files [] removed dk = (removed, dk)"
| "remove_files (h # hs) removed dk =
     (case file_size h dk of
        None \<Rightarrow> remove_files hs removed dk
      | Some s \<Rightarrow> remove_files hs (removed + s) (remove_file h dk))"

definition removeUnusedFiles :: "hash256 set \<Rightarrow> bool \<Rightarrow> nat \<Rightarrow> manual \<Rightarrow> manual" where
  "removeUnusedFiles filesToRemove moved cb m =
     (let (removed, dk) = remove_files (sorted_list_of_set filesToRemove) 0 (mm_disk m)
      in executeOnSessionThread (if moved then Moved removed cb else Removed removed cb) (m\<lparr>mm_disk := dk\<rparr>))"

text \<open>\<^verbatim>\<open>onRemoved\<close> and \<^verbatim>\<open>onMoved\<close>; the empty answer of an interrupted task is a failure there.\<close>

definition onRemoved :: "u64 \<Rightarrow> nat \<Rightarrow> manual \<Rightarrow> manual outcome" where
  "onRemoved removedFilesSize cb m = query_over cb (RSuccess False) m (\<lambda>m1.
     bind_outcome (sirius_assert (removedFilesSize \<le> mm_upperSandboxFilesSize m1)) (\<lambda>_.
       Inr (answer cb (RSuccess True)
              (m1\<lparr>mm_upperSandboxFilesSize := mm_upperSandboxFilesSize m1 - removedFilesSize\<rparr>))))"

definition moveFsTreeEntry :: "string \<Rightarrow> string \<Rightarrow> nat \<Rightarrow> manual \<Rightarrow> (bool \<times> manual) outcome" where
  "moveFsTreeEntry src dst cb m = on_upper m (\<lambda>t.
     if \<not> checkUnlock src t (mm_stats m) \<or> \<not> checkUnlock dst t (mm_stats m) then answered cb (RSuccess False) m
     else let (filesToRemove, m1) = (case getEntryPtr dst t of None \<Rightarrow> ({}, m) | Some c \<Rightarrow> obtainUnusedFiles c m)
          in bind_outcome (moveFlat src dst t (mm_stats m1)) (\<lambda>(ok, t', st', _).
               let m2 = m1\<lparr>mm_upperSandboxFsTree := Some t', mm_stats := st'\<rparr>
               in if \<not> ok then answered cb (RSuccess False) m2
                  else queried (RemoveUnusedFiles filesToRemove True cb) m2))"

definition onMoved :: "u64 \<Rightarrow> nat \<Rightarrow> manual \<Rightarrow> manual outcome" where
  "onMoved removedFilesSize cb m = query_over cb (RSuccess False) m (\<lambda>m1.
     bind_outcome (sirius_assert (removedFilesSize \<le> mm_upperSandboxFilesSize m1)) (\<lambda>_.
       Inr (answer cb (RSuccess True)
              (m1\<lparr>mm_upperSandboxFilesSize := mm_upperSandboxFilesSize m1 - removedFilesSize\<rparr>))))"

subsection \<open>Looking at the tree\<close>

definition pathExist :: "string \<Rightarrow> nat \<Rightarrow> manual \<Rightarrow> (bool \<times> manual) outcome" where
  "pathExist path cb m = on_upper m (\<lambda>t. answered cb (RExists (getEntryPtr path t \<noteq> None)) m)"

definition pathIsFile :: "string \<Rightarrow> nat \<Rightarrow> manual \<Rightarrow> (bool \<times> manual) outcome" where
  "pathIsFile path cb m = on_upper m (\<lambda>t.
     answered cb (RExists (case getEntryPtr path t of None \<Rightarrow> False | Some c \<Rightarrow> isFile c)) m)"

definition fileSize :: "string \<Rightarrow> nat \<Rightarrow> manual \<Rightarrow> (bool \<times> manual) outcome" where
  "fileSize path cb m = on_upper m (\<lambda>t.
     case getEntryPtr path t of
       Some (CFile f) \<Rightarrow> queried (ObtainFileSize (fl_hash f) cb) m
     | _ \<Rightarrow> answered cb (RFileSize False 0) m)"

text \<open>\<^verbatim>\<open>obtainFileSize\<close>: an error is logged, and the size passed on is then \<^verbatim>\<open>uintmax_t(-1)\<close>.\<close>

definition size_or_error :: "hash256 \<Rightarrow> disk \<Rightarrow> u64" where
  "size_or_error h dk = (case file_size h dk of None \<Rightarrow> - 1 | Some s \<Rightarrow> s)"

definition obtainFileSize :: "hash256 \<Rightarrow> nat \<Rightarrow> manual \<Rightarrow> manual" where
  "obtainFileSize h cb m = executeOnSessionThread (FileSizeObtained (size_or_error h (mm_disk m)) cb) m"

definition onFileSizeObtained :: "u64 \<Rightarrow> nat \<Rightarrow> manual \<Rightarrow> manual outcome" where
  "onFileSizeObtained sz cb m = query_over cb RNothing m (\<lambda>m1. Inr (answer cb (RFileSize True sz) m1))"

definition createDirectories :: "string \<Rightarrow> nat \<Rightarrow> manual \<Rightarrow> (bool \<times> manual) outcome" where
  "createDirectories path cb m = on_upper m (\<lambda>t.
     bind_outcome (addFolder path t (mm_stats m)) (\<lambda>(success, t', st').
       answered cb (RSuccess success) (m\<lparr>mm_upperSandboxFsTree := Some t', mm_stats := st'\<rparr>)))"

definition folderIteratorCreate :: "string \<Rightarrow> bool \<Rightarrow> nat \<Rightarrow> manual \<Rightarrow> (bool \<times> manual) outcome" where
  "folderIteratorCreate path recursive cb m = on_upper m (\<lambda>t.
     if checkUnlock path t (mm_stats m)
     then case getFolderPtr path t of
            None \<Rightarrow> answered cb (RIterator None) m
          | Some d \<Rightarrow>
              let iteratorId = mm_totalFolderIteratorsCreated m
              in bind_outcome (new_folder_iterator (path_elems path) d recursive (mm_stats m)) (\<lambda>(it, st).
                   answered cb (RIterator (Some iteratorId))
                     (m\<lparr>mm_totalFolderIteratorsCreated := iteratorId + 1, mm_stats := st,
                        mm_folderIterators := map_emplace iteratorId it (mm_folderIterators m)\<rparr>))
     else answered cb (RIterator None) m)"

definition folderIteratorDestroy :: "u64 \<Rightarrow> nat \<Rightarrow> manual \<Rightarrow> (bool \<times> manual) outcome" where
  "folderIteratorDestroy i cb m = on_upper m (\<lambda>_.
     case map_find i (mm_folderIterators m) of
       None \<Rightarrow> answered cb (RSuccess False) m
     | Some it \<Rightarrow>
         bind_outcome (destroy_folder_iterator it (mm_stats m)) (\<lambda>st.
           answered cb (RSuccess True) (m\<lparr>mm_stats := st, mm_folderIterators := map_erase i (mm_folderIterators m)\<rparr>)))"

definition folderIteratorHasNext :: "u64 \<Rightarrow> nat \<Rightarrow> manual \<Rightarrow> (bool \<times> manual) outcome" where
  "folderIteratorHasNext i cb m = on_upper m (\<lambda>_.
     answered cb (RHasNext (case map_find i (mm_folderIterators m) of None \<Rightarrow> False | Some it \<Rightarrow> hasNext it)) m)"

definition folderIteratorNext :: "u64 \<Rightarrow> nat \<Rightarrow> manual \<Rightarrow> (bool \<times> manual) outcome" where
  "folderIteratorNext i cb m = on_upper m (\<lambda>t.
     case map_find i (mm_folderIterators m) of
       None \<Rightarrow> answered cb (RNext None) m
     | Some it \<Rightarrow>
         bind_outcome (next_entry t it) (\<lambda>(x, it').
           answered cb (RNext x) (m\<lparr>mm_folderIterators := map_put i it' (mm_folderIterators m)\<rparr>)))"

subsection \<open>The end of a call\<close>

definition applySandboxModifications :: "bool \<Rightarrow> nat \<Rightarrow> manual \<Rightarrow> (bool \<times> manual) outcome" where
  "applySandboxModifications success cb m =
     bind_outcome (sirius_assert (\<not> mm_isExecutingQuery m)) (\<lambda>_.
       if mm_taskIsInterrupted m then Inr (False, m)
       else bind_outcome (sirius_assert (mm_upperSandboxFsTree m \<noteq> None)) (\<lambda>_.
              bind_outcome (closeFiles (SandboxStreamsClosed success cb) m) (\<lambda>m'. Inr (True, m'))))"

definition destroy_iterators :: "folder_iterator list \<Rightarrow> stats \<Rightarrow> stats outcome" where
  "destroy_iterators its st = fold (\<lambda>it r. bind_outcome r (destroy_folder_iterator it)) its (Inr st)"

definition clearStatisticsNode :: "folder \<Rightarrow> stats \<Rightarrow> folder \<times> stats" where
  "clearStatisticsNode d st =
     (let (i, st1) = new_folder_node st in (((fst d)\<lparr>fd_stat := i\<rparr>, snd d), release (fd_stat (fst d)) st1))"

definition onSandboxModificationStreamsClosed :: "bool \<Rightarrow> nat \<Rightarrow> manual \<Rightarrow> manual outcome" where
  "onSandboxModificationStreamsClosed success cb m = query_over cb RNothing m (\<lambda>m1.
     bind_outcome (destroy_iterators (map snd (mm_folderIterators m1)) (mm_stats m1)) (\<lambda>st.
       bind_outcome (of_option NullDereference (mm_upperSandboxFsTree m1)) (\<lambda>t.
         let (t', st') = clearStatisticsNode t st
         in Inr (start_query (if success then ValidateAndApply cb else DiscardModifications cb)
                   (m1\<lparr>mm_folderIterators := [], mm_upperSandboxFsTree := Some t', mm_stats := st'\<rparr>)))))"

text \<open>The loops that remove files and sum up their sizes, the error value of a missing one included.\<close>

fun remove_counted :: "hash256 list \<Rightarrow> u64 \<Rightarrow> disk \<Rightarrow> u64 \<times> disk" where
  "remove_counted [] removed dk = (removed, dk)"
| "remove_counted (h # hs) removed dk = remove_counted hs (removed + size_or_error h dk) (remove_file h dk)"

definition discardUpperSandboxModifications :: "nat \<Rightarrow> manual \<Rightarrow> manual outcome" where
  "discardUpperSandboxModifications cb m =
     bind_outcome (sirius_assert (0 \<notin> mm_callManagedHashes m)) (\<lambda>_.
       let (removed, dk) = remove_counted (sorted_list_of_set (mm_callManagedHashes m)) 0 (mm_disk m)
       in Inr (executeOnSessionThread (AppliedSandboxModifications False removed cb) (m\<lparr>mm_disk := dk\<rparr>)))"

definition validateSandboxState :: "folder \<Rightarrow> manual \<Rightarrow> bool outcome" where
  "validateSandboxState t m =
     bind_outcome (evaluateSizes (\<lambda>h. file_size h (mm_disk m)) (\<lambda>h. map_find h (mm_torrents m)) t) (\<lambda>sz.
       Inr (sz < dp_maxSize (mm_params m)))"

definition superseded :: "folder \<Rightarrow> folder \<Rightarrow> torrent_map \<Rightarrow> hash256 set" where
  "superseded lower upper torrents =
     {h \<in> getUniqueFiles lower {}. h \<notin> getUniqueFiles upper {} \<and> \<not> map_contains h torrents \<and> h \<noteq> 0}"

definition acceptUpperSandboxModifications :: "folder \<Rightarrow> folder \<Rightarrow> nat \<Rightarrow> manual \<Rightarrow> manual" where
  "acceptUpperSandboxModifications lower upper cb m =
     (let (removed, dk) = remove_counted
            (sorted_list_of_set (superseded lower upper (dp_torrentHandleMap (mm_params m)))) 0 (mm_disk m)
      in executeOnSessionThread (AppliedSandboxModifications True removed cb) (m\<lparr>mm_disk := dk\<rparr>))"

definition validate_and_apply :: "nat \<Rightarrow> manual \<Rightarrow> manual outcome" where
  "validate_and_apply cb m =
     bind_outcome (of_option NullDereference (mm_upperSandboxFsTree m)) (\<lambda>upper.
       bind_outcome (validateSandboxState upper m) (\<lambda>valid.
         if valid
         then bind_outcome (of_option NullDereference (mm_lowerSandboxFsTree m)) (\<lambda>lower.
                Inr (acceptUpperSandboxModifications lower upper cb m))
         else discardUpperSandboxModifications cb m))"

definition onAppliedSandboxModifications :: "bool \<Rightarrow> u64 \<Rightarrow> nat \<Rightarrow> manual \<Rightarrow> manual outcome" where
  "onAppliedSandboxModifications success removedFilesSize cb m = query_over cb RNothing m (\<lambda>m1.
     bind_outcome (sirius_assert (removedFilesSize \<le> mm_upperSandboxFilesSize m1)) (\<lambda>_.
       let upperSize = mm_upperSandboxFilesSize m1 - removedFilesSize
       in if success
          then Inr (answer cb (RApplied True)
                 (m1\<lparr>mm_stats := drop_tree (mm_lowerSandboxFsTree m1) (mm_stats m1),
                     mm_lowerSandboxFsTree := mm_upperSandboxFsTree m1, mm_upperSandboxFsTree := None,
                     mm_upperSandboxFilesSize := upperSize, mm_lowerSandboxFilesSize := upperSize,
                     mm_callManagedHashes := {}\<rparr>))
          else bind_outcome (sirius_assert (mm_lowerSandboxFilesSize m1 = upperSize)) (\<lambda>_.
                 Inr (answer cb (RApplied False)
                   (m1\<lparr>mm_stats := drop_tree (mm_upperSandboxFsTree m1) (mm_stats m1), mm_upperSandboxFsTree := None,
                       mm_upperSandboxFilesSize := 0, mm_callManagedHashes := {}\<rparr>)))))"

subsection \<open>The end of the modification\<close>

definition evaluateStorageHash :: "nat \<Rightarrow> manual \<Rightarrow> (bool \<times> manual) outcome" where
  "evaluateStorageHash cb m =
     bind_outcome (sirius_assert (\<not> mm_isExecutingQuery m)) (\<lambda>_.
       if mm_taskIsInterrupted m then Inr (False, m)
       else bind_outcome (sirius_assert (mm_upperSandboxFsTree m = None)) (\<lambda>_. queried (ComputeSandboxHash cb) m))"

text \<open>
  The function \<^verbatim>\<open>computeSandboxHash\<close> maps over the files: a file written by the modification gets
  its info hash and is renamed to it, or removed when it is empty or the drive has its content
  already.  The size of a missing file throws outside the \<^verbatim>\<open>try\<close>.
\<close>

type_synonym store = "disk \<times> (hash256, u64) std_map"

definition hash_file :: "manual_env \<Rightarrow> torrent_map \<Rightarrow> fs_file \<Rightarrow> store \<Rightarrow> (fs_file \<times> store) outcome" where
  "hash_file env torrents f st =
     (if \<not> fl_isModifiable f then Inr (f, st)
      else bind_outcome (of_option (Exception ''file_size'') (file_data (fl_hash f) (fst st))) (\<lambda>bs.
        let h = (if bs \<noteq> [] then ev_infoHash env bs else 0);
            f' = f\<lparr>fl_hash := h, fl_size := of_nat (length bs), fl_isModifiable := False\<rparr>
        in if h = 0 \<or> map_contains h torrents then Inr (f', remove_file (fl_hash f) (fst st), snd st)
           else Inr (f', rename_file (fl_hash f) h (fst st), map_put h (ev_torrentSize env bs) (snd st))))"

fun hash_children ::
  "manual_env \<Rightarrow> torrent_map \<Rightarrow> (string \<times> child) list \<Rightarrow> store \<Rightarrow> ((string \<times> child) list \<times> store) outcome" where
  "hash_children env torrents [] st = Inr ([], st)"
| "hash_children env torrents ((n, CFolder a cs) # es) st =
     bind_outcome (hash_children env torrents cs st) (\<lambda>(cs', st1).
       bind_outcome (hash_children env torrents es st1) (\<lambda>(es', st2). Inr ((n, CFolder a cs') # es', st2)))"
| "hash_children env torrents ((n, CFile f) # es) st =
     bind_outcome (hash_file env torrents f st) (\<lambda>(f', st1).
       bind_outcome (hash_children env torrents es st1) (\<lambda>(es', st2). Inr ((n, CFile f') # es', st2)))"

definition computeSandboxHash :: "manual_env \<Rightarrow> nat \<Rightarrow> manual \<Rightarrow> manual outcome" where
  "computeSandboxHash env cb m =
     bind_outcome (of_option NullDereference (mm_lowerSandboxFsTree m)) (\<lambda>t.
       bind_outcome (hash_children env (dp_torrentHandleMap (mm_params m)) (snd t) (mm_disk m, mm_torrents m)) (\<lambda>(cs, dk, tfs).
         let t' = (fst t, cs); h = ev_treeHash env t'; oc = dp_opinionController (mm_params m);
             oc' = oc\<lparr>oc_notApprovedCumulativeUploads :=
                        (oc_notApprovedCumulativeUploads oc)\<lparr>cu_modificationId := mm_modificationIdentifier m\<rparr>\<rparr>
         in Inr (executeOnSessionThread (StorageHashEvaluated h cb)
              (m\<lparr>mm_lowerSandboxFsTree := Some t', mm_disk := dk, mm_torrents := tfs, mm_sandboxFsTreeFile := Some t',
                 mm_sandboxRootHash := Some h, mm_params := (mm_params m)\<lparr>dp_opinionController := oc'\<rparr>,
                 mm_restart := run_job SaveNotApproved oc' (mm_restart m)\<rparr>))))"

definition onStorageHashEvaluated :: "hash256 \<Rightarrow> nat \<Rightarrow> manual \<Rightarrow> manual outcome" where
  "onStorageHashEvaluated h cb m = query_over cb RNothing m (\<lambda>m1. Inr (answer cb (RStorageHash h) m1))"

definition applyStorageModifications :: "bool \<Rightarrow> nat \<Rightarrow> manual \<Rightarrow> (bool \<times> manual) outcome" where
  "applyStorageModifications success cb m =
     bind_outcome (sirius_assert (\<not> mm_isExecutingQuery m)) (\<lambda>_.
       if mm_taskIsInterrupted m then Inr (False, m)
       else bind_outcome (sirius_assert (mm_upperSandboxFsTree m = None)) (\<lambda>_.
              if success then Inr (True, executeOnBackgroundThread (AddNewTorrents cb) m)
              else Inr (True, mm_finishTask (answer cb RStorageApplied m))))"

definition addNewTorrentsToSession :: "nat \<Rightarrow> manual \<Rightarrow> manual outcome" where
  "addNewTorrentsToSession cb m =
     bind_outcome (of_option NullDereference (mm_lowerSandboxFsTree m)) (\<lambda>t.
       let torrents = fold (\<lambda>h tm. if h \<noteq> 0 \<and> \<not> map_contains h tm then map_put h \<lparr>tu_valid = True, tu_isUsed = True\<rparr> tm else tm)
             (sorted_list_of_set (getUniqueFiles t {})) (dp_torrentHandleMap (mm_params m))
       in Inr (executeOnSessionThread (NewTorrentAdded cb) (m\<lparr>mm_params := (mm_params m)\<lparr>dp_torrentHandleMap := torrents\<rparr>\<rparr>)))"

definition onNewTorrentAdded :: "nat \<Rightarrow> manual \<Rightarrow> manual outcome" where
  "onNewTorrentAdded cb m =
     bind_outcome (of_option NullDereference (mm_lowerSandboxFsTree m)) (\<lambda>t.
       let torrents = markUsedFiles t (dp_torrentHandleMap (mm_params m))
       in bind_outcome (sirius_assert (\<not> map_contains 0 torrents)) (\<lambda>_.
            Inr (m\<lparr>mm_params := (mm_params m)\<lparr>dp_torrentHandleMap := torrents\<rparr>,
                   mm_removedTorrents := mm_removedTorrents m @ unused_valid torrents,
                   mm_removalCallbacks := mm_removalCallbacks m @ [cb]\<rparr>)))"

text \<open>The callback of \<^verbatim>\<open>removeTorrentsFromSession\<close>, which comes when the torrents are removed.\<close>

definition onTorrentsRemoved :: "manual \<Rightarrow> manual outcome" where
  "onTorrentsRemoved m =
     (case mm_removalCallbacks m of
        [] \<Rightarrow> Inr m
      | cb # cbs \<Rightarrow>
          if mm_destroyed m then Inl UseAfterFree
          else Inr (executeOnBackgroundThread (UnusedTorrentsDeleted cb) (m\<lparr>mm_removalCallbacks := cbs\<rparr>)))"

text \<open>\<^verbatim>\<open>onUnusedTorrentsDeleted\<close>: moving a tree file that does not exist throws, which ends the job with a log entry.\<close>

definition onUnusedTorrentsDeleted :: "nat \<Rightarrow> manual \<Rightarrow> manual outcome" where
  "onUnusedTorrentsDeleted cb m =
     (case mm_sandboxFsTreeFile m of
        None \<Rightarrow> Inr m
      | Some t \<Rightarrow>
          let torrents = dp_torrentHandleMap (mm_params m);
              unused = map fst (filter (\<lambda>e. \<not> tu_isUsed (snd e)) torrents)
          in bind_outcome (sirius_assert (0 \<notin> set unused)) (\<lambda>_.
               Inr (executeOnSessionThread (AppliedStorageModifications cb)
                 (m\<lparr>mm_sandboxFsTreeFile := None, mm_fsTreeFile := Some t, mm_sandboxFsTreeHandle := True,
                    mm_restart := run_job (SaveApproved (mm_modificationIdentifier m)) (dp_opinionController (mm_params m)) (mm_restart m),
                    mm_disk := fold remove_file unused (mm_disk m), mm_torrents := fold map_erase unused (mm_torrents m),
                    mm_params := (mm_params m)\<lparr>dp_torrentHandleMap := erase_unused torrents\<rparr>\<rparr>))))"

definition onAppliedStorageModifications :: "nat \<Rightarrow> manual \<Rightarrow> manual outcome" where
  "onAppliedStorageModifications cb m =
     bind_outcome (of_option AssertionFailure (mm_sandboxRootHash m)) (\<lambda>h.
       bind_outcome (sirius_assert (mm_sandboxFsTreeHandle m)) (\<lambda>_.
         bind_outcome (of_option NullDereference (mm_lowerSandboxFsTree m)) (\<lambda>t.
           Inr (mm_finishTask (answer cb RStorageApplied
             (m\<lparr>mm_stats := release_child (as_child (dp_fsTree (mm_params m))) (mm_stats m), mm_lowerSandboxFsTree := None,
                mm_params := (mm_params m)\<lparr>dp_fsTree := t, dp_rootHash := h,
                  dp_lastApprovedModification := mm_modificationIdentifier m\<rparr>\<rparr>))))))"

definition clearTrash :: "manual \<Rightarrow> manual" where
  "clearTrash m =
     (let files = (case mm_lowerSandboxFsTree m of None \<Rightarrow> id | Some t \<Rightarrow> getUniqueFiles t)
                    (case mm_upperSandboxFsTree m of None \<Rightarrow> {} | Some t \<Rightarrow> getUniqueFiles t {});
          trash = sorted_list_of_set {h \<in> files. \<not> map_contains h (dp_torrentHandleMap (mm_params m))}
      in executeOnSessionThread CloseAllFiles
           (m\<lparr>mm_disk := fold remove_file trash (mm_disk m), mm_torrents := fold map_erase trash (mm_torrents m)\<rparr>))"

subsection \<open>The two threads\<close>

definition background_run :: "manual_env \<Rightarrow> nat \<Rightarrow> background_job \<Rightarrow> manual \<Rightarrow> manual outcome" where
  "background_run env k j m =
     (case j of
        CreateStream name mode fileId fsPath cb \<Rightarrow> Inr (createStream env name mode fileId fsPath cb m)
      | ReadStream s bytes cb \<Rightarrow> Inr (readStream s bytes cb m)
      | WriteStream s buffer cb \<Rightarrow> Inr (writeStream k s buffer cb m)
      | FlushStream s cb \<Rightarrow> Inr (flushStream s cb m)
      | CloseStream s fileId cb \<Rightarrow> Inr (closeStream s fileId cb m)
      | RemoveUnusedFiles hs moved cb \<Rightarrow> Inr (removeUnusedFiles hs moved cb m)
      | ObtainFileSize h cb \<Rightarrow> Inr (obtainFileSize h cb m)
      | CloseStreams ss c \<Rightarrow> Inr (closeStreams ss c m)
      | ValidateAndApply cb \<Rightarrow> validate_and_apply cb m
      | DiscardModifications cb \<Rightarrow> discardUpperSandboxModifications cb m
      | ComputeSandboxHash cb \<Rightarrow> computeSandboxHash env cb m
      | AddNewTorrents cb \<Rightarrow> addNewTorrentsToSession cb m
      | UnusedTorrentsDeleted cb \<Rightarrow> onUnusedTorrentsDeleted cb m
      | ClearTrash \<Rightarrow> Inr (clearTrash m)
      | ClearSandbox \<Rightarrow> Inr (executeOnSessionThread RunNextTask (m\<lparr>mm_sandboxFsTreeFile := None\<rparr>)))"

definition session_run :: "session_job \<Rightarrow> manual \<Rightarrow> manual outcome" where
  "session_run j m =
     (case j of
        FileOpened s mode fileId fsPath cleared cb \<Rightarrow> onFileOpened s mode fileId fsPath cleared cb m
      | ReadDone bytes cb \<Rightarrow> onReadFile bytes cb m
      | FileWritten success cb \<Rightarrow> onFileWritten success cb m
      | Flushed success cb \<Rightarrow> onFlushed success cb m
      | FileClosed fileId success cb \<Rightarrow> onFileClosed fileId success cb m
      | Removed sz cb \<Rightarrow> onRemoved sz cb m
      | Moved sz cb \<Rightarrow> onMoved sz cb m
      | FileSizeObtained sz cb \<Rightarrow> onFileSizeObtained sz cb m
      | StreamsClosed (SandboxStreamsClosed success cb) \<Rightarrow> onSandboxModificationStreamsClosed success cb m
      | StreamsClosed TaskStreamsClosed \<Rightarrow> Inr (executeOnBackgroundThread ClearSandbox m)
      | AppliedSandboxModifications success sz cb \<Rightarrow> onAppliedSandboxModifications success sz cb m
      | StorageHashEvaluated h cb \<Rightarrow> onStorageHashEvaluated h cb m
      | NewTorrentAdded cb \<Rightarrow> onNewTorrentAdded cb m
      | AppliedStorageModifications cb \<Rightarrow> onAppliedStorageModifications cb m
      | CloseAllFiles \<Rightarrow> closeFiles TaskStreamsClosed m
      | RunNextTask \<Rightarrow> Inr (m\<lparr>mm_destroyed := True\<rparr>))"

text \<open>
  The next job of a thread.  A job that finds the task destroyed uses a freed object.
\<close>

definition run_background :: "manual_env \<Rightarrow> nat \<Rightarrow> manual \<Rightarrow> manual outcome" where
  "run_background env k m =
     (case mm_background m of
        [] \<Rightarrow> Inr m
      | j # js \<Rightarrow> if mm_destroyed m then Inl UseAfterFree else background_run env k j (m\<lparr>mm_background := js\<rparr>))"

definition run_session :: "manual \<Rightarrow> manual outcome" where
  "run_session m =
     (case mm_session m of
        [] \<Rightarrow> Inr m
      | j # js \<Rightarrow> if mm_destroyed m then Inl UseAfterFree else session_run j (m\<lparr>mm_session := js\<rparr>))"

subsection \<open>Requests\<close>

datatype request =
    InitiateSandbox "string list"
  | OpenFile open_file_mode string
  | ReadFile u64 u64
  | WriteFile u64 "byte list"
  | Flush u64
  | CloseFile u64
  | RemoveEntry string
  | MoveEntry string string
  | PathExist string
  | PathIsFile string
  | FileSize string
  | CreateDirectories string
  | IteratorCreate string bool
  | IteratorDestroy u64
  | IteratorHasNext u64
  | IteratorNext u64
  | ApplySandbox bool
  | EvaluateStorageHash
  | ApplyStorage bool

definition task_request :: "manual_env \<Rightarrow> request \<Rightarrow> nat \<Rightarrow> manual \<Rightarrow> (bool \<times> manual) outcome" where
  "task_request env r cb m =
     (case r of
        InitiateSandbox ps \<Rightarrow> initiateSandboxModifications ps cb m
      | OpenFile mode p \<Rightarrow> openFile env mode p cb m
      | ReadFile i n \<Rightarrow> readFile i n cb m
      | WriteFile i bs \<Rightarrow> writeFile i bs cb m
      | Flush i \<Rightarrow> flush i cb m
      | CloseFile i \<Rightarrow> closeFile i cb m
      | RemoveEntry p \<Rightarrow> removeFsTreeEntry p cb m
      | MoveEntry p q \<Rightarrow> moveFsTreeEntry p q cb m
      | PathExist p \<Rightarrow> pathExist p cb m
      | PathIsFile p \<Rightarrow> pathIsFile p cb m
      | FileSize p \<Rightarrow> fileSize p cb m
      | CreateDirectories p \<Rightarrow> createDirectories p cb m
      | IteratorCreate p b \<Rightarrow> folderIteratorCreate p b cb m
      | IteratorDestroy i \<Rightarrow> folderIteratorDestroy i cb m
      | IteratorHasNext i \<Rightarrow> folderIteratorHasNext i cb m
      | IteratorNext i \<Rightarrow> folderIteratorNext i cb m
      | ApplySandbox b \<Rightarrow> applySandboxModifications b cb m
      | EvaluateStorageHash \<Rightarrow> evaluateStorageHash cb m
      | ApplyStorage b \<Rightarrow> applyStorageModifications b cb m)"

text \<open>
  The handlers of \<^verbatim>\<open>FlatDrive.cpp\<close> that pass a request on: without a task, or when the task refuses,
  the callback is called with nothing.
\<close>

definition forward_request :: "manual_env \<Rightarrow> request \<Rightarrow> nat \<Rightarrow> manual \<Rightarrow> manual outcome" where
  "forward_request env r cb m =
     (if mm_destroyed m then Inr (answer cb RNothing m)
      else bind_outcome (task_request env r cb m) (\<lambda>(accepted, m').
             Inr (if accepted then m' else answer cb RNothing m')))"

datatype manual_event = Request request nat | Terminate | Background nat | Session | TorrentsRemoved

definition manual_handle :: "manual_env \<Rightarrow> manual_event \<Rightarrow> manual \<Rightarrow> manual outcome" where
  "manual_handle env e m =
     (case e of
        Request r cb \<Rightarrow> forward_request env r cb m
      | Terminate \<Rightarrow> Inr (if mm_destroyed m then m else mm_terminate m)
      | Background k \<Rightarrow> run_background env k m
      | Session \<Rightarrow> run_session m
      | TorrentsRemoved \<Rightarrow> onTorrentsRemoved m)"

text \<open>A run of the task: it ends with the first fault.\<close>

primrec manual_run :: "manual_env \<Rightarrow> manual_event list \<Rightarrow> manual \<Rightarrow> manual outcome" where
  "manual_run env [] m = Inr m"
| "manual_run env (e # es) m = bind_outcome (manual_handle env e m) (manual_run env es)"

end
