(* ===== verification/Manual_Props.thy ===== *)
theory Manual_Props
  imports Manual_Task
begin

section \<open>What the storage calls of a contract keep\<close>

text \<open>
  Theorems on the manual modifications of theory \<open>Manual_Task\<close>: the quota of written bytes, the
  isolation of the drive from a modification that is not applied, the answers to requests, the
  application of a modification, and the inputs on which a task fails.
\<close>

subsection \<open>Taking handlers apart\<close>

lemmas manual_basics =
  answer_def answered_def queried_def start_query_def executeOnBackgroundThread_def executeOnSessionThread_def
  mm_finishTask_def mm_terminate_def

lemma on_upperE:
  assumes "on_upper m f = Inr (b, m')"
  obtains "\<not> b" "m' = m" | t where "mm_upperSandboxFsTree m = Some t" "\<not> mm_isExecutingQuery m" "\<not> mm_taskIsInterrupted m"
    "f t = Inr (b, m')"
  using assms by (auto simp: on_upper_def bind_outcome_Inr_iff split: option.splits if_splits)

lemma query_overE:
  assumes "query_over cb r m f = Inr m'"
  obtains "m' = mm_finishTask (answer cb r (m\<lparr>mm_isExecutingQuery := False\<rparr>))" "mm_taskIsInterrupted m"
  | "f (m\<lparr>mm_isExecutingQuery := False\<rparr>) = Inr m'" "\<not> mm_taskIsInterrupted m"
proof -
  from assms have "mm_isExecutingQuery m" by (simp add: query_over_def bind_outcome_Inr_iff)
  then have "query_over cb r m f =
    (if mm_taskIsInterrupted m then Inr (mm_finishTask (answer cb r (m\<lparr>mm_isExecutingQuery := False\<rparr>)))
     else f (m\<lparr>mm_isExecutingQuery := False\<rparr>))" by (simp add: query_over_def)
  with assms that show thesis by (cases "mm_taskIsInterrupted m") simp_all
qed

lemma add_modifiable_Inr:
  "add_modifiable env path t m = Inr (h, t', m') \<longleftrightarrow>
     (\<exists>st'. addModifiableFile (ev_random env (mm_drawn m)) (parent_path path) (filename path) t (mm_stats m) = Inr (h, t', st') \<and>
        m' = m\<lparr>mm_drawn := Suc (mm_drawn m), mm_stats := st'\<rparr>)"
  by (cases t') (auto simp: add_modifiable_def bind_outcome_Inr_iff)

lemma manage_Inr:
  "manage h m = Inr m' \<longleftrightarrow> (\<exists>k. h = Some k \<and> m' = m\<lparr>mm_callManagedHashes := insert k (mm_callManagedHashes m)\<rparr>)"
  by (auto simp: manage_def bind_outcome_Inr_iff)

text \<open>What the preparation of a file to be written changes.\<close>

lemma prepare_write_fields:
  assumes "prepare_write env path d t m = Inr (Some (t', m'))"
  shows "\<exists>n st' hs. m' = m\<lparr>mm_drawn := n, mm_stats := st', mm_callManagedHashes := hs\<rparr>"
proof -
  have "m' = m\<lparr>mm_drawn := mm_drawn m', mm_stats := mm_stats m', mm_callManagedHashes := mm_callManagedHashes m'\<rparr>"
    using assms
    by (auto simp: prepare_write_def bind_outcome_Inr_iff add_modifiable_Inr manage_Inr split: option.splits child.splits if_splits)
  then show ?thesis by blast
qed

lemma obtainUnusedFiles_fields:
  "obtainUnusedFiles c m = (hs, m') \<Longrightarrow> hs \<subseteq> mm_callManagedHashes m \<and> m' = m\<lparr>mm_callManagedHashes := mm_callManagedHashes m - hs\<rparr>"
  by (auto simp: obtainUnusedFiles_def Let_def)

text \<open>The ways through \<^verbatim>\<open>openFile\<close>; \<open>m1\<close> is the state after the check of the limit and the draw of the number.\<close>

definition open_begun :: "nat \<Rightarrow> manual \<Rightarrow> manual" where
  "open_begun cb m =
     (let m0 = (if mm_maxOpenedStreams m \<le> of_nat (length (mm_openFilesRead m)) + of_nat (length (mm_openFilesWrite m))
                then answer cb (ROpenFile None) m else m)
      in m0\<lparr>mm_totalFilesOpened := mm_totalFilesOpened m0 + 1\<rparr>)"

lemma open_begun_fields:
  "\<exists>as n. open_begun cb m = m\<lparr>mm_answers := as, mm_totalFilesOpened := n\<rparr>"
proof -
  have "open_begun cb m = m\<lparr>mm_answers := mm_answers (open_begun cb m), mm_totalFilesOpened := mm_totalFilesOpened (open_begun cb m)\<rparr>"
    by (simp add: open_begun_def answer_def Let_def)
  then show ?thesis by blast
qed

lemma openFileE:
  assumes "openFile env mode p cb m = Inr (b, m')"
  obtains (refused) "\<not> b" "m' = m"
  | (failed) "b" "m' = answer cb (ROpenFile None) (open_begun cb m)"
  | (reading) t where "mm_upperSandboxFsTree m = Some t" "mode = READ"
      "start_open READ p (mm_totalFilesOpened m) cb t (open_begun cb m) = Inr (b, m')"
  | (writing) t d t' m2 where "mm_upperSandboxFsTree m = Some t" "mode = WRITE" "getFolderPtr (parent_path p) t = Some d"
      "prepare_write env p d t (open_begun cb m) = Inr (Some (t', m2))"
      "start_open WRITE p (mm_totalFilesOpened m) cb t' m2 = Inr (b, m')"
proof -
  let ?full = "mm_maxOpenedStreams m \<le> of_nat (length (mm_openFilesRead m)) + of_nat (length (mm_openFilesWrite m))"
  have n: "mm_totalFilesOpened (if ?full then answer cb (ROpenFile None) m else m) = mm_totalFilesOpened m"
    by (simp add: answer_def)
  from assms have "on_upper m (\<lambda>t. case getFolderPtr (parent_path p) t of None \<Rightarrow> answered cb (ROpenFile None) (open_begun cb m)
       | Some d \<Rightarrow> if \<not> checkUnlock p t (mm_stats (open_begun cb m)) then answered cb (ROpenFile None) (open_begun cb m)
          else case mode of READ \<Rightarrow> start_open READ p (mm_totalFilesOpened m) cb t (open_begun cb m)
            | WRITE \<Rightarrow> bind_outcome (prepare_write env p d t (open_begun cb m)) (\<lambda>prepared.
               case prepared of None \<Rightarrow> answered cb (ROpenFile None) (open_begun cb m)
               | Some (t', m2) \<Rightarrow> start_open WRITE p (mm_totalFilesOpened m) cb t' m2)) = Inr (b, m')"
    by (simp only: openFile_def open_begun_def Let_def n)
  then show thesis
  proof (rule on_upperE)
    fix t
    assume t: "mm_upperSandboxFsTree m = Some t"
    assume "(case getFolderPtr (parent_path p) t of None \<Rightarrow> answered cb (ROpenFile None) (open_begun cb m)
       | Some d \<Rightarrow> if \<not> checkUnlock p t (mm_stats (open_begun cb m)) then answered cb (ROpenFile None) (open_begun cb m)
          else case mode of READ \<Rightarrow> start_open READ p (mm_totalFilesOpened m) cb t (open_begun cb m)
            | WRITE \<Rightarrow> bind_outcome (prepare_write env p d t (open_begun cb m)) (\<lambda>prepared.
               case prepared of None \<Rightarrow> answered cb (ROpenFile None) (open_begun cb m)
               | Some (t', m2) \<Rightarrow> start_open WRITE p (mm_totalFilesOpened m) cb t' m2)) = Inr (b, m')"
    then show thesis
      using failed reading [OF t] writing [OF t]
      by (auto simp: answered_def bind_outcome_Inr_iff split: option.splits if_splits open_file_mode.splits)
  qed (use refused in simp)
qed

subsection \<open>Isolation of the drive\<close>

text \<open>
  The files of the drive are those that have a torrent: \<open>D\<close> is the set of their hashes and \<open>dk0\<close> the
  disk at the beginning.  The disk keeps them when their names lead to the same inodes with the
  same data, and no other name leads to one of these inodes.
\<close>

definition drive_inodes :: "hash256 set \<Rightarrow> disk \<Rightarrow> nat set" where
  "drive_inodes D dk0 = {i. \<exists>h\<in>D. map_find h (dk_names dk0) = Some i}"

definition disk_kept :: "hash256 set \<Rightarrow> disk \<Rightarrow> disk \<Rightarrow> bool" where
  "disk_kept D dk0 dk \<longleftrightarrow> map_ok (dk_names dk) \<and> (\<forall>h\<in>D. map_find h (dk_names dk) = map_find h (dk_names dk0)) \<and>
     (\<forall>i\<in>drive_inodes D dk0. dk_data dk i = dk_data dk0 i \<and> i < dk_next dk) \<and>
     (\<forall>h i. h \<notin> D \<longrightarrow> map_find h (dk_names dk) = Some i \<longrightarrow> i \<notin> drive_inodes D dk0)"

lemma disk_kept_file_data: "disk_kept D dk0 dk \<Longrightarrow> h \<in> D \<Longrightarrow> file_data h dk = file_data h dk0"
  by (auto simp: disk_kept_def file_data_def drive_inodes_def map_option_case split: option.splits)

lemma disk_kept_start: "disk_ok dk0 \<Longrightarrow> disk_kept D dk0 dk0"
proof -
  assume ok: "disk_ok dk0"
  have "i \<notin> drive_inodes D dk0" if "h \<notin> D" "map_find h (dk_names dk0) = Some i" for h i
  proof
    assume "i \<in> drive_inodes D dk0"
    then obtain h' where "h' \<in> D" "map_find h' (dk_names dk0) = Some i" by (auto simp: drive_inodes_def)
    with that ok have "h' = h" by (auto simp: disk_ok_def map_contains_find inj_on_def)
    with that \<open>h' \<in> D\<close> show False by simp
  qed
  then show ?thesis using ok by (auto simp: disk_kept_def disk_ok_def drive_inodes_def)
qed

lemma remove_file_kept: "disk_kept D dk0 dk \<Longrightarrow> h \<notin> D \<Longrightarrow> disk_kept D dk0 (remove_file h dk)"
  by (auto simp: disk_kept_def remove_file_def map_find_erase)

lemma rename_file_kept: "disk_kept D dk0 dk \<Longrightarrow> a \<notin> D \<Longrightarrow> b \<notin> D \<Longrightarrow> disk_kept D dk0 (rename_file a b dk)"
  by (auto simp: disk_kept_def rename_file_def map_find_erase map_find_put split: option.splits if_splits)

lemma remove_many_kept:
  "disk_kept D dk0 dk \<Longrightarrow> set hs \<inter> D = {} \<Longrightarrow> disk_kept D dk0 (fold remove_file hs dk)"
  "disk_kept D dk0 dk \<Longrightarrow> set hs \<inter> D = {} \<Longrightarrow> disk_kept D dk0 (snd (remove_files hs n dk))"
  "disk_kept D dk0 dk \<Longrightarrow> set hs \<inter> D = {} \<Longrightarrow> disk_kept D dk0 (snd (remove_counted hs n dk))"
proof -
  show "disk_kept D dk0 dk \<Longrightarrow> set hs \<inter> D = {} \<Longrightarrow> disk_kept D dk0 (fold remove_file hs dk)"
    by (induction hs arbitrary: dk) (auto simp: remove_file_kept)
  show "disk_kept D dk0 dk \<Longrightarrow> set hs \<inter> D = {} \<Longrightarrow> disk_kept D dk0 (snd (remove_files hs n dk))"
    by (induction hs arbitrary: dk n) (auto simp: remove_file_kept split: option.splits)
  show "disk_kept D dk0 dk \<Longrightarrow> set hs \<inter> D = {} \<Longrightarrow> disk_kept D dk0 (snd (remove_counted hs n dk))"
    by (induction hs arbitrary: dk n) (auto simp: remove_file_kept)
qed

lemma open_write_kept:
  assumes "disk_kept D dk0 dk" and "h \<notin> D" and "open_write h dk = (s, dk')"
  shows "disk_kept D dk0 dk' \<and> sm_inode s \<notin> drive_inodes D dk0 \<and> sm_buffer s = []"
  using assms
  by (auto simp: disk_kept_def open_write_def stream_on_def map_find_put less_SucI split: option.splits if_splits)

lemma data_elsewhere_kept:
  assumes "disk_kept D dk0 dk" and "i \<notin> drive_inodes D dk0" and "dk_names dk' = dk_names dk" and "dk_next dk' = dk_next dk"
    and "\<And>j. j \<noteq> i \<Longrightarrow> dk_data dk' j = dk_data dk j"
  shows "disk_kept D dk0 dk'"
  using assms by (auto simp: disk_kept_def) metis

lemma stream_write_kept:
  assumes "disk_kept D dk0 dk" and "sm_inode s \<notin> drive_inodes D dk0" and "stream_write k bs s dk = (s', dk')"
  shows "disk_kept D dk0 dk' \<and> sm_inode s' = sm_inode s"
  using stream_ops_fields(1) [OF assms(3)] stream_ops_elsewhere(1) [OF assms(3)] data_elsewhere_kept [OF assms(1,2), of dk'] by blast

text \<open>A stream with unwritten bytes is not on a file of the drive, so flushing and closing spare the drive.\<close>

definition harmless :: "nat set \<Rightarrow> stream \<Rightarrow> bool" where
  "harmless I s \<longleftrightarrow> sm_buffer s = [] \<or> sm_inode s \<notin> I"

lemma stream_flush_kept:
  assumes "disk_kept D dk0 dk" and "harmless (drive_inodes D dk0) s" and "stream_flush s dk = (s', dk')"
  shows "disk_kept D dk0 dk' \<and> sm_inode s' = sm_inode s \<and> harmless (drive_inodes D dk0) s'"
proof (cases "sm_buffer s = []")
  case True
  then show ?thesis using assms by (auto simp: stream_flush_def)
next
  case False
  then have "sm_inode s \<notin> drive_inodes D dk0" using assms(2) by (simp add: harmless_def)
  then show ?thesis
    using stream_ops_fields(2) [OF assms(3)] stream_ops_elsewhere(2) [OF assms(3)] data_elsewhere_kept [OF assms(1), of _ dk']
    by (auto simp: harmless_def)
qed

lemma stream_close_kept:
  assumes "disk_kept D dk0 dk" and "harmless (drive_inodes D dk0) s" and "stream_close s dk = (s', dk')"
  shows "disk_kept D dk0 dk' \<and> sm_inode s' = sm_inode s \<and> harmless (drive_inodes D dk0) s'"
  using assms stream_flush_kept [OF assms(1,2)]
  by (auto simp: stream_close_def harmless_def split: prod.splits)

lemma close_stream_fields:
  "\<exists>ss dk. close_stream s m = m\<lparr>mm_streams := ss, mm_disk := dk\<rparr>"
  "\<exists>ss' dk'. fold close_stream ids m = m\<lparr>mm_streams := ss', mm_disk := dk'\<rparr>"
proof -
  show one: "\<exists>ss dk. close_stream s m = m\<lparr>mm_streams := ss, mm_disk := dk\<rparr>" for s m
    by (auto simp: close_stream_def split: prod.splits)
  show "\<exists>ss' dk'. fold close_stream ids m = m\<lparr>mm_streams := ss', mm_disk := dk'\<rparr>"
  proof (induction ids arbitrary: m)
    case Nil
    have "m = m\<lparr>mm_streams := mm_streams m, mm_disk := mm_disk m\<rparr>" by simp
    then show ?case by (metis fold_simps(1))
  next
    case (Cons s ids)
    from one [of s m] obtain ss dk where "close_stream s m = m\<lparr>mm_streams := ss, mm_disk := dk\<rparr>" by blast
    with Cons [of "close_stream s m"] show ?case by auto
  qed
qed

text \<open>The jobs and the handles that touch files, checked against the files of the drive.\<close>

definition writable :: "nat set \<Rightarrow> stream list \<Rightarrow> nat \<Rightarrow> bool" where
  "writable I ss s \<longleftrightarrow> s < length ss \<and> sm_inode (ss ! s) \<notin> I"

fun background_ok :: "hash256 set \<Rightarrow> nat set \<Rightarrow> stream list \<Rightarrow> background_job \<Rightarrow> bool" where
  "background_ok D I ss (CreateStream h mode i p cb) \<longleftrightarrow> mode = WRITE \<longrightarrow> h \<notin> D"
| "background_ok D I ss (WriteStream s bs cb) \<longleftrightarrow> writable I ss s"
| "background_ok D I ss (FlushStream s cb) \<longleftrightarrow> s < length ss"
| "background_ok D I ss (CloseStream s i cb) \<longleftrightarrow> s < length ss"
| "background_ok D I ss (CloseStreams ids c) \<longleftrightarrow> list_all (\<lambda>s. s < length ss) ids"
| "background_ok D I ss (RemoveUnusedFiles hs moved cb) \<longleftrightarrow> hs \<inter> D = {}"
| "background_ok D I ss (AddNewTorrents cb) \<longleftrightarrow> False"
| "background_ok D I ss (UnusedTorrentsDeleted cb) \<longleftrightarrow> False"
| "background_ok D I ss _ \<longleftrightarrow> True"

fun session_ok :: "nat set \<Rightarrow> stream list \<Rightarrow> session_job \<Rightarrow> bool" where
  "session_ok I ss (FileOpened s mode i p c cb) \<longleftrightarrow>
     s < length ss \<and> (mode = WRITE \<longrightarrow> sm_open (ss ! s) \<longrightarrow> sm_inode (ss ! s) \<notin> I)"
| "session_ok I ss (NewTorrentAdded cb) \<longleftrightarrow> False"
| "session_ok I ss (AppliedStorageModifications cb) \<longleftrightarrow> False"
| "session_ok I ss _ \<longleftrightarrow> True"

definition own_file :: "hash256 set \<Rightarrow> fs_file \<Rightarrow> bool" where
  "own_file D f \<longleftrightarrow> (fl_isModifiable f \<longrightarrow> fl_hash f \<notin> D)"

definition own_tree :: "hash256 set \<Rightarrow> folder option \<Rightarrow> bool" where
  "own_tree D t \<longleftrightarrow> (case t of None \<Rightarrow> True | Some d \<Rightarrow> tree_ok d \<and> all_files (own_file D) (snd d))"

definition same_drive :: "drive_params \<Rightarrow> drive_params \<Rightarrow> bool" where
  "same_drive dp0 dp \<longleftrightarrow> dp_torrentHandleMap dp = dp_torrentHandleMap dp0 \<and> dp_fsTree dp = dp_fsTree dp0 \<and>
     dp_rootHash dp = dp_rootHash dp0 \<and> dp_lastApprovedModification dp = dp_lastApprovedModification dp0 \<and>
     dp_maxSize dp = dp_maxSize dp0"

definition drive_files :: "drive_params \<Rightarrow> hash256 set" where
  "drive_files dp = {h. map_contains h (dp_torrentHandleMap dp)}"

definition isolated :: "drive_params \<Rightarrow> disk \<Rightarrow> manual \<Rightarrow> bool" where
  "isolated dp0 dk0 m \<longleftrightarrow>
     (let D = drive_files dp0; I = drive_inodes D dk0
      in same_drive dp0 (mm_params m) \<and> disk_kept D dk0 (mm_disk m) \<and> list_all (harmless I) (mm_streams m) \<and>
         list_all (\<lambda>e. writable I (mm_streams m) (of_stream (snd e))) (mm_openFilesWrite m) \<and>
         list_all (\<lambda>e. of_stream (snd e) < length (mm_streams m)) (mm_openFilesRead m) \<and>
         list_all (background_ok D I (mm_streams m)) (mm_background m) \<and> list_all (session_ok I (mm_streams m)) (mm_session m) \<and>
         mm_callManagedHashes m \<inter> D = {} \<and> own_tree D (mm_upperSandboxFsTree m) \<and> own_tree D (mm_lowerSandboxFsTree m) \<and>
         mm_removalCallbacks m = [])"

lemma isolated_irrelevant [simp]:
  "isolated dp0 dk0 (mm_answers_update f1 m) = isolated dp0 dk0 m"
  "isolated dp0 dk0 (mm_isExecutingQuery_update f2 m) = isolated dp0 dk0 m"
  "isolated dp0 dk0 (mm_taskIsInterrupted_update f2 m) = isolated dp0 dk0 m"
  "isolated dp0 dk0 (mm_taskIsFinished_update f2 m) = isolated dp0 dk0 m"
  "isolated dp0 dk0 (mm_stats_update f3 m) = isolated dp0 dk0 m"
  "isolated dp0 dk0 (mm_totalFilesOpened_update f4 m) = isolated dp0 dk0 m"
  "isolated dp0 dk0 (mm_totalFolderIteratorsCreated_update f4 m) = isolated dp0 dk0 m"
  "isolated dp0 dk0 (mm_folderIterators_update f5 m) = isolated dp0 dk0 m"
  "isolated dp0 dk0 (mm_drawn_update f6 m) = isolated dp0 dk0 m"
  "isolated dp0 dk0 (mm_upperSandboxFilesSize_update f4 m) = isolated dp0 dk0 m"
  "isolated dp0 dk0 (mm_lowerSandboxFilesSize_update f4 m) = isolated dp0 dk0 m"
  "isolated dp0 dk0 (mm_torrents_update f7 m) = isolated dp0 dk0 m"
  "isolated dp0 dk0 (mm_sandboxFsTreeFile_update f8 m) = isolated dp0 dk0 m"
  "isolated dp0 dk0 (mm_restart_update f9 m) = isolated dp0 dk0 m"
  "isolated dp0 dk0 (mm_sandboxRootHash_update f10 m) = isolated dp0 dk0 m"
  "isolated dp0 dk0 (mm_destroyed_update f2 m) = isolated dp0 dk0 m"
  by (simp_all add: isolated_def)

lemma isolated_answer [simp]: "isolated dp0 dk0 (answer cb r m) = isolated dp0 dk0 m"
  by (simp add: answer_def)

lemma isolated_background:
  "isolated dp0 dk0 (executeOnBackgroundThread j m) \<longleftrightarrow> isolated dp0 dk0 m \<and>
     background_ok (drive_files dp0) (drive_inodes (drive_files dp0) dk0) (mm_streams m) j"
  by (auto simp: isolated_def executeOnBackgroundThread_def Let_def)

lemma isolated_query:
  "isolated dp0 dk0 (start_query j m) \<longleftrightarrow> isolated dp0 dk0 m \<and>
     background_ok (drive_files dp0) (drive_inodes (drive_files dp0) dk0) (mm_streams m) j"
  by (simp add: start_query_def isolated_background)

lemma isolated_session:
  "isolated dp0 dk0 (executeOnSessionThread j m) \<longleftrightarrow> isolated dp0 dk0 m \<and>
     session_ok (drive_inodes (drive_files dp0) dk0) (mm_streams m) j"
  by (auto simp: isolated_def executeOnSessionThread_def Let_def)

lemma isolated_finish [simp]: "isolated dp0 dk0 (mm_finishTask m) = isolated dp0 dk0 m"
  by (simp add: mm_finishTask_def isolated_background)

lemma isolated_terminate [simp]: "isolated dp0 dk0 (mm_terminate m) = isolated dp0 dk0 m"
  by (simp add: mm_terminate_def Let_def)

lemma isolated_upper:
  "isolated dp0 dk0 m \<Longrightarrow> own_tree (drive_files dp0) t \<Longrightarrow> isolated dp0 dk0 (m\<lparr>mm_upperSandboxFsTree := t\<rparr>)"
  by (simp add: isolated_def Let_def)

lemma isolated_managed:
  "isolated dp0 dk0 m \<Longrightarrow> hs \<inter> drive_files dp0 = {} \<Longrightarrow> isolated dp0 dk0 (m\<lparr>mm_callManagedHashes := hs\<rparr>)"
  by (simp add: isolated_def Let_def)

lemma isolated_upperD: "isolated dp0 dk0 m \<Longrightarrow> mm_upperSandboxFsTree m = Some t \<Longrightarrow> own_tree (drive_files dp0) (Some t)"
  by (auto simp: isolated_def Let_def)

lemma own_file_rename: "own_file D (f\<lparr>fl_name := n\<rparr>) = own_file D f"
  by (simp add: own_file_def)

lemma own_new_file: "h \<notin> D \<Longrightarrow> own_file D (mk_file n h 0 True i)"
  by (simp add: own_file_def mk_file_def)

lemma own_addFolder: "own_tree D (Some t) \<Longrightarrow> addFolder p t st = Inr (ok, t', st') \<Longrightarrow> own_tree D (Some t')"
  unfolding own_tree_def option.case by (metis addFolder_files addFolder_tree_ok)

lemma own_removeFlat: "own_tree D (Some t) \<Longrightarrow> removeFlat p t st = Inr (ok, t', st', em) \<Longrightarrow> own_tree D (Some t')"
  unfolding own_tree_def option.case by (metis removeFlat_files removeFlat_tree_ok)

lemma own_moveFlat: "own_tree D (Some t) \<Longrightarrow> moveFlat p q t st = Inr (ok, t', st', em) \<Longrightarrow> own_tree D (Some t')"
  by (auto simp: own_tree_def moveFlat_tree_ok own_file_rename intro: moveFlat_files)

lemma own_addModifiableFile:
  "own_tree D (Some t) \<Longrightarrow> addModifiableFile h p n t st = Inr (r, t', st') \<Longrightarrow> h \<notin> D \<Longrightarrow> own_tree D (Some t')"
  by (auto simp: own_tree_def addModifiableFile_tree_ok own_new_file intro: addModifiableFile_files)

subsubsection \<open>Requests\<close>

lemma prepare_write_isolated:
  assumes "prepare_write env p d t m = Inr (Some (t', m'))" and "isolated dp0 dk0 m" and "own_tree (drive_files dp0) (Some t)"
    and "\<And>n. ev_random env n \<notin> drive_files dp0" and "getFolderPtr (parent_path p) t = Some d"
  shows "isolated dp0 dk0 m' \<and> own_tree (drive_files dp0) (Some t') \<and>
    (\<forall>f. Option.bind (getFolderPtr (parent_path p) t') (findChild (filename p)) = Some (CFile f) \<longrightarrow> fl_hash f \<notin> drive_files dp0)"
proof -
  let ?D = "drive_files dp0"
  let ?at = "\<lambda>t. Option.bind (getFolderPtr (parent_path p) t) (findChild (filename p))"
  have add: "isolated dp0 dk0 m3 \<and> own_tree ?D (Some t2) \<and> (\<forall>f. ?at t2 = Some (CFile f) \<longrightarrow> fl_hash f \<notin> ?D)"
    if "add_modifiable env p t1 m1 = Inr (k, t2, m2)" "manage k m2 = Inr m3" "isolated dp0 dk0 m1" "own_tree ?D (Some t1)"
    for k t1 t2 m1 m2 m3
  proof -
    from that(1,2) obtain kk st' where 1: "addModifiableFile (ev_random env (mm_drawn m1)) (parent_path p) (filename p) t1 (mm_stats m1) = Inr (Some kk, t2, st')"
      and 2: "m3 = m1\<lparr>mm_drawn := Suc (mm_drawn m1), mm_stats := st', mm_callManagedHashes := insert kk (mm_callManagedHashes m1)\<rparr>"
      by (auto simp: add_modifiable_Inr manage_Inr)
    from addModifiableFile_found [OF _ 1] that(4)
    have "kk = ev_random env (mm_drawn m1)" "\<forall>f. ?at t2 = Some (CFile f) \<longrightarrow> fl_hash f \<notin> ?D"
      using assms(4) by (auto simp: own_tree_def getFolderPtr_def mk_file_def)
    then show ?thesis
      using own_addModifiableFile [OF that(4) 1] assms(4) that(3) by (auto simp: 2 isolated_def Let_def)
  qed
  show ?thesis
  proof (cases "findChild (filename p) d")
    case None
    then obtain r t1 m1 k m2 where 1: "add_modifiable env p t m = Inr (r, t1, m1)"
      and 2: "add_modifiable env p t1 m1 = Inr (k, t', m2)" "manage k m2 = Inr m'"
      using assms(1) by (auto simp: prepare_write_def bind_outcome_Inr_iff)
    from 1 obtain st1 where 3: "addModifiableFile (ev_random env (mm_drawn m)) (parent_path p) (filename p) t (mm_stats m) = Inr (r, t1, st1)"
      and "m1 = m\<lparr>mm_drawn := Suc (mm_drawn m), mm_stats := st1\<rparr>" by (auto simp: add_modifiable_Inr)
    then have "isolated dp0 dk0 m1" "own_tree ?D (Some t1)" using assms(2,4) own_addModifiableFile [OF assms(3) 3] by simp_all
    from add [OF 2 this] show ?thesis .
  next
    case (Some c)
    show ?thesis
    proof (cases "\<exists>f. c = CFile f \<and> fl_hash f \<in> mm_callManagedHashes m")
      case True
      then show ?thesis using assms Some by (auto simp: prepare_write_def isolated_def Let_def)
    next
      case False
      then obtain ok t1 st1 em k m2 where 1: "removeFlat p t (mm_stats m) = Inr (ok, t1, st1, em)"
        and 2: "add_modifiable env p t1 (m\<lparr>mm_stats := st1\<rparr>) = Inr (k, t', m2)" "manage k m2 = Inr m'"
        using assms(1) Some by (cases c) (auto simp: prepare_write_def bind_outcome_Inr_iff)
      from add [OF 2] own_removeFlat [OF assms(3) 1] assms(2) show ?thesis by simp
    qed
  qed
qed

lemma start_open_isolated:
  assumes "start_open mode p i cb t m = Inr (b, m')" and "isolated dp0 dk0 m" and "own_tree (drive_files dp0) (Some t)"
    and "\<And>f. mode = WRITE \<Longrightarrow> Option.bind (getFolderPtr (parent_path p) t) (findChild (filename p)) = Some (CFile f) \<Longrightarrow>
      fl_hash f \<notin> drive_files dp0"
  shows "isolated dp0 dk0 m'"
  using assms isolated_upper [OF assms(2,3)]
  by (auto simp: start_open_def answered_def queried_def isolated_query split: option.splits child.splits)

lemma openFile_isolated:
  assumes "openFile env mode p cb m = Inr (b, m')" and "isolated dp0 dk0 m" and "\<And>n. ev_random env n \<notin> drive_files dp0"
  shows "isolated dp0 dk0 m'"
proof -
  have begun: "isolated dp0 dk0 (open_begun cb m)" using open_begun_fields [of cb m] assms(2) by auto
  from assms(1) show ?thesis
  proof (cases rule: openFileE)
    case (reading t)
    then show ?thesis using start_open_isolated [OF reading(3) begun isolated_upperD [OF assms(2) reading(1)]] by simp
  next
    case (writing t d t' m2)
    from prepare_write_isolated [OF writing(4) begun isolated_upperD [OF assms(2) writing(1)] assms(3) writing(3)]
    show ?thesis using start_open_isolated [OF writing(5)] by blast
  qed (use assms(2) begun in auto)
qed

lemma on_upper_isolated:
  assumes "on_upper m f = Inr (b, m')" and "isolated dp0 dk0 m"
    and "\<And>t. own_tree (drive_files dp0) (Some t) \<Longrightarrow> f t = Inr (b, m') \<Longrightarrow> isolated dp0 dk0 m'"
  shows "isolated dp0 dk0 m'"
  using assms(1) by (rule on_upperE) (use assms(2,3) isolated_upperD in blast)+

lemma obtainUnusedFiles_isolated:
  assumes "obtainUnusedFiles c m = (hs, m1)" and "isolated dp0 dk0 m"
  shows "isolated dp0 dk0 m1 \<and> hs \<inter> drive_files dp0 = {}"
  using obtainUnusedFiles_fields [OF assms(1)] assms(2) by (auto simp: isolated_def Let_def)

lemma removeFsTreeEntry_isolated:
  assumes "removeFsTreeEntry p cb m = Inr (b, m')" and "isolated dp0 dk0 m"
  shows "isolated dp0 dk0 m'"
  using assms(1) unfolding removeFsTreeEntry_def
proof (rule on_upper_isolated)
  fix t
  assume own: "own_tree (drive_files dp0) (Some t)"
  assume "bind_outcome (processRemoveRequest p cb t m) (\<lambda>m'. Inr (True, m')) = Inr (b, m')"
  then have r: "processRemoveRequest p cb t m = Inr m'" by (auto simp: bind_outcome_Inr_iff)
  show "isolated dp0 dk0 m'"
  proof (cases "checkUnlock p t (mm_stats m) \<and> getEntryPtr p t \<noteq> None")
    case False
    then show ?thesis using r assms(2) by (auto simp: processRemoveRequest_def split: if_splits)
  next
    case True
    then obtain c where c: "getEntryPtr p t = Some c" by blast
    obtain hs m1 where o: "obtainUnusedFiles c m = (hs, m1)" by fastforce
    then obtain ok t' st' em where f: "removeFlat p t (mm_stats m1) = Inr (ok, t', st', em)"
      "m' = start_query (RemoveUnusedFiles hs False cb) (m1\<lparr>mm_upperSandboxFsTree := Some t', mm_stats := st'\<rparr>)"
      using r True c by (auto simp: processRemoveRequest_def bind_outcome_Inr_iff)
    then show ?thesis
      using obtainUnusedFiles_isolated [OF o assms(2)] own_removeFlat [OF own f(1)]
      by (auto simp: isolated_query intro!: isolated_upper)
  qed
qed (rule assms(2))

lemma moveFsTreeEntry_isolated:
  assumes "moveFsTreeEntry p q cb m = Inr (b, m')" and "isolated dp0 dk0 m"
  shows "isolated dp0 dk0 m'"
  using assms(1) unfolding moveFsTreeEntry_def
proof (rule on_upper_isolated)
  fix t
  let ?u = "case getEntryPtr q t of None \<Rightarrow> ({}, m) | Some c \<Rightarrow> obtainUnusedFiles c m"
  assume own: "own_tree (drive_files dp0) (Some t)"
  assume r: "(if \<not> checkUnlock p t (mm_stats m) \<or> \<not> checkUnlock q t (mm_stats m) then answered cb (RSuccess False) m
     else let (filesToRemove, m1) = ?u
          in bind_outcome (moveFlat p q t (mm_stats m1)) (\<lambda>(ok, t', st', _).
               let m2 = m1\<lparr>mm_upperSandboxFsTree := Some t', mm_stats := st'\<rparr>
               in if \<not> ok then answered cb (RSuccess False) m2
                  else queried (RemoveUnusedFiles filesToRemove True cb) m2)) = Inr (b, m')"
  obtain hs m1 where u: "?u = (hs, m1)" by fastforce
  then have i: "isolated dp0 dk0 m1 \<and> hs \<inter> drive_files dp0 = {}"
    using obtainUnusedFiles_isolated assms(2) by (auto split: option.splits)
  show "isolated dp0 dk0 m'"
  proof (cases "\<not> checkUnlock p t (mm_stats m) \<or> \<not> checkUnlock q t (mm_stats m)")
    case True
    then show ?thesis using r assms(2) by (auto simp: answered_def)
  next
    case False
    with r u obtain ok t' st' em where f: "moveFlat p q t (mm_stats m1) = Inr (ok, t', st', em)"
      and m': "m' = (if \<not> ok then answer cb (RSuccess False) (m1\<lparr>mm_upperSandboxFsTree := Some t', mm_stats := st'\<rparr>)
        else start_query (RemoveUnusedFiles hs True cb) (m1\<lparr>mm_upperSandboxFsTree := Some t', mm_stats := st'\<rparr>))"
      by (auto simp: answered_def queried_def bind_outcome_Inr_iff Let_def split: if_splits)
    show ?thesis
      using i own_moveFlat [OF own f] by (auto simp: m' isolated_query intro!: isolated_upper)
  qed
qed (rule assms(2))

lemma addFolders_own: "own_tree D (Some t) \<Longrightarrow> addFolders ps t st = Inr (t', st') \<Longrightarrow> own_tree D (Some t')"
  by (induction ps arbitrary: t st) (auto simp: bind_outcome_Inr_iff dest: own_addFolder)

lemma initiateSandboxModifications_isolated:
  assumes "initiateSandboxModifications ps cb m = Inr (b, m')" and "isolated dp0 dk0 m"
  shows "isolated dp0 dk0 m'"
proof (cases "mm_taskIsInterrupted m")
  case True
  then show ?thesis using assms by (auto simp: initiateSandboxModifications_def bind_outcome_Inr_iff)
next
  case False
  then obtain t t' st2 st3 where t: "mm_lowerSandboxFsTree m = Some t" "addFolders ps t st2 = Inr (t', st3)"
    "m' = answer cb RSandboxInitiated (m\<lparr>mm_upperSandboxFsTree := Some t',
       mm_upperSandboxFilesSize := mm_lowerSandboxFilesSize m, mm_stats := st3\<rparr>)"
    using assms(1) by (auto simp: initiateSandboxModifications_def bind_outcome_Inr_iff answered_def Let_def)
  moreover have "own_tree (drive_files dp0) (Some t)" using assms(2) t(1) by (simp add: isolated_def Let_def)
  ultimately have "own_tree (drive_files dp0) (Some t')" using addFolders_own by blast
  from isolated_upper [OF assms(2) this] show ?thesis by (simp add: t(3))
qed

lemma closeFiles_isolated:
  assumes "closeFiles c m = Inr m'" and "isolated dp0 dk0 m"
  shows "isolated dp0 dk0 m'"
proof -
  let ?ids = "map of_stream (map snd (mm_openFilesWrite m) @ map snd (mm_openFilesRead m))"
  from assms(1) obtain st where m': "m' = start_query (CloseStreams ?ids c) (m\<lparr>mm_stats := st, mm_openFilesWrite := [], mm_openFilesRead := []\<rparr>)"
    by (auto simp: closeFiles_def bind_outcome_Inr_iff Let_def)
  have "isolated dp0 dk0 (m\<lparr>mm_stats := st, mm_openFilesWrite := [], mm_openFilesRead := []\<rparr>)"
    using assms(2) by (simp add: isolated_def Let_def)
  moreover have "list_all (\<lambda>s. s < length (mm_streams m)) ?ids"
    using assms(2) by (auto simp: isolated_def Let_def list_all_iff writable_def)
  ultimately show ?thesis by (simp only: m' isolated_query) simp
qed

text \<open>The streams of open files.\<close>

lemma open_streams:
  assumes "isolated dp0 dk0 m"
  shows "map_find i (mm_openFilesWrite m) = Some f \<Longrightarrow> writable (drive_inodes (drive_files dp0) dk0) (mm_streams m) (of_stream f)"
    and "map_find i (mm_openFilesWrite m) = Some f \<Longrightarrow> of_stream f < length (mm_streams m)"
    and "map_find i (mm_openFilesRead m) = Some f \<Longrightarrow> of_stream f < length (mm_streams m)"
  using assms by (fastforce simp: isolated_def Let_def list_all_iff writable_def dest: map_find_in_set)+

lemma writeFile_isolated:
  assumes "writeFile i bs cb m = Inr (b, m')" and "isolated dp0 dk0 m"
  shows "isolated dp0 dk0 m'"
  using assms(1) unfolding writeFile_def
proof (rule on_upper_isolated)
  assume w: "(case map_find i (mm_openFilesWrite m) of None \<Rightarrow> answered cb (RSuccess False) m
    | Some f \<Rightarrow> if dp_maxSize (mm_params m) < mm_upperSandboxFilesSize m + of_nat (length bs) then answered cb (RSuccess False) m
        else queried (WriteStream (of_stream f) bs cb)
          (m\<lparr>mm_upperSandboxFilesSize := mm_upperSandboxFilesSize m + of_nat (length bs)\<rparr>)) = Inr (b, m')"
  then show "isolated dp0 dk0 m'"
    using assms(2) open_streams(1) [OF assms(2)] by (auto simp: answered_def queried_def isolated_query split: option.splits if_splits)
qed (rule assms(2))

text \<open>Requests that change nothing but answers, iterators and counters, or start a query that only looks.\<close>

lemma looking_isolated:
  assumes "isolated dp0 dk0 m"
  shows "readFile i n cb m = Inr (b, m') \<Longrightarrow> isolated dp0 dk0 m'"
    and "flush i cb m = Inr (b, m') \<Longrightarrow> isolated dp0 dk0 m'"
    and "closeFile i cb m = Inr (b, m') \<Longrightarrow> isolated dp0 dk0 m'"
    and "pathExist p cb m = Inr (b, m') \<Longrightarrow> isolated dp0 dk0 m'"
    and "pathIsFile p cb m = Inr (b, m') \<Longrightarrow> isolated dp0 dk0 m'"
    and "fileSize p cb m = Inr (b, m') \<Longrightarrow> isolated dp0 dk0 m'"
    and "folderIteratorCreate p r cb m = Inr (b, m') \<Longrightarrow> isolated dp0 dk0 m'"
    and "folderIteratorDestroy i cb m = Inr (b, m') \<Longrightarrow> isolated dp0 dk0 m'"
    and "folderIteratorHasNext i cb m = Inr (b, m') \<Longrightarrow> isolated dp0 dk0 m'"
    and "folderIteratorNext i cb m = Inr (b, m') \<Longrightarrow> isolated dp0 dk0 m'"
    and "evaluateStorageHash cb m = Inr (b, m') \<Longrightarrow> isolated dp0 dk0 m'"
    and "applyStorageModifications False cb m = Inr (b, m') \<Longrightarrow> isolated dp0 dk0 m'"
    and "applySandboxModifications s cb m = Inr (b, m') \<Longrightarrow> isolated dp0 dk0 m'"
  subgoal unfolding readFile_def by (erule on_upper_isolated [OF _ assms]) (use assms in \<open>auto simp: answered_def queried_def isolated_query split: option.splits\<close>)
  subgoal unfolding flush_def by (erule on_upper_isolated [OF _ assms]) (use assms open_streams [OF assms] in \<open>auto simp: answered_def queried_def isolated_query split: option.splits\<close>)
  subgoal unfolding closeFile_def by (erule on_upper_isolated [OF _ assms]) (use assms open_streams [OF assms] in \<open>auto simp: answered_def queried_def isolated_query split: option.splits\<close>)
  subgoal unfolding pathExist_def by (erule on_upper_isolated [OF _ assms]) (use assms in \<open>auto simp: answered_def\<close>)
  subgoal unfolding pathIsFile_def by (erule on_upper_isolated [OF _ assms]) (use assms in \<open>auto simp: answered_def\<close>)
  subgoal unfolding fileSize_def by (erule on_upper_isolated [OF _ assms]) (use assms in \<open>auto simp: answered_def queried_def isolated_query split: option.splits child.splits\<close>)
  subgoal unfolding folderIteratorCreate_def by (erule on_upper_isolated [OF _ assms]) (use assms in \<open>auto simp: answered_def bind_outcome_Inr_iff Let_def split: option.splits if_splits\<close>)
  subgoal unfolding folderIteratorDestroy_def by (erule on_upper_isolated [OF _ assms]) (use assms in \<open>auto simp: answered_def bind_outcome_Inr_iff split: option.splits\<close>)
  subgoal unfolding folderIteratorHasNext_def by (erule on_upper_isolated [OF _ assms]) (use assms in \<open>auto simp: answered_def\<close>)
  subgoal unfolding folderIteratorNext_def by (erule on_upper_isolated [OF _ assms]) (use assms in \<open>auto simp: answered_def bind_outcome_Inr_iff split: option.splits\<close>)
  subgoal using assms by (auto simp: evaluateStorageHash_def bind_outcome_Inr_iff queried_def isolated_query split: if_splits)
  subgoal using assms by (auto simp: applyStorageModifications_def bind_outcome_Inr_iff split: if_splits)
  subgoal using assms by (auto simp: applySandboxModifications_def bind_outcome_Inr_iff split: if_splits dest: closeFiles_isolated)
  done

lemma createDirectories_isolated:
  assumes "createDirectories p cb m = Inr (b, m')" and "isolated dp0 dk0 m"
  shows "isolated dp0 dk0 m'"
  using assms(1) unfolding createDirectories_def
proof (rule on_upper_isolated)
  fix t
  assume own: "own_tree (drive_files dp0) (Some t)"
    and "bind_outcome (addFolder p t (mm_stats m)) (\<lambda>(success, t', st').
       answered cb (RSuccess success) (m\<lparr>mm_upperSandboxFsTree := Some t', mm_stats := st'\<rparr>)) = Inr (b, m')"
  then obtain ok t' st' where a: "addFolder p t (mm_stats m) = Inr (ok, t', st')"
    and m': "m' = answer cb (RSuccess ok) (m\<lparr>mm_upperSandboxFsTree := Some t', mm_stats := st'\<rparr>)"
    by (auto simp: bind_outcome_Inr_iff answered_def)
  show "isolated dp0 dk0 m'" using isolated_upper [OF assms(2) own_addFolder [OF own a]] by (simp add: m')
qed (rule assms(2))

lemma request_isolated:
  assumes "task_request env r cb m = Inr (b, m')" and "isolated dp0 dk0 m" and "\<And>n. ev_random env n \<notin> drive_files dp0"
    and "r \<noteq> ApplyStorage True"
  shows "isolated dp0 dk0 m'"
proof (cases r)
  case (ApplyStorage x19)
  then have "r = ApplyStorage False" using assms(4) by (cases x19) simp_all
  then show ?thesis using assms(1) looking_isolated [OF assms(2)] by (simp add: task_request_def)
qed (use assms(1) initiateSandboxModifications_isolated [OF _ assms(2)] openFile_isolated [OF _ assms(2,3)]
    looking_isolated [OF assms(2)] writeFile_isolated [OF _ assms(2)] removeFsTreeEntry_isolated [OF _ assms(2)]
    moveFsTreeEntry_isolated [OF _ assms(2)] createDirectories_isolated [OF _ assms(2)] in \<open>simp_all add: task_request_def\<close>)

subsubsection \<open>Jobs\<close>

text \<open>Later lists of streams: the streams keep their inodes, and closed ones stay closed.\<close>

definition later_streams :: "stream list \<Rightarrow> stream list \<Rightarrow> bool" where
  "later_streams ss ss' \<longleftrightarrow> length ss \<le> length ss' \<and>
     (\<forall>s<length ss. sm_inode (ss' ! s) = sm_inode (ss ! s) \<and> (sm_open (ss' ! s) \<longrightarrow> sm_open (ss ! s)))"

lemma later_streams_refl [simp]: "later_streams ss ss"
  by (simp add: later_streams_def)

lemma later_streams_append: "later_streams ss (ss @ ss')"
  by (simp add: later_streams_def nth_append)

lemma later_streams_update:
  assumes "s < length ss \<Longrightarrow> sm_inode x = sm_inode (ss ! s)" and "s < length ss \<Longrightarrow> sm_open x \<Longrightarrow> sm_open (ss ! s)"
  shows "later_streams ss (ss[s := x])"
proof -
  have "sm_inode (ss[s := x] ! a) = sm_inode (ss ! a) \<and> (sm_open (ss[s := x] ! a) \<longrightarrow> sm_open (ss ! a))"
    if "a < length ss" for a
    using assms that by (cases "s = a") simp_all
  then show ?thesis by (simp add: later_streams_def)
qed

lemma background_ok_later: "later_streams ss ss' \<Longrightarrow> background_ok D I ss j \<Longrightarrow> background_ok D I ss' j"
  by (cases j) (auto simp: later_streams_def writable_def list_all_iff dest: less_le_trans)

lemma session_ok_later: "later_streams ss ss' \<Longrightarrow> session_ok I ss j \<Longrightarrow> session_ok I ss' j"
  by (cases j) (auto simp: later_streams_def)

lemma isolated_streams:
  assumes "isolated dp0 dk0 m" and "later_streams (mm_streams m) ss"
    and "list_all (harmless (drive_inodes (drive_files dp0) dk0)) ss" and "disk_kept (drive_files dp0) dk0 dk"
  shows "isolated dp0 dk0 (m\<lparr>mm_streams := ss, mm_disk := dk\<rparr>)"
proof -
  let ?D = "drive_files dp0" and ?I = "drive_inodes (drive_files dp0) dk0"
  have "writable ?I ss s" if "writable ?I (mm_streams m) s" for s
    using that assms(2) by (auto simp: later_streams_def writable_def)
  moreover have "length (mm_streams m) \<le> length ss" using assms(2) by (simp add: later_streams_def)
  ultimately show ?thesis
    using assms background_ok_later [OF assms(2)] session_ok_later [OF assms(2)]
    by (auto simp: isolated_def Let_def list_all_iff)
qed

lemma isolated_disk:
  assumes "isolated dp0 dk0 m" and "disk_kept (drive_files dp0) dk0 dk"
  shows "isolated dp0 dk0 (m\<lparr>mm_disk := dk\<rparr>)"
  using assms by (simp add: isolated_def Let_def)

lemma isolatedD:
  assumes "isolated dp0 dk0 m"
  shows "disk_kept (drive_files dp0) dk0 (mm_disk m)"
    and "s < length (mm_streams m) \<Longrightarrow> harmless (drive_inodes (drive_files dp0) dk0) (mm_streams m ! s)"
    and "list_all (harmless (drive_inodes (drive_files dp0) dk0)) (mm_streams m)"
    and "mm_callManagedHashes m \<inter> drive_files dp0 = {}"
    and "dp_torrentHandleMap (mm_params m) = dp_torrentHandleMap dp0"
    and "own_tree (drive_files dp0) (mm_lowerSandboxFsTree m)"
  using assms by (auto simp: isolated_def Let_def list_all_length same_drive_def)

lemma harmless_update:
  "list_all (harmless I) ss \<Longrightarrow> s < length ss \<Longrightarrow> harmless I x \<Longrightarrow> list_all (harmless I) (ss[s := x])"
  by (auto simp: list_all_length nth_list_update)

lemma createStream_isolated:
  assumes "isolated dp0 dk0 m" and "mode = WRITE \<Longrightarrow> h \<notin> drive_files dp0"
  shows "isolated dp0 dk0 (createStream env h mode i p cb m)"
proof -
  let ?D = "drive_files dp0" and ?I = "drive_inodes (drive_files dp0) dk0"
  let ?r = "if \<not> ev_openable env h then (closed_stream, mm_disk m)
     else if mode = READ then (open_read h (mm_disk m), mm_disk m) else open_write h (mm_disk m)"
  obtain s dk where r: "?r = (s, dk)" by fastforce
  have rd: "sm_buffer (open_read h (mm_disk m)) = []" "sm_buffer closed_stream = []" "\<not> sm_open closed_stream"
    by (simp_all add: open_read_def stream_on_def closed_stream_def split: option.splits)
  have s: "harmless ?I s \<and> disk_kept ?D dk0 dk \<and> (mode = WRITE \<longrightarrow> sm_open s \<longrightarrow> sm_inode s \<notin> ?I)"
  proof (cases "ev_openable env h \<and> mode = WRITE")
    case True
    then have "open_write h (mm_disk m) = (s, dk)" using r by simp
    from open_write_kept [OF isolatedD(1) [OF assms(1)] _ this] show ?thesis using assms(2) True by (simp add: harmless_def)
  next
    case False
    then show ?thesis
      using r rd isolatedD(1) [OF assms(1)] by (cases mode) (auto simp: harmless_def split: if_splits)
  qed
  have "isolated dp0 dk0 (m\<lparr>mm_streams := mm_streams m @ [s], mm_disk := dk\<rparr>)"
    using isolated_streams [OF assms(1) later_streams_append] isolatedD(3) [OF assms(1)] s by simp
  moreover have "createStream env h mode i p cb m = executeOnSessionThread
      (FileOpened (length (mm_streams m)) mode i p (if mode = WRITE then case file_size h (mm_disk m) of None \<Rightarrow> 0 | Some s \<Rightarrow> s else 0) cb)
      (m\<lparr>mm_streams := mm_streams m @ [s], mm_disk := dk\<rparr>)"
    unfolding createStream_def Let_def r by simp
  ultimately show ?thesis using s by (auto simp: isolated_session writable_def)
qed

lemma stream_job_isolated:
  assumes "isolated dp0 dk0 m" and "s < length (mm_streams m) \<Longrightarrow> sm_inode x = sm_inode (mm_streams m ! s) \<and>
      (sm_open x \<longrightarrow> sm_open (mm_streams m ! s)) \<and> harmless (drive_inodes (drive_files dp0) dk0) x \<and> disk_kept (drive_files dp0) dk0 dk"
    and "\<not> s < length (mm_streams m) \<Longrightarrow> disk_kept (drive_files dp0) dk0 dk"
  shows "isolated dp0 dk0 (m\<lparr>mm_streams := (mm_streams m)[s := x], mm_disk := dk\<rparr>)"
proof (cases "s < length (mm_streams m)")
  case True
  then show ?thesis
    using assms(2) by (intro isolated_streams [OF assms(1)] later_streams_update harmless_update isolatedD(3) [OF assms(1)]) auto
next
  case False
  then have "(mm_streams m)[s := x] = mm_streams m" by (simp add: list_update_beyond)
  then show ?thesis
    using isolated_streams [OF assms(1) later_streams_refl isolatedD(3) [OF assms(1)] assms(3) [OF False]] by simp
qed

lemma stream_ops_open:
  "stream_write k bs s dk = (s', dk') \<Longrightarrow> sm_open s' = sm_open s"
  "stream_flush s dk = (s', dk') \<Longrightarrow> sm_open s' = sm_open s"
  "stream_close s dk = (s', dk') \<Longrightarrow> \<not> sm_open s'"
  by (auto simp: stream_write_def stream_flush_def stream_close_def spill_def Let_def split: if_splits prod.splits)

lemma readStream_isolated: "isolated dp0 dk0 m \<Longrightarrow> isolated dp0 dk0 (readStream s n cb m)"
proof -
  assume i: "isolated dp0 dk0 m"
  obtain bs x where r: "stream_read (unat n) (mm_streams m ! s) (mm_disk m) = (bs, x)" by fastforce
  then have "sm_inode x = sm_inode (mm_streams m ! s)" "sm_open x = sm_open (mm_streams m ! s)" "sm_buffer x = sm_buffer (mm_streams m ! s)"
    by (auto simp: stream_read_def Let_def split: if_splits)
  then have "isolated dp0 dk0 (m\<lparr>mm_streams := (mm_streams m)[s := x], mm_disk := mm_disk m\<rparr>)"
    using isolatedD(1,2) [OF i] by (intro stream_job_isolated [OF i]) (simp_all add: harmless_def)
  then show ?thesis using r by (simp add: readStream_def isolated_session)
qed

lemma writeStream_isolated:
  assumes "isolated dp0 dk0 m" and "writable (drive_inodes (drive_files dp0) dk0) (mm_streams m) s"
  shows "isolated dp0 dk0 (writeStream k s bs cb m)"
proof -
  obtain x dk where r: "stream_write k bs (mm_streams m ! s) (mm_disk m) = (x, dk)" by fastforce
  have "isolated dp0 dk0 (m\<lparr>mm_streams := (mm_streams m)[s := x], mm_disk := dk\<rparr>)"
    using stream_write_kept [OF isolatedD(1) [OF assms(1)] _ r] stream_ops_open(1) [OF r] assms(2)
    by (intro stream_job_isolated [OF assms(1)]) (auto simp: harmless_def writable_def)
  then show ?thesis using r by (simp add: writeStream_def isolated_session)
qed

lemma flushStream_isolated:
  assumes "isolated dp0 dk0 m" and "s < length (mm_streams m)"
  shows "isolated dp0 dk0 (flushStream s cb m)"
proof -
  obtain x dk where r: "stream_flush (mm_streams m ! s) (mm_disk m) = (x, dk)" by fastforce
  have "isolated dp0 dk0 (m\<lparr>mm_streams := (mm_streams m)[s := x], mm_disk := dk\<rparr>)"
    using stream_flush_kept [OF isolatedD(1,2) [OF assms(1)] r] stream_ops_open(2) [OF r] assms(2)
    by (intro stream_job_isolated [OF assms(1)]) auto
  then show ?thesis using r by (simp add: flushStream_def isolated_session)
qed

lemma close_stream_isolated:
  assumes "isolated dp0 dk0 m" and "s < length (mm_streams m)"
  shows "isolated dp0 dk0 (close_stream s m)"
proof -
  obtain x dk where r: "stream_close (mm_streams m ! s) (mm_disk m) = (x, dk)" by fastforce
  have "isolated dp0 dk0 (m\<lparr>mm_streams := (mm_streams m)[s := x], mm_disk := dk\<rparr>)"
    using stream_close_kept [OF isolatedD(1,2) [OF assms(1)] r] stream_ops_open(3) [OF r] assms(2)
    by (intro stream_job_isolated [OF assms(1)]) auto
  then show ?thesis using r by (simp add: close_stream_def)
qed

lemma close_streams_isolated:
  assumes "isolated dp0 dk0 m" and "list_all (\<lambda>s. s < length (mm_streams m)) ids"
  shows "isolated dp0 dk0 (fold close_stream ids m)"
  using assms
proof (induction ids arbitrary: m)
  case (Cons s ids)
  have "length (mm_streams (close_stream s m)) = length (mm_streams m)"
    by (simp add: close_stream_def split: prod.splits)
  with Cons show ?case using close_stream_isolated [OF Cons.prems(1), of s] by simp
qed simp

lemma removals_isolated:
  assumes "isolated dp0 dk0 m"
  shows "hs \<inter> drive_files dp0 = {} \<Longrightarrow> isolated dp0 dk0 (removeUnusedFiles hs moved cb m)"
    and "discardUpperSandboxModifications cb m = Inr m' \<Longrightarrow> isolated dp0 dk0 m'"
    and "isolated dp0 dk0 (acceptUpperSandboxModifications lower upper cb m)"
    and "isolated dp0 dk0 (clearTrash m)"
proof -
  let ?D = "drive_files dp0"
  have list: "set (sorted_list_of_set hs) \<subseteq> hs" for hs :: "hash256 set"
    by (cases "finite hs") simp_all
  have counted: "isolated dp0 dk0 (m\<lparr>mm_disk := dk\<rparr>)"
    if "remove_counted (sorted_list_of_set hs) 0 (mm_disk m) = (n, dk)" "hs \<inter> ?D = {}" for hs n dk
    using isolated_disk [OF assms] remove_many_kept(3) [OF isolatedD(1) [OF assms], of "sorted_list_of_set hs" 0] that list [of hs]
    by auto
  show "isolated dp0 dk0 (removeUnusedFiles hs moved cb m)" if "hs \<inter> ?D = {}"
  proof -
    obtain n dk where r: "remove_files (sorted_list_of_set hs) 0 (mm_disk m) = (n, dk)" by fastforce
    then have "isolated dp0 dk0 (m\<lparr>mm_disk := dk\<rparr>)"
      using isolated_disk [OF assms] remove_many_kept(2) [OF isolatedD(1) [OF assms], of "sorted_list_of_set hs" 0] that list [of hs]
      by auto
    then show ?thesis by (simp add: removeUnusedFiles_def r isolated_session)
  qed
  show "isolated dp0 dk0 m'" if "discardUpperSandboxModifications cb m = Inr m'"
  proof -
    obtain n dk where r: "remove_counted (sorted_list_of_set (mm_callManagedHashes m)) 0 (mm_disk m) = (n, dk)" by fastforce
    show ?thesis
      using that counted [OF r isolatedD(4) [OF assms]]
      by (auto simp: discardUpperSandboxModifications_def bind_outcome_Inr_iff r isolated_session)
  qed
  show "isolated dp0 dk0 (acceptUpperSandboxModifications lower upper cb m)"
  proof -
    let ?hs = "superseded lower upper (dp_torrentHandleMap (mm_params m))"
    obtain n dk where r: "remove_counted (sorted_list_of_set ?hs) 0 (mm_disk m) = (n, dk)" by fastforce
    have "?hs \<inter> ?D = {}" by (auto simp: superseded_def drive_files_def isolatedD(5) [OF assms])
    from counted [OF r this] show ?thesis by (simp add: acceptUpperSandboxModifications_def r isolated_session)
  qed
  show "isolated dp0 dk0 (clearTrash m)"
  proof -
    let ?files = "(case mm_lowerSandboxFsTree m of None \<Rightarrow> id | Some t \<Rightarrow> getUniqueFiles t)
                    (case mm_upperSandboxFsTree m of None \<Rightarrow> {} | Some t \<Rightarrow> getUniqueFiles t {})"
    let ?hs = "{h \<in> ?files. \<not> map_contains h (dp_torrentHandleMap (mm_params m))}"
    have "?hs \<inter> ?D = {}" by (auto simp: drive_files_def isolatedD(5) [OF assms])
    then have "set (sorted_list_of_set ?hs) \<inter> ?D = {}" using list [of ?hs] by blast
    from isolated_disk [OF assms remove_many_kept(1) [OF isolatedD(1) [OF assms] this]]
    show ?thesis unfolding clearTrash_def Let_def by (simp add: isolated_session)
  qed
qed

text \<open>The files that are hashed belong to the modification, and so do their new names.\<close>

lemma hash_file_kept:
  assumes "hash_file env tm f (dk, tfs) = Inr (f', dk', tfs')" and "disk_kept {h. map_contains h tm} dk0 dk"
    and "own_file {h. map_contains h tm} f"
  shows "disk_kept {h. map_contains h tm} dk0 dk' \<and> own_file {h. map_contains h tm} f' \<and> fl_name f' = fl_name f"
proof (cases "fl_isModifiable f")
  case False
  then show ?thesis using assms by (simp add: hash_file_def)
next
  case True
  then have "fl_hash f \<notin> {h. map_contains h tm}" using assms(3) by (simp add: own_file_def)
  then show ?thesis
    using assms(1,2) True
    by (auto simp: hash_file_def bind_outcome_Inr_iff Let_def own_file_def split: if_splits
        intro: remove_file_kept rename_file_kept)
qed

lemma hash_children_kept:
  assumes "hash_children env tm es (dk, tfs) = Inr (es', dk', tfs')" and "disk_kept {h. map_contains h tm} dk0 dk"
    and "all_files (own_file {h. map_contains h tm}) es" and "entries_ok es"
  shows "disk_kept {h. map_contains h tm} dk0 dk' \<and> all_files (own_file {h. map_contains h tm}) es' \<and>
    entries_ok es' \<and> map fst es' = map fst es"
  using assms
proof (induction env tm es "(dk, tfs)" arbitrary: dk tfs es' dk' tfs' rule: hash_children.induct)
  case (2 env tm n a cs es)
  from "2.prems"(1) obtain cs' dk1 tfs1 es1 where
    c: "hash_children env tm cs (dk, tfs) = Inr (cs', dk1, tfs1)"
    and e: "hash_children env tm es (dk1, tfs1) = Inr (es1, dk', tfs')" "es' = (n, CFolder a cs') # es1"
    by (auto simp: bind_outcome_Inr_iff)
  from "2.hyps"(1) [OF c] "2.prems" have 1: "disk_kept {h. map_contains h tm} dk0 dk1 \<and>
      all_files (own_file {h. map_contains h tm}) cs' \<and> entries_ok cs' \<and> map fst cs' = map fst cs" by simp
  from "2.hyps"(2) [OF e(1)] 1 "2.prems" show ?case by (auto simp: e(2) tree_ok_def map_ok_def)
next
  case (3 env tm n f es)
  from "3.prems"(1) obtain f' dk1 tfs1 es1 where
    c: "hash_file env tm f (dk, tfs) = Inr (f', dk1, tfs1)"
    and e: "hash_children env tm es (dk1, tfs1) = Inr (es1, dk', tfs')" "es' = (n, CFile f') # es1"
    by (auto simp: bind_outcome_Inr_iff)
  from hash_file_kept [OF c] "3.prems" have 1: "disk_kept {h. map_contains h tm} dk0 dk1 \<and>
      own_file {h. map_contains h tm} f' \<and> fl_name f' = fl_name f" by simp
  from "3.hyps" [OF e(1)] 1 "3.prems" show ?case by (auto simp: e(2))
qed simp

lemma computeSandboxHash_isolated:
  assumes "computeSandboxHash env cb m = Inr m'" and "isolated dp0 dk0 m"
  shows "isolated dp0 dk0 m'"
proof -
  let ?D = "drive_files dp0" and ?tm = "dp_torrentHandleMap (mm_params m)"
  have D: "?D = {h. map_contains h ?tm}" by (simp add: drive_files_def isolatedD(5) [OF assms(2)])
  from assms(1) obtain t cs dk tfs where t: "mm_lowerSandboxFsTree m = Some t"
    and h: "hash_children env ?tm (snd t) (mm_disk m, mm_torrents m) = Inr (cs, dk, tfs)"
    by (auto simp: computeSandboxHash_def bind_outcome_Inr_iff Let_def split: option.splits)
  have m': "\<exists>h rv oc. m' = executeOnSessionThread (StorageHashEvaluated h cb)
        (m\<lparr>mm_lowerSandboxFsTree := Some (fst t, cs), mm_disk := dk, mm_torrents := tfs, mm_sandboxFsTreeFile := Some (fst t, cs),
           mm_sandboxRootHash := Some h, mm_params := (mm_params m)\<lparr>dp_opinionController := oc\<rparr>, mm_restart := rv\<rparr>)"
    using assms(1) by (simp add: computeSandboxHash_def t h Let_def) blast
  have own: "tree_ok t" "all_files (own_file ?D) (snd t)"
    using isolatedD(6) [OF assms(2)] by (simp_all add: t own_tree_def)
  then have "disk_kept ?D dk0 dk \<and> all_files (own_file ?D) cs \<and> entries_ok cs \<and> map fst cs = map fst (snd t)"
    using hash_children_kept [OF h] isolatedD(1) [OF assms(2)] by (simp add: D tree_ok_def)
  then have "disk_kept ?D dk0 dk" "own_tree ?D (Some (fst t, cs))"
    using own(1) by (auto simp: own_tree_def tree_ok_def map_ok_def)
  with m' assms(2) show ?thesis
    by (auto simp: isolated_session) (auto simp: isolated_def Let_def same_drive_def)
qed

lemma background_isolated:
  assumes "background_run env k j m = Inr m'" and "isolated dp0 dk0 m"
    and "background_ok (drive_files dp0) (drive_inodes (drive_files dp0) dk0) (mm_streams m) j"
  shows "isolated dp0 dk0 m'"
proof (cases j)
  case (ValidateAndApply cb)
  then show ?thesis
    using assms removals_isolated [OF assms(2)]
    by (auto simp: background_run_def validate_and_apply_def bind_outcome_Inr_iff split: if_splits)
next
  case (CreateStream h mode i p cb)
  then show ?thesis using assms(1,3) createStream_isolated [OF assms(2), of mode h] by (auto simp: background_run_def)
next
  case (CloseStream s i cb)
  then have "m' = executeOnSessionThread (FileClosed i True cb) (close_stream s m)"
    using assms(1) by (auto simp: background_run_def closeStream_def)
  then show ?thesis using close_stream_isolated [OF assms(2)] assms(3) CloseStream by (simp add: isolated_session)
next
  case (CloseStreams ids c)
  then have "m' = executeOnSessionThread (StreamsClosed c) (fold close_stream ids m)"
    using assms(1) by (auto simp: background_run_def closeStreams_def)
  then show ?thesis using close_streams_isolated [OF assms(2)] assms(3) CloseStreams by (simp add: isolated_session)
qed (use assms removals_isolated [OF assms(2)] readStream_isolated [OF assms(2)]
    writeStream_isolated [OF assms(2)] flushStream_isolated [OF assms(2)] computeSandboxHash_isolated [OF _ assms(2)]
    in \<open>auto simp: background_run_def obtainFileSize_def isolated_session\<close>)

subsubsection \<open>Continuations\<close>

lemma query_over_isolated:
  assumes "query_over cb r m f = Inr m'" and "isolated dp0 dk0 m"
    and "\<And>m1. m1 = m\<lparr>mm_isExecutingQuery := False\<rparr> \<Longrightarrow> isolated dp0 dk0 m1 \<Longrightarrow> f m1 = Inr m' \<Longrightarrow> isolated dp0 dk0 m'"
  shows "isolated dp0 dk0 m'"
  using assms(1) by (rule query_overE) (use assms(2,3) in auto)

lemma isolated_open_erase:
  assumes "isolated dp0 dk0 m"
  shows "isolated dp0 dk0 (m\<lparr>mm_openFilesRead := map_erase i (mm_openFilesRead m)\<rparr>)"
    and "isolated dp0 dk0 (m\<lparr>mm_openFilesWrite := map_erase i (mm_openFilesWrite m)\<rparr>)"
  using assms set_erase [of i "mm_openFilesRead m"] set_erase [of i "mm_openFilesWrite m"]
  by (auto simp: isolated_def Let_def list_all_iff)

lemma isolated_opened:
  assumes "isolated dp0 dk0 m" and "of_stream f < length (mm_streams m)"
  shows "isolated dp0 dk0 (m\<lparr>mm_openFilesRead := map_emplace i f (mm_openFilesRead m)\<rparr>)"
    and "sm_inode (mm_streams m ! of_stream f) \<notin> drive_inodes (drive_files dp0) dk0 \<Longrightarrow>
      isolated dp0 dk0 (m\<lparr>mm_openFilesWrite := map_emplace i f (mm_openFilesWrite m)\<rparr>)"
  using assms set_put [of i f "mm_openFilesRead m"] set_put [of i f "mm_openFilesWrite m"]
  by (auto simp: isolated_def Let_def list_all_iff map_emplace_def writable_def)

lemma onFileOpened_isolated:
  assumes "onFileOpened s mode i p c cb m = Inr m'" and "isolated dp0 dk0 m"
    and ok: "session_ok (drive_inodes (drive_files dp0) dk0) (mm_streams m) (FileOpened s mode i p c cb)"
  shows "isolated dp0 dk0 m'"
proof -
  from assms(1) obtain f where q: "query_over cb RNothing m f = Inr m'" and
    f: "\<And>m1. f m1 = bind_outcome (sirius_assert (c \<le> mm_upperSandboxFilesSize m1)) (\<lambda>_.
           let m2 = m1\<lparr>mm_upperSandboxFilesSize := mm_upperSandboxFilesSize m1 - c\<rparr>
           in if \<not> sm_open (mm_streams m2 ! s) then Inr (answer cb (ROpenFile None) m2)
              else case Option.bind (mm_upperSandboxFsTree m2) (getEntryPtr p) of
                     Some (CFile f) \<Rightarrow>
                       bind_outcome (of_option Diverges (file_addBlock (fl_stat f) (mm_stats m2))) (\<lambda>st.
                         let file = \<lparr>of_stream = s, of_statisticsNode = fl_stat f\<rparr>;
                             m3 = m2\<lparr>mm_stats := st\<rparr>;
                             m4 = (case mode of
                                     READ \<Rightarrow> m3\<lparr>mm_openFilesRead := map_emplace i file (mm_openFilesRead m3)\<rparr>
                                   | WRITE \<Rightarrow> m3\<lparr>mm_openFilesWrite := map_emplace i file (mm_openFilesWrite m3)\<rparr>)
                         in Inr (answer cb (ROpenFile (Some i)) m4))
                   | _ \<Rightarrow> Inl AssertionFailure)"
    by (auto simp: onFileOpened_def bind_outcome_Inr_iff)
  show ?thesis
  proof (rule query_over_isolated [OF q assms(2)])
    fix m1
    assume m1: "m1 = m\<lparr>mm_isExecutingQuery := False\<rparr>" "isolated dp0 dk0 m1" and r: "f m1 = Inr m'"
    let ?m2 = "m1\<lparr>mm_upperSandboxFilesSize := mm_upperSandboxFilesSize m1 - c\<rparr>"
    show "isolated dp0 dk0 m'"
    proof (cases "sm_open (mm_streams m1 ! s)")
      case False
      then show ?thesis using r m1(2) by (auto simp: f bind_outcome_Inr_iff)
    next
      case True
      with r obtain e st where e: "Option.bind (mm_upperSandboxFsTree m1) (getEntryPtr p) = Some (CFile e)"
        "file_addBlock (fl_stat e) (mm_stats m1) = Some st" "c \<le> mm_upperSandboxFilesSize m1"
        by (auto simp: f bind_outcome_Inr_iff Let_def split: option.splits child.splits)
      have m': "m' = answer cb (ROpenFile (Some i)) (case mode of
            READ \<Rightarrow> ?m2\<lparr>mm_stats := st, mm_openFilesRead := map_emplace i \<lparr>of_stream = s, of_statisticsNode = fl_stat e\<rparr> (mm_openFilesRead m1)\<rparr>
          | WRITE \<Rightarrow> ?m2\<lparr>mm_stats := st, mm_openFilesWrite := map_emplace i \<lparr>of_stream = s, of_statisticsNode = fl_stat e\<rparr> (mm_openFilesWrite m1)\<rparr>)"
        using r True e by (cases mode) (simp_all add: f Let_def)
      have "isolated dp0 dk0 (?m2\<lparr>mm_stats := st\<rparr>)" using m1(2) by simp
      from isolated_opened [OF this, of "\<lparr>of_stream = s, of_statisticsNode = fl_stat e\<rparr>" i] ok True
      show ?thesis by (cases mode) (auto simp: m' m1(1))
    qed
  qed
qed

lemma onFileClosed_isolated:
  assumes "onFileClosed i ok cb m = Inr m'" and "isolated dp0 dk0 m"
  shows "isolated dp0 dk0 m'"
  using assms(1) unfolding onFileClosed_def
proof (rule query_over_isolated [OF _ assms(2)])
  fix m1
  assume "isolated dp0 dk0 m1"
  then have "isolated dp0 dk0 (m1\<lparr>mm_stats := st, mm_openFilesRead := map_erase i (mm_openFilesRead m1)\<rparr>)"
    and "isolated dp0 dk0 (m1\<lparr>mm_stats := st, mm_openFilesWrite := map_erase i (mm_openFilesWrite m1)\<rparr>)" for st
    using isolated_open_erase [of dp0 dk0 "m1\<lparr>mm_stats := st\<rparr>" i] by simp_all
  then show "(case map_find i (mm_openFilesRead m1) of
       Some f \<Rightarrow>
         bind_outcome (unblock_files [f] (mm_stats m1)) (\<lambda>st.
           Inr (answer cb (RSuccess ok) (m1\<lparr>mm_stats := st, mm_openFilesRead := map_erase i (mm_openFilesRead m1)\<rparr>)))
     | None \<Rightarrow>
         (case map_find i (mm_openFilesWrite m1) of
            Some f \<Rightarrow>
              bind_outcome (unblock_files [f] (mm_stats m1)) (\<lambda>st.
                Inr (answer cb (RSuccess ok) (m1\<lparr>mm_stats := st, mm_openFilesWrite := map_erase i (mm_openFilesWrite m1)\<rparr>)))
          | None \<Rightarrow> Inr m1)) = Inr m' \<Longrightarrow> isolated dp0 dk0 m'"
    using \<open>isolated dp0 dk0 m1\<close> by (auto simp: bind_outcome_Inr_iff split: option.splits)
qed

lemma onSandboxModificationStreamsClosed_isolated:
  assumes "onSandboxModificationStreamsClosed ok cb m = Inr m'" and "isolated dp0 dk0 m"
  shows "isolated dp0 dk0 m'"
  using assms(1) unfolding onSandboxModificationStreamsClosed_def
proof (rule query_over_isolated [OF _ assms(2)])
  fix m1
  assume m1: "isolated dp0 dk0 m1"
  assume "bind_outcome (destroy_iterators (map snd (mm_folderIterators m1)) (mm_stats m1)) (\<lambda>st.
       bind_outcome (of_option NullDereference (mm_upperSandboxFsTree m1)) (\<lambda>t.
         let (t', st') = clearStatisticsNode t st
         in Inr (start_query (if ok then ValidateAndApply cb else DiscardModifications cb)
                   (m1\<lparr>mm_folderIterators := [], mm_upperSandboxFsTree := Some t', mm_stats := st'\<rparr>)))) = Inr m'"
  then obtain st t where t: "mm_upperSandboxFsTree m1 = Some t"
    and r: "m' = start_query (if ok then ValidateAndApply cb else DiscardModifications cb)
              (m1\<lparr>mm_folderIterators := [], mm_upperSandboxFsTree := Some (fst (clearStatisticsNode t st)),
                 mm_stats := snd (clearStatisticsNode t st)\<rparr>)"
    by (auto simp: bind_outcome_Inr_iff case_prod_unfold Let_def)
  have "snd (fst (clearStatisticsNode t st)) = snd t" by (simp add: clearStatisticsNode_def split: prod.splits)
  then have "own_tree (drive_files dp0) (Some (fst (clearStatisticsNode t st)))"
    using isolated_upperD [OF m1 t] by (simp add: own_tree_def tree_ok_def)
  then show "isolated dp0 dk0 m'"
    using isolated_upper [of dp0 dk0 "m1\<lparr>mm_folderIterators := []\<rparr>"] m1 by (simp add: r isolated_query)
qed

lemma onAppliedSandboxModifications_isolated:
  assumes "onAppliedSandboxModifications ok n cb m = Inr m'" and "isolated dp0 dk0 m"
  shows "isolated dp0 dk0 m'"
  using assms(1) unfolding onAppliedSandboxModifications_def
proof (rule query_over_isolated [OF _ assms(2)])
  fix m1
  assume m1: "isolated dp0 dk0 m1"
  have "isolated dp0 dk0 (m1\<lparr>mm_stats := st, mm_lowerSandboxFsTree := mm_upperSandboxFsTree m1, mm_upperSandboxFsTree := None,
          mm_upperSandboxFilesSize := a, mm_lowerSandboxFilesSize := b, mm_callManagedHashes := {}\<rparr>)"
    and "isolated dp0 dk0 (m1\<lparr>mm_stats := st, mm_upperSandboxFsTree := None, mm_upperSandboxFilesSize := a, mm_callManagedHashes := {}\<rparr>)" for st a b
    using m1 by (simp_all add: isolated_def Let_def own_tree_def)
  then show "bind_outcome (sirius_assert (n \<le> mm_upperSandboxFilesSize m1)) (\<lambda>_.
       let upperSize = mm_upperSandboxFilesSize m1 - n
       in if ok
          then Inr (answer cb (RApplied True)
                 (m1\<lparr>mm_stats := drop_tree (mm_lowerSandboxFsTree m1) (mm_stats m1),
                     mm_lowerSandboxFsTree := mm_upperSandboxFsTree m1, mm_upperSandboxFsTree := None,
                     mm_upperSandboxFilesSize := upperSize, mm_lowerSandboxFilesSize := upperSize,
                     mm_callManagedHashes := {}\<rparr>))
          else bind_outcome (sirius_assert (mm_lowerSandboxFilesSize m1 = upperSize)) (\<lambda>_.
                 Inr (answer cb (RApplied False)
                   (m1\<lparr>mm_stats := drop_tree (mm_upperSandboxFsTree m1) (mm_stats m1), mm_upperSandboxFsTree := None,
                       mm_upperSandboxFilesSize := 0, mm_callManagedHashes := {}\<rparr>)))) = Inr m' \<Longrightarrow> isolated dp0 dk0 m'"
    by (auto simp: bind_outcome_Inr_iff Let_def split: if_splits)
qed

lemma answering_isolated:
  assumes "isolated dp0 dk0 m"
  shows "onReadFile bs cb m = Inr m' \<Longrightarrow> isolated dp0 dk0 m'"
    and "onFileWritten ok cb m = Inr m' \<Longrightarrow> isolated dp0 dk0 m'"
    and "onFlushed ok cb m = Inr m' \<Longrightarrow> isolated dp0 dk0 m'"
    and "onRemoved n cb m = Inr m' \<Longrightarrow> isolated dp0 dk0 m'"
    and "onMoved n cb m = Inr m' \<Longrightarrow> isolated dp0 dk0 m'"
    and "onFileSizeObtained n cb m = Inr m' \<Longrightarrow> isolated dp0 dk0 m'"
    and "onStorageHashEvaluated h cb m = Inr m' \<Longrightarrow> isolated dp0 dk0 m'"
  unfolding onReadFile_def onFileWritten_def onFlushed_def onRemoved_def onMoved_def onFileSizeObtained_def onStorageHashEvaluated_def
  by (erule query_over_isolated [OF _ assms], auto simp: bind_outcome_Inr_iff)+

lemma session_isolated:
  assumes "session_run j m = Inr m'" and "isolated dp0 dk0 m"
    and "session_ok (drive_inodes (drive_files dp0) dk0) (mm_streams m) j"
  shows "isolated dp0 dk0 m'"
proof (cases j)
  case (FileOpened s mode i p c cb)
  then show ?thesis using assms(1,3) onFileOpened_isolated [OF _ assms(2)] by (simp add: session_run_def)
next
  case (StreamsClosed c)
  then show ?thesis
    using assms(1,2) onSandboxModificationStreamsClosed_isolated [OF _ assms(2)]
    by (cases c) (auto simp: session_run_def isolated_background)
qed (use assms answering_isolated [OF assms(2)] onFileClosed_isolated [OF _ assms(2)] closeFiles_isolated [OF _ assms(2)]
    onAppliedSandboxModifications_isolated [OF _ assms(2)] in \<open>auto simp: session_run_def\<close>)

subsubsection \<open>Runs\<close>

lemma handle_isolated:
  assumes "manual_handle env e m = Inr m'" and "isolated dp0 dk0 m" and "\<And>n. ev_random env n \<notin> drive_files dp0"
    and "\<And>cb. e \<noteq> Request (ApplyStorage True) cb"
  shows "isolated dp0 dk0 m'"
proof (cases e)
  case (Request r cb)
  show ?thesis
  proof (cases "mm_destroyed m")
    case False
    then obtain b m1 where t: "task_request env r cb m = Inr (b, m1)" and m': "m' = (if b then m1 else answer cb RNothing m1)"
      using assms(1) by (auto simp: Request manual_handle_def forward_request_def bind_outcome_Inr_iff)
    have "isolated dp0 dk0 m1" using request_isolated [OF t assms(2,3)] assms(4) Request by blast
    then show ?thesis by (simp add: m')
  qed (use assms(1,2) Request in \<open>auto simp: manual_handle_def forward_request_def\<close>)
next
  case (Background k)
  show ?thesis
  proof (cases "mm_background m")
    case (Cons j js)
    then have r: "background_run env k j (m\<lparr>mm_background := js\<rparr>) = Inr m'"
      using assms(1) by (auto simp: Background manual_handle_def run_background_def split: if_splits)
    have "isolated dp0 dk0 (m\<lparr>mm_background := js\<rparr>)" "background_ok (drive_files dp0) (drive_inodes (drive_files dp0) dk0) (mm_streams m) j"
      using assms(2) Cons by (auto simp: isolated_def Let_def)
    then show ?thesis using background_isolated [OF r] by simp
  qed (use assms(1,2) Background in \<open>simp add: manual_handle_def run_background_def\<close>)
next
  case Session
  show ?thesis
  proof (cases "mm_session m")
    case (Cons j js)
    then have r: "session_run j (m\<lparr>mm_session := js\<rparr>) = Inr m'"
      using assms(1) by (auto simp: Session manual_handle_def run_session_def split: if_splits)
    have "isolated dp0 dk0 (m\<lparr>mm_session := js\<rparr>)" "session_ok (drive_inodes (drive_files dp0) dk0) (mm_streams m) j"
      using assms(2) Cons by (auto simp: isolated_def Let_def)
    then show ?thesis using session_isolated [OF r] by simp
  qed (use assms(1,2) Session in \<open>simp add: manual_handle_def run_session_def\<close>)
next
  case TorrentsRemoved
  moreover have "mm_removalCallbacks m = []" using assms(2) by (simp add: isolated_def Let_def)
  ultimately show ?thesis using assms(1,2) by (simp add: manual_handle_def onTorrentsRemoved_def)
qed (use assms(1,2) in \<open>auto simp: manual_handle_def\<close>)

lemma run_isolated:
  assumes "manual_run env es m = Inr m'" and "isolated dp0 dk0 m" and "\<And>n. ev_random env n \<notin> drive_files dp0"
    and "\<And>cb. Request (ApplyStorage True) cb \<notin> set es"
  shows "isolated dp0 dk0 m'"
  using assms(1,2,4)
proof (induction es arbitrary: m)
  case (Cons e es)
  from Cons.prems(1) obtain m1 where h: "manual_handle env e m = Inr m1" "manual_run env es m1 = Inr m'"
    by (auto simp: bind_outcome_Inr_iff)
  have "isolated dp0 dk0 m1" using handle_isolated [OF h(1) Cons.prems(2) assms(3)] Cons.prems(3) by auto
  from Cons.IH [OF h(2) this] Cons.prems(3) show ?case by simp
qed simp

lemma start_isolated:
  assumes "disk_ok dk" and "tree_ok (dp_fsTree dp)" and "all_files (\<lambda>f. \<not> fl_isModifiable f) (snd (dp_fsTree dp))"
  shows "isolated dp dk (mm_run cb (createManualModificationsTask i dp st rv dk tfs))"
proof -
  have "all_files (own_file (drive_files dp)) (snd (dp_fsTree dp))"
    using assms(3) by (simp add: all_files_def own_file_def)
  then show ?thesis
    using disk_kept_start [OF assms(1)] assms(2)
    by (simp add: mm_run_def createManualModificationsTask_def Let_def isolated_def same_drive_def own_tree_def answer_def)
qed

text \<open>
  C6. Calls of a contract do not touch the drive before its storage modifications are applied: in every run of
  the task without a successful \<^verbatim>\<open>applyStorageModifications\<close>, with any requests in any order, any
  interleaving of the two threads and an interruption at any moment, every file of the drive
  keeps its bytes on the disk, and the tree, the root hash, the identifier of the last approved
  modification and the torrents of the drive stay the same.  The random names of new files are
  assumed to differ from the hashes of the drive's files.
\<close>

theorem manual_modification_leaves_the_drive_alone:
  assumes "disk_ok dk" and "tree_ok (dp_fsTree dp)" and "all_files (\<lambda>f. \<not> fl_isModifiable f) (snd (dp_fsTree dp))"
    and "\<And>n. \<not> map_contains (ev_random env n) (dp_torrentHandleMap dp)"
    and "\<And>cb. Request (ApplyStorage True) cb \<notin> set es"
    and "manual_run env es (mm_run cb (createManualModificationsTask i dp st rv dk tfs)) = Inr m"
  shows "(\<forall>h. map_contains h (dp_torrentHandleMap dp) \<longrightarrow> file_data h (mm_disk m) = file_data h dk) \<and>
    dp_torrentHandleMap (mm_params m) = dp_torrentHandleMap dp \<and> dp_fsTree (mm_params m) = dp_fsTree dp \<and>
    dp_rootHash (mm_params m) = dp_rootHash dp \<and>
    dp_lastApprovedModification (mm_params m) = dp_lastApprovedModification dp"
proof -
  have "isolated dp dk m"
    using run_isolated [OF assms(6) start_isolated [OF assms(1-3)]] assms(4,5) by (simp add: drive_files_def)
  then show ?thesis
    using disk_kept_file_data by (auto simp: isolated_def Let_def same_drive_def drive_files_def)
qed

definition contract_env :: manual_env where
  "contract_env = \<lparr>ev_random = (\<lambda>n. if n = 0 then 100 else if n = 1 then 101 else 102), ev_openable = (\<lambda>_. True), ev_infoHash = (\<lambda>bs. if even (length bs) then 200 else 201),
     ev_torrentSize = (\<lambda>_. 4), ev_treeHash = (\<lambda>_. 9)\<rparr>"

definition contract_disk :: disk where
  "contract_disk = \<lparr>dk_names = [(7, 0)], dk_data = (\<lambda>_. [])(0 := [1, 2, 3]), dk_next = 1\<rparr>"

definition contract_drive :: drive_params where
  "contract_drive = \<lparr>dp_driveKey = 1, dp_driveOwner = 2, dp_maxSize = 1000000, dp_replicatorKey = 3, dp_minReplicatorsNumber = 4,
     dp_allReplicators = [], dp_donatorShard = [], dp_torrentHandleMap = [(7, \<lparr>tu_valid = True, tu_isUsed = True\<rparr>)],
     dp_rootHash = 8, dp_lastApprovedModification = 6, dp_fsTree = (sample_root, [(''f'', CFile sample_f)]),
     dp_modifyInfos = \<lparr>mi_modifyInfo = [], mi_oldModifications = []\<rparr>, dp_streamMap = [], dp_opinionController = new_controller 2 0, dp_savedOpinion = None\<rparr>"

definition contract_task :: manual where
  "contract_task = mm_run 0 (createManualModificationsTask 5 contract_drive sample_stats
     \<lparr>rv_approvedCumulativeUploads = None, rv_notApprovedCumulativeUploads = None, rv_approvedModification = None\<rparr>
     contract_disk [(7, 4)])"

lemma contract_start: "disk_ok contract_disk" "tree_ok (dp_fsTree contract_drive)"
  "all_files (\<lambda>f. \<not> fl_isModifiable f) (snd (dp_fsTree contract_drive))"
  "\<not> map_contains (ev_random contract_env n) (dp_torrentHandleMap contract_drive)"
  by (auto simp: disk_ok_def contract_disk_def contract_drive_def contract_env_def tree_ok_def sample_f_def mk_file_def
      map_find_def map_contains_def map_ok_def inj_on_def split: if_splits)

text \<open>A contract that overwrites the file \<open>f\<close> of the drive; the run ends before the call is applied.\<close>

definition overwriting :: "manual_event list" where
  "overwriting = [Request (InitiateSandbox []) 1, Request (OpenFile WRITE ''f'') 2, Background 0, Session,
     Request (WriteFile 0 [9]) 3, Background 9, Session, Terminate, Background 0, Session]"

theorem manual_modification_leaves_the_drive_alone_witness:
  "\<exists>m. manual_run contract_env overwriting contract_task = Inr m \<and>
     (2, ROpenFile (Some 0)) \<in> set (mm_answers m) \<and> (3, RSuccess True) \<in> set (mm_answers m) \<and>
     file_data 7 (mm_disk m) = Some [1, 2, 3] \<and> dp_rootHash (mm_params m) = 8"
proof -
  have "map_sum id mm_answers (manual_run contract_env overwriting contract_task) =
      Inr [(0, RInitiated), (1, RSandboxInitiated), (2, ROpenFile (Some 0)), (3, RSuccess True)]"
    by code_simp
  then obtain m where m: "manual_run contract_env overwriting contract_task = Inr m"
    and a: "(2, ROpenFile (Some 0)) \<in> set (mm_answers m)" "(3, RSuccess True) \<in> set (mm_answers m)"
    by (cases "manual_run contract_env overwriting contract_task") auto
  have "\<And>cb. Request (ApplyStorage True) cb \<notin> set overwriting" by (simp add: overwriting_def)
  from manual_modification_leaves_the_drive_alone [OF contract_start this m [unfolded contract_task_def]]
  have "file_data 7 (mm_disk m) = file_data 7 contract_disk" "dp_rootHash (mm_params m) = 8"
    by (simp_all add: contract_drive_def map_contains_def)
  then show ?thesis using m a by (simp add: file_data_def contract_disk_def map_find_def)
qed

end
