(* ===== verification/Manual_Outcomes.thy ===== *)
theory Manual_Outcomes
  imports Manual_Props
begin

section \<open>How manual modifications end\<close>

text \<open>
  The storage a modification leaves behind when it is applied, and the inputs and the orders of
  events on which a manual modification fails: an interruption while the storage is applied, an
  empty file, a move that fails.
\<close>

subsection \<open>Applying the storage\<close>

text \<open>A task between two calls: no query runs, no job is pending, no call is open.\<close>

definition between_calls :: "folder \<Rightarrow> manual \<Rightarrow> bool" where
  "between_calls t m \<longleftrightarrow> \<not> mm_isExecutingQuery m \<and> \<not> mm_taskIsInterrupted m \<and> \<not> mm_taskIsFinished m \<and>
     \<not> mm_destroyed m \<and> mm_upperSandboxFsTree m = None \<and> mm_lowerSandboxFsTree m = Some t \<and>
     mm_background m = [] \<and> mm_session m = [] \<and> mm_removalCallbacks m = []"

definition new_torrents :: "folder \<Rightarrow> torrent_map \<Rightarrow> torrent_map" where
  "new_torrents t tm =
     fold (\<lambda>h tm. if h \<noteq> 0 \<and> \<not> map_contains h tm then map_put h \<lparr>tu_valid = True, tu_isUsed = True\<rparr> tm else tm)
       (sorted_list_of_set (getUniqueFiles t {})) tm"

lemma new_torrents_find:
  assumes "map_ok tm"
  shows "map_ok (new_torrents t tm) \<and> map_find x (new_torrents t tm) =
    (case map_find x tm of
       Some u \<Rightarrow> Some u
     | None \<Rightarrow> if x \<noteq> 0 \<and> x \<in> getUniqueFiles t {} then Some \<lparr>tu_valid = True, tu_isUsed = True\<rparr> else None)"
proof -
  let ?add = "\<lambda>h tm. if h \<noteq> 0 \<and> \<not> map_contains h tm then map_put h \<lparr>tu_valid = True, tu_isUsed = True\<rparr> tm else tm"
  have "map_ok (fold ?add hs tm) \<and> map_find x (fold ?add hs tm) =
      (case map_find x tm of Some u \<Rightarrow> Some u
       | None \<Rightarrow> if x \<noteq> 0 \<and> x \<in> set hs then Some \<lparr>tu_valid = True, tu_isUsed = True\<rparr> else None)" for hs
    using assms
  proof (induction hs arbitrary: tm)
    case (Cons h hs)
    then have "map_ok (?add h tm)" by simp
    from Cons.IH [OF this] show ?case by (auto simp: map_contains_find split: option.splits)
  qed (auto split: option.splits)
  then show ?thesis by (simp add: new_torrents_def finite_getUniqueFiles)
qed

text \<open>The torrents after the marking, and those that are not used by then.\<close>

definition marked_torrents :: "folder \<Rightarrow> torrent_map \<Rightarrow> torrent_map" where
  "marked_torrents t tm = markUsedFiles t (new_torrents t tm)"

definition stale :: "folder \<Rightarrow> torrent_map \<Rightarrow> hash256 list" where
  "stale t tm = map fst (filter (\<lambda>e. \<not> tu_isUsed (snd e)) (marked_torrents t tm))"

lemma marked_torrents_find:
  assumes "map_ok tm"
  shows "map_ok (marked_torrents t tm)"
    and "map_find x (marked_torrents t tm) =
      (case map_find x tm of
         Some u \<Rightarrow> Some (if x \<in> getUniqueFiles t {} then u\<lparr>tu_isUsed := True\<rparr> else u)
       | None \<Rightarrow> if x \<noteq> 0 \<and> x \<in> getUniqueFiles t {} then Some \<lparr>tu_valid = True, tu_isUsed = True\<rparr> else None)"
  using new_torrents_find [OF assms, of t] markUsedFiles_find [of "new_torrents t tm" t]
  by (auto simp: marked_torrents_def getUniqueFiles_eq split: option.splits)

lemma kept_torrents:
  assumes "map_ok tm"
  shows "map_contains x (erase_unused (marked_torrents t tm)) \<longleftrightarrow>
      (\<exists>u. map_find x tm = Some u \<and> (tu_isUsed u \<or> x \<in> getUniqueFiles t {})) \<or> x \<noteq> 0 \<and> x \<in> getUniqueFiles t {} \<and> \<not> map_contains x tm"
    and "x \<in> set (stale t tm) \<longleftrightarrow> (\<exists>u. map_find x tm = Some u \<and> \<not> tu_isUsed u) \<and> x \<notin> getUniqueFiles t {}"
proof -
  have ok: "map_ok (marked_torrents t tm)" using marked_torrents_find [OF assms] by simp
  show "map_contains x (erase_unused (marked_torrents t tm)) \<longleftrightarrow>
      (\<exists>u. map_find x tm = Some u \<and> (tu_isUsed u \<or> x \<in> getUniqueFiles t {})) \<or> x \<noteq> 0 \<and> x \<in> getUniqueFiles t {} \<and> \<not> map_contains x tm"
    by (auto simp: erase_unused_def map_contains_find map_find_filter [OF ok] marked_torrents_find [OF assms] split: option.splits)
  have "x \<in> fst ` {e \<in> set (marked_torrents t tm). \<not> tu_isUsed (snd e)} \<longleftrightarrow>
      (\<exists>u. map_find x (marked_torrents t tm) = Some u \<and> \<not> tu_isUsed u)"
    using in_set_map_find [OF ok] by (force dest: map_find_in_set)
  then show "x \<in> set (stale t tm) \<longleftrightarrow> (\<exists>u. map_find x tm = Some u \<and> \<not> tu_isUsed u) \<and> x \<notin> getUniqueFiles t {}"
    by (auto simp: stale_def marked_torrents_find [OF assms] split: option.splits)
qed

lemma remove_many_file_data:
  "map_ok (dk_names dk) \<Longrightarrow> file_data x (fold remove_file hs dk) = (if x \<in> set hs then None else file_data x dk)"
proof (induction hs arbitrary: dk)
  case (Cons h hs)
  then have "map_ok (dk_names (remove_file h dk))" by (simp add: remove_file_def)
  from Cons.IH [OF this] Cons.prems show ?case
    by (auto simp: file_data_def remove_file_def map_find_erase)
qed simp

lemmas storage_steps =
  manual_handle_def forward_request_def task_request_def run_background_def run_session_def background_run_def session_run_def
  applyStorageModifications_def addNewTorrentsToSession_def onNewTorrentAdded_def onTorrentsRemoved_def
  onUnusedTorrentsDeleted_def onAppliedStorageModifications_def manual_basics

text \<open>
  C20. Applying the storage makes the sandbox the drive: from a state between two calls whose
  storage hash was evaluated, a successful \<^verbatim>\<open>applyStorageModifications\<close> with the jobs it posts
  succeeds; the drive then has the tree and the root hash of the sandbox and the identifier of
  the modification, the tree file is replaced, and the request is answered once.  A torrent
  remains exactly when its file is in the new tree or it was marked as used before, and exactly
  the files of the others are removed from the disk.  Since nothing marks a torrent as
  unused here, a file deleted by the contract keeps its torrent and its bytes.
\<close>

theorem applied_storage_becomes_the_drive:
  assumes "between_calls t m" and "mm_sandboxRootHash m = Some h" and "mm_sandboxFsTreeFile m = Some ft"
    and "map_ok (dp_torrentHandleMap (mm_params m))" and "\<not> map_contains 0 (dp_torrentHandleMap (mm_params m))"
    and "map_ok (dk_names (mm_disk m))"
  shows "\<exists>m'. manual_run env [Request (ApplyStorage True) cb, Background k, Session, TorrentsRemoved, Background k, Session] m = Inr m' \<and>
    dp_fsTree (mm_params m') = t \<and> dp_rootHash (mm_params m') = h \<and>
    dp_lastApprovedModification (mm_params m') = mm_modificationIdentifier m \<and> mm_fsTreeFile m' = Some ft \<and>
    mm_answers m' = mm_answers m @ [(cb, RStorageApplied)] \<and> mm_background m' = [ClearTrash] \<and> mm_session m' = [] \<and>
    (\<forall>x. map_contains x (dp_torrentHandleMap (mm_params m')) \<longleftrightarrow>
       x \<noteq> 0 \<and> x \<in> getUniqueFiles t {} \<or> (\<exists>u. map_find x (dp_torrentHandleMap (mm_params m)) = Some u \<and> tu_isUsed u)) \<and>
    (\<forall>x. file_data x (mm_disk m') =
       (if (\<exists>u. map_find x (dp_torrentHandleMap (mm_params m)) = Some u \<and> \<not> tu_isUsed u) \<and> x \<notin> getUniqueFiles t {}
        then None else file_data x (mm_disk m)))"
proof -
  let ?tm = "dp_torrentHandleMap (mm_params m)"
  have zero: "\<not> map_contains 0 (marked_torrents t ?tm)"
    using assms(5) marked_torrents_find(2) [OF assms(4), of 0 t] by (auto simp: map_contains_find split: option.splits)
  have stale0: "0 \<notin> set (stale t ?tm)"
    using assms(5) kept_torrents(2) [OF assms(4), of 0 t] by (auto simp: map_contains_find)
  let ?m1 = "m\<lparr>mm_session := [NewTorrentAdded cb], mm_params := (mm_params m)\<lparr>dp_torrentHandleMap := new_torrents t ?tm\<rparr>\<rparr>"
  have 1: "bind_outcome (manual_handle env (Request (ApplyStorage True) cb) m) (manual_handle env (Background k)) = Inr ?m1"
    using assms(1) by (simp add: storage_steps between_calls_def new_torrents_def)
  let ?m2 = "m\<lparr>mm_params := (mm_params m)\<lparr>dp_torrentHandleMap := marked_torrents t ?tm\<rparr>,
     mm_removedTorrents := mm_removedTorrents m @ unused_valid (marked_torrents t ?tm), mm_removalCallbacks := [cb]\<rparr>"
  have 2: "manual_handle env Session ?m1 = Inr ?m2"
    using assms(1) zero by (simp add: storage_steps between_calls_def marked_torrents_def Let_def)
  let ?m3 = "m\<lparr>mm_params := (mm_params m)\<lparr>dp_torrentHandleMap := erase_unused (marked_torrents t ?tm)\<rparr>,
     mm_removedTorrents := mm_removedTorrents m @ unused_valid (marked_torrents t ?tm),
     mm_session := [AppliedStorageModifications cb], mm_sandboxFsTreeFile := None, mm_fsTreeFile := Some ft, mm_sandboxFsTreeHandle := True,
     mm_restart := run_job (SaveApproved (mm_modificationIdentifier m)) (dp_opinionController (mm_params m)) (mm_restart m),
     mm_disk := fold remove_file (stale t ?tm) (mm_disk m), mm_torrents := fold map_erase (stale t ?tm) (mm_torrents m)\<rparr>"
  have 3: "bind_outcome (manual_handle env TorrentsRemoved ?m2) (manual_handle env (Background k)) = Inr ?m3"
    using assms(1,3) stale0 by (simp add: storage_steps between_calls_def stale_def Let_def)
  let ?m' = "m\<lparr>mm_params := (mm_params m)\<lparr>dp_torrentHandleMap := erase_unused (marked_torrents t ?tm), dp_fsTree := t, dp_rootHash := h,
       dp_lastApprovedModification := mm_modificationIdentifier m\<rparr>,
     mm_removedTorrents := mm_removedTorrents m @ unused_valid (marked_torrents t ?tm),
     mm_sandboxFsTreeFile := None, mm_fsTreeFile := Some ft, mm_sandboxFsTreeHandle := True,
     mm_restart := run_job (SaveApproved (mm_modificationIdentifier m)) (dp_opinionController (mm_params m)) (mm_restart m),
     mm_disk := fold remove_file (stale t ?tm) (mm_disk m), mm_torrents := fold map_erase (stale t ?tm) (mm_torrents m),
     mm_stats := release_child (as_child (dp_fsTree (mm_params m))) (mm_stats m), mm_lowerSandboxFsTree := None,
     mm_answers := mm_answers m @ [(cb, RStorageApplied)], mm_taskIsFinished := True, mm_background := [ClearTrash]\<rparr>"
  have 4: "manual_handle env Session ?m3 = Inr ?m'"
    using assms(1,2) by (simp add: storage_steps between_calls_def Let_def)
  have run: "manual_run env [Request (ApplyStorage True) cb, Background k, Session, TorrentsRemoved, Background k, Session] m = Inr ?m'"
  proof -
    from 1 obtain ma where a: "manual_handle env (Request (ApplyStorage True) cb) m = Inr ma" "manual_handle env (Background k) ma = Inr ?m1"
      by (auto simp only: bind_outcome_Inr_iff)
    from 3 obtain mb where b: "manual_handle env TorrentsRemoved ?m2 = Inr mb" "manual_handle env (Background k) mb = Inr ?m3"
      by (auto simp only: bind_outcome_Inr_iff)
    show ?thesis by (simp only: manual_run.simps a b 2 4 bind_outcome.simps)
  qed
  have "map_contains x (erase_unused (marked_torrents t ?tm)) \<longleftrightarrow>
      x \<noteq> 0 \<and> x \<in> getUniqueFiles t {} \<or> (\<exists>u. map_find x ?tm = Some u \<and> tu_isUsed u)" for x
    using kept_torrents(1) [OF assms(4), of x t] assms(5) by (auto simp: map_contains_find)
  moreover have "file_data x (fold remove_file (stale t ?tm) (mm_disk m)) =
      (if (\<exists>u. map_find x ?tm = Some u \<and> \<not> tu_isUsed u) \<and> x \<notin> getUniqueFiles t {} then None else file_data x (mm_disk m))" for x
    by (simp add: remove_many_file_data [OF assms(6)] kept_torrents(2) [OF assms(4)])
  ultimately show ?thesis using run assms(1) by (intro exI [of _ ?m']) (simp add: between_calls_def)
qed

text \<open>A contract that removes the only file of the drive and has the storage hash evaluated.\<close>

definition removing :: "manual_event list" where
  "removing = [Request (InitiateSandbox []) 1, Request (RemoveEntry ''f'') 2, Background 0, Session,
     Request (ApplySandbox True) 3, Background 0, Session, Background 0, Session, Request EvaluateStorageHash 4, Background 0, Session]"

lemma removing_runs:
  "map_sum id (\<lambda>m. (mm_isExecutingQuery m, mm_taskIsInterrupted m, mm_taskIsFinished m, mm_destroyed m, mm_upperSandboxFsTree m,
       map_option snd (mm_lowerSandboxFsTree m), mm_background m, mm_session m, mm_removalCallbacks m)) (manual_run contract_env removing contract_task) =
     Inr (False, False, False, False, None, Some [], [], [], [])"
  "map_sum id (\<lambda>m. (mm_sandboxRootHash m, map_option snd (mm_sandboxFsTreeFile m), dp_torrentHandleMap (mm_params m), dk_names (mm_disk m), file_data 7 (mm_disk m)))
      (manual_run contract_env removing contract_task) =
     Inr (Some 9, Some [], [(7, \<lparr>tu_valid = True, tu_isUsed = True\<rparr>)], [(7, 0)], Some [1, 2, 3])"
  by code_simp+

theorem applied_storage_becomes_the_drive_witness:
  "\<exists>m m'. manual_run contract_env removing contract_task = Inr m \<and>
     manual_run contract_env [Request (ApplyStorage True) 5, Background 0, Session, TorrentsRemoved, Background 0, Session] m = Inr m' \<and>
     snd (dp_fsTree (mm_params m')) = [] \<and> dp_rootHash (mm_params m') = 9 \<and>
     map_contains 7 (dp_torrentHandleMap (mm_params m')) \<and> file_data 7 (mm_disk m') = Some [1, 2, 3]"
proof -
  from removing_runs obtain m t ft where m: "manual_run contract_env removing contract_task = Inr m"
    and b: "between_calls t m" "snd t = []" and h: "mm_sandboxRootHash m = Some 9" and ft: "mm_sandboxFsTreeFile m = Some ft"
    and tm: "dp_torrentHandleMap (mm_params m) = [(7, \<lparr>tu_valid = True, tu_isUsed = True\<rparr>)]" and dk: "dk_names (mm_disk m) = [(7, 0)]"
      "file_data 7 (mm_disk m) = Some [1, 2, 3]"
    by (cases "manual_run contract_env removing contract_task") (auto simp: between_calls_def)
  have "map_ok (dp_torrentHandleMap (mm_params m))" "\<not> map_contains 0 (dp_torrentHandleMap (mm_params m))" "map_ok (dk_names (mm_disk m))"
    by (simp_all add: tm dk map_ok_def map_contains_def)
  from applied_storage_becomes_the_drive [OF b(1) h ft this, of contract_env 5 0] obtain m' where
    m': "manual_run contract_env [Request (ApplyStorage True) 5, Background 0, Session, TorrentsRemoved, Background 0, Session] m = Inr m'"
    and r: "dp_fsTree (mm_params m') = t" "dp_rootHash (mm_params m') = 9" "\<And>x. map_contains x (dp_torrentHandleMap (mm_params m')) \<longleftrightarrow>
       x \<noteq> 0 \<and> x \<in> getUniqueFiles t {} \<or> (\<exists>u. map_find x (dp_torrentHandleMap (mm_params m)) = Some u \<and> tu_isUsed u)"
      "\<And>x. file_data x (mm_disk m') =
       (if (\<exists>u. map_find x (dp_torrentHandleMap (mm_params m)) = Some u \<and> \<not> tu_isUsed u) \<and> x \<notin> getUniqueFiles t {}
        then None else file_data x (mm_disk m))"
    by blast
  have "map_contains 7 (dp_torrentHandleMap (mm_params m'))" "file_data 7 (mm_disk m') = Some [1, 2, 3]"
    using r(3,4) [of 7] by (simp_all add: tm dk map_find_def)
  then show ?thesis using m m' r(1,2) b(2) by blast
qed

subsection \<open>Interruption\<close>

text \<open>
  A task that is interrupted while its storage is being applied is destroyed before the removal
  of the old torrents is reported, and the report uses the destroyed task:
  \<^verbatim>\<open>applyStorageModifications\<close> does not mark the task as busy, so \<^verbatim>\<open>terminate\<close> ends it at once.
\<close>

lemma interruption_while_applying_uses_a_freed_task:
  assumes "between_calls t m" and "map_ok (dp_torrentHandleMap (mm_params m))"
    and "\<not> map_contains 0 (dp_torrentHandleMap (mm_params m))" and "mm_openFilesWrite m = []" and "mm_openFilesRead m = []"
  shows "manual_run env [Request (ApplyStorage True) cb, Terminate, Background k, Background k, Session, Session,
    Background k, Session, Background k, Session, TorrentsRemoved] m = Inl UseAfterFree"
proof -
  let ?tm = "dp_torrentHandleMap (mm_params m)"
  have zero: "\<not> map_contains 0 (markUsedFiles t (new_torrents t ?tm))"
    using assms(3) marked_torrents_find(2) [OF assms(2), of 0 t]
    by (auto simp: map_contains_find marked_torrents_def split: option.splits)
  show ?thesis
    using assms zero
    by (simp add: storage_steps between_calls_def Let_def clearTrash_def closeFiles_def unblock_files_def closeStreams_def
        flip: new_torrents_def)
qed

subsection \<open>Moves that fail\<close>

lemma moveFlat_missing: "getEntryPtr src d = None \<Longrightarrow> moveFlat src dst d st = Inr (False, d, st, [])"
  by (simp add: moveFlat_def getEntryPtr_look look_snoc)

text \<open>The loop over files of different names removes their sizes, whatever the order.\<close>

lemma remove_counted_sum:
  assumes "distinct hs" and "map_ok (dk_names dk)"
  shows "fst (remove_counted hs n dk) = n + (\<Sum>h\<leftarrow>hs. size_or_error h dk)"
  using assms
proof (induction hs arbitrary: n dk)
  case (Cons h hs)
  have same: "size_or_error x (remove_file h dk) = size_or_error x dk" if "x \<in> set hs" for x
    using that Cons.prems by (auto simp: size_or_error_def file_size_def file_data_def remove_file_def map_find_erase)
  have "map_ok (dk_names (remove_file h dk))" using Cons.prems by (simp add: remove_file_def)
  then have "fst (remove_counted (h # hs) n dk) = n + size_or_error h dk + (\<Sum>x\<leftarrow>hs. size_or_error x (remove_file h dk))"
    using Cons.IH [of "remove_file h dk"] Cons.prems by simp
  also have "(\<Sum>x\<leftarrow>hs. size_or_error x (remove_file h dk)) = (\<Sum>x\<leftarrow>hs. size_or_error x dk)"
    using same by (simp cong: map_cong)
  finally show ?case by (simp add: add.assoc)
qed simp

lemma discard_counts:
  assumes "finite hs" and "map_ok (dk_names dk)"
  shows "fst (remove_counted (sorted_list_of_set hs) 0 dk) = (\<Sum>h\<in>hs. size_or_error h dk)"
  using remove_counted_sum [OF distinct_sorted_list_of_set assms(2), of hs 0] assms(1)
  by (simp add: sum_list_distinct_conv_sum_set)

text \<open>A call that is open, with nothing else going on.\<close>

definition in_call :: "folder \<Rightarrow> manual \<Rightarrow> bool" where
  "in_call t m \<longleftrightarrow> \<not> mm_isExecutingQuery m \<and> \<not> mm_taskIsInterrupted m \<and> \<not> mm_destroyed m \<and> mm_upperSandboxFsTree m = Some t \<and>
     mm_background m = [] \<and> mm_session m = [] \<and> mm_openFilesWrite m = [] \<and> mm_openFilesRead m = [] \<and> mm_folderIterators m = []"

text \<open>The counter of a call covers the files it has written.\<close>

definition balanced :: "manual \<Rightarrow> bool" where
  "balanced m \<longleftrightarrow> finite (mm_callManagedHashes m) \<and> 0 \<notin> mm_callManagedHashes m \<and> map_ok (dk_names (mm_disk m)) \<and>
     mm_upperSandboxFilesSize m = mm_lowerSandboxFilesSize m + (\<Sum>h\<in>mm_callManagedHashes m. size_or_error h (mm_disk m))"

lemmas call_steps =
  manual_handle_def forward_request_def task_request_def run_background_def run_session_def background_run_def session_run_def
  applySandboxModifications_def closeFiles_def unblock_files_def closeStreams_def onSandboxModificationStreamsClosed_def
  destroy_iterators_def query_over_def manual_basics

text \<open>Discarding a call in which nothing is open: the two assertions on the counters decide.\<close>

lemma discarding_a_call:
  assumes "in_call t m" and "finite (mm_callManagedHashes m)" "0 \<notin> mm_callManagedHashes m" "map_ok (dk_names (mm_disk m))"
  defines "n \<equiv> \<Sum>h\<in>mm_callManagedHashes m. size_or_error h (mm_disk m)"
  shows "manual_run env [Request (ApplySandbox False) cb, Background k, Session, Background k, Session] m = Inl AssertionFailure \<longleftrightarrow>
    \<not> (n \<le> mm_upperSandboxFilesSize m \<and> mm_lowerSandboxFilesSize m = mm_upperSandboxFilesSize m - n)"
proof -
  obtain dk where dk: "remove_counted (sorted_list_of_set (mm_callManagedHashes m)) 0 (mm_disk m) = (n, dk)"
    using discard_counts [OF assms(2,4)] by (metis n_def prod.collapse)
  obtain t' st' where c: "clearStatisticsNode t (mm_stats m) = (t', st')" by fastforce
  show ?thesis
    using assms(1,3) dk c
    by (simp add: call_steps in_call_def Let_def discardUpperSandboxModifications_def onAppliedSandboxModifications_def
        sirius_assert_def)
qed



text \<open>
  A move that fails makes it impossible to discard the call: when the source does not exist
  and the destination is a file written by the call, \<^verbatim>\<open>moveFsTreeEntry\<close> answers that it failed, but has
  already forgotten that the call wrote the destination, so discarding the call afterwards does not
  find its bytes and trips an assertion on the sizes.
\<close>

lemma failed_move_breaks_the_discarding:
  assumes "in_call t m" and "balanced m" and "checkUnlock src t (mm_stats m)" and "checkUnlock dst t (mm_stats m)"
    and "getEntryPtr src t = None" and "getEntryPtr dst t = Some (CFile f)" and "fl_hash f \<in> mm_callManagedHashes m"
    and "size_or_error (fl_hash f) (mm_disk m) \<noteq> 0"
  shows "manual_run env [Request (MoveEntry src dst) cb, Request (ApplySandbox False) cb', Background k, Session, Background k, Session] m =
    Inl AssertionFailure"
proof -
  let ?h = "fl_hash f" and ?hs = "mm_callManagedHashes m"
  let ?m1 = "m\<lparr>mm_callManagedHashes := ?hs - {?h}, mm_upperSandboxFsTree := Some t, mm_answers := mm_answers m @ [(cb, RSuccess False)]\<rparr>"
  have b: "finite ?hs" "0 \<notin> ?hs" "map_ok (dk_names (mm_disk m))"
    "mm_upperSandboxFilesSize m = mm_lowerSandboxFilesSize m + (\<Sum>h\<in>?hs. size_or_error h (mm_disk m))"
    using assms(2) by (simp_all add: balanced_def)
  have 1: "manual_handle env (Request (MoveEntry src dst) cb) m = Inr ?m1"
    using assms(1,3-7) moveFlat_missing [OF assms(5)]
    by (simp add: manual_handle_def forward_request_def task_request_def moveFsTreeEntry_def on_upper_def in_call_def
        obtainUnusedFiles_def manual_basics Let_def)
  have sum: "(\<Sum>h\<in>?hs. size_or_error h (mm_disk m)) = size_or_error ?h (mm_disk m) + (\<Sum>h\<in>?hs - {?h}. size_or_error h (mm_disk m))"
    by (rule sum.remove [OF b(1) assms(7)])
  have "in_call t ?m1" using assms(1) by (simp add: in_call_def)
  from discarding_a_call [OF this, of env cb' k] b assms(8) sum
  have "manual_run env [Request (ApplySandbox False) cb', Background k, Session, Background k, Session] ?m1 = Inl AssertionFailure"
    by (simp add: algebra_simps)
  then show ?thesis unfolding manual_run.simps(2) [of env "Request (MoveEntry src dst) cb"] 1 bind_outcome.simps .
qed





subsection \<open>Empty files\<close>

lemma evaluateSizes_fault: "evaluateSizes_children dsize tsize es n = Inl e \<Longrightarrow> e = Exception ''file_size''"
proof (induction dsize tsize es n rule: evaluateSizes_children.induct)
  case (2 dsize tsize n a cs es sz)
  then show ?case by (cases "evaluateSizes_children dsize tsize cs 0") auto
qed (auto simp: Let_def split: option.splits if_splits)

lemma evaluateSizes_missing:
  assumes "f \<in> set (files_below es)" and "dsize (fl_hash f) = None"
  shows "evaluateSizes_children dsize tsize es n = Inl (Exception ''file_size'')"
  using assms
proof (induction dsize tsize es n rule: evaluateSizes_children.induct)
  case (2 dsize tsize n a cs es sz)
  then show ?case using evaluateSizes_fault [of dsize tsize cs 0] by (cases "evaluateSizes_children dsize tsize cs 0") auto
qed (auto simp: Let_def split: option.splits)

text \<open>An empty file keeps no name on the disk when its hash is computed.\<close>

definition at_most_empty :: "hash256 \<Rightarrow> disk \<Rightarrow> bool" where
  "at_most_empty h dk \<longleftrightarrow> map_ok (dk_names dk) \<and> file_data 0 dk = None \<and> (\<forall>bs. file_data h dk = Some bs \<longrightarrow> bs = [])"

lemma hash_file_at_most_empty:
  assumes "hash_file env tm g (dk, tfs) = Inr (g', dk', tfs')" and "at_most_empty h dk" and "\<And>bs. ev_infoHash env bs \<noteq> h"
  shows "at_most_empty h dk'"
proof -
  have "at_most_empty h (remove_file x dk)" for x
    using assms(2) by (auto simp: at_most_empty_def file_data_def remove_file_def map_find_erase split: if_splits)
  moreover have "at_most_empty h (rename_file x y dk)" if "y \<noteq> 0" "y \<noteq> h" for x y
    using assms(2) that by (auto simp: at_most_empty_def file_data_def rename_file_def map_find_erase split: option.splits if_splits)
  ultimately show ?thesis
    using assms by (auto simp: hash_file_def bind_outcome_Inr_iff Let_def split: if_splits)
qed

lemma hash_children_empty:
  assumes "hash_children env tm es (dk, tfs) = Inr (es', dk', tfs')" and "at_most_empty (fl_hash f) dk"
    and "\<forall>bs. ev_infoHash env bs \<noteq> fl_hash f"
  shows "at_most_empty (fl_hash f) dk' \<and>
    (f \<in> set (files_below es) \<longrightarrow> fl_isModifiable f \<longrightarrow> (\<exists>g\<in>set (files_below es'). fl_hash g = 0))"
  using assms
proof (induction env tm es "(dk, tfs)" arbitrary: dk tfs es' dk' tfs' rule: hash_children.induct)
  case (2 env tm n a cs es)
  from "2.prems"(1) obtain cs' dk1 tfs1 es1 where
    c: "hash_children env tm cs (dk, tfs) = Inr (cs', dk1, tfs1)"
    and e: "hash_children env tm es (dk1, tfs1) = Inr (es1, dk', tfs')" "es' = (n, CFolder a cs') # es1"
    by (auto simp: bind_outcome_Inr_iff)
  from "2.hyps"(1) [OF c "2.prems"(2,3)] "2.hyps"(2) [OF e(1)] "2.prems"(3) show ?case by (auto simp: e(2))
next
  case (3 env tm n f0 es)
  from "3.prems"(1) obtain f' dk1 tfs1 es1 where
    c: "hash_file env tm f0 (dk, tfs) = Inr (f', dk1, tfs1)"
    and e: "hash_children env tm es (dk1, tfs1) = Inr (es1, dk', tfs')" "es' = (n, CFile f') # es1"
    by (auto simp: bind_outcome_Inr_iff)
  have "at_most_empty (fl_hash f) dk1" using hash_file_at_most_empty [OF c "3.prems"(2)] "3.prems"(3) by blast
  moreover have "fl_hash f' = 0" if "f0 = f" "fl_isModifiable f"
    using c "3.prems"(2) that by (auto simp: hash_file_def bind_outcome_Inr_iff at_most_empty_def Let_def)
  ultimately show ?case using "3.hyps" [OF e(1)] "3.prems"(3) by (auto simp: e(2))
qed simp

text \<open>
  An empty file written by a contract makes all later calls fail: \<^verbatim>\<open>computeSandboxHash\<close> gives
  it the hash 0 and removes it from the disk, and the next call whose tree contains it, even
  one that changes nothing, throws an exception on the background thread when it is
  applied, because \<^verbatim>\<open>evaluateSizes\<close> asks for the size of every file.
\<close>

lemma empty_file_breaks_later_calls:
  assumes "mm_lowerSandboxFsTree m = Some t" and "f \<in> set (files_below (snd t))" and "fl_isModifiable f"
    and "file_data (fl_hash f) (mm_disk m) = Some []" and "file_data 0 (mm_disk m) = None" and "map_ok (dk_names (mm_disk m))"
    and "\<forall>bs. ev_infoHash env bs \<noteq> fl_hash f" and "computeSandboxHash env cb m = Inr m1"
  shows "validate_and_apply cb' (m1\<lparr>mm_upperSandboxFsTree := mm_lowerSandboxFsTree m1\<rparr>) = Inl (Exception ''file_size'')"
proof -
  from assms(8) obtain cs dk tfs where
    h: "hash_children env (dp_torrentHandleMap (mm_params m)) (snd t) (mm_disk m, mm_torrents m) = Inr (cs, dk, tfs)"
    by (auto simp: computeSandboxHash_def bind_outcome_Inr_iff assms(1) Let_def split: option.splits)
  have m1: "mm_lowerSandboxFsTree m1 = Some (fst t, cs)" "mm_disk m1 = dk"
    using assms(8) by (auto simp: computeSandboxHash_def assms(1) h Let_def executeOnSessionThread_def)
  have "at_most_empty (fl_hash f) (mm_disk m)" using assms(4-6) by (simp add: at_most_empty_def)
  from hash_children_empty [OF h this assms(7)] assms(2,3) obtain g where
    "g \<in> set (files_below cs)" "fl_hash g = 0" "at_most_empty (fl_hash f) dk" by blast
  then have "evaluateSizes (\<lambda>h. file_size h dk) (\<lambda>h. map_find h (mm_torrents m1)) (fst t, cs) = Inl (Exception ''file_size'')"
    using evaluateSizes_missing [of g cs "\<lambda>h. file_size h dk"] by (simp add: evaluateSizes_def at_most_empty_def file_size_def)
  then show ?thesis by (simp add: validate_and_apply_def validateSandboxState_def m1)
qed

text \<open>A contract that creates an empty file.\<close>

definition creating_e :: "manual_event list" where
  "creating_e = [Request (InitiateSandbox []) 1, Request (OpenFile WRITE ''e'') 2, Background 0, Session, Request (CloseFile 0) 3, Background 0, Session,
     Request (ApplySandbox True) 4, Background 0, Session, Background 0, Session]"

lemma creating_e_runs:
  "map_sum id (\<lambda>m. (map_option (\<lambda>t. map (\<lambda>f. (fl_hash f, fl_isModifiable f)) (files_below (snd t))) (mm_lowerSandboxFsTree m),
       file_data 101 (mm_disk m), file_data 0 (mm_disk m), dk_names (mm_disk m))) (manual_run contract_env creating_e contract_task) =
     Inr (Some [(101, True), (7, False)], Some [], None, [(7, 0), (101, 1)])"
  "isl (bind_outcome (manual_run contract_env creating_e contract_task) (computeSandboxHash contract_env 5)) = False"
  by code_simp+

end
