(* ===== verification/Manual_Answers.thy ===== *)
theory Manual_Answers
  imports Manual_Props
    "HOL-Library.Multiset"
begin

section \<open>Answers to requests\<close>

text \<open>
  The protocol between the two threads of a manual modification: as long as the storage is not
  applied, at most one job of the task is pending, every request is answered or
  belongs to this job, and no job is left when the task is destroyed.
\<close>

subsection \<open>Jobs and their callbacks\<close>

fun query_callback :: "background_job \<Rightarrow> nat option" where
  "query_callback (CreateStream h mode i p cb) = Some cb"
| "query_callback (ReadStream s n cb) = Some cb"
| "query_callback (WriteStream s bs cb) = Some cb"
| "query_callback (FlushStream s cb) = Some cb"
| "query_callback (CloseStream s i cb) = Some cb"
| "query_callback (RemoveUnusedFiles hs moved cb) = Some cb"
| "query_callback (ObtainFileSize h cb) = Some cb"
| "query_callback (CloseStreams ids (SandboxStreamsClosed ok cb)) = Some cb"
| "query_callback (ValidateAndApply cb) = Some cb"
| "query_callback (DiscardModifications cb) = Some cb"
| "query_callback (ComputeSandboxHash cb) = Some cb"
| "query_callback _ = None"

fun answer_callback :: "session_job \<Rightarrow> nat option" where
  "answer_callback (FileOpened s mode i p c cb) = Some cb"
| "answer_callback (ReadDone bs cb) = Some cb"
| "answer_callback (FileWritten ok cb) = Some cb"
| "answer_callback (Flushed ok cb) = Some cb"
| "answer_callback (FileClosed i ok cb) = Some cb"
| "answer_callback (Removed n cb) = Some cb"
| "answer_callback (Moved n cb) = Some cb"
| "answer_callback (FileSizeObtained n cb) = Some cb"
| "answer_callback (StreamsClosed (SandboxStreamsClosed ok cb)) = Some cb"
| "answer_callback (AppliedSandboxModifications ok n cb) = Some cb"
| "answer_callback (StorageHashEvaluated h cb) = Some cb"
| "answer_callback _ = None"

text \<open>The jobs that end a task.\<close>

fun ending_background :: "background_job \<Rightarrow> bool" where
  "ending_background ClearTrash = True"
| "ending_background (CloseStreams ids TaskStreamsClosed) = True"
| "ending_background ClearSandbox = True"
| "ending_background _ = False"

fun ending_session :: "session_job \<Rightarrow> bool" where
  "ending_session CloseAllFiles = True"
| "ending_session (StreamsClosed TaskStreamsClosed) = True"
| "ending_session RunNextTask = True"
| "ending_session _ = False"

text \<open>A file that is being closed is open.\<close>

definition is_open :: "u64 \<Rightarrow> manual \<Rightarrow> bool" where
  "is_open i m \<longleftrightarrow> map_find i (mm_openFilesRead m) \<noteq> None \<or> map_find i (mm_openFilesWrite m) \<noteq> None"

fun close_ok :: "background_job \<Rightarrow> manual \<Rightarrow> bool" where
  "close_ok (CloseStream s i cb) m = is_open i m"
| "close_ok _ m = True"

fun closed_ok :: "session_job \<Rightarrow> manual \<Rightarrow> bool" where
  "closed_ok (FileClosed i ok cb) m = is_open i m"
| "closed_ok _ m = True"

lemma close_ok_irrelevant [simp]:
  "close_ok j (mm_answers_update f1 m) = close_ok j m" "closed_ok j2 (mm_answers_update f1 m) = closed_ok j2 m"
  "close_ok j (mm_taskIsInterrupted_update f2 m) = close_ok j m" "closed_ok j2 (mm_taskIsInterrupted_update f2 m) = closed_ok j2 m"
  "close_ok j (mm_background_update f3 m) = close_ok j m" "closed_ok j2 (mm_session_update f4 m) = closed_ok j2 m"
  by (cases j; simp add: is_open_def; fail | cases j2; simp add: is_open_def; fail)+

subsection \<open>States of the protocol\<close>

definition quiet :: "manual \<Rightarrow> bool" where
  "quiet m \<longleftrightarrow> mm_background m = [] \<and> mm_session m = [] \<and> mm_removalCallbacks m = [] \<and> \<not> mm_isExecutingQuery m \<and>
     \<not> mm_taskIsFinished m \<and> \<not> mm_taskIsInterrupted m \<and> \<not> mm_destroyed m"

definition working :: "nat \<Rightarrow> manual \<Rightarrow> bool" where
  "working cb m \<longleftrightarrow> mm_removalCallbacks m = [] \<and> mm_isExecutingQuery m \<and> \<not> mm_taskIsFinished m \<and> \<not> mm_destroyed m \<and>
     ((\<exists>j. mm_background m = [j] \<and> mm_session m = [] \<and> query_callback j = Some cb \<and> close_ok j m) \<or>
      (\<exists>j. mm_background m = [] \<and> mm_session m = [j] \<and> answer_callback j = Some cb \<and> closed_ok j m))"

definition ending :: "manual \<Rightarrow> bool" where
  "ending m \<longleftrightarrow> mm_removalCallbacks m = [] \<and> mm_taskIsFinished m \<and> mm_taskIsInterrupted m \<and> \<not> mm_destroyed m \<and>
     ((\<exists>j. mm_background m = [j] \<and> mm_session m = [] \<and> ending_background j) \<or>
      (\<exists>j. mm_background m = [] \<and> mm_session m = [j] \<and> ending_session j))"

definition gone :: "manual \<Rightarrow> bool" where
  "gone m \<longleftrightarrow> mm_background m = [] \<and> mm_session m = [] \<and> mm_removalCallbacks m = [] \<and> mm_destroyed m"

text \<open>The callbacks the task has called, and the one of the request it is working on.\<close>

definition called :: "manual \<Rightarrow> nat multiset" where
  "called m = mset (map fst (mm_answers m))"

text \<open>A state of the protocol in which the callbacks \<open>A\<close> are accounted for.\<close>

definition protocol :: "nat multiset \<Rightarrow> manual \<Rightarrow> bool" where
  "protocol A m \<longleftrightarrow> (quiet m \<or> ending m \<or> gone m) \<and> called m = A \<or> (\<exists>cb. working cb m \<and> called m + {#cb#} = A)"

lemma quiet_irrelevant [simp]:
  "quiet (mm_answers_update f1 m) = quiet m"
  "quiet (mm_stats_update f2 m) = quiet m"
  "quiet (mm_totalFilesOpened_update f3 m) = quiet m"
  "quiet (mm_totalFolderIteratorsCreated_update f3 m) = quiet m"
  "quiet (mm_folderIterators_update f4 m) = quiet m"
  "quiet (mm_drawn_update f5 m) = quiet m"
  "quiet (mm_upperSandboxFilesSize_update f3 m) = quiet m"
  "quiet (mm_lowerSandboxFilesSize_update f3 m) = quiet m"
  "quiet (mm_upperSandboxFsTree_update f6 m) = quiet m"
  "quiet (mm_lowerSandboxFsTree_update f6 m) = quiet m"
  "quiet (mm_callManagedHashes_update f7 m) = quiet m"
  "quiet (mm_openFilesRead_update f8 m) = quiet m"
  "quiet (mm_openFilesWrite_update f9 m) = quiet m"
  by (simp_all add: quiet_def)

lemma quiet_answer [simp]: "quiet (answer cb r m) = quiet m"
  by (simp add: answer_def)

lemma called_irrelevant [simp]:
  "called (mm_stats_update f2 m) = called m"
  "called (mm_totalFilesOpened_update f3 m) = called m"
  "called (mm_totalFolderIteratorsCreated_update f3 m) = called m"
  "called (mm_folderIterators_update f4 m) = called m"
  "called (mm_drawn_update f5 m) = called m"
  "called (mm_upperSandboxFilesSize_update f3 m) = called m"
  "called (mm_lowerSandboxFilesSize_update f3 m) = called m"
  "called (mm_upperSandboxFsTree_update f6 m) = called m"
  "called (mm_lowerSandboxFsTree_update f6 m) = called m"
  "called (mm_callManagedHashes_update f7 m) = called m"
  "called (mm_openFilesRead_update f8 m) = called m"
  "called (mm_openFilesWrite_update f9 m) = called m"
  "called (mm_isExecutingQuery_update f10 m) = called m"
  "called (mm_taskIsInterrupted_update f10 m) = called m"
  "called (mm_taskIsFinished_update f10 m) = called m"
  "called (mm_destroyed_update f10 m) = called m"
  "called (mm_background_update f11 m) = called m"
  "called (mm_session_update f12 m) = called m"
  "called (mm_streams_update f13 m) = called m"
  "called (mm_disk_update f14 m) = called m"
  by (simp_all add: called_def)

lemma called_answer [simp]: "called (answer cb r m) = called m + {#cb#}"
  by (simp add: called_def answer_def)

lemma called_jobs [simp]: "called (start_query j m) = called m" "called (executeOnSessionThread j2 m) = called m"
    "called (executeOnBackgroundThread j m) = called m" "called (mm_finishTask m) = called m"
  by (simp_all add: manual_basics called_def)

lemma protocol_quiet: "quiet m \<Longrightarrow> called m = A \<Longrightarrow> protocol A m"
  by (simp add: protocol_def)

lemma protocol_start_query:
  "quiet m \<Longrightarrow> query_callback j = Some cb \<Longrightarrow> close_ok j m \<Longrightarrow> called m + {#cb#} = A \<Longrightarrow> protocol A (start_query j m)"
  by (cases j) (auto simp: protocol_def working_def quiet_def manual_basics called_def is_open_def)

lemma protocol_finish:
  "quiet (m\<lparr>mm_taskIsInterrupted := False\<rparr>) \<Longrightarrow> mm_taskIsInterrupted m \<Longrightarrow> called m = A \<Longrightarrow> protocol A (mm_finishTask m)"
  by (auto simp: protocol_def ending_def quiet_def manual_basics called_def)

subsection \<open>Requests\<close>

text \<open>
  A request that finds the task quiet is answered, or becomes the work of the task; \<open>extra\<close> are
  the callbacks called besides.
\<close>

definition served :: "nat multiset \<Rightarrow> manual \<Rightarrow> bool \<Rightarrow> manual \<Rightarrow> bool" where
  "served A m b m' \<longleftrightarrow> b \<and> protocol A m' \<or> \<not> b \<and> m' = m"

lemma on_upper_protocol:
  assumes "on_upper m f = Inr (b, m')" and "quiet m" and "\<And>t. f t = Inr (b, m') \<Longrightarrow> b \<and> protocol A m'"
  shows "served A m b m'"
  using assms(1) by (rule on_upperE) (use assms(2,3) in \<open>auto simp: served_def\<close>)

lemmas request_outcomes = answered_def queried_def protocol_quiet protocol_start_query bind_outcome_Inr_iff

lemma reading_protocol:
  assumes "quiet m"
  shows "readFile i n cb m = Inr (b, m') \<Longrightarrow> served (called m + {#cb#}) m b m'"
    and "writeFile i bs cb m = Inr (b, m') \<Longrightarrow> served (called m + {#cb#}) m b m'"
    and "flush i cb m = Inr (b, m') \<Longrightarrow> served (called m + {#cb#}) m b m'"
    and "closeFile i cb m = Inr (b, m') \<Longrightarrow> served (called m + {#cb#}) m b m'"
    and "pathExist p cb m = Inr (b, m') \<Longrightarrow> served (called m + {#cb#}) m b m'"
    and "pathIsFile p cb m = Inr (b, m') \<Longrightarrow> served (called m + {#cb#}) m b m'"
    and "fileSize p cb m = Inr (b, m') \<Longrightarrow> served (called m + {#cb#}) m b m'"
  unfolding readFile_def writeFile_def flush_def closeFile_def pathExist_def pathIsFile_def fileSize_def
  by (erule on_upper_protocol [OF _ assms], (insert assms, auto simp: request_outcomes is_open_def split: option.splits if_splits child.splits)[1])+

lemma changing_protocol:
  assumes "quiet m"
  shows "createDirectories p cb m = Inr (b, m') \<Longrightarrow> served (called m + {#cb#}) m b m'"
    and "folderIteratorCreate p r cb m = Inr (b, m') \<Longrightarrow> served (called m + {#cb#}) m b m'"
    and "folderIteratorDestroy i cb m = Inr (b, m') \<Longrightarrow> served (called m + {#cb#}) m b m'"
    and "folderIteratorHasNext i cb m = Inr (b, m') \<Longrightarrow> served (called m + {#cb#}) m b m'"
    and "folderIteratorNext i cb m = Inr (b, m') \<Longrightarrow> served (called m + {#cb#}) m b m'"
  unfolding createDirectories_def folderIteratorCreate_def folderIteratorDestroy_def folderIteratorHasNext_def folderIteratorNext_def
  by (erule on_upper_protocol [OF _ assms], (insert assms, auto simp: request_outcomes Let_def split: option.splits if_splits)[1])+

lemma obtainUnusedFiles_protocol:
  "obtainUnusedFiles c m = (hs, m1) \<Longrightarrow> quiet m1 = quiet m \<and> called m1 = called m"
  by (auto simp: obtainUnusedFiles_def Let_def)

lemma removing_protocol:
  assumes "quiet m" and "removeFsTreeEntry p cb m = Inr (b, m')"
  shows "served (called m + {#cb#}) m b m'"
  using assms(2) unfolding removeFsTreeEntry_def
proof (rule on_upper_protocol [OF _ assms(1)])
  fix t
  assume "bind_outcome (processRemoveRequest p cb t m) (\<lambda>m'. Inr (True, m')) = Inr (b, m')"
  then have b: "b" and r: "processRemoveRequest p cb t m = Inr m'" by (auto simp: bind_outcome_Inr_iff)
  show "b \<and> protocol (called m + {#cb#}) m'"
  proof (cases "checkUnlock p t (mm_stats m) \<and> getEntryPtr p t \<noteq> None")
    case True
    then obtain c hs m1 where c: "getEntryPtr p t = Some c" "obtainUnusedFiles c m = (hs, m1)" by fastforce
    then show ?thesis
      using b r True assms(1) obtainUnusedFiles_protocol [OF c(2)]
      by (auto simp: processRemoveRequest_def bind_outcome_Inr_iff intro!: protocol_start_query)
  qed (use b r assms(1) in \<open>auto simp: processRemoveRequest_def protocol_quiet split: if_splits\<close>)
qed

lemma moving_protocol:
  assumes "quiet m" and "moveFsTreeEntry p q cb m = Inr (b, m')"
  shows "served (called m + {#cb#}) m b m'"
  using assms(2) unfolding moveFsTreeEntry_def
proof (rule on_upper_protocol [OF _ assms(1)])
  fix t
  let ?u = "case getEntryPtr q t of None \<Rightarrow> ({}, m) | Some c \<Rightarrow> obtainUnusedFiles c m"
  assume r: "(if \<not> checkUnlock p t (mm_stats m) \<or> \<not> checkUnlock q t (mm_stats m) then answered cb (RSuccess False) m
     else let (filesToRemove, m1) = ?u
          in bind_outcome (moveFlat p q t (mm_stats m1)) (\<lambda>(ok, t', st', _).
               let m2 = m1\<lparr>mm_upperSandboxFsTree := Some t', mm_stats := st'\<rparr>
               in if \<not> ok then answered cb (RSuccess False) m2
                  else queried (RemoveUnusedFiles filesToRemove True cb) m2)) = Inr (b, m')"
  obtain hs m1 where u: "?u = (hs, m1)" by fastforce
  then have m1: "quiet m1" "called m1 = called m"
    using obtainUnusedFiles_protocol assms(1) by (auto split: option.splits)
  show "b \<and> protocol (called m + {#cb#}) m'"
  proof (cases "checkUnlock p t (mm_stats m) \<and> checkUnlock q t (mm_stats m)")
    case True
    then show ?thesis
      using r m1 by (auto simp: u request_outcomes Let_def split: if_splits)
  qed (use r assms(1) in \<open>auto simp: answered_def protocol_quiet\<close>)
qed

lemma start_open_protocol:
  assumes "start_open mode p i cb t m = Inr (b, m')" and "quiet m"
  shows "b \<and> protocol (called m + {#cb#}) m'"
  using assms by (auto simp: start_open_def request_outcomes split: option.splits child.splits)

text \<open>\<^verbatim>\<open>openFile\<close> calls the callback once more when too many files are open.\<close>

lemma opening_protocol:
  assumes "quiet m" and "openFile env mode p cb m = Inr (b, m')"
  shows "(\<exists>E. E \<subseteq># {#cb#} \<and> b \<and> protocol (called m + {#cb#} + E) m') \<or> \<not> b \<and> m' = m"
proof -
  obtain E where E: "E \<subseteq># {#cb#}" "called (open_begun cb m) = called m + E" and q: "quiet (open_begun cb m)"
  proof (cases "mm_maxOpenedStreams m \<le> of_nat (length (mm_openFilesRead m)) + of_nat (length (mm_openFilesWrite m))")
    case True
    then show thesis using assms(1) by (intro that [of "{#cb#}"]) (simp_all add: open_begun_def Let_def)
  next
    case False
    then show thesis using assms(1) by (intro that [of "{#}"]) (simp_all add: open_begun_def Let_def)
  qed
  from assms(2) show ?thesis
  proof (cases rule: openFileE)
    case failed
    then show ?thesis using E q by (auto intro!: protocol_quiet)
  next
    case (reading t)
    then show ?thesis using start_open_protocol [OF reading(3) q] E by (auto simp: ac_simps)
  next
    case (writing t d t' m2)
    from prepare_write_fields [OF writing(4)] have "quiet m2" "called m2 = called (open_begun cb m)" using q by auto
    then show ?thesis using start_open_protocol [OF writing(5)] E by (auto simp: ac_simps)
  qed auto
qed

lemma sandbox_protocol:
  assumes "quiet m"
  shows "initiateSandboxModifications ps cb m = Inr (b, m') \<Longrightarrow> served (called m + {#cb#}) m b m'"
    and "evaluateStorageHash cb m = Inr (b, m') \<Longrightarrow> served (called m + {#cb#}) m b m'"
    and "applySandboxModifications ok cb m = Inr (b, m') \<Longrightarrow> served (called m + {#cb#}) m b m'"
proof -
  have flags: "\<not> mm_isExecutingQuery m" "\<not> mm_taskIsInterrupted m" using assms by (simp_all add: quiet_def)
  show "initiateSandboxModifications ps cb m = Inr (b, m') \<Longrightarrow> served (called m + {#cb#}) m b m'"
    using assms by (auto simp: initiateSandboxModifications_def request_outcomes flags served_def Let_def)
  show "evaluateStorageHash cb m = Inr (b, m') \<Longrightarrow> served (called m + {#cb#}) m b m'"
    using assms by (auto simp: evaluateStorageHash_def request_outcomes flags served_def)
  show "applySandboxModifications ok cb m = Inr (b, m') \<Longrightarrow> served (called m + {#cb#}) m b m'"
    using assms by (auto simp: applySandboxModifications_def closeFiles_def request_outcomes flags served_def Let_def)
qed

text \<open>Every request except those that apply the storage.\<close>

definition extra_callbacks :: "request \<Rightarrow> nat \<Rightarrow> nat multiset" where
  "extra_callbacks r cb = (case r of OpenFile mode p \<Rightarrow> {#cb#} | _ \<Rightarrow> {#})"

lemma request_protocol:
  assumes "task_request env r cb m = Inr (b, m')" and "quiet m" and "\<And>ok. r \<noteq> ApplyStorage ok"
  shows "(\<exists>E. E \<subseteq># extra_callbacks r cb \<and> b \<and> protocol (called m + {#cb#} + E) m') \<or> \<not> b \<and> m' = m"
proof (cases "\<exists>mode p. r = OpenFile mode p")
  case True
  then obtain mode p where r: "r = OpenFile mode p" by blast
  then have "openFile env mode p cb m = Inr (b, m')" using assms(1) by (simp add: task_request_def)
  from opening_protocol [OF assms(2) this] show ?thesis by (simp add: r extra_callbacks_def)
next
  case False
  have "served (called m + {#cb#}) m b m'"
  proof (cases r)
    case (OpenFile mode p)
    with False show ?thesis by blast
  next
    case (ApplyStorage ok)
    with assms(3) show ?thesis by blast
  qed (use assms(1) sandbox_protocol [OF assms(2)] reading_protocol [OF assms(2)] changing_protocol [OF assms(2)]
      removing_protocol [OF assms(2)] moving_protocol [OF assms(2)] in \<open>simp_all add: task_request_def\<close>)
  then show ?thesis by (auto simp: served_def intro: exI [of _ "{#}"])
qed

text \<open>A task that is not quiet refuses every request, or an assertion fails.\<close>

lemma request_refused:
  assumes "task_request env r cb m = Inr (b, m')" and "mm_isExecutingQuery m \<or> mm_taskIsInterrupted m"
  shows "\<not> b \<and> m' = m"
proof -
  have "on_upper m f = Inr (b, m') \<Longrightarrow> \<not> b \<and> m' = m" for f
    using assms(2) by (auto elim!: on_upperE)
  then show ?thesis
    using assms unfolding task_request_def
    by (cases r) (auto simp: openFile_def readFile_def writeFile_def flush_def closeFile_def removeFsTreeEntry_def moveFsTreeEntry_def
        pathExist_def pathIsFile_def fileSize_def createDirectories_def folderIteratorCreate_def folderIteratorDestroy_def
        folderIteratorHasNext_def folderIteratorNext_def initiateSandboxModifications_def applySandboxModifications_def
        evaluateStorageHash_def applyStorageModifications_def bind_outcome_Inr_iff)
qed

subsection \<open>Jobs\<close>

text \<open>What the jobs leave alone.\<close>

definition frame :: "manual \<Rightarrow> manual \<Rightarrow> bool" where
  "frame m m' \<longleftrightarrow> mm_isExecutingQuery m' = mm_isExecutingQuery m \<and> mm_taskIsFinished m' = mm_taskIsFinished m \<and>
     mm_taskIsInterrupted m' = mm_taskIsInterrupted m \<and> mm_destroyed m' = mm_destroyed m \<and>
     mm_removalCallbacks m' = mm_removalCallbacks m \<and> mm_answers m' = mm_answers m \<and> mm_background m' = mm_background m \<and>
     mm_session m' = mm_session m \<and> mm_openFilesRead m' = mm_openFilesRead m \<and> mm_openFilesWrite m' = mm_openFilesWrite m"

lemma frame_updates [simp]:
  "frame m m" "frame m (m\<lparr>mm_disk := dk\<rparr>)" "frame m (m\<lparr>mm_streams := ss\<rparr>)" "frame m (m\<lparr>mm_streams := ss, mm_disk := dk\<rparr>)"
  "frame m (fold close_stream ids m)" "frame m (close_stream s m)" "frame m (m\<lparr>mm_disk := dk, mm_torrents := tfs\<rparr>)"
  "frame m (m\<lparr>mm_sandboxFsTreeFile := t\<rparr>)"
  using close_stream_fields(2) [of ids m] close_stream_fields(1) [of s m] by (auto simp: frame_def)

text \<open>A query job posts the continuation with the callback, after changes within the frame.\<close>

definition posts :: "nat \<Rightarrow> manual \<Rightarrow> manual \<Rightarrow> bool" where
  "posts cb m m' \<longleftrightarrow> (\<exists>j' m1. m' = executeOnSessionThread j' m1 \<and> frame m m1 \<and> answer_callback j' = Some cb \<and> closed_ok j' m)"

lemma posted: "frame m m1 \<Longrightarrow> answer_callback j' = Some cb \<Longrightarrow> closed_ok j' m \<Longrightarrow> posts cb m (executeOnSessionThread j' m1)"
  by (auto simp: posts_def)

lemma removal_jobs:
  "posts cb m (removeUnusedFiles hs moved cb m)"
  "posts cb m (acceptUpperSandboxModifications lower upper cb m)"
  "discardUpperSandboxModifications cb m = Inr m' \<Longrightarrow> posts cb m m'"
  by (auto simp: removeUnusedFiles_def acceptUpperSandboxModifications_def discardUpperSandboxModifications_def
      bind_outcome_Inr_iff Let_def case_prod_unfold intro!: posted)

lemma computeSandboxHash_posts:
  assumes "computeSandboxHash env cb m = Inr m'"
  shows "posts cb m m'"
proof -
  obtain t cs dk tfs where t: "mm_lowerSandboxFsTree m = Some t"
    and h: "hash_children env (dp_torrentHandleMap (mm_params m)) (snd t) (mm_disk m, mm_torrents m) = Inr (cs, dk, tfs)"
    using assms by (auto simp: computeSandboxHash_def bind_outcome_Inr_iff Let_def)
  show ?thesis using assms by (auto simp: computeSandboxHash_def t h Let_def frame_def intro!: posted)
qed

lemma query_job:
  assumes "background_run env k j m = Inr m'" and "query_callback j = Some cb" and "close_ok j m"
  shows "posts cb m m'"
proof (cases j)
  case (CloseStreams ids c)
  then show ?thesis using assms by (cases c) (auto simp: background_run_def closeStreams_def intro!: posted)
qed (use assms removal_jobs computeSandboxHash_posts in \<open>auto simp: background_run_def createStream_def readStream_def writeStream_def flushStream_def
    closeStream_def obtainFileSize_def validate_and_apply_def bind_outcome_Inr_iff Let_def case_prod_unfold split: if_splits intro!: posted\<close>)

lemma working_background:
  assumes "working cb m" and "mm_background m = j # js" and "run_background env k m = Inr m'"
  shows "working cb m' \<and> called m' = called m"
proof -
  from assms(1,2) have m: "mm_removalCallbacks m = []" "mm_isExecutingQuery m" "\<not> mm_taskIsFinished m" "\<not> mm_destroyed m" "js = []"
    "mm_session m = []" "query_callback j = Some cb" "close_ok j m" by (auto simp: working_def)
  let ?m = "m\<lparr>mm_background := []\<rparr>"
  have r: "background_run env k j ?m = Inr m'" using assms(2,3) m by (simp add: run_background_def)
  have "close_ok j ?m" using m(8) by simp
  from query_job [OF r m(7) this] obtain j' m1 where j': "m' = executeOnSessionThread j' m1" "frame ?m m1"
    "answer_callback j' = Some cb" "closed_ok j' ?m"
    by (auto simp: posts_def)
  have "closed_ok j' m'" using j'(1,2,4) by (cases j') (auto simp: is_open_def frame_def executeOnSessionThread_def)
  then show ?thesis
    using j' m by (auto simp: working_def frame_def executeOnSessionThread_def called_def)
qed

lemma query_over_protocol:
  assumes "query_over cb r m f = Inr m'" and "mm_background m = []" "mm_session m = []" "mm_removalCallbacks m = []"
    "\<not> mm_taskIsFinished m" "\<not> mm_destroyed m"
    and "\<And>m1. m1 = m\<lparr>mm_isExecutingQuery := False\<rparr> \<Longrightarrow> quiet m1 \<Longrightarrow> f m1 = Inr m' \<Longrightarrow> protocol (called m1 + {#cb#}) m'"
  shows "protocol (called m + {#cb#}) m'"
  using assms(1)
proof (rule query_overE)
  assume "m' = mm_finishTask (answer cb r (m\<lparr>mm_isExecutingQuery := False\<rparr>))" "mm_taskIsInterrupted m"
  then show ?thesis using assms(2-6) by (auto intro!: protocol_finish simp: answer_def quiet_def called_def)
next
  assume "f (m\<lparr>mm_isExecutingQuery := False\<rparr>) = Inr m'" "\<not> mm_taskIsInterrupted m"
  then show ?thesis using assms(2-6) assms(7) [OF refl] by (simp add: quiet_def)
qed

lemma answering_protocol:
  assumes "mm_background m = []" "mm_session m = []" "mm_removalCallbacks m = []" "\<not> mm_taskIsFinished m" "\<not> mm_destroyed m"
  shows "onReadFile bs cb m = Inr m' \<Longrightarrow> protocol (called m + {#cb#}) m'"
    and "onFileWritten ok cb m = Inr m' \<Longrightarrow> protocol (called m + {#cb#}) m'"
    and "onFlushed ok cb m = Inr m' \<Longrightarrow> protocol (called m + {#cb#}) m'"
    and "onRemoved n cb m = Inr m' \<Longrightarrow> protocol (called m + {#cb#}) m'"
    and "onMoved n cb m = Inr m' \<Longrightarrow> protocol (called m + {#cb#}) m'"
    and "onFileSizeObtained n cb m = Inr m' \<Longrightarrow> protocol (called m + {#cb#}) m'"
    and "onAppliedSandboxModifications ok n cb m = Inr m' \<Longrightarrow> protocol (called m + {#cb#}) m'"
    and "onStorageHashEvaluated h cb m = Inr m' \<Longrightarrow> protocol (called m + {#cb#}) m'"
  unfolding onReadFile_def onFileWritten_def onFlushed_def onRemoved_def onMoved_def onFileSizeObtained_def
    onAppliedSandboxModifications_def onStorageHashEvaluated_def
  by (erule query_over_protocol [OF _ assms], (auto simp: request_outcomes Let_def split: if_splits)[1])+

lemma session_protocol:
  assumes "session_run j m = Inr m'" and "mm_background m = []" "mm_session m = []" "mm_removalCallbacks m = []"
    "\<not> mm_taskIsFinished m" "\<not> mm_destroyed m" and "answer_callback j = Some cb" and "closed_ok j m"
  shows "protocol (called m + {#cb#}) m'"
proof (cases j)
  case (FileOpened s mode i p c x)
  then obtain f where "query_over cb RNothing m f = Inr m'" and f: "f = (\<lambda>m1.
         bind_outcome (sirius_assert (c \<le> mm_upperSandboxFilesSize m1)) (\<lambda>_.
           let m2 = m1\<lparr>mm_upperSandboxFilesSize := mm_upperSandboxFilesSize m1 - c\<rparr>
           in if \<not> sm_open (mm_streams m2 ! s) then Inr (answer cb (ROpenFile None) m2)
              else case Option.bind (mm_upperSandboxFsTree m2) (getEntryPtr p) of
                     Some (CFile f) \<Rightarrow>
                       bind_outcome (of_option Diverges (file_addBlock (fl_stat f) (mm_stats m2))) (\<lambda>st.
                         let file = \<lparr>of_stream = s, of_statisticsNode = fl_stat f\<rparr>;
                             m3 = m2\<lparr>mm_stats := st\<rparr>;
                             m4 = (case mode of
                                     READ \<Rightarrow> m3\<lparr>mm_openFilesRead := map_emplace i file (mm_openFilesRead m3)\<rparr>
                                   | WRITE \<Rightarrow> m3\<lparr>mm_openFilesWrite := map_emplace i file (mm_openFilesWrite m3)\<rparr>)
                         in Inr (answer cb (ROpenFile (Some i)) m4))
                   | _ \<Rightarrow> Inl AssertionFailure))"
    using assms(1,7) by (auto simp: session_run_def onFileOpened_def bind_outcome_Inr_iff)
  then show ?thesis
    by (rule_tac query_over_protocol [OF _ assms(2-6)])
      (cases mode; auto simp: request_outcomes Let_def split: option.splits child.splits if_splits)+
next
  case (FileClosed i ok x)
  then have "query_over cb RNothing m (\<lambda>m1.
     case map_find i (mm_openFilesRead m1) of
       Some f \<Rightarrow>
         bind_outcome (unblock_files [f] (mm_stats m1)) (\<lambda>st.
           Inr (answer cb (RSuccess ok) (m1\<lparr>mm_stats := st, mm_openFilesRead := map_erase i (mm_openFilesRead m1)\<rparr>)))
     | None \<Rightarrow>
         (case map_find i (mm_openFilesWrite m1) of
            Some f \<Rightarrow>
              bind_outcome (unblock_files [f] (mm_stats m1)) (\<lambda>st.
                Inr (answer cb (RSuccess ok) (m1\<lparr>mm_stats := st, mm_openFilesWrite := map_erase i (mm_openFilesWrite m1)\<rparr>)))
          | None \<Rightarrow> Inr m1)) = Inr m'" using assms(1,7) by (auto simp: session_run_def onFileClosed_def)
  then show ?thesis
    by (rule query_over_protocol [OF _ assms(2-6)])
      (use assms(8) FileClosed in \<open>auto simp: request_outcomes is_open_def split: option.splits\<close>)
next
  case (StreamsClosed c)
  then obtain ok where c: "c = SandboxStreamsClosed ok cb" using assms(7) by (cases c) auto
  have "query_over cb RNothing m (\<lambda>m1.
     bind_outcome (destroy_iterators (map snd (mm_folderIterators m1)) (mm_stats m1)) (\<lambda>st.
       bind_outcome (of_option NullDereference (mm_upperSandboxFsTree m1)) (\<lambda>t.
         let (t', st') = clearStatisticsNode t st
         in Inr (start_query (if ok then ValidateAndApply cb else DiscardModifications cb)
                   (m1\<lparr>mm_folderIterators := [], mm_upperSandboxFsTree := Some t', mm_stats := st'\<rparr>))))) = Inr m'"
    using assms(1) by (simp add: session_run_def StreamsClosed c onSandboxModificationStreamsClosed_def)
  then show ?thesis
    by (rule query_over_protocol [OF _ assms(2-6)])
      (auto simp: bind_outcome_Inr_iff case_prod_unfold Let_def intro!: protocol_start_query)
qed (use assms(1,7) answering_protocol [OF assms(2-6)] in \<open>auto simp: session_run_def\<close>)

lemma working_session:
  assumes "working cb m" and "mm_session m = j # js" and "run_session m = Inr m'"
  shows "protocol (called m + {#cb#}) m'"
proof -
  from assms(1,2) have m: "mm_removalCallbacks m = []" "\<not> mm_taskIsFinished m" "\<not> mm_destroyed m" "js = []"
    "mm_background m = []" "answer_callback j = Some cb" "closed_ok j m" by (auto simp: working_def)
  let ?m = "m\<lparr>mm_session := []\<rparr>"
  have "session_run j ?m = Inr m'" using assms(2,3) m by (simp add: run_session_def)
  moreover have "closed_ok j ?m" using m(7) by simp
  ultimately show ?thesis using session_protocol [of j ?m m' cb] m by simp
qed

text \<open>The jobs that end the task follow each other.\<close>

lemma ending_steps:
  assumes "ending m"
  shows "run_background env k m = Inr m' \<Longrightarrow> ending m' \<and> called m' = called m"
    and "run_session m = Inr m' \<Longrightarrow> (ending m' \<or> gone m') \<and> called m' = called m"
proof -
  show "ending m' \<and> called m' = called m" if "run_background env k m = Inr m'"
  proof (cases "mm_background m")
    case Nil
    then show ?thesis using that assms by (simp add: run_background_def)
  next
    case (Cons j js)
    then have j: "ending_background j" "js = []" "mm_session m = []" "\<not> mm_destroyed m" using assms by (auto simp: ending_def)
    then have r: "background_run env k j (m\<lparr>mm_background := []\<rparr>) = Inr m'" using that Cons by (simp add: run_background_def)
    have "\<exists>j' m1. m' = executeOnSessionThread j' m1 \<and> frame (m\<lparr>mm_background := []\<rparr>) m1 \<and> ending_session j'"
      using r j(1) by (cases j rule: ending_background.cases)
        (auto simp: background_run_def clearTrash_def closeStreams_def Let_def intro!: exI)
    then show ?thesis using assms j by (auto simp: ending_def frame_def executeOnSessionThread_def called_def)
  qed
  show "(ending m' \<or> gone m') \<and> called m' = called m" if "run_session m = Inr m'"
  proof (cases "mm_session m")
    case Nil
    then show ?thesis using that assms by (simp add: run_session_def)
  next
    case (Cons j js)
    then have j: "ending_session j" "js = []" "mm_background m = []" "\<not> mm_destroyed m" using assms by (auto simp: ending_def)
    then have r: "session_run j (m\<lparr>mm_session := []\<rparr>) = Inr m'" using that Cons by (simp add: run_session_def)
    then show ?thesis
      using assms j by (cases j rule: ending_session.cases)
        (auto simp: session_run_def closeFiles_def Let_def bind_outcome_Inr_iff manual_basics ending_def gone_def called_def)
  qed
qed

lemma handle_protocol:
  assumes "manual_handle env e m = Inr m'" and "protocol A m" and "\<And>ok cb. e \<noteq> Request (ApplyStorage ok) cb"
  shows "\<exists>B. protocol B m' \<and> (case e of Request r cb \<Rightarrow> A + {#cb#} \<subseteq># B \<and> B \<subseteq># A + {#cb#} + extra_callbacks r cb | _ \<Rightarrow> B = A)"
proof (cases e)
  case (Request r cb)
  have ans: "protocol (add_mset cb A) (answer cb RNothing m)" if "protocol A m" for m
    using that by (auto simp: protocol_def quiet_def working_def ending_def gone_def called_def answer_def)
  show ?thesis
  proof (cases "mm_destroyed m")
    case True
    then show ?thesis using assms(1) ans [OF assms(2)] Request by (auto simp: manual_handle_def forward_request_def)
  next
    case False
    then obtain b m1 where t: "task_request env r cb m = Inr (b, m1)" "m' = (if b then m1 else answer cb RNothing m1)"
      using assms(1) Request by (auto simp: manual_handle_def forward_request_def bind_outcome_Inr_iff)
    show ?thesis
    proof (cases "mm_isExecutingQuery m \<or> mm_taskIsInterrupted m")
      case True
      then show ?thesis using request_refused [OF t(1)] t(2) ans [OF assms(2)] Request by auto
    next
      case free: False
      then have q: "quiet m" "called m = A" using assms(2) False by (auto simp: protocol_def working_def ending_def gone_def)
      have "\<And>ok. r \<noteq> ApplyStorage ok" using assms(3) Request by blast
      from request_protocol [OF t(1) q(1) this] show ?thesis
      proof (elim disjE exE conjE)
        fix E assume "E \<subseteq># extra_callbacks r cb" "b" "protocol (called m + {#cb#} + E) m1"
        then show ?thesis using t(2) q(2) Request by (auto intro!: exI [of _ "A + {#cb#} + E"])
      next
        assume "\<not> b" "m1 = m"
        then show ?thesis using t(2) ans [OF assms(2)] Request by auto
      qed
    qed
  qed
next
  case Terminate
  have "protocol A (mm_terminate m)" if live: "\<not> mm_destroyed m"
  proof -
    consider (idle) "quiet m" "called m = A" | (work) cb where "working cb m" "called m + {#cb#} = A" | (closing) "ending m" "called m = A"
      using assms(2) live by (auto simp: protocol_def gone_def)
    then show ?thesis
    proof cases
      case idle
      then show ?thesis using protocol_finish [of "m\<lparr>mm_taskIsInterrupted := True\<rparr>" A] by (simp add: mm_terminate_def quiet_def Let_def)
    next
      case work
      then show ?thesis
        by (auto simp: mm_terminate_def Let_def protocol_def working_def called_def)
    qed (auto simp: mm_terminate_def ending_def protocol_def)
  qed
  then show ?thesis using assms(1,2) Terminate by (auto simp: manual_handle_def split: if_splits)
next
  case (Background k)
  then have r: "run_background env k m = Inr m'" using assms(1) by (simp add: manual_handle_def)
  show ?thesis
  proof (cases "mm_background m")
    case Nil
    then show ?thesis using r assms(2) Background by (simp add: run_background_def)
  next
    case (Cons j js)
    from assms(2) consider cb where "working cb m" "called m + {#cb#} = A" | "ending m" "called m = A"
      using Cons by (auto simp: protocol_def quiet_def gone_def)
    then show ?thesis
      using working_background [OF _ Cons r] ending_steps(1) [OF _ r] Background by cases (auto simp: protocol_def)
  qed
next
  case Session
  then have r: "run_session m = Inr m'" using assms(1) by (simp add: manual_handle_def)
  show ?thesis
  proof (cases "mm_session m")
    case Nil
    then show ?thesis using r assms(2) Session by (simp add: run_session_def)
  next
    case (Cons j js)
    from assms(2) consider cb where "working cb m" "called m + {#cb#} = A" | "ending m" "called m = A"
      using Cons by (auto simp: protocol_def quiet_def gone_def)
    then show ?thesis
      using working_session [OF _ Cons r] ending_steps(2) [OF _ r] Session by cases (auto simp: protocol_def)
  qed
next
  case TorrentsRemoved
  moreover have "mm_removalCallbacks m = []" using assms(2) by (auto simp: protocol_def quiet_def working_def ending_def gone_def)
  ultimately show ?thesis using assms(1,2) by (simp add: manual_handle_def onTorrentsRemoved_def)
qed

subsection \<open>Runs\<close>

fun requested :: "manual_event list \<Rightarrow> nat multiset" where
  "requested [] = {#}"
| "requested (Request r cb # es) = add_mset cb (requested es)"
| "requested (_ # es) = requested es"

text \<open>The callbacks of the requests to open a file.\<close>

fun opened_by :: "manual_event list \<Rightarrow> nat multiset" where
  "opened_by [] = {#}"
| "opened_by (Request r cb # es) = extra_callbacks r cb + opened_by es"
| "opened_by (_ # es) = opened_by es"

definition applies_storage :: "manual_event \<Rightarrow> bool" where
  "applies_storage e = (case e of Request (ApplyStorage ok) cb \<Rightarrow> True | _ \<Rightarrow> False)"

lemma run_protocol:
  assumes "manual_run env es m = Inr m'" and "protocol A m" and "\<not> list_ex applies_storage es"
  shows "\<exists>B. protocol B m' \<and> A + requested es \<subseteq># B \<and> B \<subseteq># A + requested es + opened_by es"
  using assms
proof (induction es arbitrary: m A)
  case (Cons e es)
  from Cons.prems(1) obtain m1 where h: "manual_handle env e m = Inr m1" "manual_run env es m1 = Inr m'"
    by (auto simp: bind_outcome_Inr_iff)
  have "\<And>ok cb. e \<noteq> Request (ApplyStorage ok) cb" using Cons.prems(3) by (auto simp: applies_storage_def)
  from handle_protocol [OF h(1) Cons.prems(2) this] obtain B where B: "protocol B m1"
    "case e of Request r cb \<Rightarrow> A + {#cb#} \<subseteq># B \<and> B \<subseteq># A + {#cb#} + extra_callbacks r cb | _ \<Rightarrow> B = A" by blast
  from Cons.IH [OF h(2) B(1)] Cons.prems(3) obtain C where C: "protocol C m'" "B + requested es \<subseteq># C" "C \<subseteq># B + requested es + opened_by es"
    by auto
  show ?case
  proof (cases e)
    case (Request r cb)
    then have l: "A + {#cb#} + requested es \<subseteq># B + requested es"
      and u: "B + (requested es + opened_by es) \<subseteq># A + {#cb#} + extra_callbacks r cb + (requested es + opened_by es)"
      using B(2) by (simp_all only: manual_event.case subset_mset.add_le_cancel_right)
    from subset_mset.order_trans [OF l C(2)] have "A + requested (e # es) \<subseteq># C" by (simp add: Request)
    moreover from subset_mset.order_trans [OF C(3) [unfolded add.assoc] u] have "C \<subseteq># A + requested (e # es) + opened_by (e # es)"
      by (simp add: Request ac_simps)
    ultimately show ?thesis using C(1) by blast
  qed (use B C in auto)
qed auto

lemma start_protocol: "protocol {#cb#} (mm_run cb (createManualModificationsTask i dp st rv dk tfs))"
  by (simp add: protocol_def quiet_def called_def mm_run_def createManualModificationsTask_def answer_def Let_def)

lemma protocol_jobs:
  assumes "protocol A m"
  shows "length (mm_background m) + length (mm_session m) \<le> 1" and "called m \<subseteq># A"
    and "mm_background m = [] \<Longrightarrow> mm_session m = [] \<Longrightarrow> called m = A"
    and "mm_destroyed m \<Longrightarrow> mm_background m = [] \<and> mm_session m = [] \<and> mm_removalCallbacks m = []"
  using assms by (auto simp: protocol_def quiet_def working_def ending_def gone_def)


text \<open>
  C19. The two threads hand over: in every run of a manual modification up to the application of the
  storage, at most one job of the task is pending, on one of the two threads, and when the
  task is destroyed none is left, so no job runs on a destroyed task.
\<close>

theorem one_job_at_a_time:
  assumes "manual_run env es (mm_run cb (createManualModificationsTask i dp st rv dk tfs)) = Inr m" and "\<not> list_ex applies_storage es"
  shows "length (mm_background m) + length (mm_session m) \<le> 1 \<and>
    (mm_destroyed m \<longrightarrow> mm_background m = [] \<and> mm_session m = [] \<and> mm_removalCallbacks m = [])"
  using run_protocol [OF assms(1) start_protocol assms(2)] protocol_jobs(1,4) by blast


theorem one_job_at_a_time_witness:
  "\<exists>m. manual_run contract_env (overwriting @ [Background 0, Session, Background 0, Session]) contract_task = Inr m \<and> mm_destroyed m \<and>
     mm_background m = [] \<and> mm_session m = [] \<and> mm_removalCallbacks m = []"
proof -
  have "map_sum id mm_destroyed (manual_run contract_env (overwriting @ [Background 0, Session, Background 0, Session]) contract_task) = Inr True"
    by code_simp
  then obtain m where m: "manual_run contract_env (overwriting @ [Background 0, Session, Background 0, Session]) contract_task = Inr m" "mm_destroyed m"
    by (cases "manual_run contract_env (overwriting @ [Background 0, Session, Background 0, Session]) contract_task") auto
  have "\<not> list_ex applies_storage (overwriting @ [Background 0, Session, Background 0, Session])" by code_simp
  from one_job_at_a_time [OF m(1) [unfolded contract_task_def] this] m show ?thesis by blast
qed

end
