(* ===== verification/Endpoints.thy ===== *)
theory Endpoints
  imports Kademlia Drive_Types
begin

section \<open>The endpoints of replicators and clients\<close>

text \<open>
  Model of \<^verbatim>\<open>include/drive/EndpointsManager.h\<close> and of the handlers of \<^verbatim>\<open>Replicator.cpp\<close> that feed it:
  answers of the distributed hash table, handshakes and the exchange by which a peer learns its own
  address.  An entry is the endpoint, if it is known, and whether its timer runs.  What is sent is a
  list of outputs.  The memory of a boost endpoint, which the messages carry as it is, is the
  parameter pair \<open>raw\<close> (endpoint to bytes) and \<open>unraw\<close> (bytes to endpoint); random numbers and
  the signature scheme are arguments.
\<close>

record endpoint_information =
  ei_endpoint :: "endpoint option"
  ei_timer :: bool

record endpoint_request =
  er_requestTo :: key
  er_challenge :: hash256

record endpoint_response =
  es_requestTo :: key
  es_challenge :: hash256
  es_endpoint :: "byte list"
  es_signature :: signature

definition response_sign :: "(byte list \<Rightarrow> signature) \<Rightarrow> endpoint_response \<Rightarrow> endpoint_response" where
  "response_sign sign r = r\<lparr>es_signature := sign (hash_bytes (es_challenge r) @ es_endpoint r)\<rparr>"

definition response_verify :: "(key \<Rightarrow> byte list \<Rightarrow> signature \<Rightarrow> bool) \<Rightarrow> endpoint_response \<Rightarrow> bool" where
  "response_verify verify r =
     verify (es_requestTo r) (hash_bytes (es_challenge r) @ es_endpoint r) (es_signature r)"

record dht_handshake =
  hs_fromPublicKey :: key
  hs_toPublicKey :: key
  hs_endpoint :: "byte list"
  hs_signature :: signature

definition handshake_sign :: "(byte list \<Rightarrow> signature) \<Rightarrow> dht_handshake \<Rightarrow> dht_handshake" where
  "handshake_sign sign h = h\<lparr>hs_signature := sign (hash_bytes (hs_toPublicKey h) @ hs_endpoint h)\<rparr>"

definition handshake_verify :: "(key \<Rightarrow> byte list \<Rightarrow> signature \<Rightarrow> bool) \<Rightarrow> dht_handshake \<Rightarrow> bool" where
  "handshake_verify verify h =
     verify (hs_fromPublicKey h) (hash_bytes (hs_toPublicKey h) @ hs_endpoint h) (hs_signature h)"

datatype endpoint_output = FindAddress key
  | EndpointHandler key endpoint
  | SendHandshake endpoint dht_handshake
  | SendEndpointRequest endpoint endpoint_request
  | SendEndpointResponse endpoint endpoint_response
  | AnnounceMyIp endpoint

record endpoints_manager =
  em_publicKey :: key
  em_bootstraps :: "(endpoint \<times> key) list"
  em_endpointsMap :: "(key, endpoint_information) std_map"
  em_unknownEndpointsMap :: "(key, endpoint) std_map"
  em_myExternalEndpoint :: "endpoint option"
  em_myExternalEndpointRequest :: "endpoint_request option"
  em_myEndpointUpdateTimer :: bool
  em_session :: bool
  em_hasHandler :: bool
  em_outputs :: "endpoint_output list"

definition em_emit :: "endpoint_output \<Rightarrow> endpoints_manager \<Rightarrow> endpoints_manager" where
  "em_emit x m = m\<lparr>em_outputs := em_outputs m @ [x]\<rparr>"

text \<open>\<^verbatim>\<open>isValid\<close> of \<^verbatim>\<open>Session.h\<close>: neither of the two unspecified addresses.\<close>

definition isValid :: "endpoint \<Rightarrow> bool" where
  "isValid ep \<longleftrightarrow> fst ep \<noteq> ''0.0.0.0'' \<and> fst ep \<noteq> ''::''"

text \<open>
  The constructor keeps all bootstraps in the map and drops the own key from the list it asks;
  \<^verbatim>\<open>m_endpointsMap[key]\<close> creates an empty entry where there is none.
\<close>

definition no_information :: endpoint_information where
  "no_information = \<lparr>ei_endpoint = None, ei_timer = False\<rparr>"

definition new_endpoints_manager :: "key \<Rightarrow> (endpoint \<times> key) list \<Rightarrow> endpoints_manager" where
  "new_endpoints_manager publicKey bootstraps =
     \<lparr>em_publicKey = publicKey, em_bootstraps = filter (\<lambda>b. snd b \<noteq> publicKey) bootstraps,
      em_endpointsMap = fold (\<lambda>(ep, k). map_put k \<lparr>ei_endpoint = Some ep, ei_timer = False\<rparr>) bootstraps [],
      em_unknownEndpointsMap = [], em_myExternalEndpoint = None, em_myExternalEndpointRequest = None,
      em_myEndpointUpdateTimer = False, em_session = False, em_hasHandler = False, em_outputs = []\<rparr>"

definition setEndpointHandler :: "endpoints_manager \<Rightarrow> endpoints_manager" where
  "setEndpointHandler m = m\<lparr>em_hasHandler := True\<rparr>"

definition information :: "key \<Rightarrow> endpoints_manager \<Rightarrow> endpoint_information" where
  "information k m = (case map_find k (em_endpointsMap m) of None \<Rightarrow> no_information | Some i \<Rightarrow> i)"

definition put_information :: "key \<Rightarrow> endpoint_information \<Rightarrow> endpoints_manager \<Rightarrow> endpoints_manager" where
  "put_information k i m = m\<lparr>em_endpointsMap := map_put k i (em_endpointsMap m)\<rparr>"

subsection \<open>Queries\<close>

definition requestEndpoint :: "key \<Rightarrow> endpoints_manager \<Rightarrow> endpoints_manager" where
  "requestEndpoint k m = (if em_session m then em_emit (FindAddress k) m else m)"

definition addEndpointQuery :: "key \<Rightarrow> bool \<Rightarrow> endpoints_manager \<Rightarrow> endpoints_manager" where
  "addEndpointQuery k shouldRequestEndpoint m =
     (if map_contains k (em_endpointsMap m) \<and> ei_endpoint (information k m) = None \<and> shouldRequestEndpoint
      then requestEndpoint k m
      else case map_find k (em_unknownEndpointsMap m) of
             Some ep \<Rightarrow>
               (put_information k ((information k m)\<lparr>ei_endpoint := Some ep\<rparr>) m)
                 \<lparr>em_unknownEndpointsMap := map_erase k (em_unknownEndpointsMap m)\<rparr>
           | None \<Rightarrow>
               let m1 = put_information k no_information m
               in if shouldRequestEndpoint then requestEndpoint k m1 else m1)"

definition addEndpointQueries :: "key list \<Rightarrow> bool \<Rightarrow> endpoints_manager \<Rightarrow> endpoints_manager" where
  "addEndpointQueries keys shouldRequestEndpoint m =
     fold (\<lambda>k. addEndpointQuery k shouldRequestEndpoint) keys m"

definition em_getEndpoint :: "key \<Rightarrow> endpoints_manager \<Rightarrow> endpoint option" where
  "em_getEndpoint k m =
     (case map_find k (em_endpointsMap m) of
        None \<Rightarrow> None
      | Some i \<Rightarrow>
          (case ei_endpoint i of None \<Rightarrow> None | Some ep \<Rightarrow> if isValid ep then Some ep else None))"

text \<open>
  \<^verbatim>\<open>onEndpointDiscovered\<close>: an invalid answer starts the timer, in a new entry if need be; a valid one is
  stored where the key is asked for, else kept aside.
\<close>

definition em_onEndpointDiscovered :: "key \<Rightarrow> endpoint option \<Rightarrow> endpoints_manager \<Rightarrow> endpoints_manager" where
  "em_onEndpointDiscovered k endp m =
     (case endp of
        Some ep \<Rightarrow>
          if isValid ep
          then (case map_find k (em_endpointsMap m) of
                  Some i \<Rightarrow>
                    let m1 = (if em_hasHandler m \<and> ei_endpoint i \<noteq> Some ep then em_emit (EndpointHandler k ep) m else m)
                    in put_information k \<lparr>ei_endpoint = Some ep, ei_timer = False\<rparr> m1
                | None \<Rightarrow> m\<lparr>em_unknownEndpointsMap := map_put k ep (em_unknownEndpointsMap m)\<rparr>)
          else if em_session m then put_information k ((information k m)\<lparr>ei_timer := True\<rparr>) m else m
      | None \<Rightarrow>
          if em_session m then put_information k ((information k m)\<lparr>ei_timer := True\<rparr>) m else m)"

text \<open>The timer of an entry.\<close>

definition endpoint_timer :: "key \<Rightarrow> endpoints_manager \<Rightarrow> endpoints_manager" where
  "endpoint_timer k m =
     (if ei_timer (information k m)
      then requestEndpoint k (put_information k ((information k m)\<lparr>ei_timer := False\<rparr>) m)
      else m)"

subsection \<open>The own endpoint\<close>

text \<open>
  \<^verbatim>\<open>onMyEndpointTimerTick\<close>: \<open>r\<close> is the value of \<^verbatim>\<open>rand()\<close>, \<open>challenge\<close> the random challenge; the request
  is remembered before the session is looked for.
\<close>

definition onMyEndpointTimerTick :: "nat \<Rightarrow> hash256 \<Rightarrow> endpoints_manager \<Rightarrow> endpoints_manager" where
  "onMyEndpointTimerTick r challenge m =
     (if em_bootstraps m = [] then m
      else let (ep, k) = em_bootstraps m ! (r mod length (em_bootstraps m));
               request = \<lparr>er_requestTo = k, er_challenge = challenge\<rparr>;
               m1 = m\<lparr>em_myExternalEndpointRequest := Some request\<rparr>
           in if em_session m
              then (em_emit (SendEndpointRequest ep request) m1)\<lparr>em_myEndpointUpdateTimer := True\<rparr>
              else m1)"

definition em_start :: "nat \<Rightarrow> hash256 \<Rightarrow> endpoints_manager \<Rightarrow> endpoints_manager" where
  "em_start r challenge m =
     (let m1 = m\<lparr>em_session := True\<rparr>
      in if em_bootstraps m1 = [] then m1 else onMyEndpointTimerTick r challenge m1)"

definition em_stop :: "endpoints_manager \<Rightarrow> endpoints_manager" where
  "em_stop m =
     m\<lparr>em_myEndpointUpdateTimer := False,
       em_endpointsMap := map (\<lambda>(k, i). (k, i\<lparr>ei_timer := False\<rparr>)) (em_endpointsMap m)\<rparr>"

definition sendHandshake ::
  "(endpoint \<Rightarrow> byte list) \<Rightarrow> (byte list \<Rightarrow> signature) \<Rightarrow> key \<Rightarrow> endpoints_manager \<Rightarrow> endpoints_manager outcome" where
  "sendHandshake raw sign to m =
     (case em_myExternalEndpoint m of
        None \<Rightarrow> Inl AssertionFailure
      | Some me \<Rightarrow>
          if to = em_publicKey m then Inr m
          else case em_getEndpoint to m of
                 None \<Rightarrow> Inr m
               | Some ep \<Rightarrow>
                   if em_session m
                   then Inr (em_emit (SendHandshake ep (handshake_sign sign
                          \<lparr>hs_fromPublicKey = em_publicKey m, hs_toPublicKey = to, hs_endpoint = raw me, hs_signature = []\<rparr>)) m)
                   else Inr m)"

fun send_handshakes ::
  "(endpoint \<Rightarrow> byte list) \<Rightarrow> (byte list \<Rightarrow> signature) \<Rightarrow> key list \<Rightarrow> endpoints_manager \<Rightarrow> endpoints_manager outcome" where
  "send_handshakes raw sign [] m = Inr m"
| "send_handshakes raw sign (k # ks) m = bind_outcome (sendHandshake raw sign k m) (send_handshakes raw sign ks)"

text \<open>
  \<^verbatim>\<open>onMyEndpointResponse\<close>: the log of a refused response reads the request even if there is none.
  \<open>port\<close> is the port the session listens to.
\<close>

definition onMyEndpointResponse ::
  "(byte list \<Rightarrow> endpoint) \<Rightarrow> (endpoint \<Rightarrow> byte list) \<Rightarrow> (key \<Rightarrow> byte list \<Rightarrow> signature \<Rightarrow> bool) \<Rightarrow>
   (byte list \<Rightarrow> signature) \<Rightarrow> 16 word \<Rightarrow> endpoint_response \<Rightarrow> endpoints_manager \<Rightarrow> endpoints_manager outcome" where
  "onMyEndpointResponse unraw raw verify sign port response m =
     (if \<not> em_session m then Inr m
      else case em_myExternalEndpointRequest m of
        None \<Rightarrow> Inl NullDereference
      | Some request \<Rightarrow>
          if er_challenge request \<noteq> es_challenge response \<or> er_requestTo request \<noteq> es_requestTo response then Inr m
          else if \<not> response_verify verify response then Inr m
          else let endp = unraw (es_endpoint response)
               in if \<not> isValid endp \<or> em_publicKey m = es_requestTo response \<or> port \<noteq> snd endp then Inr m
                  else let m1 = m\<lparr>em_myExternalEndpoint := Some endp\<rparr>
                       in bind_outcome
                            (if em_myExternalEndpoint m \<noteq> Some endp
                             then send_handshakes raw sign (map fst (em_endpointsMap m1)) m1
                             else Inr m1)
                            (\<lambda>m2. Inr (em_emit (AnnounceMyIp endp) (m2\<lparr>em_myExternalEndpointRequest := None\<rparr>))))"

subsection \<open>The replicator's handlers\<close>

text \<open>
  \<^verbatim>\<open>onEndpointDiscovered\<close> of the replicator logs \<^verbatim>\<open>endpoint.value()\<close>, which throws when there is no endpoint.
\<close>

definition onEndpointDiscovered :: "key \<Rightarrow> endpoint option \<Rightarrow> endpoints_manager \<Rightarrow> endpoints_manager outcome" where
  "onEndpointDiscovered k endp m =
     (if endp = None then Inl (Exception ''bad optional access'') else Inr (em_onEndpointDiscovered k endp m))"

definition processHandshake ::
  "(key \<Rightarrow> byte list \<Rightarrow> signature \<Rightarrow> bool) \<Rightarrow> dht_handshake \<Rightarrow> endpoint \<Rightarrow> endpoints_manager \<Rightarrow> endpoints_manager outcome" where
  "processHandshake verify info source m =
     (if hs_toPublicKey info \<noteq> em_publicKey m then Inr m
      else if \<not> handshake_verify verify info then Inr m
      else onEndpointDiscovered (hs_fromPublicKey info) (Some source) m)"

definition processEndpointRequest ::
  "(endpoint \<Rightarrow> byte list) \<Rightarrow> (byte list \<Rightarrow> signature) \<Rightarrow> endpoint_request \<Rightarrow> endpoint \<Rightarrow> endpoints_manager \<Rightarrow> endpoints_manager" where
  "processEndpointRequest raw sign request source m =
     (if em_publicKey m = er_requestTo request
      then em_emit (SendEndpointResponse source (response_sign sign
             \<lparr>es_requestTo = er_requestTo request, es_challenge = er_challenge request,
              es_endpoint = raw source, es_signature = []\<rparr>)) m
      else m)"

subsection \<open>Runs\<close>

record endpoint_env =
  ev_raw :: "endpoint \<Rightarrow> byte list"
  ev_unraw :: "byte list \<Rightarrow> endpoint"
  ev_verify :: "key \<Rightarrow> byte list \<Rightarrow> signature \<Rightarrow> bool"
  ev_sign :: "byte list \<Rightarrow> signature"
  ev_port :: "16 word"

datatype endpoint_event = Start nat hash256
  | Stop
  | Query "key list" bool
  | Discovered key "endpoint option"
  | HandshakeReceived dht_handshake endpoint
  | RequestReceived endpoint_request endpoint
  | ResponseReceived endpoint_response
  | EntryTimer key
  | OwnTimer nat hash256

fun endpoint_handle :: "endpoint_env \<Rightarrow> endpoints_manager \<Rightarrow> endpoint_event \<Rightarrow> endpoints_manager outcome" where
  "endpoint_handle env m (Start r c) = Inr (em_start r c m)"
| "endpoint_handle env m Stop = Inr (em_stop m)"
| "endpoint_handle env m (Query ks b) = Inr (addEndpointQueries ks b m)"
| "endpoint_handle env m (Discovered k ep) = onEndpointDiscovered k ep m"
| "endpoint_handle env m (HandshakeReceived h source) = processHandshake (ev_verify env) h source m"
| "endpoint_handle env m (RequestReceived q source) = Inr (processEndpointRequest (ev_raw env) (ev_sign env) q source m)"
| "endpoint_handle env m (ResponseReceived r) =
     onMyEndpointResponse (ev_unraw env) (ev_raw env) (ev_verify env) (ev_sign env) (ev_port env) r m"
| "endpoint_handle env m (EntryTimer k) = Inr (endpoint_timer k m)"
| "endpoint_handle env m (OwnTimer r c) =
     Inr (if em_myEndpointUpdateTimer m then onMyEndpointTimerTick r c (m\<lparr>em_myEndpointUpdateTimer := False\<rparr>) else m)"

definition endpoint_step :: "endpoint_env \<Rightarrow> endpoints_manager outcome \<Rightarrow> endpoint_event \<Rightarrow> endpoints_manager outcome" where
  "endpoint_step env s e = bind_outcome s (\<lambda>m. endpoint_handle env m e)"

text \<open>
  The events that tell the endpoint of a key: an answer of the hash table, and a handshake of that key
  for this peer with a good signature.
\<close>

fun announces :: "endpoint_env \<Rightarrow> key \<Rightarrow> endpoint_event \<Rightarrow> (key \<times> endpoint) set" where
  "announces env self (Discovered k (Some ep)) = {(k, ep)}"
| "announces env self (HandshakeReceived h source) =
     (if hs_toPublicKey h = self \<and> handshake_verify (ev_verify env) h then {(hs_fromPublicKey h, source)} else {})"
| "announces env self _ = {}"

definition endpoints_ok :: "key \<Rightarrow> (key \<times> endpoint) set \<Rightarrow> endpoints_manager \<Rightarrow> bool" where
  "endpoints_ok self S m \<longleftrightarrow>
     em_publicKey m = self \<and> map_ok (em_unknownEndpointsMap m) \<and>
     (\<forall>k i ep. map_find k (em_endpointsMap m) = Some i \<longrightarrow> ei_endpoint i = Some ep \<longrightarrow> (k, ep) \<in> S) \<and>
     (\<forall>k ep. map_find k (em_unknownEndpointsMap m) = Some ep \<longrightarrow> (k, ep) \<in> S)"

lemma endpoints_ok_fields [simp]:
  "endpoints_ok self S (m\<lparr>em_outputs := os\<rparr>) = endpoints_ok self S m"
  "endpoints_ok self S (m\<lparr>em_myExternalEndpoint := e\<rparr>) = endpoints_ok self S m"
  "endpoints_ok self S (m\<lparr>em_myExternalEndpointRequest := q\<rparr>) = endpoints_ok self S m"
  "endpoints_ok self S (m\<lparr>em_myEndpointUpdateTimer := t\<rparr>) = endpoints_ok self S m"
  "endpoints_ok self S (m\<lparr>em_session := b\<rparr>) = endpoints_ok self S m"
  "endpoints_ok self S (em_emit x m) = endpoints_ok self S m"
  by (simp_all add: endpoints_ok_def em_emit_def)

lemma endpoints_ok_put:
  "endpoints_ok self S m \<Longrightarrow> (\<And>ep. ei_endpoint i = Some ep \<Longrightarrow> (k, ep) \<in> S) \<Longrightarrow>
   endpoints_ok self S (put_information k i m)"
  by (auto simp: endpoints_ok_def put_information_def split: if_splits)

lemma information_ok: "endpoints_ok self S m \<Longrightarrow> ei_endpoint (information k m) = Some ep \<Longrightarrow> (k, ep) \<in> S"
  by (cases ep) (auto simp: endpoints_ok_def information_def no_information_def split: option.splits)

lemma requestEndpoint_ok [simp]: "endpoints_ok self S (requestEndpoint k m) = endpoints_ok self S m"
  by (simp add: requestEndpoint_def)

lemma endpoints_ok_known:
  "endpoints_ok self S m \<Longrightarrow> map_find k (em_unknownEndpointsMap m) = Some ep \<Longrightarrow> (k, ep) \<in> S"
  by (cases ep) (simp add: endpoints_ok_def)

lemma endpoints_ok_erase:
  "endpoints_ok self S m \<Longrightarrow>
   endpoints_ok self S (m\<lparr>em_unknownEndpointsMap := map_erase k (em_unknownEndpointsMap m)\<rparr>)"
  by (auto simp: endpoints_ok_def map_find_erase split: if_splits)

lemma addEndpointQuery_ok:
  assumes "endpoints_ok self S m"
  shows "endpoints_ok self S (addEndpointQuery k b m)"
proof (cases "map_find k (em_unknownEndpointsMap m)")
  case None
  have "endpoints_ok self S (put_information k no_information m)"
    by (rule endpoints_ok_put [OF assms]) (simp add: no_information_def)
  with assms None show ?thesis by (simp add: addEndpointQuery_def Let_def)
next
  case (Some ep)
  have "endpoints_ok self S (put_information k ((information k m)\<lparr>ei_endpoint := Some ep\<rparr>) m)"
    by (rule endpoints_ok_put [OF assms]) (use endpoints_ok_known [OF assms Some] in simp)
  from endpoints_ok_erase [OF this, of k] assms Some show ?thesis
    by (simp add: addEndpointQuery_def put_information_def)
qed

lemma addEndpointQueries_ok: "endpoints_ok self S m \<Longrightarrow> endpoints_ok self S (addEndpointQueries ks b m)"
  unfolding addEndpointQueries_def by (induction ks arbitrary: m) (auto intro: addEndpointQuery_ok)

lemma endpoints_ok_timer:
  "endpoints_ok self S m \<Longrightarrow> endpoints_ok self S (put_information k ((information k m)\<lparr>ei_timer := t\<rparr>) m)"
  by (rule endpoints_ok_put) (use information_ok in auto)

lemma em_onEndpointDiscovered_ok:
  assumes ok: "endpoints_ok self S m" and new: "\<And>ep. endp = Some ep \<Longrightarrow> (k, ep) \<in> S"
  shows "endpoints_ok self S (em_onEndpointDiscovered k endp m)"
proof (cases endp)
  case None
  with ok show ?thesis by (simp add: em_onEndpointDiscovered_def endpoints_ok_timer)
next
  case (Some ep)
  have "endpoints_ok self S (m\<lparr>em_unknownEndpointsMap := map_put k ep (em_unknownEndpointsMap m)\<rparr>)"
    using ok new [OF Some] by (auto simp: endpoints_ok_def)
  moreover have "endpoints_ok self S (put_information k \<lparr>ei_endpoint = Some ep, ei_timer = False\<rparr> n)"
    if "endpoints_ok self S n" for n
    by (rule endpoints_ok_put [OF that]) (use new [OF Some] in simp)
  ultimately show ?thesis
    using ok by (simp add: Some em_onEndpointDiscovered_def Let_def endpoints_ok_timer split: option.split)
qed

lemma em_stop_ok: "endpoints_ok self S m \<Longrightarrow> endpoints_ok self S (em_stop m)"
  using map_find_map_snd [of _ "\<lambda>i. i\<lparr>ei_timer := False\<rparr>" "em_endpointsMap m"]
  by (auto simp: endpoints_ok_def em_stop_def case_prod_unfold)

lemma onMyEndpointTimerTick_ok [simp]:
  "endpoints_ok self S (onMyEndpointTimerTick r c m) = endpoints_ok self S m"
  by (simp add: onMyEndpointTimerTick_def Let_def split: prod.splits)

lemma send_handshakes_ok:
  "send_handshakes raw sign ks m = Inr m' \<Longrightarrow> endpoints_ok self S m' = endpoints_ok self S m"
proof (induction ks arbitrary: m)
  case (Cons k ks)
  have "endpoints_ok self S n = endpoints_ok self S m" if "sendHandshake raw sign k m = Inr n" for n
    using that by (auto simp: sendHandshake_def split: option.splits if_splits)
  with Cons show ?case by (auto simp: bind_outcome_Inr_iff)
qed simp

lemma onMyEndpointResponse_ok:
  "onMyEndpointResponse unraw raw verify sign port r m = Inr m' \<Longrightarrow> endpoints_ok self S m' = endpoints_ok self S m"
  by (auto simp: onMyEndpointResponse_def Let_def bind_outcome_Inr_iff
      dest!: send_handshakes_ok split: option.splits if_splits)

lemma endpoint_handle_ok:
  assumes "endpoints_ok self S m" "announces env self e \<subseteq> S" "endpoint_handle env m e = Inr m'"
  shows "endpoints_ok self S m'"
proof (cases e)
  case (Discovered k endp)
  with assms show ?thesis
    by (cases endp) (auto simp: onEndpointDiscovered_def intro!: em_onEndpointDiscovered_ok)
next
  case (HandshakeReceived h source)
  moreover have "em_publicKey m = self" using assms(1) by (simp add: endpoints_ok_def)
  ultimately show ?thesis
    using assms by (auto simp: processHandshake_def onEndpointDiscovered_def
        intro!: em_onEndpointDiscovered_ok split: if_splits)
next
  case (EntryTimer k)
  with assms show ?thesis
    by (auto simp: endpoint_timer_def endpoints_ok_timer)
qed (use assms in \<open>auto simp: em_start_def Let_def processEndpointRequest_def em_stop_ok addEndpointQueries_ok
    dest: onMyEndpointResponse_ok split: if_splits\<close>)

lemma bootstraps_find:
  "map_find k (fold (\<lambda>(ep, k). map_put k \<lparr>ei_endpoint = Some ep, ei_timer = False\<rparr>) bs m) = Some i \<Longrightarrow>
   ei_endpoint i = Some ep \<Longrightarrow> (ep, k) \<in> set bs \<or> map_find k m = Some i"
proof (induction bs arbitrary: m)
  case (Cons b bs)
  obtain ep' k' where b: "b = (ep', k')" by (cases b)
  from Cons.prems Cons.IH [of "map_put k' \<lparr>ei_endpoint = Some ep', ei_timer = False\<rparr> m"] show ?case
    by (auto simp: b split: if_splits)
qed simp

interpretation endpoints: event_system
  "guarded (\<lambda>e. announces env self e \<subseteq> S) (endpoint_step env)"
  "\<lambda>s. \<exists>bs. s = Inr (new_endpoints_manager self bs) \<and> (\<lambda>(ep, k). (k, ep)) ` set bs \<subseteq> S"
  "\<lambda>s. case s of Inl _ \<Rightarrow> True | Inr m \<Rightarrow> endpoints_ok self S m"
  for env self S
proof unfold_locales
  fix s
  assume "\<exists>bs. s = Inr (new_endpoints_manager self bs) \<and> (\<lambda>(ep, k). (k, ep)) ` set bs \<subseteq> S"
  then obtain bs where s: "s = Inr (new_endpoints_manager self bs)" and bs: "(\<lambda>(ep, k). (k, ep)) ` set bs \<subseteq> S"
    by auto
  have "(k, ep) \<in> S" if "map_find k (em_endpointsMap (new_endpoints_manager self bs)) = Some i" "ei_endpoint i = Some ep"
    for k i ep
    using bootstraps_find [of k bs "[]" i ep] that bs by (force simp: new_endpoints_manager_def)
  then show "case s of Inl _ \<Rightarrow> True | Inr m \<Rightarrow> endpoints_ok self S m"
    by (simp add: s endpoints_ok_def) (simp add: new_endpoints_manager_def)
next
  fix s :: "endpoints_manager outcome" and e
  assume "case s of Inl _ \<Rightarrow> True | Inr m \<Rightarrow> endpoints_ok self S m"
  then show "case guarded (\<lambda>e. announces env self e \<subseteq> S) (endpoint_step env) s e of
      Inl _ \<Rightarrow> True | Inr m \<Rightarrow> endpoints_ok self S m"
    by (cases s) (auto simp: guarded_def endpoint_step_def split: sum.splits intro: endpoint_handle_ok)
qed

subsection \<open>Where endpoints come from\<close>

text \<open>
  C24. Every endpoint the manager hands out for a key is a valid address that the constructor received
  for that key, or that the hash table answered for it, or from which a handshake of that key to this peer
  with a good signature arrived: no other message makes the replicator talk to an address.
\<close>

theorem endpoint_has_a_source:
  assumes "run (endpoint_step env) (Inr (new_endpoints_manager self bootstraps)) events = Inr m"
    and "em_getEndpoint k m = Some ep"
  shows "isValid ep \<and> ((ep, k) \<in> set bootstraps \<or> (\<exists>e\<in>set events. (k, ep) \<in> announces env self e))"
proof -
  let ?S = "(\<lambda>(ep, k). (k, ep)) ` set bootstraps \<union> (\<Union>e\<in>set events. announces env self e)"
  have "list_all (\<lambda>e. announces env self e \<subseteq> ?S) events" by (auto simp: list_all_iff)
  then have "endpoints_ok self ?S m"
    using endpoints.reachable_invar [where S = ?S and env = env and self = self and es = events
        and s = "Inr (new_endpoints_manager self bootstraps)"] assms(1)
    by (auto simp: run_guarded)
  moreover obtain i where "map_find k (em_endpointsMap m) = Some i" "ei_endpoint i = Some ep" "isValid ep"
    using assms(2) by (auto simp: em_getEndpoint_def split: option.splits if_splits)
  ultimately have "(k, ep) \<in> ?S" and "isValid ep" by (auto simp: information_def dest: information_ok [of _ _ _ k ep])
  then show ?thesis by auto
qed

text \<open>What a query and an answer do to the endpoint of a key.\<close>

lemma discovered_endpoint_is_used:
  assumes "map_contains k (em_endpointsMap m)" "isValid ep"
  shows "em_getEndpoint k (em_onEndpointDiscovered k (Some ep) m) = Some ep"
  using assms by (auto simp: em_getEndpoint_def em_onEndpointDiscovered_def map_contains_find Let_def
      put_information_def em_emit_def)

lemma early_endpoint_is_used:
  assumes "\<not> map_contains k (em_endpointsMap m)" "isValid ep"
  shows "em_getEndpoint k (addEndpointQuery k b (em_onEndpointDiscovered k (Some ep) m)) = Some ep"
  using assms by (auto simp: em_getEndpoint_def em_onEndpointDiscovered_def map_contains_find
      put_information_def addEndpointQuery_def information_def no_information_def)

text \<open>
  Asking again for a key whose endpoint is known forgets the endpoint: unless an endpoint was kept
  aside, \<^verbatim>\<open>addEndpointQuery\<close> resets the entry (\<^verbatim>\<open>m_endpointsMap[key] = {}\<close>), so that nothing can be sent
  to the replicator until the hash table has answered again.  This also hits the bootstraps, whose
  endpoints the constructor received.
\<close>

lemma repeated_query_forgets_the_endpoint:
  assumes "em_getEndpoint k m = Some ep" "\<not> map_contains k (em_unknownEndpointsMap m)"
  shows "em_getEndpoint k (addEndpointQuery k b m) = None"
  using assms by (auto simp: em_getEndpoint_def addEndpointQuery_def map_contains_find information_def
      no_information_def put_information_def requestEndpoint_def em_emit_def Let_def split: option.splits)

text \<open>
  C39. A handshake can be replayed from another address: the signature covers the address the sender
  announces, but the replicator stores the address the datagram came from.  Whoever has seen one valid
  handshake can make the receiver send everything meant for its signer to an address of his choice.
\<close>

theorem replayed_handshake_redirects_a_replicator:
  assumes "hs_toPublicKey h = em_publicKey m" "handshake_verify verify h"
    and "map_contains (hs_fromPublicKey h) (em_endpointsMap m)" "isValid source"
  shows "\<exists>m'. processHandshake verify h source m = Inr m' \<and> em_getEndpoint (hs_fromPublicKey h) m' = Some source"
  using assms discovered_endpoint_is_used by (simp add: processHandshake_def onEndpointDiscovered_def)

subsection \<open>A run\<close>

text \<open>
  A signature that repeats the message and the key stands for the scheme; peer 1 knows the bootstrap 2 and asks
  for 3.
\<close>

definition echo_env :: endpoint_env where
  "echo_env = \<lparr>ev_raw = (\<lambda>ep. [ucast (snd ep)]), ev_unraw = (\<lambda>bs. (''1.1.1.1'', ucast (hd bs))),
     ev_verify = (\<lambda>k msg s. s = ucast k # msg), ev_sign = (\<lambda>msg. 1 # msg), ev_port = 7\<rparr>"

definition echo_handshake :: dht_handshake where
  "echo_handshake = \<lparr>hs_fromPublicKey = 3, hs_toPublicKey = 1, hs_endpoint = [9],
     hs_signature = 3 # hash_bytes 1 @ [9]\<rparr>"

definition echo_bootstraps :: "(endpoint \<times> key) list" where
  "echo_bootstraps = [((''2.2.2.2'', 8), 2), ((''1.1.1.1'', 7), 1)]"

definition echo_events :: "endpoint_event list" where
  "echo_events = [Start 5 77, Query [3] True, HandshakeReceived echo_handshake (''3.3.3.3'', 9),
     ResponseReceived \<lparr>es_requestTo = 2, es_challenge = 77, es_endpoint = [7], es_signature = 2 # hash_bytes 77 @ [7]\<rparr>]"

definition echo_manager :: endpoints_manager where
  "echo_manager = projr (run (endpoint_step echo_env)
     (Inr (new_endpoints_manager 1 echo_bootstraps)) echo_events)"

lemma echo_run:
  "run (endpoint_step echo_env) (Inr (new_endpoints_manager 1 echo_bootstraps))
     echo_events = Inr echo_manager"
  by (subst echo_manager_def, rule sum.collapse(2) [symmetric]) code_simp

theorem endpoint_has_a_source_witness:
  "isValid (''3.3.3.3'', 9) \<and> (((''3.3.3.3'', 9), 3) \<in> set echo_bootstraps \<or>
     (\<exists>e\<in>set echo_events. (3, ''3.3.3.3'', 9) \<in> announces echo_env 1 e)) \<and>
   List.map_filter (\<lambda>x. case x of SendHandshake ep h \<Rightarrow> Some ep | _ \<Rightarrow> None) (em_outputs echo_manager) =
     [(''2.2.2.2'', 8), (''3.3.3.3'', 9)]"
proof -
  have "em_getEndpoint 3 echo_manager = Some (''3.3.3.3'', 9)" by code_simp
  moreover have "List.map_filter (\<lambda>x. case x of SendHandshake ep h \<Rightarrow> Some ep | _ \<Rightarrow> None) (em_outputs echo_manager) =
      [(''2.2.2.2'', 8), (''3.3.3.3'', 9)]"
    by code_simp
  ultimately show ?thesis using endpoint_has_a_source [OF echo_run] by blast
qed

theorem replayed_handshake_redirects_a_replicator_witness:
  "em_getEndpoint 3 echo_manager = Some (''3.3.3.3'', 9) \<and>
   (\<exists>m'. processHandshake (ev_verify echo_env) echo_handshake (''6.6.6.6'', 66) echo_manager = Inr m' \<and>
     em_getEndpoint 3 m' = Some (''6.6.6.6'', 66))"
proof -
  have "hs_toPublicKey echo_handshake = em_publicKey echo_manager" by code_simp
  moreover have "handshake_verify (ev_verify echo_env) echo_handshake" by code_simp
  moreover have "map_contains (hs_fromPublicKey echo_handshake) (em_endpointsMap echo_manager)" by code_simp
  moreover have "isValid (''6.6.6.6'', 66)" by (simp add: isValid_def)
  ultimately have "\<exists>m'. processHandshake (ev_verify echo_env) echo_handshake (''6.6.6.6'', 66) echo_manager = Inr m' \<and>
      em_getEndpoint (hs_fromPublicKey echo_handshake) m' = Some (''6.6.6.6'', 66)"
    by (rule replayed_handshake_redirects_a_replicator)
  moreover have "hs_fromPublicKey echo_handshake = 3" by (simp add: echo_handshake_def)
  moreover have "em_getEndpoint 3 echo_manager = Some (''3.3.3.3'', 9)" by code_simp
  ultimately show ?thesis by simp
qed

end
