(* ===== verification/Stream_Chunks.thy ===== *)
theory Stream_Chunks
  imports Modify_Sandbox Endpoints
begin

section \<open>The chunks of a stream\<close>

text \<open>
  Model of \<^verbatim>\<open>src/drive/StreamTask.cpp\<close> and of the messages of \<^verbatim>\<open>include/drive/Streaming.h\<close>: a streamer
  announces the chunks of a stream one by one; the replicator downloads them in order, answers viewers, and
  when the stream is finished builds the folder of the stream with its playlist.  The task extends the
  record of \<open>Drive_Tasks\<close>.  Jobs that a handler posts to the session thread or to the background thread
  wait in two queues and read the state when they run.  \<^verbatim>\<open>m_downloadingLtHandle\<close> is set while the chunk
  of \<^verbatim>\<open>m_downloadingChunkInfoIt\<close> is downloaded; this iterator is the index it points to.  The mutex of the
  class orders handlers that run one at a time here.  Parameters are the signature check, the content of
  the finish-info file of a hash (and whether it is read to the end) and what libtorrent computes for a file: its hash from
  name and content, and the size of its torrent file.
\<close>

record chunk_info =
  ci_streamId :: hash256
  ci_chunkIndex :: u32
  ci_chunkInfoHash :: hash256
  ci_durationMks :: u32
  ci_sizeBytes :: u64
  ci_sign :: signature

definition chunk_message :: "chunk_info \<Rightarrow> byte list" where
  "chunk_message c =
     hash_bytes (ci_streamId c) @ le_bytes 4 (ci_chunkIndex c) @ hash_bytes (ci_chunkInfoHash c) @
     le_bytes 4 (ci_durationMks c) @ le_bytes 8 (ci_sizeBytes c)"

definition chunk_sign :: "(byte list \<Rightarrow> signature) \<Rightarrow> chunk_info \<Rightarrow> chunk_info" where
  "chunk_sign sign c = c\<lparr>ci_sign := sign (chunk_message c)\<rparr>"

definition chunk_verify :: "(key \<Rightarrow> byte list \<Rightarrow> signature \<Rightarrow> bool) \<Rightarrow> key \<Rightarrow> chunk_info \<Rightarrow> bool" where
  "chunk_verify verify streamerKey c = verify streamerKey (chunk_message c) (ci_sign c)"

record finish_chunk_info =
  fc_chunkIndex :: u32
  fc_chunkInfoHash :: hash256
  fc_durationMks :: u32
  fc_sizeBytes :: u64
  fc_saveOnDrive :: bool

record stream_finish_request =
  sf_streamId :: hash256
  sf_finishDataInfoHash :: hash256
  sf_streamSizeBytes :: u64

record stream_env =
  se_verify :: "key \<Rightarrow> byte list \<Rightarrow> signature \<Rightarrow> bool"
  se_finishFile :: "hash256 \<Rightarrow> bool \<times> finish_chunk_info list"
  se_infoHash :: "string \<Rightarrow> string \<Rightarrow> hash256"
  se_torrentSize :: "string \<Rightarrow> u64"

datatype stream_session_job = DownloadNextChunk | RequestMissingFinishChunk | PlaylistCreated
datatype stream_background_job = ParseFinishInfoFile | CheckFinishCondition
datatype download_code = download_complete | downloading | dn_failed

record stream_task =
  sk_world :: world
  sk_request :: stream_request
  sk_chunkInfoList :: "chunk_info option list"
  sk_downloadingChunkInfoIt :: "nat option"
  sk_streamerEndpoint :: "endpoint option"
  sk_endpointsManager :: endpoints_manager
  sk_finishInfoHash :: "hash256 option"
  sk_finishDownload :: bool
  sk_finishInfo :: "finish_chunk_info list"
  sk_finishStreamIt :: nat
  sk_session :: "stream_session_job list"
  sk_background :: "stream_background_job list"
  sk_stats :: stats
  sk_disk :: disk
  sk_messages :: "(endpoint \<times> u32) list"

abbreviation sk_task :: "stream_task \<Rightarrow> task" where
  "sk_task s \<equiv> w_task (sk_world s)"

abbreviation sk_torrents :: "stream_task \<Rightarrow> torrent_map" where
  "sk_torrents s \<equiv> dp_torrentHandleMap (w_params (sk_world s))"

definition set_downloading :: "bool \<Rightarrow> stream_task \<Rightarrow> stream_task" where
  "set_downloading b s = s\<lparr>sk_world := (sk_world s)\<lparr>w_task := (sk_task s)\<lparr>tk_downloading := b\<rparr>\<rparr>\<rparr>"

definition set_torrents :: "torrent_map \<Rightarrow> stream_task \<Rightarrow> stream_task" where
  "set_torrents m s =
     s\<lparr>sk_world := (sk_world s)\<lparr>w_params := (w_params (sk_world s))\<lparr>dp_torrentHandleMap := m\<rparr>\<rparr>\<rparr>"

definition post_session :: "stream_session_job \<Rightarrow> stream_task \<Rightarrow> stream_task" where
  "post_session j s = s\<lparr>sk_session := sk_session s @ [j]\<rparr>"

definition post_background :: "stream_background_job \<Rightarrow> stream_task \<Rightarrow> stream_task" where
  "post_background j s = s\<lparr>sk_background := sk_background s @ [j]\<rparr>"

definition new_stream_task ::
  "stream_request \<Rightarrow> drive_params \<Rightarrow> stats \<Rightarrow> disk \<Rightarrow> endpoints_manager \<Rightarrow> stream_task" where
  "new_stream_task r dp st dk em =
     \<lparr>sk_world = \<lparr>w_task = createStreamTask r, w_params = dp, w_effects = []\<rparr>, sk_request = r,
      sk_chunkInfoList = [], sk_downloadingChunkInfoIt = None, sk_streamerEndpoint = None,
      sk_endpointsManager = em, sk_finishInfoHash = None, sk_finishDownload = False, sk_finishInfo = [],
      sk_finishStreamIt = 0, sk_session = [], sk_background = [], sk_stats = st, sk_disk = dk, sk_messages = []\<rparr>"

subsection \<open>Viewers\<close>

text \<open>
  The answer to \<^verbatim>\<open>acceptGetChunksInfoMessage\<close> before it is serialised: nothing, a single word when this is
  not the stream that runs, or the index with a sequence of chunks.  \<open>chunk_sequence n dur cs\<close> collects what
  follows the first chunk, where \<open>n\<close> is \<^verbatim>\<open>endIndex - beginIndex\<close> and the sum of the durations wraps.
\<close>

definition MAX_CHUNKS_DURATION_MS :: u32 where
  "MAX_CHUNKS_DURATION_MS = 10000"

definition MAX_SEQUENCE_SIZE :: nat where
  "MAX_SEQUENCE_SIZE = 5"

datatype chunks_answer = EmptyAnswer | StreamIsEnded u32 | ChunkSequence u32 "chunk_info list"

fun chunk_sequence :: "nat \<Rightarrow> u32 \<Rightarrow> chunk_info option list \<Rightarrow> chunk_info list" where
  "chunk_sequence n durationMks [] = []"
| "chunk_sequence n durationMks (c # cs) =
     (if n > MAX_SEQUENCE_SIZE then []
      else case c of
             None \<Rightarrow> []
           | Some chunkInfo2 \<Rightarrow>
               let d = durationMks + ci_durationMks chunkInfo2
               in if d > MAX_CHUNKS_DURATION_MS then [] else chunkInfo2 # chunk_sequence (n + 1) d cs)"

definition acceptGetChunksInfoMessage :: "hash256 \<Rightarrow> u32 \<Rightarrow> stream_task \<Rightarrow> chunks_answer outcome" where
  "acceptGetChunksInfoMessage streamId requestedIndex s =
     (if sr_streamId (sk_request s) \<noteq> streamId then Inr (StreamIsEnded (stream_is_ended streamId (w_params (sk_world s))))
      else if length (sk_chunkInfoList s) \<le> unat requestedIndex then Inr EmptyAnswer
      else case sk_chunkInfoList s ! unat requestedIndex of
             None \<Rightarrow> Inr EmptyAnswer
           | Some chunkInfo \<Rightarrow>
               bind_outcome (sirius_assert (ci_chunkIndex chunkInfo = requestedIndex)) (\<lambda>_.
                 Inr (ChunkSequence requestedIndex
                   (chunkInfo # chunk_sequence 1 0 (drop (unat requestedIndex + 1) (sk_chunkInfoList s))))))"

subsection \<open>Downloading the chunks\<close>

text \<open>\<^verbatim>\<open>tryDownloadNextChunk\<close>: the work is done in a job of its own.\<close>

definition tryDownloadNextChunk :: "stream_task \<Rightarrow> stream_task" where
  "tryDownloadNextChunk s =
     (if tk_downloading (sk_task s) then s else post_session DownloadNextChunk s)"

definition acceptChunkInfoMessage :: "stream_env \<Rightarrow> chunk_info \<Rightarrow> stream_task \<Rightarrow> stream_task" where
  "acceptChunkInfoMessage env chunkInfo s =
     (if ci_streamId chunkInfo \<noteq> sr_streamId (sk_request s) then s
      else if \<not> chunk_verify (se_verify env) (sr_streamerKey (sk_request s)) chunkInfo then s
      else let cs = sk_chunkInfoList s; i = unat (ci_chunkIndex chunkInfo)
           in tryDownloadNextChunk
                (s\<lparr>sk_chunkInfoList :=
                     (if i < length cs then cs[i := Some chunkInfo]
                      else cs @ replicate (i - length cs) None @ [Some chunkInfo])\<rparr>))"

definition requestMissingChunkInfo :: "u32 \<Rightarrow> stream_task \<Rightarrow> stream_task" where
  "requestMissingChunkInfo chunkIndex s =
     (let streamer = (case sk_streamerEndpoint s of
                        Some ep \<Rightarrow> Some ep
                      | None \<Rightarrow> em_getEndpoint (sr_streamerKey (sk_request s)) (sk_endpointsManager s))
      in case streamer of
           None \<Rightarrow> s
         | Some ep \<Rightarrow> s\<lparr>sk_streamerEndpoint := Some ep, sk_messages := sk_messages s @ [(ep, chunkIndex)]\<rparr>)"

text \<open>
  The job: the next chunk is chosen, unless it has to be asked for; a chunk the drive has already is skipped by
  another job.
\<close>

definition start_chunk :: "nat \<Rightarrow> chunk_info \<Rightarrow> stream_task \<Rightarrow> stream_task outcome" where
  "start_chunk i chunkInfo s =
     (let s1 = s\<lparr>sk_downloadingChunkInfoIt := Some i\<rparr>; h = ci_chunkInfoHash chunkInfo
      in case map_find h (sk_torrents s) of
           Some u \<Rightarrow> bind_outcome (sirius_assert (tu_valid u)) (\<lambda>_. Inr (tryDownloadNextChunk s1))
         | None \<Rightarrow>
             Inr (set_downloading True (set_torrents (map_put h \<lparr>tu_valid = True, tu_isUsed = False\<rparr> (sk_torrents s)) s1)))"

definition downloadNextChunk :: "stream_task \<Rightarrow> stream_task outcome" where
  "downloadNextChunk s =
     (if tk_downloading (sk_task s) then Inr s
      else case sk_downloadingChunkInfoIt s of
        None \<Rightarrow>
          (case sk_chunkInfoList s of
             [] \<Rightarrow> Inl AssertionFailure
           | None # _ \<Rightarrow> Inr (requestMissingChunkInfo 0 s)
           | Some c # _ \<Rightarrow> start_chunk 0 c s)
      | Some i \<Rightarrow>
          if i + 1 = length (sk_chunkInfoList s) then Inr s
          else (case sk_chunkInfoList s ! (i + 1) of
                  None \<Rightarrow>
                    (case sk_chunkInfoList s ! i of
                       None \<Rightarrow> Inl NullDereference
                     | Some c \<Rightarrow> Inr (requestMissingChunkInfo (ci_chunkIndex c + 1) s))
                | Some c \<Rightarrow> start_chunk (i + 1) c s))"

text \<open>The callback of the download of a chunk.\<close>

definition chunk_downloaded :: "download_code \<Rightarrow> stream_task \<Rightarrow> stream_task outcome" where
  "chunk_downloaded code s =
     bind_outcome (sirius_assert (\<not> tk_taskIsInterrupted (sk_task s))) (\<lambda>_.
       case code of
         dn_failed \<Rightarrow> Inl AssertionFailure
       | downloading \<Rightarrow> Inr s
       | download_complete \<Rightarrow>
           let s1 = tryDownloadNextChunk (set_downloading False s)
           in Inr (if sk_finishInfoHash s1 \<noteq> None then post_background CheckFinishCondition s1 else s1))"

subsection \<open>Finishing the stream\<close>

definition acceptFinishStreamTx :: "stream_finish_request \<Rightarrow> stream_task \<Rightarrow> stream_task outcome" where
  "acceptFinishStreamTx finishStream s =
     (if sk_finishInfoHash s \<noteq> None \<or> sf_streamId finishStream \<noteq> sr_streamId (sk_request s) then Inr s
      else let h = sf_finishDataInfoHash finishStream; s1 = s\<lparr>sk_finishInfoHash := Some h\<rparr>
           in case map_find h (sk_torrents s) of
                Some u \<Rightarrow> bind_outcome (sirius_assert (tu_valid u)) (\<lambda>_. Inr (post_background ParseFinishInfoFile s1))
              | None \<Rightarrow>
                  Inr (set_torrents (map_put h \<lparr>tu_valid = True, tu_isUsed = False\<rparr> (sk_torrents s))
                         (s1\<lparr>sk_finishDownload := True\<rparr>)))"

definition finish_downloaded :: "download_code \<Rightarrow> stream_task \<Rightarrow> stream_task outcome" where
  "finish_downloaded code s =
     bind_outcome (sirius_assert (\<not> tk_taskIsInterrupted (sk_task s))) (\<lambda>_.
       case code of
         dn_failed \<Rightarrow> Inl AssertionFailure
       | downloading \<Rightarrow> Inr s
       | download_complete \<Rightarrow> Inr (post_background ParseFinishInfoFile (s\<lparr>sk_finishDownload := False\<rparr>)))"

text \<open>
  The playlist.  A stream prints \<^verbatim>\<open>Key(hash)\<close> in upper case; the duration is printed as seconds and
  microseconds without leading zeros.
\<close>

definition hex_upper :: "nat \<Rightarrow> char" where
  "hex_upper n = ''0123456789ABCDEF'' ! n"

definition HexFormat :: "hash256 \<Rightarrow> string" where
  "HexFormat h = concat (map (\<lambda>b. [hex_upper (unat b div 16), hex_upper (unat b mod 16)]) (hash_bytes h))"

definition endl :: string where
  "endl = [CHR 0x0A]"

definition maxDuration :: "finish_chunk_info list \<Rightarrow> u32" where
  "maxDuration fs = fold (\<lambda>f m. max m ((fc_durationMks f + 100000 - 1) div 1000000)) fs 1"

definition playlist_entry :: "finish_chunk_info \<Rightarrow> string" where
  "playlist_entry f =
     ''#EXTINF:'' @ decimal (unat (fc_durationMks f div 1000000)) @ ''.'' @ decimal (unat (fc_durationMks f mod 1000000)) @
     endl @ HexFormat (fc_chunkInfoHash f) @ endl"

definition playlistTxt :: "finish_chunk_info list \<Rightarrow> string" where
  "playlistTxt fs =
     ''#EXTM3U'' @ endl @ ''#EXT-X-VERSION:3'' @ endl @
     ''#EXT-X-TARGETDURATION:'' @ decimal (unat (maxDuration fs)) @ endl @ ''#EXT-X-MEDIA-SEQUENCE:0'' @ endl @
     concat (map playlist_entry fs)"

text \<open>
  \<^verbatim>\<open>streamFolder\<close> is a pointer into the tree: \<open>at_folder\<close> changes the folder at a path.  \<open>emplace_file\<close> is
  \<^verbatim>\<open>m_childs.emplace(name, File\{...\})\<close>.
\<close>

fun at_folder :: "string list \<Rightarrow> (folder \<Rightarrow> folder) \<Rightarrow> folder \<Rightarrow> folder" where
  "at_folder [] g d = g d"
| "at_folder (n # ns) g d =
     (case map_find n (snd d) of
        Some (CFolder a cs) \<Rightarrow> (fst d, map_put n (as_child (at_folder ns g (a, cs))) (snd d))
      | _ \<Rightarrow> d)"

definition emplace_file :: "string \<Rightarrow> hash256 \<Rightarrow> u64 \<Rightarrow> folder \<times> stats \<Rightarrow> folder \<times> stats" where
  "emplace_file n h sz ds =
     (case new_file_node (snd ds) of
        (i, st) \<Rightarrow> ((fst (fst ds), map_emplace n (CFile (mk_file n h sz False i)) (snd (fst ds))), st))"

definition add_chunks :: "finish_chunk_info list \<Rightarrow> folder \<times> stats \<Rightarrow> folder \<times> stats" where
  "add_chunks fs ds =
     fold (\<lambda>f. emplace_file (toString (fc_chunkInfoHash f)) (fc_chunkInfoHash f) (fc_sizeBytes f))
       (filter fc_saveOnDrive fs) ds"

definition mark_stream :: "hash256 \<Rightarrow> folder \<Rightarrow> folder" where
  "mark_stream streamId d = ((fst d)\<lparr>fd_isaStream := True, fd_streamId := streamId\<rparr>, snd d)"

text \<open>The file of the playlist and its torrent file on the disk, unless they are there already.\<close>

definition put_playlist :: "stream_env \<Rightarrow> string \<Rightarrow> hash256 \<Rightarrow> disk \<Rightarrow> disk outcome" where
  "put_playlist env txt h dk =
     (let n = toString h;
          dk1 = (if dk_driveFolder dk n = None
                 then dk\<lparr>dk_driveFolder := (dk_driveFolder dk)(n \<mapsto> of_nat (length txt))\<rparr> else dk)
      in if dk_torrentFolder dk n = None
         then bind_outcome (sirius_assert (se_infoHash env n txt = h)) (\<lambda>_.
                Inr (dk1\<lparr>dk_torrentFolder := (dk_torrentFolder dk1)(n \<mapsto> se_torrentSize env txt)\<rparr>))
         else Inr dk1)"

text \<open>The tree with the folder of the stream, before and after the playlist is in it.\<close>

definition stream_folder :: "stream_task \<Rightarrow> (bool \<times> folder \<times> stats) outcome" where
  "stream_folder s =
     (let tree0 = dp_fsTree (w_params (sk_world s))
      in addFolder (sr_folder (sk_request s)) tree0 (copy_tree tree0 (sk_stats s)))"

definition stream_tree :: "stream_task \<Rightarrow> hash256 \<Rightarrow> string \<Rightarrow> folder \<Rightarrow> folder \<Rightarrow> stats \<Rightarrow> folder \<times> stats" where
  "stream_tree s playlistHash txt tree streamFolder st =
     (case emplace_file PLAYLIST_FILE_NAME playlistHash (of_nat (length txt)) (add_chunks (sk_finishInfo s) (streamFolder, st)) of
        (d, st') \<Rightarrow>
          (at_folder (path_elems (sr_folder (sk_request s))) (\<lambda>_. mark_stream (sr_streamId (sk_request s)) d) tree, st'))"

definition set_sandbox :: "folder \<Rightarrow> stream_task \<Rightarrow> stream_task" where
  "set_sandbox tree s = s\<lparr>sk_world := (sk_world s)\<lparr>w_task := (sk_task s)\<lparr>tk_sandboxFsTree := Some tree\<rparr>\<rparr>\<rparr>"

definition stream_sandbox :: "disk \<Rightarrow> folder \<Rightarrow> stats \<Rightarrow> u64 \<Rightarrow> u64 \<Rightarrow> stream_task \<Rightarrow> stream_task" where
  "stream_sandbox dk tree st meta drive s =
     s\<lparr>sk_stats := st, sk_disk := dk,
       sk_world := (sk_world s)\<lparr>w_task := (sk_task s)\<lparr>tk_sandboxFsTree := Some tree,
         tk_sandboxRootHash := Some (dk_createTorrentFile dk tree), tk_metaFilesSize := meta,
         tk_sandboxDriveSize := drive, tk_fsTreeSize := dk_treeFile dk tree\<rparr>\<rparr>\<rparr>"

definition completeStreamFinishing :: "stream_env \<Rightarrow> stream_task \<Rightarrow> stream_task outcome" where
  "completeStreamFinishing env s =
     bind_outcome (stream_folder s) (\<lambda>(_, tree, st).
       case getFolderPtr (sr_folder (sk_request s)) tree of
         None \<Rightarrow> Inr (set_sandbox tree (s\<lparr>sk_stats := st\<rparr>))
       | Some streamFolder \<Rightarrow>
           let txt = playlistTxt (sk_finishInfo s);
               h = se_infoHash env PLAYLIST_FILE_NAME txt;
               (tree2, st2) = stream_tree s h txt tree streamFolder st
           in bind_outcome (put_playlist env txt h (sk_disk s)) (\<lambda>dk.
                bind_outcome (getSandboxDriveSizes dk tree2) (\<lambda>(meta, drive).
                  let s1 = stream_sandbox dk tree2 st2 meta drive s
                  in Inr (if meta + drive + dk_treeFile dk tree2 > dp_maxSize (w_params (sk_world s)) then s1
                          else post_session PlaylistCreated s1))))"

text \<open>
  \<^verbatim>\<open>checkFinishCondition\<close>: \<^verbatim>\<open>requestMissingChunkInfo\<close> asserts that it runs on the session thread, which this
  function does not.
\<close>

definition chunks_received :: "torrent_map \<Rightarrow> chunk_info option list \<Rightarrow> finish_chunk_info list \<Rightarrow> bool" where
  "chunks_received m cs fs \<longleftrightarrow>
     list_all2 (\<lambda>c f. case c of None \<Rightarrow> False
       | Some ci \<Rightarrow> map_contains (ci_chunkInfoHash ci) m \<and> ci_chunkInfoHash ci = fc_chunkInfoHash f) cs fs"

definition checkFinishCondition :: "stream_env \<Rightarrow> stream_task \<Rightarrow> stream_task outcome" where
  "checkFinishCondition env s =
     (if sk_finishInfo s = [] \<or> length (sk_chunkInfoList s) \<noteq> length (sk_finishInfo s) then Inr s
      else if None \<in> set (sk_chunkInfoList s) then Inl AssertionFailure
      else if chunks_received (sk_torrents s) (sk_chunkInfoList s) (sk_finishInfo s) then completeStreamFinishing env s
      else Inr s)"

text \<open>\<^verbatim>\<open>continueFinishStream\<close> looks for the first chunk that is not on the drive.\<close>

definition first_missing :: "torrent_map \<Rightarrow> finish_chunk_info list \<Rightarrow> nat" where
  "first_missing m fs = length (takeWhile (\<lambda>f. map_contains (fc_chunkInfoHash f) m) fs)"

definition continueFinishStream :: "stream_env \<Rightarrow> stream_task \<Rightarrow> stream_task outcome" where
  "continueFinishStream env s =
     (if sk_finishStreamIt s = length (sk_finishInfo s) then Inr s
      else let i = sk_finishStreamIt s + first_missing (sk_torrents s) (drop (sk_finishStreamIt s) (sk_finishInfo s));
               s1 = s\<lparr>sk_finishStreamIt := i\<rparr>
           in if i < length (sk_finishInfo s) then Inr (post_session RequestMissingFinishChunk s1)
              else checkFinishCondition env s1)"

definition parseFinishInfoFile :: "stream_env \<Rightarrow> stream_task \<Rightarrow> stream_task outcome" where
  "parseFinishInfoFile env s =
     (case sk_finishInfoHash s of
        None \<Rightarrow> Inl NullDereference
      | Some h \<Rightarrow>
          (case se_finishFile env h of
             (ok, fs) \<Rightarrow>
               let s1 = s\<lparr>sk_finishInfo := fs\<rparr>
               in if ok then continueFinishStream env (s1\<lparr>sk_finishStreamIt := 0\<rparr>) else Inr s1))"

subsection \<open>The task\<close>

fun stream_session_handle :: "stream_session_job \<Rightarrow> stream_task \<Rightarrow> stream_task outcome" where
  "stream_session_handle DownloadNextChunk s = downloadNextChunk s"
| "stream_session_handle RequestMissingFinishChunk s =
     (if sk_finishStreamIt s < length (sk_finishInfo s)
      then Inr (requestMissingChunkInfo (fc_chunkIndex (sk_finishInfo s ! sk_finishStreamIt s)) s)
      else Inl UseAfterFree)"
| "stream_session_handle PlaylistCreated s =
     bind_outcome (myRootHashIsCalculated (sk_world s)) (\<lambda>w. Inr (s\<lparr>sk_world := w\<rparr>))"

fun stream_background_handle :: "stream_env \<Rightarrow> stream_background_job \<Rightarrow> stream_task \<Rightarrow> stream_task outcome" where
  "stream_background_handle env ParseFinishInfoFile s = parseFinishInfoFile env s"
| "stream_background_handle env CheckFinishCondition s = checkFinishCondition env s"

text \<open>
  The events a running task sees.  The callback of a chunk is only called while its download runs; breaking the
  task off removes it, but not the callback of the finish-info file.
\<close>

datatype stream_event = ChunkInfoReceived chunk_info
  | FinishStreamTx stream_finish_request
  | ChunkDownload download_code
  | FinishInfoDownload download_code
  | CancelModify hash256
  | TerminateStream
  | SessionJob
  | BackgroundJob

fun stream_handle :: "stream_env \<Rightarrow> stream_task \<Rightarrow> stream_event \<Rightarrow> stream_task outcome" where
  "stream_handle env s (ChunkInfoReceived c) = Inr (acceptChunkInfoMessage env c s)"
| "stream_handle env s (FinishStreamTx r) = acceptFinishStreamTx r s"
| "stream_handle env s (ChunkDownload code) = (if tk_downloading (sk_task s) then chunk_downloaded code s else Inr s)"
| "stream_handle env s (FinishInfoDownload code) = (if sk_finishDownload s then finish_downloaded code s else Inr s)"
| "stream_handle env s (CancelModify tx) =
     bind_outcome (shouldCancelModify tx (sk_world s)) (\<lambda>(_, w). Inr (s\<lparr>sk_world := w\<rparr>))"
| "stream_handle env s TerminateStream = Inr (s\<lparr>sk_world := terminate_task (sk_world s)\<rparr>)"
| "stream_handle env s SessionJob =
     (case sk_session s of [] \<Rightarrow> Inr s | j # js \<Rightarrow> stream_session_handle j (s\<lparr>sk_session := js\<rparr>))"
| "stream_handle env s BackgroundJob =
     (case sk_background s of [] \<Rightarrow> Inr s | j # js \<Rightarrow> stream_background_handle env j (s\<lparr>sk_background := js\<rparr>))"

definition stream_step :: "stream_env \<Rightarrow> stream_task outcome \<Rightarrow> stream_event \<Rightarrow> stream_task outcome" where
  "stream_step env s e = bind_outcome s (\<lambda>t. stream_handle env t e)"

end
