(* ===== verification/Stream_Props.thy ===== *)
theory Stream_Props
  imports Stream_Chunks
begin

section \<open>What a stream task guarantees\<close>

text \<open>
  The invariant of the list of chunks, the answers viewers receive, the folder of a finished stream, and the
  orders of events on which the task goes wrong.
\<close>

subsection \<open>The list of chunks\<close>

definition chunk_ok :: "stream_env \<Rightarrow> stream_request \<Rightarrow> nat \<Rightarrow> chunk_info option \<Rightarrow> bool" where
  "chunk_ok env r i c = (case c of None \<Rightarrow> True
     | Some ci \<Rightarrow> unat (ci_chunkIndex ci) = i \<and> ci_streamId ci = sr_streamId r \<and>
         chunk_verify (se_verify env) (sr_streamerKey r) ci)"

definition stream_ok :: "stream_env \<Rightarrow> stream_request \<Rightarrow> stream_task \<Rightarrow> bool" where
  "stream_ok env r s \<longleftrightarrow>
     sk_request s = r \<and>
     (\<forall>i<length (sk_chunkInfoList s). chunk_ok env r i (sk_chunkInfoList s ! i)) \<and>
     (\<forall>i. sk_downloadingChunkInfoIt s = Some i \<longrightarrow>
        i < length (sk_chunkInfoList s) \<and> sk_chunkInfoList s ! i \<noteq> None) \<and>
     (tk_downloading (sk_task s) \<longrightarrow> sk_downloadingChunkInfoIt s \<noteq> None) \<and>
     (DownloadNextChunk \<in> set (sk_session s) \<longrightarrow> sk_chunkInfoList s \<noteq> [])"

lemma stream_ok_world:
  "(tk_downloading (w_task w) \<longrightarrow> tk_downloading (sk_task s)) \<Longrightarrow> stream_ok env r s \<Longrightarrow> stream_ok env r (s\<lparr>sk_world := w\<rparr>)"
  by (auto simp: stream_ok_def)

lemma stream_ok_fields [simp]:
  "stream_ok env r (s\<lparr>sk_streamerEndpoint := e\<rparr>) = stream_ok env r s"
  "stream_ok env r (s\<lparr>sk_messages := m\<rparr>) = stream_ok env r s"
  "stream_ok env r (s\<lparr>sk_finishInfoHash := h\<rparr>) = stream_ok env r s"
  "stream_ok env r (s\<lparr>sk_finishDownload := b\<rparr>) = stream_ok env r s"
  "stream_ok env r (s\<lparr>sk_finishInfo := f\<rparr>) = stream_ok env r s"
  "stream_ok env r (s\<lparr>sk_finishStreamIt := n\<rparr>) = stream_ok env r s"
  "stream_ok env r (s\<lparr>sk_background := b'\<rparr>) = stream_ok env r s"
  "stream_ok env r (s\<lparr>sk_stats := st\<rparr>) = stream_ok env r s"
  "stream_ok env r (s\<lparr>sk_disk := dk\<rparr>) = stream_ok env r s"
  "stream_ok env r (post_background j s) = stream_ok env r s"
  "stream_ok env r (set_torrents m' s) = stream_ok env r s"
  "stream_ok env r (set_sandbox t s) = stream_ok env r s"
  by (simp_all add: stream_ok_def post_background_def set_torrents_def set_sandbox_def)

lemma stream_ok_post:
  "stream_ok env r s \<Longrightarrow> j \<noteq> DownloadNextChunk \<or> sk_chunkInfoList s \<noteq> [] \<Longrightarrow> stream_ok env r (post_session j s)"
  by (auto simp: stream_ok_def post_session_def)

lemma stream_ok_next: "stream_ok env r s \<Longrightarrow> sk_chunkInfoList s \<noteq> [] \<Longrightarrow> stream_ok env r (tryDownloadNextChunk s)"
  by (simp add: tryDownloadNextChunk_def stream_ok_post)

lemma stream_ok_job: "stream_ok env r s \<Longrightarrow> sk_session s = j # js \<Longrightarrow> stream_ok env r (s\<lparr>sk_session := js\<rparr>)"
  by (auto simp: stream_ok_def)

lemma requestMissingChunkInfo_ok [simp]: "stream_ok env r (requestMissingChunkInfo i s) = stream_ok env r s"
  by (simp add: requestMissingChunkInfo_def Let_def split: option.split)

lemma received_chunk_ok:
  assumes "\<forall>i<length cs. chunk_ok env r i (cs ! i)" "chunk_ok env r (unat (ci_chunkIndex c)) (Some c)"
  shows "\<forall>j<length (cs @ replicate (unat (ci_chunkIndex c) - length cs) None @ [Some c]).
    length cs \<le> unat (ci_chunkIndex c) \<longrightarrow>
    chunk_ok env r j ((cs @ replicate (unat (ci_chunkIndex c) - length cs) None @ [Some c]) ! j)"
  using assms by (auto simp: nth_append nth_Cons' chunk_ok_def [of env r _ None] less_Suc_eq)

lemma acceptChunkInfoMessage_ok:
  assumes "stream_ok env r s"
  shows "stream_ok env r (acceptChunkInfoMessage env c s)"
proof (cases "ci_streamId c = sr_streamId (sk_request s) \<and> chunk_verify (se_verify env) (sr_streamerKey (sk_request s)) c")
  case True
  then have c: "chunk_ok env r (unat (ci_chunkIndex c)) (Some c)" using assms by (simp add: chunk_ok_def stream_ok_def)
  let ?cs = "sk_chunkInfoList s" and ?i = "unat (ci_chunkIndex c)"
  let ?cs' = "if ?i < length ?cs then ?cs[?i := Some c] else ?cs @ replicate (?i - length ?cs) None @ [Some c]"
  have "\<forall>j<length ?cs'. chunk_ok env r j (?cs' ! j)"
    using received_chunk_ok [of ?cs env r c] c assms by (auto simp: stream_ok_def nth_list_update)
  moreover have "\<forall>i. sk_downloadingChunkInfoIt s = Some i \<longrightarrow> i < length ?cs' \<and> ?cs' ! i \<noteq> None"
    using assms by (auto simp: stream_ok_def nth_list_update nth_append)
  moreover have "?cs' \<noteq> []" by auto
  ultimately have "stream_ok env r (s\<lparr>sk_chunkInfoList := ?cs'\<rparr>)"
    using assms by (simp add: stream_ok_def)
  with True \<open>?cs' \<noteq> []\<close> show ?thesis by (simp add: acceptChunkInfoMessage_def Let_def stream_ok_next)
qed (use assms in \<open>auto simp: acceptChunkInfoMessage_def\<close>)

lemma start_chunk_ok:
  assumes "stream_ok env r s" "i < length (sk_chunkInfoList s)" "sk_chunkInfoList s ! i = Some c" "start_chunk i c s = Inr s'"
  shows "stream_ok env r s'"
proof -
  have ok: "stream_ok env r (s\<lparr>sk_downloadingChunkInfoIt := Some i\<rparr>)" using assms by (auto simp: stream_ok_def)
  then have "stream_ok env r (set_downloading True (set_torrents m (s\<lparr>sk_downloadingChunkInfoIt := Some i\<rparr>)))" for m
    by (auto simp: stream_ok_def set_downloading_def set_torrents_def)
  moreover have "stream_ok env r (tryDownloadNextChunk (s\<lparr>sk_downloadingChunkInfoIt := Some i\<rparr>))"
    using stream_ok_next [OF ok] assms(2) by (cases "sk_chunkInfoList s") simp_all
  ultimately show ?thesis
    using assms(4) by (auto simp: start_chunk_def Let_def bind_outcome_Inr_iff split: option.splits)
qed

lemma downloadNextChunk_ok:
  assumes "stream_ok env r s" "downloadNextChunk s = Inr s'"
  shows "stream_ok env r s'"
proof (cases "sk_downloadingChunkInfoIt s")
  case None
  with assms show ?thesis
    by (auto simp: downloadNextChunk_def split: if_splits list.splits option.splits intro: start_chunk_ok)
next
  case (Some i)
  with assms have "i < length (sk_chunkInfoList s)" by (simp add: stream_ok_def)
  with assms(2) Some have "s' = s \<or> (\<exists>n. s' = requestMissingChunkInfo n s) \<or>
      (\<exists>c. Suc i < length (sk_chunkInfoList s) \<and> sk_chunkInfoList s ! Suc i = Some c \<and> start_chunk (Suc i) c s = Inr s')"
    by (auto simp: downloadNextChunk_def split: if_splits option.splits)
  with assms(1) show ?thesis by (auto intro: start_chunk_ok)
qed

lemma myRootHashIsCalculated_downloading:
  "myRootHashIsCalculated w = Inr w' \<Longrightarrow> tk_downloading (w_task w') = tk_downloading (w_task w)"
  by (auto simp: myRootHashIsCalculated_def Let_def bind_outcome_Inr_iff emit_def finishTask_def
      update_finishTask_def manual_finishTask_def split: if_splits)

lemma stream_session_ok:
  assumes "stream_ok env r s" "stream_session_handle j s = Inr s'"
  shows "stream_ok env r s'"
  using assms
proof (cases j)
  case PlaylistCreated
  with assms show ?thesis
    by (auto simp: bind_outcome_Inr_iff intro!: stream_ok_world dest: myRootHashIsCalculated_downloading)
qed (auto split: if_splits intro: downloadNextChunk_ok)

lemma completeStreamFinishing_cases:
  assumes "completeStreamFinishing env s = Inr s'"
  obtains b tree st where "stream_folder s = Inr (b, tree, st)" "getFolderPtr (sr_folder (sk_request s)) tree = None"
      "s' = set_sandbox tree (s\<lparr>sk_stats := st\<rparr>)"
    | b tree st streamFolder h pl tree2 st2 dk meta drive where "stream_folder s = Inr (b, tree, st)"
      "getFolderPtr (sr_folder (sk_request s)) tree = Some streamFolder" "pl = playlistTxt (sk_finishInfo s)"
      "h = se_infoHash env PLAYLIST_FILE_NAME pl" "stream_tree s h pl tree streamFolder st = (tree2, st2)"
      "put_playlist env pl h (sk_disk s) = Inr dk" "getSandboxDriveSizes dk tree2 = Inr (meta, drive)"
      "s' = (if meta + drive + dk_treeFile dk tree2 > dp_maxSize (w_params (sk_world s))
             then stream_sandbox dk tree2 st2 meta drive s
             else post_session PlaylistCreated (stream_sandbox dk tree2 st2 meta drive s))"
proof -
  obtain b tree st where f: "stream_folder s = Inr (b, tree, st)"
    using assms by (auto simp: completeStreamFinishing_def bind_outcome_Inr_iff)
  show thesis
  proof (cases "getFolderPtr (sr_folder (sk_request s)) tree")
    case None
    with assms f show thesis by (intro that(1) [OF f None]) (simp add: completeStreamFinishing_def)
  next
    case (Some sf)
    let ?pl = "playlistTxt (sk_finishInfo s)" and ?h = "se_infoHash env PLAYLIST_FILE_NAME (playlistTxt (sk_finishInfo s))"
    obtain tree2 st2 where t: "stream_tree s ?h ?pl tree sf st = (tree2, st2)" by (cases "stream_tree s ?h ?pl tree sf st")
    from assms obtain dk meta drive where "put_playlist env ?pl ?h (sk_disk s) = Inr dk"
      "getSandboxDriveSizes dk tree2 = Inr (meta, drive)"
      "s' = (if meta + drive + dk_treeFile dk tree2 > dp_maxSize (w_params (sk_world s))
             then stream_sandbox dk tree2 st2 meta drive s
             else post_session PlaylistCreated (stream_sandbox dk tree2 st2 meta drive s))"
      by (auto simp: completeStreamFinishing_def f Some t bind_outcome_Inr_iff Let_def)
    then show thesis by (rule that(2) [OF f Some refl refl t])
  qed
qed

lemma completeStreamFinishing_ok:
  assumes "stream_ok env r s" "completeStreamFinishing env s = Inr s'"
  shows "stream_ok env r s'"
proof -
  have "stream_ok env r (stream_sandbox dk tree st meta drive s)" for dk tree st meta drive
    using assms(1) by (simp add: stream_ok_def stream_sandbox_def)
  note sandbox = this stream_ok_post [OF this]
  show ?thesis
    by (rule completeStreamFinishing_cases [OF assms(2)]) (simp_all add: assms(1) sandbox)
qed

lemma checkFinishCondition_ok:
  "stream_ok env r s \<Longrightarrow> checkFinishCondition env s = Inr s' \<Longrightarrow> stream_ok env r s'"
  using completeStreamFinishing_ok by (auto simp: checkFinishCondition_def split: if_splits)

lemma continueFinishStream_ok:
  assumes "stream_ok env r s" "continueFinishStream env s = Inr s'"
  shows "stream_ok env r s'"
proof -
  have "stream_ok env r (s\<lparr>sk_finishStreamIt := i\<rparr>)" for i using assms(1) by simp
  from stream_ok_post [OF this] checkFinishCondition_ok [OF this] assms show ?thesis
    by (auto simp: continueFinishStream_def Let_def split: if_splits)
qed

lemma stream_background_ok:
  assumes "stream_ok env r s" "stream_background_handle env j s = Inr s'"
  shows "stream_ok env r s'"
proof (cases j)
  case ParseFinishInfoFile
  have "stream_ok env r (s\<lparr>sk_finishInfo := fs, sk_finishStreamIt := i\<rparr>)" for fs i using assms(1) by simp
  from continueFinishStream_ok [OF this] ParseFinishInfoFile assms show ?thesis
    by (auto simp: parseFinishInfoFile_def Let_def split: option.splits prod.splits if_splits)
qed (use assms checkFinishCondition_ok in auto)

lemma finishTask_downloading [simp]: "tk_downloading (w_task (finishTask w)) = tk_downloading (w_task w)"
  by (simp add: finishTask_def update_finishTask_def manual_finishTask_def emit_def)

lemma break_downloading:
  "tk_downloading (w_task (breakTorrentDownloadAndRunNextTask w)) \<Longrightarrow> tk_downloading (w_task w)"
  by (auto simp: breakTorrentDownloadAndRunNextTask_def Let_def tryBreakTask_def emit_def split: if_splits)

lemma cancel_downloading:
  "shouldCancelModify tx w = Inr (b, w') \<Longrightarrow> tk_downloading (w_task w') \<Longrightarrow> tk_downloading (w_task w)"
  by (cases "tk_type (w_task w)")
    (auto simp: shouldCancelModify_def modify_shouldCancelModify_def catchingUp_shouldCancelModify_def
      init_shouldCancelModify_def Let_def bind_outcome_Inr_iff dest: break_downloading split: if_splits)

lemma terminate_downloading: "tk_downloading (w_task (terminate_task w)) \<Longrightarrow> tk_downloading (w_task w)"
  by (cases "tk_type (w_task w)")
    (auto simp: terminate_task_def terminate_manual_def Let_def dest: break_downloading split: if_splits)

lemma stream_handle_ok:
  assumes "stream_ok env r s" "stream_handle env s e = Inr s'"
  shows "stream_ok env r s'"
proof (cases e)
  case (ChunkInfoReceived c)
  with assms show ?thesis using acceptChunkInfoMessage_ok by auto
next
  case (FinishStreamTx f)
  with assms show ?thesis
    by (auto simp: acceptFinishStreamTx_def Let_def bind_outcome_Inr_iff split: if_splits option.splits)
next
  case (ChunkDownload code)
  have "stream_ok env r (tryDownloadNextChunk (set_downloading False s))" if "tk_downloading (sk_task s)"
  proof (rule stream_ok_next)
    show "stream_ok env r (set_downloading False s)" using assms(1) by (simp add: stream_ok_def set_downloading_def)
    show "sk_chunkInfoList (set_downloading False s) \<noteq> []"
      using assms(1) that by (auto simp: stream_ok_def set_downloading_def)
  qed
  with assms ChunkDownload show ?thesis
    by (cases code) (auto simp: chunk_downloaded_def Let_def bind_outcome_Inr_iff split: if_splits)
next
  case (FinishInfoDownload code)
  with assms show ?thesis
    by (cases code) (auto simp: finish_downloaded_def bind_outcome_Inr_iff split: if_splits)
next
  case (CancelModify tx)
  with assms show ?thesis
    by (auto simp: bind_outcome_Inr_iff intro!: stream_ok_world dest: cancel_downloading)
next
  case TerminateStream
  with assms show ?thesis by (auto intro!: stream_ok_world dest: terminate_downloading)
next
  case SessionJob
  with assms show ?thesis
    by (auto split: list.splits intro: stream_session_ok stream_ok_job)
next
  case BackgroundJob
  have "stream_ok env r (s\<lparr>sk_background := js\<rparr>)" for js using assms(1) by simp
  from stream_background_ok [OF this] BackgroundJob assms show ?thesis by (auto split: list.splits)
qed

interpretation stream: event_system "stream_step env"
  "\<lambda>s. \<exists>dp st dk em. s = Inr (new_stream_task r dp st dk em)"
  "\<lambda>s. case s of Inl _ \<Rightarrow> True | Inr t \<Rightarrow> stream_ok env r t"
  for env r
proof unfold_locales
  fix s :: "stream_task outcome"
  assume "\<exists>dp st dk em. s = Inr (new_stream_task r dp st dk em)"
  then show "case s of Inl _ \<Rightarrow> True | Inr t \<Rightarrow> stream_ok env r t"
    by (auto simp: stream_ok_def new_stream_task_def createStreamTask_def new_task_def)
next
  fix s :: "stream_task outcome" and e
  assume "case s of Inl _ \<Rightarrow> True | Inr t \<Rightarrow> stream_ok env r t"
  then show "case stream_step env s e of Inl _ \<Rightarrow> True | Inr t \<Rightarrow> stream_ok env r t"
    by (cases s) (auto simp: stream_step_def split: sum.splits intro: stream_handle_ok)
qed

subsection \<open>The answers to viewers\<close>

lemma chunk_sequence_prefix:
  "\<forall>i<length cs. chunk_ok env r (b + i) (cs ! i) \<Longrightarrow>
   length (chunk_sequence n d cs) \<le> MAX_SEQUENCE_SIZE + 1 - n \<and>
   (\<forall>i<length (chunk_sequence n d cs). chunk_ok env r (b + i) (Some (chunk_sequence n d cs ! i)))"
proof (induction n d cs arbitrary: b rule: chunk_sequence.induct)
  case (2 n d c cs)
  show ?case
  proof (cases "n > MAX_SEQUENCE_SIZE \<or> c = None \<or> d + ci_durationMks (the c) > MAX_CHUNKS_DURATION_MS")
    case True
    then show ?thesis by (auto simp: Let_def split: option.splits)
  next
    case False
    then obtain ci where c: "c = Some ci" and go: "\<not> n > MAX_SEQUENCE_SIZE" "\<not> d + ci_durationMks ci > MAX_CHUNKS_DURATION_MS"
      by auto
    have "\<forall>i<length cs. chunk_ok env r (b + 1 + i) (cs ! i)" "chunk_ok env r b (Some ci)"
      using "2.prems" c by (force, force)
    with "2.IH" [OF go(1) c refl go(2), of "b + 1"] show ?thesis
      using go by (auto simp: c nth_Cons' Let_def gr0_conv_Suc)
  qed
qed simp

text \<open>
  C5. In every state a stream task can reach, a viewer's request is answered without a failed assertion, and the
  chunks of an answer are one to six consecutive chunks of this stream, beginning with the requested index, each carrying its
  index and a good signature of the streamer, whatever messages, downloads and interruptions came before.
\<close>

theorem viewers_receive_consecutive_signed_chunks:
  assumes "run (stream_step env) (Inr (new_stream_task r dp st dk em)) events = Inr s"
  shows "\<exists>a. acceptGetChunksInfoMessage streamId requestedIndex s = Inr a \<and>
    (\<forall>i cs. a = ChunkSequence i cs \<longrightarrow> i = requestedIndex \<and> cs \<noteq> [] \<and> length cs \<le> 6 \<and>
      (\<forall>n<length cs. unat (ci_chunkIndex (cs ! n)) = unat requestedIndex + n \<and> ci_streamId (cs ! n) = sr_streamId r \<and>
         chunk_verify (se_verify env) (sr_streamerKey r) (cs ! n)))"
proof (cases "sr_streamId (sk_request s) = streamId \<and> unat requestedIndex < length (sk_chunkInfoList s) \<and>
    sk_chunkInfoList s ! unat requestedIndex \<noteq> None")
  case False
  then show ?thesis by (auto simp: acceptGetChunksInfoMessage_def not_less)
next
  case True
  let ?b = "unat requestedIndex"
  from assms stream.reachable_invar [of "Inr (new_stream_task r dp st dk em)" r env events]
  have "stream_ok env r s" by auto
  then have ok: "\<forall>i<length (sk_chunkInfoList s). chunk_ok env r i (sk_chunkInfoList s ! i)" by (simp add: stream_ok_def)
  from True obtain c where c: "sk_chunkInfoList s ! ?b = Some c" by auto
  with ok True have c_ok: "chunk_ok env r ?b (Some c)" by metis
  let ?cs = "chunk_sequence 1 0 (drop (?b + 1) (sk_chunkInfoList s))"
  have "\<forall>i<length (drop (?b + 1) (sk_chunkInfoList s)). chunk_ok env r (?b + 1 + i) (drop (?b + 1) (sk_chunkInfoList s) ! i)"
    using ok by auto
  from chunk_sequence_prefix [OF this, of 1 0]
  have "length ?cs \<le> 5" "\<forall>i<length ?cs. chunk_ok env r (?b + 1 + i) (Some (?cs ! i))"
    by (auto simp: MAX_SEQUENCE_SIZE_def)
  with c_ok True c show ?thesis
    by (auto simp: acceptGetChunksInfoMessage_def chunk_ok_def nth_Cons' less_Suc_eq_le word_unat_eq_iff)
qed

subsection \<open>The folder of a finished stream\<close>

lemma view_at_folder:
  "walk ns d = Some e0 \<Longrightarrow> view (at_folder ns (\<lambda>_. e) d) ms =
     (if prefix ns ms then view e (drop (length ns) ms) else view d ms)"
proof (induction ns arbitrary: d ms)
  case (Cons n ns)
  then obtain a cs where "map_find n (snd d) = Some (CFolder a cs)" "walk ns (a, cs) = Some e0"
    by (auto split: option.splits child.splits)
  with Cons.IH [of "(a, cs)"] show ?case
    by (cases ms) (auto simp: view_Cons subview_as_child subview_folder)
qed simp

lemma tree_ok_at_folder:
  "tree_ok d \<Longrightarrow> walk ns d = Some e0 \<Longrightarrow> tree_ok e \<Longrightarrow> fd_name (fst e) = fd_name (fst e0) \<Longrightarrow>
   tree_ok (at_folder ns (\<lambda>_. e) d) \<and> fd_name (fst (at_folder ns (\<lambda>_. e) d)) = fd_name (fst d)"
proof (induction ns arbitrary: d)
  case (Cons n ns)
  then obtain a cs where f: "map_find n (snd d) = Some (CFolder a cs)" "walk ns (a, cs) = Some e0"
    by (auto split: option.splits child.splits)
  with Cons.prems have "tree_ok (a, cs)" "fd_name a = n" by (auto dest: tree_ok_child)
  with Cons.IH [of "(a, cs)"] Cons.prems f show ?case
    by (cases d) (auto intro!: tree_ok_put simp: as_child_def)
qed simp

lemma emplace_file_spec:
  assumes "emplace_file n h sz (d, st) = (d', st')"
  shows "fst d' = fst d \<and> (tree_ok d \<longrightarrow> tree_ok d') \<and>
    view d' ms = (case view d ms of Some e \<Rightarrow> Some e | None \<Rightarrow> if ms = [n] then Some (Reg h sz False) else None)"
proof -
  obtain i where d': "d' = (fst d, map_emplace n (CFile (mk_file n h sz False i)) (snd d))"
    using assms by (auto simp: emplace_file_def split: prod.splits)
  have "tree_ok d'" if "tree_ok d"
    using that tree_ok_put [of "fst d" "snd d" "CFile (mk_file n h sz False i)" n]
    by (auto simp: d' map_emplace_def mk_file_def)
  moreover have "view d' ms = (case view d ms of Some e \<Rightarrow> Some e | None \<Rightarrow> if ms = [n] then Some (Reg h sz False) else None)"
  proof (cases ms)
    case (Cons m ms')
    then show ?thesis by (cases ms') (auto simp: d' view_Cons mk_file_def split: option.split bind_splits)
  qed (simp add: d')
  ultimately show ?thesis by (simp add: d')
qed

definition chunk_files :: "finish_chunk_info list \<Rightarrow> (string \<times> entry) list" where
  "chunk_files fs =
     map (\<lambda>f. (toString (fc_chunkInfoHash f), Reg (fc_chunkInfoHash f) (fc_sizeBytes f) False)) (filter fc_saveOnDrive fs)"

lemma add_chunks_spec:
  "fst (fst (add_chunks fs (d, st))) = fst d \<and> (tree_ok d \<longrightarrow> tree_ok (fst (add_chunks fs (d, st)))) \<and>
   view (fst (add_chunks fs (d, st))) ms =
     (case view d ms of Some e \<Rightarrow> Some e
      | None \<Rightarrow> if length ms = 1 then map_of (chunk_files fs) (hd ms) else None)"
proof (induction fs arbitrary: d st)
  case Nil
  then show ?case by (simp add: add_chunks_def chunk_files_def split: option.split)
next
  case (Cons f fs)
  show ?case
  proof (cases "fc_saveOnDrive f")
    case False
    then have "add_chunks (f # fs) (d, st) = add_chunks fs (d, st)" "chunk_files (f # fs) = chunk_files fs"
      by (simp_all add: add_chunks_def chunk_files_def)
    with Cons show ?thesis by (simp split: option.split)
  next
    case True
    obtain d1 st1 where e: "emplace_file (toString (fc_chunkInfoHash f)) (fc_chunkInfoHash f) (fc_sizeBytes f) (d, st) = (d1, st1)"
      by (cases "emplace_file (toString (fc_chunkInfoHash f)) (fc_chunkInfoHash f) (fc_sizeBytes f) (d, st)")
    have "add_chunks (f # fs) (d, st) = add_chunks fs (d1, st1)" by (simp add: add_chunks_def True e)
    with Cons.IH [of d1 st1] emplace_file_spec [OF e, of ms] True show ?thesis
      by (auto simp: chunk_files_def length_Suc_conv split: option.splits if_splits)
  qed
qed

text \<open>
  C22. A finished stream is put into the sandbox exactly: the folder of the request is created where it is
  missing and marked with the stream, the chunks that are to be saved become files named by the text of their
  hash, the playlist becomes a file with the length of its text, an entry of the folder that has one of these
  names stays, and every other entry of the drive is as it was; the root hash is that of this tree.
\<close>

theorem finished_stream_is_put_into_the_sandbox:
  fixes s :: stream_task
  defines "v \<equiv> view (dp_fsTree (w_params (sk_world s)))" and "ns \<equiv> path_elems (sr_folder (sk_request s))"
    and "pl \<equiv> playlistTxt (sk_finishInfo s)"
  assumes "tree_ok (dp_fsTree (w_params (sk_world s)))" "\<not> name_blocked ns v"
    and "completeStreamFinishing env s = Inr s'"
  shows "\<exists>tree. tk_sandboxFsTree (sk_task s') = Some tree \<and> tree_ok tree \<and>
    tk_sandboxRootHash (sk_task s') = Some (dk_createTorrentFile (sk_disk s') tree) \<and>
    view tree = (\<lambda>ms. if ms = ns then Some (Dir True (sr_streamId (sk_request s)))
      else case name_create ns v ms of
             Some e \<Rightarrow> Some e
           | None \<Rightarrow> if ms \<noteq> [] \<and> butlast ms = ns
                     then map_of (chunk_files (sk_finishInfo s) @
                       [(PLAYLIST_FILE_NAME, Reg (se_infoHash env PLAYLIST_FILE_NAME pl) (of_nat (length pl)) False)]) (last ms)
                     else None)"
  using assms(6)
proof (cases rule: completeStreamFinishing_cases)
  case (1 b tree st)
  from 1(1) have "tree = fst (snd (walk_create ns (dp_fsTree (w_params (sk_world s))) (copy_tree (dp_fsTree (w_params (sk_world s))) (sk_stats s))))"
    using addFolder_tree by (auto simp: stream_folder_def Let_def ns_def)
  with assms(5) 1(2) show ?thesis
    using walk_create_walk by (auto simp: getFolderPtr_def blocked_view v_def ns_def)
next
  case (2 b tree st sf h pl' tree2 st2 dk meta drive)
  have t: "tree_ok tree" "view tree = name_create ns v"
    using 2(1) addFolder_name [OF assms(4)] by (auto simp: stream_folder_def Let_def v_def ns_def)
  have pl': "pl' = pl" using 2(3) by (simp add: pl_def)
  have w: "walk ns tree = Some sf" using 2(2) by (simp add: getFolderPtr_def ns_def)
  obtain d1 st1 d2 st2' where a: "add_chunks (sk_finishInfo s) (sf, st) = (d1, st1)"
    and e: "emplace_file PLAYLIST_FILE_NAME h (of_nat (length pl)) (d1, st1) = (d2, st2')" by fastforce
  have tree2: "tree2 = at_folder ns (\<lambda>_. mark_stream (sr_streamId (sk_request s)) d2) tree"
    using 2(5) by (simp add: stream_tree_def a e pl' ns_def)
  note parts = add_chunks_spec [of "sk_finishInfo s" sf st] emplace_file_spec [OF e]
  have ok: "tree_ok tree2"
    unfolding tree2 using tree_ok_at_folder [OF t(1) w] parts a tree_ok_walk [OF t(1) w]
    by (simp add: mark_stream_def tree_ok_def)
  have sf: "view sf ms = name_create ns v (ns @ ms)" for ms using view_walk [OF w] t(2) by metis
  have d2: "view d2 ms = (case view sf ms of Some e \<Rightarrow> Some e
      | None \<Rightarrow> if length ms = 1 then map_of (chunk_files (sk_finishInfo s) @ [(PLAYLIST_FILE_NAME, Reg h (of_nat (length pl)) False)]) (hd ms) else None)" for ms
    using parts(1) [of ms] parts(2) [of ms] a
    by (auto simp: length_Suc_conv map_add_def split: option.splits if_splits)
  have m: "view (mark_stream i d2) ms = (if ms = [] then Some (Dir True i) else view d2 ms)" for i ms
    by (cases ms) (auto simp: mark_stream_def view_Cons)
  have "view tree2 ms = (if ms = ns then Some (Dir True (sr_streamId (sk_request s)))
      else case name_create ns v ms of
             Some e \<Rightarrow> Some e
           | None \<Rightarrow> if ms \<noteq> [] \<and> butlast ms = ns
                     then map_of (chunk_files (sk_finishInfo s) @ [(PLAYLIST_FILE_NAME, Reg h (of_nat (length pl)) False)]) (last ms)
                     else None)" for ms
  proof (cases "prefix ns ms")
    case True
    then obtain ms' where ms: "ms = ns @ ms'" by (auto simp: prefix_def)
    have "(ms' \<noteq> [] \<and> butlast (ns @ ms') = ns) = (length ms' = 1)"
      by (cases ms' rule: rev_cases) (auto simp flip: append_assoc)
    then show ?thesis
      by (auto simp: ms tree2 view_at_folder [OF w] m d2 sf length_Suc_conv split: option.split)
  next
    case False
    then have "\<not> (ms \<noteq> [] \<and> butlast ms = ns)" by (metis append_butlast_last_id prefixI)
    with False show ?thesis by (auto simp: tree2 view_at_folder [OF w] t(2) split: option.split)
  qed
  moreover have "tk_sandboxFsTree (sk_task s') = Some tree2"
    "tk_sandboxRootHash (sk_task s') = Some (dk_createTorrentFile (sk_disk s') tree2)"
    using 2(8) by (simp_all add: stream_sandbox_def post_session_def)
  ultimately show ?thesis using ok 2(4) pl' by (intro exI [of _ tree2]) (simp add: fun_eq_iff split: option.split)
qed

subsection \<open>Orders of events on which the task goes wrong\<close>

lemmas stream_steps = stream_step_def set_downloading_def set_torrents_def post_session_def post_background_def
  tryDownloadNextChunk_def chunk_downloaded_def downloadNextChunk_def start_chunk_def

text \<open>
  C38. Cancelling a stream that waits for its next chunk neither ends the task nor stops the stream: no effect is
  requested, so the drive stays busy with the interrupted task, and when the streamer's next chunk arrives its download is
  started and the callback of this download fails an assertion, whatever it reports.
\<close>

theorem cancelled_idle_stream_crashes_on_the_next_chunk:
  assumes "tk_type (sk_task s) = STREAM_REQUEST" "tk_tx (sk_task s) = sr_streamId (sk_request s)"
    and "\<not> tk_taskIsInterrupted (sk_task s)" "\<not> tk_downloading (sk_task s)" "\<not> tk_sandboxCalculated (sk_task s)"
    and "sk_session s = []" "sk_chunkInfoList s \<noteq> []"
    and "sk_downloadingChunkInfoIt s = Some (length (sk_chunkInfoList s) - 1)"
    and "ci_streamId c = sr_streamId (sk_request s)" "chunk_verify (se_verify env) (sr_streamerKey (sk_request s)) c"
    and "unat (ci_chunkIndex c) = length (sk_chunkInfoList s)" "map_find (ci_chunkInfoHash c) (sk_torrents s) = None"
  shows "\<exists>s1. stream_handle env s (CancelModify (sr_streamId (sk_request s))) = Inr s1 \<and>
    w_effects (sk_world s1) = w_effects (sk_world s) \<and> tk_taskIsInterrupted (sk_task s1) \<and>
    run (stream_step env) (Inr s1) [ChunkInfoReceived c, SessionJob, ChunkDownload code] = Inl AssertionFailure"
proof -
  let ?s1 = "s\<lparr>sk_world := (sk_world s)\<lparr>w_task := (sk_task s)\<lparr>tk_taskIsInterrupted := True\<rparr>\<rparr>\<rparr>"
  have "stream_handle env s (CancelModify (sr_streamId (sk_request s))) = Inr ?s1"
    using assms(1-5) by (simp add: shouldCancelModify_def modify_shouldCancelModify_def
        breakTorrentDownloadAndRunNextTask_def tryBreakTask_def Let_def)
  moreover have "length (sk_chunkInfoList s) - 1 + 1 = length (sk_chunkInfoList s)" using assms(7) by simp
  then have "run (stream_step env) (Inr ?s1) [ChunkInfoReceived c, SessionJob, ChunkDownload code] = Inl AssertionFailure"
    using assms by (simp add: stream_steps acceptChunkInfoMessage_def nth_append)
  ultimately show ?thesis by auto
qed

text \<open>
  C37. A stream can be declared complete while its last chunk is still being downloaded: the entry of a chunk is made when its
  download starts, and \<^verbatim>\<open>checkFinishCondition\<close> only looks for the entry.  Where the transaction that ends the stream is
  known and the last but one chunk arrives, the check that follows completes the stream, and the sandbox is hashed and
  measured with the last chunk missing.
\<close>

theorem stream_is_completed_before_its_last_chunk:
  assumes "list_all2 (\<lambda>x f. \<exists>ci. x = Some ci \<and> ci_chunkInfoHash ci = fc_chunkInfoHash f) (sk_chunkInfoList s) (sk_finishInfo s)"
    and "sk_downloadingChunkInfoIt s = Some i" "i + 2 = length (sk_chunkInfoList s)"
    and "\<forall>j\<le>i. map_contains (fc_chunkInfoHash (sk_finishInfo s ! j)) (sk_torrents s)"
    and "map_find (fc_chunkInfoHash (sk_finishInfo s ! (i + 1))) (sk_torrents s) = None"
    and "tk_downloading (sk_task s)" "\<not> tk_taskIsInterrupted (sk_task s)"
    and "sk_session s = []" "sk_background s = []" "sk_finishInfoHash s \<noteq> None"
  shows "\<exists>s2. run (stream_step env) (Inr s) [ChunkDownload download_complete, SessionJob, BackgroundJob] =
      completeStreamFinishing env s2 \<and>
    tk_downloading (sk_task s2) \<and> sk_downloadingChunkInfoIt s2 = Some (length (sk_chunkInfoList s2) - 1)"
proof -
  let ?h = "fc_chunkInfoHash (sk_finishInfo s ! (i + 1))"
  let ?m = "map_put ?h \<lparr>tu_valid = True, tu_isUsed = False\<rparr> (sk_torrents s)"
  have len: "length (sk_finishInfo s) = i + 2" using assms(1,3) by (simp add: list_all2_lengthD)
  obtain c where c: "sk_chunkInfoList s ! (i + 1) = Some c" "ci_chunkInfoHash c = ?h"
    using list_all2_nthD [OF assms(1), of "i + 1"] assms(3) by auto
  define s2 where "s2 = s\<lparr>sk_downloadingChunkInfoIt := Some (i + 1),
    sk_world := (sk_world s)\<lparr>w_params := (w_params (sk_world s))\<lparr>dp_torrentHandleMap := ?m\<rparr>\<rparr>, sk_background := []\<rparr>"
  have "map_contains (fc_chunkInfoHash (sk_finishInfo s ! j)) ?m" if "j < i + 2" for j
  proof (cases "j = i + 1")
    case False
    with that assms(4) show ?thesis by (simp add: map_contains_find)
  qed (simp add: map_contains_find)
  then have "chunks_received ?m (sk_chunkInfoList s) (sk_finishInfo s)"
    using assms(1) len by (fastforce simp: chunks_received_def list_all2_conv_all_nth)
  moreover have "None \<notin> set (sk_chunkInfoList s)" "sk_finishInfo s \<noteq> []"
    using assms(1) len by (auto simp: list_all2_conv_all_nth in_set_conv_nth)
  ultimately have check: "checkFinishCondition env s2 = completeStreamFinishing env s2"
    using len assms(3) by (simp add: checkFinishCondition_def s2_def)
  have "run (stream_step env) (Inr s) [ChunkDownload download_complete, SessionJob] =
      Inr (s2\<lparr>sk_background := [CheckFinishCondition]\<rparr>)"
    using assms(2,3,5-10) c by (simp add: stream_steps s2_def)
  moreover have "s2\<lparr>sk_background := []\<rparr> = s2" by (simp add: s2_def)
  ultimately have "run (stream_step env) (Inr s) [ChunkDownload download_complete, SessionJob, BackgroundJob] =
      completeStreamFinishing env s2"
    using check run_append [of "stream_step env" "Inr s" "[ChunkDownload download_complete, SessionJob]" "[BackgroundJob]"]
    by (simp add: stream_step_def)
  moreover have "tk_downloading (sk_task s2)" "sk_downloadingChunkInfoIt s2 = Some (length (sk_chunkInfoList s2) - 1)"
    using assms(3,6) by (simp_all add: s2_def)
  ultimately show ?thesis by blast
qed

text \<open>
  A lost chunk info makes the check after the end of the stream fail: \<^verbatim>\<open>requestMissingChunkInfo\<close> is called on the
  background thread, where its thread assertion does not hold.
\<close>

lemma lost_chunk_info_breaks_the_finish:
  assumes "tk_downloading (sk_task s)" "\<not> tk_taskIsInterrupted (sk_task s)" "sk_background s = []"
    and "sk_finishInfoHash s \<noteq> None" "sk_finishInfo s \<noteq> []"
    and "length (sk_chunkInfoList s) = length (sk_finishInfo s)" "None \<in> set (sk_chunkInfoList s)"
  shows "run (stream_step env) (Inr s) [ChunkDownload download_complete, BackgroundJob] = Inl AssertionFailure"
  using assms by (simp add: stream_steps checkFinishCondition_def)

subsection \<open>A stream of three chunks\<close>

definition film_chunk :: "u32 \<Rightarrow> hash256 \<Rightarrow> chunk_info" where
  "film_chunk i h = \<lparr>ci_streamId = 50, ci_chunkIndex = i, ci_chunkInfoHash = h, ci_durationMks = 30, ci_sizeBytes = 10,
     ci_sign = [5]\<rparr>"

definition film_finish :: "finish_chunk_info list" where
  "film_finish = map (\<lambda>(i, h, b). \<lparr>fc_chunkIndex = i, fc_chunkInfoHash = h, fc_durationMks = 30, fc_sizeBytes = 10,
     fc_saveOnDrive = b\<rparr>) [(0, 11, False), (1, 12, True), (2, 13, True)]"

definition film_env :: stream_env where
  "film_env = \<lparr>se_verify = (\<lambda>k msg s. s = [ucast k]), se_finishFile = (\<lambda>h. (True, film_finish)),
     se_infoHash = (\<lambda>n t. 99), se_torrentSize = (\<lambda>t. 2)\<rparr>"

definition film_request :: stream_request where
  "film_request = \<lparr>sr_streamId = 50, sr_streamerKey = 5, sr_folder = ''film'', sr_maxSizeBytes = 100, sr_replicatorList = []\<rparr>"

definition film_drive :: drive_params where
  "film_drive = \<lparr>dp_driveKey = 1, dp_driveOwner = 2, dp_maxSize = 1000, dp_replicatorKey = 3, dp_minReplicatorsNumber = 4,
     dp_allReplicators = [], dp_donatorShard = [], dp_torrentHandleMap = [],
     dp_rootHash = 8, dp_lastApprovedModification = 6, dp_fsTree = mk_folder ''/'' 0,
     dp_modifyInfos = \<lparr>mi_modifyInfo = [], mi_oldModifications = []\<rparr>, dp_streamMap = [],
     dp_opinionController = new_controller 2 0, dp_savedOpinion = None\<rparr>"

definition film_disk :: disk where
  "film_disk = empty_disk\<lparr>dk_driveFolder := [toString 12 \<mapsto> 10, toString 13 \<mapsto> 10],
     dk_torrentFolder := [toString 12 \<mapsto> 2, toString 13 \<mapsto> 2]\<rparr>"

definition film_start :: stream_task where
  "film_start = new_stream_task film_request film_drive (snd (new_folder_node empty_stats)) film_disk
     (new_endpoints_manager 3 [((''5.5.5.5'', 5), 5)])"

definition film_begin :: "stream_event list" where
  "film_begin = [ChunkInfoReceived (film_chunk 0 11), SessionJob, ChunkInfoReceived (film_chunk 1 12)]"

definition film_end :: "stream_event list" where
  "film_end = [ChunkInfoReceived (film_chunk 2 13), FinishStreamTx \<lparr>sf_streamId = 50, sf_finishDataInfoHash = 77, sf_streamSizeBytes = 30\<rparr>,
     FinishInfoDownload download_complete, BackgroundJob, SessionJob, ChunkDownload download_complete, SessionJob, BackgroundJob]"

definition film_at :: "stream_event list \<Rightarrow> stream_task" where
  "film_at es = projr (run (stream_step film_env) (Inr film_start) es)"

lemma film_runs:
  "run (stream_step film_env) (Inr film_start) film_begin = Inr (film_at film_begin)"
  by (subst film_at_def, rule sum.collapse(2) [symmetric], code_simp)

text \<open>What the witnesses read of a state, evaluated once.\<close>

definition film_reading :: "stream_task \<Rightarrow> _" where
  "film_reading s = ((sk_request s, sk_finishInfo s, sk_chunkInfoList s, sk_downloadingChunkInfoIt s, sk_session s, sk_background s,
     sk_finishInfoHash s), (tk_type (sk_task s), tk_tx (sk_task s), tk_downloading (sk_task s), tk_taskIsInterrupted (sk_task s),
     tk_sandboxCalculated (sk_task s)), w_effects (sk_world s), dp_fsTree (w_params (sk_world s)), sk_torrents s)"

lemma film_last:
  "film_reading (film_at (film_begin @ film_end)) =
    ((film_request, film_finish, [Some (film_chunk 0 11), Some (film_chunk 1 12), Some (film_chunk 2 13)], Some 1, [], [], Some 77),
     (STREAM_REQUEST, 50, True, False, False), [], mk_folder ''/'' 0,
     map (\<lambda>h. (h, \<lparr>tu_valid = True, tu_isUsed = False\<rparr>)) [11, 12, 77])"
  by code_simp

lemma film_idle:
  "film_reading (film_at [ChunkInfoReceived (film_chunk 0 11), SessionJob, ChunkDownload download_complete, SessionJob]) =
    ((film_request, [], [Some (film_chunk 0 11)], Some 0, [], [], None),
     (STREAM_REQUEST, 50, False, False, False), [], mk_folder ''/'' 0, [(11, \<lparr>tu_valid = True, tu_isUsed = False\<rparr>)])"
  by code_simp

theorem viewers_receive_consecutive_signed_chunks_witness:
  "acceptGetChunksInfoMessage 50 0 (film_at film_begin) = Inr (ChunkSequence 0 [film_chunk 0 11, film_chunk 1 12]) \<and>
   chunk_verify (se_verify film_env) 5 (film_chunk 1 12)"
proof -
  have a: "acceptGetChunksInfoMessage 50 0 (film_at film_begin) = Inr (ChunkSequence 0 [film_chunk 0 11, film_chunk 1 12])"
    by code_simp
  have "\<exists>a. acceptGetChunksInfoMessage 50 0 (film_at film_begin) = Inr a \<and>
    (\<forall>i cs. a = ChunkSequence i cs \<longrightarrow> i = 0 \<and> cs \<noteq> [] \<and> length cs \<le> 6 \<and>
      (\<forall>n<length cs. unat (ci_chunkIndex (cs ! n)) = unat (0 :: u32) + n \<and> ci_streamId (cs ! n) = sr_streamId film_request \<and>
         chunk_verify (se_verify film_env) (sr_streamerKey film_request) (cs ! n)))"
    by (rule viewers_receive_consecutive_signed_chunks [OF film_runs [unfolded film_start_def]])
  with a have "\<forall>n<2. chunk_verify (se_verify film_env) (sr_streamerKey film_request) ([film_chunk 0 11, film_chunk 1 12] ! n)"
    by auto
  then have "chunk_verify (se_verify film_env) 5 (film_chunk 1 12)"
    by (auto simp: film_request_def dest: spec [of _ 1])
  with a show ?thesis by simp
qed

lemma film_paths: "path_elems (sr_folder film_request) = [''film'']" by code_simp

theorem finished_stream_is_put_into_the_sandbox_witness:
  "\<exists>s' tree. completeStreamFinishing film_env (film_at (film_begin @ film_end)) = Inr s' \<and>
    tk_sandboxFsTree (sk_task s') = Some tree \<and> view tree [''film''] = Some (Dir True 50) \<and>
    view tree [''film'', toString 13] = Some (Reg 13 10 False) \<and> view tree [''film'', toString 11] = None"
proof -
  let ?s = "film_at (film_begin @ film_end)"
  have v: "dp_fsTree (w_params (sk_world ?s)) = mk_folder ''/'' 0" "sk_request ?s = film_request" "sk_finishInfo ?s = film_finish"
    using film_last by (simp_all add: film_reading_def)
  have view0: "view (mk_folder ''/'' 0) ms = (if ms = [] then Some (Dir False 0) else None)" for ms
    by (cases ms) (simp_all add: mk_folder_def view_Cons)
  have ok: "tree_ok (dp_fsTree (w_params (sk_world ?s)))" by (simp add: v tree_ok_def mk_folder_def)
  have free: "\<not> name_blocked (path_elems (sr_folder (sk_request ?s))) (view (dp_fsTree (w_params (sk_world ?s))))"
    by (auto simp: v view0 name_blocked_def split: if_splits)
  have "\<not> isl (completeStreamFinishing film_env ?s)" by code_simp
  then obtain s' where s': "completeStreamFinishing film_env ?s = Inr s'"
    by (cases "completeStreamFinishing film_env ?s") auto
  from finished_stream_is_put_into_the_sandbox [OF ok free s', unfolded v film_paths]
  obtain tree where tree: "tk_sandboxFsTree (sk_task s') = Some tree"
    and view: "view tree = (\<lambda>ms. if ms = [''film''] then Some (Dir True (sr_streamId film_request))
      else case name_create [''film''] (view (mk_folder ''/'' 0)) ms of
             Some e \<Rightarrow> Some e
           | None \<Rightarrow> if ms \<noteq> [] \<and> butlast ms = [''film'']
                     then map_of (chunk_files film_finish @
                       [(PLAYLIST_FILE_NAME, Reg (se_infoHash film_env PLAYLIST_FILE_NAME (playlistTxt film_finish))
                          (of_nat (length (playlistTxt film_finish))) False)]) (last ms)
                     else None)"
    by blast
  have "map_of (chunk_files film_finish) (toString 13) = Some (Reg 13 10 False)"
    "map_of (chunk_files film_finish) (toString 11) = None" "toString 11 \<noteq> PLAYLIST_FILE_NAME"
    by code_simp+
  then have "view tree [''film''] = Some (Dir True 50)" "view tree [''film'', toString 13] = Some (Reg 13 10 False)"
    "view tree [''film'', toString 11] = None"
    by (auto simp: view name_create_def view0 name_blocked_def map_add_def film_request_def split: if_splits)
  with s' tree show ?thesis by blast
qed

theorem stream_is_completed_before_its_last_chunk_witness:
  "\<exists>s2. run (stream_step film_env) (Inr (film_at (film_begin @ film_end)))
      [ChunkDownload download_complete, SessionJob, BackgroundJob] = completeStreamFinishing film_env s2 \<and>
    tk_downloading (sk_task s2) \<and> sk_downloadingChunkInfoIt s2 = Some (length (sk_chunkInfoList s2) - 1)"
proof -
  let ?s = "film_at (film_begin @ film_end)"
  note last = film_last [unfolded film_reading_def prod.inject]
  show ?thesis
    by (rule stream_is_completed_before_its_last_chunk [where i = 1])
      (use last in \<open>simp_all add: film_finish_def film_chunk_def map_contains_def map_find_def le_Suc_eq all_conj_distrib\<close>)
qed

theorem cancelled_idle_stream_crashes_on_the_next_chunk_witness:
  "\<exists>s1. stream_handle film_env (film_at [ChunkInfoReceived (film_chunk 0 11), SessionJob, ChunkDownload download_complete, SessionJob])
      (CancelModify 50) = Inr s1 \<and> w_effects (sk_world s1) = [] \<and> tk_taskIsInterrupted (sk_task s1) \<and>
    run (stream_step film_env) (Inr s1) [ChunkInfoReceived (film_chunk 1 12), SessionJob, ChunkDownload downloading] = Inl AssertionFailure"
proof -
  let ?s = "film_at [ChunkInfoReceived (film_chunk 0 11), SessionJob, ChunkDownload download_complete, SessionJob]"
  note idle = film_idle [unfolded film_reading_def prod.inject]
  have "\<exists>s1. stream_handle film_env ?s (CancelModify (sr_streamId (sk_request ?s))) = Inr s1 \<and>
    w_effects (sk_world s1) = w_effects (sk_world ?s) \<and> tk_taskIsInterrupted (sk_task s1) \<and>
    run (stream_step film_env) (Inr s1) [ChunkInfoReceived (film_chunk 1 12), SessionJob, ChunkDownload downloading] = Inl AssertionFailure"
    by (rule cancelled_idle_stream_crashes_on_the_next_chunk)
      (use idle in \<open>simp_all add: map_find_def film_request_def film_chunk_def film_env_def chunk_verify_def\<close>)
  then show ?thesis using idle by (simp add: film_request_def)
qed

end
