(* ===== verification/Replicator_Node.thy ===== *)
theory Replicator_Node
  imports Drive_Schedule Download_Approval Stream_Chunks Manual_Task
begin

section \<open>The replicator: dispatch of transactions and messages\<close>

text \<open>
  Model of \<^verbatim>\<open>DefaultReplicator\<close> (\<^verbatim>\<open>src/drive/Replicator.cpp\<close>) around the parts that have theories of their
  own: the map of drives, the handlers that pass transactions and messages on to a drive, the answers to
  requests of other nodes, and the synchronisation of receipts (\<^verbatim>\<open>src/drive/RcptSyncronizer.h\<close>).  The
  function that a handler posts to the session thread is the model of the handler.  What \<^verbatim>\<open>cereal\<close> reads and
  writes is a parameter: a reader returns \<open>None\<close> where the archive throws.  The torrent session exists from
  the start to the stop of the replicator.
\<close>

record node_env =
  ne_verify :: "key \<Rightarrow> byte list \<Rightarrow> signature \<Rightarrow> bool"
  ne_sign :: "byte list \<Rightarrow> signature"
  ne_rnd :: "nat \<Rightarrow> nat"
  ne_raw :: "endpoint \<Rightarrow> byte list"
  ne_unraw :: "byte list \<Rightarrow> endpoint"
  ne_port :: "16 word"
  ne_opinion :: "byte list \<Rightarrow> approval_info option"
  ne_dn_opinion :: "byte list \<Rightarrow> dn_approval option"
  ne_code :: "byte list \<Rightarrow> verification_code option"
  ne_verify_opinion :: "byte list \<Rightarrow> verify_approval option"
  ne_handshake :: "byte list \<Rightarrow> dht_handshake option"
  ne_endpoint_request :: "byte list \<Rightarrow> endpoint_request option"
  ne_endpoint_response :: "byte list \<Rightarrow> endpoint_response option"
  ne_chunk :: "byte list \<Rightarrow> (key \<times> chunk_info option) option"
  ne_chunks_request :: "byte list \<Rightarrow> (key \<times> (hash256 \<times> u32) option) option"
  ne_playlist_request :: "byte list \<Rightarrow> (key \<times> hash256 option) option"
  ne_status_request :: "byte list \<Rightarrow> key option"
  ne_receipts :: "byte list \<Rightarrow> (key \<times> hash256 \<times> rcpt_message list) option"
  ne_write_receipts :: "key \<Rightarrow> hash256 \<Rightarrow> rcpt_message list \<Rightarrow> byte list"
  ne_write_channel :: "key \<Rightarrow> hash256 \<Rightarrow> channel_info option \<Rightarrow> byte list"
  ne_write_modification :: "key \<Rightarrow> hash256 \<Rightarrow> traffic_map option \<Rightarrow> byte list"
  ne_write_playlist :: "hash256 \<times> hash256 \<Rightarrow> byte list"
  ne_write_word :: "u32 \<Rightarrow> byte list"
  ne_write_status :: "key \<Rightarrow> bool \<Rightarrow> hash256 option option \<Rightarrow> byte list"

text \<open>
  The drive a synchronisation holds is the one in the map (\<open>Inl\<close> its key), or one that has left the map
  and is kept alive by the pointer.
\<close>

record channel_sync =
  cs_drive :: "key + flat_drive"
  cs_responseSet :: "key list"
  cs_consensusThreshould :: nat
  cs_syncTimeoutTimer :: bool

datatype node_output =
    SessionMessage string endpoint "byte list" "signature option"
  | OpinionHasBeenReceived approval_info
  | DownloadOpinionHasBeenReceived dn_approval
  | ChunkInfoMessage key chunk_info endpoint
  | FinishStreamTx key stream_finish_request
  | ManualRequest key request
  | EmptyResponse key

record node =
  nd_replicator :: replicator
  nd_endpoints :: endpoints_manager
  nd_syncChannelMap :: "(hash256, channel_sync) std_map"
  nd_allowCreateNonExistingDrives :: bool
  nd_outputs :: "node_output list"

abbreviation nd_key :: "node \<Rightarrow> key" where
  "nd_key n \<equiv> rp_key (nd_replicator n)"

abbreviation nd_drives :: "node \<Rightarrow> (key, flat_drive) std_map" where
  "nd_drives n \<equiv> rp_drives (nd_replicator n)"

abbreviation nd_channels :: "node \<Rightarrow> (hash256, channel_info) std_map" where
  "nd_channels n \<equiv> rp_channels (nd_replicator n)"

definition nd_emit :: "node_output \<Rightarrow> node \<Rightarrow> node" where
  "nd_emit x n = n\<lparr>nd_outputs := nd_outputs n @ [x]\<rparr>"

definition set_drives :: "(key, flat_drive) std_map \<Rightarrow> node \<Rightarrow> node" where
  "set_drives m n = n\<lparr>nd_replicator := (nd_replicator n)\<lparr>rp_drives := m\<rparr>\<rparr>"

definition set_replicator :: "node \<Rightarrow> replicator \<Rightarrow> node" where
  "set_replicator n rp = n\<lparr>nd_replicator := rp\<rparr>"

definition set_endpoints :: "node \<Rightarrow> endpoints_manager \<Rightarrow> node" where
  "set_endpoints n em = n\<lparr>nd_endpoints := em\<rparr>"

text \<open>The two guards of the handlers: a call of the drive of a key if there is one, and the end of the replicator.\<close>

definition on_drive :: "key \<Rightarrow> (flat_drive \<Rightarrow> flat_drive outcome) \<Rightarrow> node \<Rightarrow> node outcome" where
  "on_drive driveKey f n =
     (case map_find driveKey (nd_drives n) of
        None \<Rightarrow> Inr n
      | Some d \<Rightarrow> bind_outcome (f d) (\<lambda>d'. Inr (set_drives (map_put driveKey d' (nd_drives n)) n)))"

definition unless_stopped :: "node \<Rightarrow> node outcome \<Rightarrow> node outcome" where
  "unless_stopped n r = (if rp_destructing (nd_replicator n) then Inr n else r)"

subsection \<open>Sending\<close>

definition sendMessage :: "string \<Rightarrow> key \<Rightarrow> byte list \<Rightarrow> node \<Rightarrow> node" where
  "sendMessage query replicatorKey msg n =
     (if rp_destructing (nd_replicator n) then n
      else case em_getEndpoint replicatorKey (nd_endpoints n) of
             None \<Rightarrow> n
           | Some ep \<Rightarrow> nd_emit (SessionMessage query ep msg None) n)"

definition sendSignedMessage :: "(byte list \<Rightarrow> signature) \<Rightarrow> string \<Rightarrow> key \<Rightarrow> byte list \<Rightarrow> node \<Rightarrow> node" where
  "sendSignedMessage sign query replicatorKey msg n =
     (if rp_destructing (nd_replicator n) then n
      else case em_getEndpoint replicatorKey (nd_endpoints n) of
             None \<Rightarrow> n
           | Some ep \<Rightarrow> nd_emit (SessionMessage query ep msg (Some (sign msg))) n)"

subsection \<open>Drives come and go\<close>

record add_drive_request =
  ad_driveSize :: u64
  ad_expectedCumulativeDownloadSize :: u64
  ad_fullReplicatorList :: "key list"
  ad_client :: key
  ad_modifyDonatorShard :: "key list"
  ad_modifyRecipientShard :: "key list"

text \<open>
  The constructor of a drive starts its initialisation, which reads the state from the disk.
\<close>

definition new_params :: "key \<Rightarrow> nat \<Rightarrow> key \<Rightarrow> add_drive_request \<Rightarrow> drive_params" where
  "new_params self minReplicatorsNumber driveKey r =
     \<lparr>dp_driveKey = driveKey, dp_driveOwner = ad_client r, dp_maxSize = ad_driveSize r, dp_replicatorKey = self,
      dp_minReplicatorsNumber = minReplicatorsNumber, dp_allReplicators = ad_fullReplicatorList r,
      dp_donatorShard = ad_modifyDonatorShard r, dp_torrentHandleMap = [], dp_rootHash = 0,
      dp_lastApprovedModification = 0, dp_fsTree = mk_folder [] 0,
      dp_modifyInfos = \<lparr>mi_modifyInfo = [], mi_oldModifications = []\<rparr>, dp_streamMap = [],
      dp_opinionController = new_controller (ad_client r) (ad_expectedCumulativeDownloadSize r),
      dp_savedOpinion = None\<rparr>"

definition createDefaultFlatDrive :: "key \<Rightarrow> nat \<Rightarrow> key \<Rightarrow> add_drive_request \<Rightarrow> flat_drive outcome" where
  "createDefaultFlatDrive self minReplicatorsNumber driveKey r =
     runDriveInitializationTask
       \<lparr>dr_params = new_params self minReplicatorsNumber driveKey r, dr_recipientShard = ad_modifyRecipientShard r,
        dr_unknownModificationOpinions = [], dr_unknownVerificationOpinions = [], dr_unknownVerificationCodeQueue = [],
        dr_closeDriveRequest = None, dr_modificationCancelRequest = None, dr_catchingUpRequest = None,
        dr_synchronizationRequest = None, dr_deferredModificationRequests = [],
        dr_deferredManualModificationRequest = None, dr_deferredVerificationRequest = None, dr_task = None,
        dr_verificationTask = None, dr_blockedReplicators = [], dr_isStopped = False, dr_outputs = []\<rparr>"

definition without_me :: "node \<Rightarrow> key list \<Rightarrow> key list" where
  "without_me n ks = erase_first (\<lambda>k. k = nd_key n) ks"

definition add_drive :: "key \<Rightarrow> add_drive_request \<Rightarrow> node \<Rightarrow> node outcome" where
  "add_drive driveKey r n =
     bind_outcome (createDefaultFlatDrive (nd_key n) (rp_minReplicatorsNumber (nd_replicator n)) driveKey r) (\<lambda>d.
       Inr (set_endpoints (set_drives (map_put driveKey d (nd_drives n)) n)
         (addEndpointQuery (ad_client r) False
            (addEndpointQueries (ad_fullReplicatorList r) True (nd_endpoints n)))))"

definition asyncAddDrive :: "key \<Rightarrow> add_drive_request \<Rightarrow> node \<Rightarrow> node outcome" where
  "asyncAddDrive driveKey r n =
     unless_stopped n
       (if map_contains driveKey (nd_drives n) then Inr n
        else add_drive driveKey (r\<lparr>ad_fullReplicatorList := without_me n (ad_fullReplicatorList r)\<rparr>) n)"

text \<open>The drive that is made for a contract on a test network has a random owner and 10 GB.\<close>

definition asyncDbgAddVirtualDrive :: "key \<Rightarrow> key \<Rightarrow> node \<Rightarrow> node outcome" where
  "asyncDbgAddVirtualDrive client driveKey n =
     unless_stopped n
       (if map_contains driveKey (nd_drives n) then Inr n
        else add_drive driveKey
               \<lparr>ad_driveSize = 10 * 1024 * 1024 * 1024, ad_expectedCumulativeDownloadSize = 0,
                ad_fullReplicatorList = [], ad_client = client, ad_modifyDonatorShard = [],
                ad_modifyRecipientShard = []\<rparr> n)"

definition asyncRemoveDrive :: "(byte list \<Rightarrow> signature) \<Rightarrow> key \<Rightarrow> node \<Rightarrow> node outcome" where
  "asyncRemoveDrive sign driveKey n = unless_stopped n (on_drive driveKey (startDriveClosing sign None) n)"

definition asyncCloseDrive :: "(byte list \<Rightarrow> signature) \<Rightarrow> key \<Rightarrow> hash256 \<Rightarrow> node \<Rightarrow> node outcome" where
  "asyncCloseDrive sign driveKey tx n = unless_stopped n (on_drive driveKey (startDriveClosing sign (Some tx)) n)"

text \<open>A synchronisation that runs keeps the closed drive.  The answers of the destructor of a drive are left out.\<close>

definition finishDriveClosure :: "key \<Rightarrow> node \<Rightarrow> node outcome" where
  "finishDriveClosure driveKey n =
     (case map_find driveKey (nd_drives n) of
        None \<Rightarrow> Inl AssertionFailure
      | Some d \<Rightarrow>
          Inr ((set_drives (map_erase driveKey (nd_drives n)) n)
            \<lparr>nd_syncChannelMap := map (\<lambda>e. (fst e, if cs_drive (snd e) = Inl driveKey
                 then (snd e)\<lparr>cs_drive := Inr d\<rparr> else snd e)) (nd_syncChannelMap n)\<rparr>))"
subsection \<open>Transactions of the blockchain\<close>

text \<open>The shards may be set while the replicator is being stopped.\<close>

definition asyncSetReplicators :: "key \<Rightarrow> key list \<Rightarrow> node \<Rightarrow> node outcome" where
  "asyncSetReplicators driveKey ks n =
     (if map_contains driveKey (nd_drives n)
      then on_drive driveKey (\<lambda>d. Inr (setReplicators (without_me n ks) d))
             (set_endpoints n (addEndpointQueries (without_me n ks) True (nd_endpoints n)))
      else Inr n)"

definition asyncSetShardDonator :: "key \<Rightarrow> key list \<Rightarrow> node \<Rightarrow> node outcome" where
  "asyncSetShardDonator driveKey ks n = on_drive driveKey (\<lambda>d. Inr (setShardDonator ks d)) n"

definition asyncSetShardRecipient :: "key \<Rightarrow> key list \<Rightarrow> node \<Rightarrow> node outcome" where
  "asyncSetShardRecipient driveKey ks n = on_drive driveKey (\<lambda>d. Inr (setShardRecipient ks d)) n"

definition asyncModify :: "(byte list \<Rightarrow> signature) \<Rightarrow> key \<Rightarrow> modification_request \<Rightarrow> node \<Rightarrow> node outcome" where
  "asyncModify sign driveKey r n =
     unless_stopped n (on_drive driveKey
       (startModifyDrive sign (r\<lparr>mr_replicatorList := without_me n (mr_replicatorList r)\<rparr>)) n)"

definition asyncCancelModify :: "key \<Rightarrow> hash256 \<Rightarrow> node \<Rightarrow> node outcome" where
  "asyncCancelModify driveKey tx n = unless_stopped n (on_drive driveKey (cancelModifyDrive tx) n)"

definition asyncStartDriveVerification ::
  "(byte list \<Rightarrow> signature) \<Rightarrow> key \<Rightarrow> verification_request \<Rightarrow> node \<Rightarrow> node outcome" where
  "asyncStartDriveVerification sign driveKey r n = unless_stopped n (on_drive driveKey (startVerification sign r) n)"

definition asyncCancelDriveVerification :: "key \<Rightarrow> node \<Rightarrow> node outcome" where
  "asyncCancelDriveVerification driveKey n =
     unless_stopped n (on_drive driveKey (\<lambda>d. Inr (cancelVerification d)) n)"

definition asyncStartStream :: "(byte list \<Rightarrow> signature) \<Rightarrow> key \<Rightarrow> stream_request \<Rightarrow> node \<Rightarrow> node outcome" where
  "asyncStartStream sign driveKey r n = unless_stopped n (on_drive driveKey (startStream sign r) n)"

text \<open>The end of a stream is a call of the task of the drive, which \<open>Stream_Chunks\<close> models.\<close>

definition asyncFinishStreamTxPublished :: "key \<Rightarrow> stream_finish_request \<Rightarrow> node \<Rightarrow> node outcome" where
  "asyncFinishStreamTxPublished driveKey r n =
     unless_stopped n (Inr (if map_contains driveKey (nd_drives n) then nd_emit (FinishStreamTx driveKey r) n else n))"

definition asyncOnOpinionReceived :: "approval_info \<Rightarrow> node \<Rightarrow> node outcome" where
  "asyncOnOpinionReceived an n = unless_stopped n (on_drive (ai_driveKey an) (onOpinionReceived an) n)"

definition asyncApprovalTransactionHasBeenPublished ::
  "(byte list \<Rightarrow> signature) \<Rightarrow> published_approval \<Rightarrow> node \<Rightarrow> node outcome" where
  "asyncApprovalTransactionHasBeenPublished sign tx n =
     unless_stopped n (on_drive (pa_driveKey tx) (onApprovalTransactionHasBeenPublished sign tx) n)"

definition asyncApprovalTransactionHasFailedInvalidOpinions :: "key \<Rightarrow> hash256 \<Rightarrow> node \<Rightarrow> node outcome" where
  "asyncApprovalTransactionHasFailedInvalidOpinions driveKey tx n =
     unless_stopped n (on_drive driveKey (\<lambda>d. Inr (onApprovalTransactionHasFailedInvalidOpinions tx d)) n)"

definition asyncVerifyApprovalTransactionHasBeenPublished :: "key \<Rightarrow> node \<Rightarrow> node outcome" where
  "asyncVerifyApprovalTransactionHasBeenPublished driveKey n =
     unless_stopped n (on_drive driveKey (\<lambda>d. Inr (cancelVerification d)) n)"

text \<open>
  Calls of contracts: a drive that is not there is answered with an empty response.  The virtual drive is made by
  a job of its own, which runs just before.
\<close>

definition or_empty :: "key \<Rightarrow> (flat_drive \<Rightarrow> flat_drive outcome) \<Rightarrow> node \<Rightarrow> node outcome" where
  "or_empty driveKey f n =
     unless_stopped n
       (if map_contains driveKey (nd_drives n) then on_drive driveKey f n else Inr (nd_emit (EmptyResponse driveKey) n))"

definition node_initiateManualModifications ::
  "(byte list \<Rightarrow> signature) \<Rightarrow> key \<Rightarrow> key \<Rightarrow> hash256 \<Rightarrow> node \<Rightarrow> node outcome" where
  "node_initiateManualModifications sign client driveKey i n =
     bind_outcome
       (if nd_allowCreateNonExistingDrives n then asyncDbgAddVirtualDrive client driveKey n else Inr n)
       (or_empty driveKey (initiateManualModifications sign i))"

definition node_manualSynchronize :: "(byte list \<Rightarrow> signature) \<Rightarrow> key \<Rightarrow> sync_request \<Rightarrow> node \<Rightarrow> node outcome" where
  "node_manualSynchronize sign driveKey r n = or_empty driveKey (manualSynchronize sign r) n"

text \<open>
  The calls on the sandbox of a contract and the queries; \<open>Manual_Task\<close> models what the task of the drive does with
  a call.  No answer at all is given while the replicator is being stopped.
\<close>

definition forward_manual_request :: "key \<Rightarrow> request \<Rightarrow> node \<Rightarrow> node outcome" where
  "forward_manual_request driveKey r n =
     unless_stopped n
       (Inr (nd_emit (if map_contains driveKey (nd_drives n) then ManualRequest driveKey r else EmptyResponse driveKey) n))"

definition query_drive :: "key \<Rightarrow> (flat_drive \<Rightarrow> 'a option) \<Rightarrow> node \<Rightarrow> 'a option option" where
  "query_drive driveKey f n =
     (if rp_destructing (nd_replicator n) then None else Some (Option.bind (map_find driveKey (nd_drives n)) f))"

definition node_getFileInfo :: "key \<Rightarrow> string \<Rightarrow> node \<Rightarrow> (hash256 \<times> u64) option option option" where
  "node_getFileInfo driveKey path n = query_drive driveKey (getFileInfo path) n"

definition node_getActualModificationId :: "key \<Rightarrow> node \<Rightarrow> hash256 option option" where
  "node_getActualModificationId driveKey n = query_drive driveKey getActualModificationId n"

definition node_getFilesystem :: "key \<Rightarrow> node \<Rightarrow> folder option option" where
  "node_getFilesystem driveKey n = query_drive driveKey getFilesystem n"

text \<open>
  The end of the replicator.  The drives ask the replicator whether it was stopped; a field of their own
  holds the answer.
\<close>

definition stop_channel :: "channel_info \<Rightarrow> channel_info" where
  "stop_channel ch =
     ch\<lparr>ch_downloadOpinionMap := map (\<lambda>e. (fst e, (snd e)\<lparr>ov_timer := False, ov_opinionShareTimer := False\<rparr>))
          (ch_downloadOpinionMap ch)\<rparr>"

definition stop :: "node \<Rightarrow> node" where
  "stop n =
     n\<lparr>nd_replicator := (nd_replicator n)\<lparr>rp_destructing := True, rp_ending := True,
         rp_drives := map (\<lambda>e. (fst e, drive_terminate ((snd e)\<lparr>dr_isStopped := True\<rparr>))) (nd_drives n),
         rp_channels := map (\<lambda>e. (fst e, stop_channel (snd e))) (nd_channels n)\<rparr>,
       nd_syncChannelMap := [], nd_endpoints := em_stop (nd_endpoints n)\<rparr>"

text \<open>
  \<^verbatim>\<open>removeUnusedDrives\<close>: the entries of the folder with whether they are folders; the result are the folders
  that are removed.  A name that is no key ends the loop with an exception, and what was found before it is
  removed.
\<close>

fun removeUnusedDrives :: "(key, flat_drive) std_map \<Rightarrow> (string \<times> bool) list \<Rightarrow> string list" where
  "removeUnusedDrives drives [] = []"
| "removeUnusedDrives drives ((entryName, is_directory) # es) =
     (if \<not> is_directory then removeUnusedDrives drives es
      else case stringToByteArray entryName of
             Inl _ \<Rightarrow> []
           | Inr driveKey \<Rightarrow>
               (if map_contains driveKey drives then [] else [entryName]) @ removeUnusedDrives drives es)"

definition asyncInitializationFinished ::
  "(string \<times> bool) list \<Rightarrow> (string \<times> bool) list \<Rightarrow> node \<Rightarrow> string list \<times> string list" where
  "asyncInitializationFinished storageDirectory sandboxDirectory n =
     (removeUnusedDrives (nd_drives n) storageDirectory, removeUnusedDrives (nd_drives n) sandboxDirectory)"

subsection \<open>Synchronising the receipts of a channel\<close>

definition sync_drive :: "channel_sync \<Rightarrow> node \<Rightarrow> flat_drive option" where
  "sync_drive cs n = (case cs_drive cs of Inl k \<Rightarrow> map_find k (nd_drives n) | Inr d \<Rightarrow> Some d)"

definition sync_request_message :: "node \<Rightarrow> flat_drive \<Rightarrow> hash256 \<Rightarrow> byte list" where
  "sync_request_message n d channelId =
     hash_bytes (nd_key n) @ hash_bytes (dp_driveKey (dr_params d)) @ hash_bytes channelId"

definition set_sync :: "hash256 \<Rightarrow> channel_sync \<Rightarrow> node \<Rightarrow> node" where
  "set_sync c cs n = n\<lparr>nd_syncChannelMap := map_put c cs (nd_syncChannelMap n)\<rparr>"

definition requestOpinons :: "(byte list \<Rightarrow> signature) \<Rightarrow> hash256 \<Rightarrow> channel_sync \<Rightarrow> node \<Rightarrow> node outcome" where
  "requestOpinons sign channelId cs n =
     (case sync_drive cs n of
        None \<Rightarrow> Inl UseAfterFree
      | Some d \<Rightarrow>
          Inr (set_sync channelId (cs\<lparr>cs_syncTimeoutTimer := True\<rparr>)
            (fold (\<lambda>r. sendSignedMessage sign ''get_dn_rcpts'' r (sync_request_message n d channelId))
               (dp_allReplicators (dr_params d)) n)))"

text \<open>
  \<^verbatim>\<open>startSync\<close> takes the first entry that is not below the channel, whatever its key is.  The callback of the
  timer asks again and then cancels the timer that this has started.
\<close>

definition startSync :: "(byte list \<Rightarrow> signature) \<Rightarrow> hash256 \<Rightarrow> key \<Rightarrow> nat \<Rightarrow> node \<Rightarrow> node outcome" where
  "startSync sign channelId driveKey consensusThreshould n =
     (case map_lower_bound channelId (nd_syncChannelMap n) of
        None \<Rightarrow> requestOpinons sign channelId
          \<lparr>cs_drive = Inl driveKey, cs_responseSet = [], cs_consensusThreshould = consensusThreshould,
           cs_syncTimeoutTimer = False\<rparr> n
      | Some (c, cs) \<Rightarrow> requestOpinons sign c cs n)"

definition syncTimeout :: "(byte list \<Rightarrow> signature) \<Rightarrow> hash256 \<Rightarrow> node \<Rightarrow> node outcome" where
  "syncTimeout sign channelId n =
     (case map_find channelId (nd_syncChannelMap n) of
        None \<Rightarrow> Inr n
      | Some cs \<Rightarrow>
          if cs_syncTimeoutTimer cs
          then bind_outcome (requestOpinons sign channelId cs n)
                 (\<lambda>n1. Inr (set_sync channelId (cs\<lparr>cs_syncTimeoutTimer := False\<rparr>) n1))
          else Inr n)"

definition accpeptOpinion :: "hash256 \<Rightarrow> key \<Rightarrow> node \<Rightarrow> node" where
  "accpeptOpinion channelId replicatorKey n =
     (case map_find channelId (nd_syncChannelMap n) of
        None \<Rightarrow> n
      | Some cs \<Rightarrow>
          let answers = List.insert replicatorKey (cs_responseSet cs)
          in if cs_consensusThreshould cs \<le> length answers
             then n\<lparr>nd_syncChannelMap := map_erase channelId (nd_syncChannelMap n)\<rparr>
             else set_sync channelId (cs\<lparr>cs_responseSet := answers\<rparr>) n)"

definition asyncAddDownloadChannelInfo ::
  "(byte list \<Rightarrow> signature) \<Rightarrow> key \<Rightarrow> hash256 \<Rightarrow> u64 \<Rightarrow> key list \<Rightarrow> key list \<Rightarrow> bool \<Rightarrow> node \<Rightarrow> node outcome" where
  "asyncAddDownloadChannelInfo sign driveKey channelKey prepaidDownloadSize replicators clients mustBeSyncronized n =
     unless_stopped n
       (let n1 = set_replicator n (addChannelInfo channelKey prepaidDownloadSize driveKey replicators clients
                   mustBeSyncronized (nd_replicator n))
        in if \<not> mustBeSyncronized then Inr n1
           else case map_find driveKey (nd_drives n1) of
                  None \<Rightarrow> Inr n1
                | Some d \<Rightarrow>
                    startSync sign channelKey driveKey (min (length (dp_allReplicators (dr_params d)) * 3 div 2) 4) n1)"

text \<open>
  The other side: the receipts of a channel, signed.  For a channel that is not known the answer is empty and
  its signature is the empty one of 64 zeros.
\<close>

definition no_signature :: signature where
  "no_signature = replicate 64 0"

definition createSyncRcpts :: "node_env \<Rightarrow> key \<Rightarrow> hash256 \<Rightarrow> node \<Rightarrow> bool \<times> byte list \<times> signature" where
  "createSyncRcpts env driveKey channelId n =
     (if \<not> map_contains driveKey (nd_drives n)
      then (False, ne_write_receipts env (nd_key n) channelId [], no_signature)
      else case map_find channelId (nd_channels n) of
             None \<Rightarrow> (True, [], no_signature)
           | Some ch \<Rightarrow>
               let str = ne_write_receipts env (nd_key n) channelId
                           (concat (map (\<lambda>c. map snd (snd c)) (ch_clientReceiptMap ch)))
               in (True, str, ne_sign env str))"

text \<open>\<^verbatim>\<open>onSyncRcptReceived\<close>: the receipts are accepted one by one up to the first of a wrong size.\<close>

fun accept_receipts ::
  "node_env \<Rightarrow> rcpt_message list \<Rightarrow> replicator \<Rightarrow> replicator outcome" where
  "accept_receipts env [] rp = Inr rp"
| "accept_receipts env (m # ms) rp =
     (if \<not> isValidSize m then Inr rp
      else bind_outcome (acceptReceiptFromAnotherReplicator (ne_verify env) (ne_rnd env) m rp) (accept_receipts env ms))"

definition onSyncRcptReceived :: "node_env \<Rightarrow> byte list \<Rightarrow> signature \<Rightarrow> node \<Rightarrow> node outcome" where
  "onSyncRcptReceived env response sign n =
     (case ne_receipts env response of
        None \<Rightarrow> Inr n
      | Some (otherReplicatorKey, channelId, msgs) \<Rightarrow>
          if length sign \<noteq> 64 then Inr n
          else if \<not> ne_verify env otherReplicatorKey response sign then Inr n
          else let n1 = accpeptOpinion channelId otherReplicatorKey n
               in bind_outcome (accept_receipts env msgs (nd_replicator n1)) (\<lambda>rp. Inr (set_replicator n1 rp)))"

definition handleDhtResponse :: "node_env \<Rightarrow> string \<Rightarrow> byte list \<Rightarrow> signature \<Rightarrow> node \<Rightarrow> node outcome" where
  "handleDhtResponse env query response sign n =
     (if query = ''get_dn_rcpts'' then onSyncRcptReceived env response sign n else Inr n)"

subsection \<open>Messages of other nodes\<close>

definition processVerificationCode :: "node_env \<Rightarrow> verification_code \<Rightarrow> node \<Rightarrow> node outcome" where
  "processVerificationCode env info n =
     (if \<not> code_verify (ne_verify env) info then Inr n
      else on_drive (vc_driveKey info) (onVerificationCodeReceived (ne_sign env) info) n)"

definition processVerificationOpinion :: "node_env \<Rightarrow> verify_approval \<Rightarrow> node \<Rightarrow> node outcome" where
  "processVerificationOpinion env info n =
     (if length (va_opinions info) \<noteq> 1 then Inr n
      else if \<not> verify_opinion_verify (ne_verify env) (va_tx info) (va_driveKey info) (va_shardId info)
                  (hd (va_opinions info)) then Inr n
      else on_drive (va_driveKey info) (onVerificationOpinionReceived info) n)"

text \<open>Opinions go to the event handler, which gives them back as calls when the chain agrees.\<close>

definition processOpinion :: "approval_info \<Rightarrow> node \<Rightarrow> node" where
  "processOpinion an n = nd_emit (OpinionHasBeenReceived an) n"

definition processDownloadOpinion :: "dn_approval \<Rightarrow> node \<Rightarrow> node" where
  "processDownloadOpinion an n = nd_emit (DownloadOpinionHasBeenReceived an) n"

text \<open>
  \<^verbatim>\<open>catch ( ... )\<close>: what throws has changed nothing before.  An archive that cannot be read leaves the state
  as it is.
\<close>

definition catch_all :: "'a \<Rightarrow> 'a outcome \<Rightarrow> 'a outcome" where
  "catch_all x r = (case r of Inl (Exception _) \<Rightarrow> Inr x | _ \<Rightarrow> r)"

definition read_message :: "'m option \<Rightarrow> ('m \<Rightarrow> node \<Rightarrow> node outcome) \<Rightarrow> node \<Rightarrow> node outcome" where
  "read_message m f n = (case m of None \<Rightarrow> Inr n | Some x \<Rightarrow> catch_all n (f x n))"

definition with_endpoints :: "(endpoints_manager \<Rightarrow> endpoints_manager outcome) \<Rightarrow> node \<Rightarrow> node outcome" where
  "with_endpoints f n = bind_outcome (f (nd_endpoints n)) (\<lambda>em. Inr (set_endpoints n em))"

definition onMessageReceived :: "node_env \<Rightarrow> string \<Rightarrow> byte list \<Rightarrow> endpoint \<Rightarrow> node \<Rightarrow> node outcome" where
  "onMessageReceived env query m source n =
     (if query = ''opinion'' then read_message (ne_opinion env m) (\<lambda>x n. Inr (processOpinion x n)) n
      else if query = ''dn_opinion'' then read_message (ne_dn_opinion env m) (\<lambda>x n. Inr (processDownloadOpinion x n)) n
      else if query = ''code_verify'' then read_message (ne_code env m) (processVerificationCode env) n
      else if query = ''verify_opinion'' then read_message (ne_verify_opinion env m) (processVerificationOpinion env) n
      else if query = ''handshake''
      then read_message (ne_handshake env m) (\<lambda>x. with_endpoints (processHandshake (ne_verify env) x source)) n
      else if query = ''endpoint_request''
      then read_message (ne_endpoint_request env m)
             (\<lambda>x. with_endpoints (\<lambda>em. Inr (processEndpointRequest (ne_raw env) (ne_sign env) x source em))) n
      else if query = ''endpoint_response''
      then read_message (ne_endpoint_response env m)
             (\<lambda>x. with_endpoints (onMyEndpointResponse (ne_unraw env) (ne_raw env) (ne_verify env) (ne_sign env)
                    (ne_port env) x)) n
      else if query = ''chunk-info''
      then read_message (ne_chunk env m) (\<lambda>(driveKey, c) n.
             if map_contains driveKey (nd_drives n)
             then (case c of None \<Rightarrow> Inr n | Some c \<Rightarrow> Inr (nd_emit (ChunkInfoMessage driveKey c source) n))
             else Inr n) n
      else Inr n)"

text \<open>
  The entries of an answer under the key \<^verbatim>\<open>r\<close>.  \<open>chunks\<close> is the answer of the task of a drive whose task is a
  stream.
\<close>

datatype answer_value = Text string | Bytes "byte list"

type_synonym answer = "(string \<times> answer_value) list"

definition getStreamStatus :: "flat_drive \<Rightarrow> key \<times> bool \<times> hash256 option option" where
  "getStreamStatus d =
     (dp_driveKey (dr_params d), dr_task d \<noteq> None,
      map_option (\<lambda>t. if tk_type t = STREAM_REQUEST then Some (tk_tx t) else None) (dr_task d))"

definition drive_acceptGetChunksInfoMessage ::
  "node_env \<Rightarrow> (key \<Rightarrow> hash256 \<Rightarrow> u32 \<Rightarrow> byte list) \<Rightarrow> hash256 \<Rightarrow> u32 \<Rightarrow> flat_drive \<Rightarrow> byte list" where
  "drive_acceptGetChunksInfoMessage env chunks streamId chunkIndex d =
     (if task_is STREAM_REQUEST d then chunks (dp_driveKey (dr_params d)) streamId chunkIndex
      else ne_write_word env (stream_is_ended streamId (dr_params d)))"

definition answer_unless_empty :: "string \<Rightarrow> byte list \<Rightarrow> answer" where
  "answer_unless_empty query ret = (if ret = [] then [] else [(''q'', Text query), (''ret'', Bytes ret)])"

definition signed_answer :: "string \<Rightarrow> byte list \<Rightarrow> signature \<Rightarrow> answer" where
  "signed_answer query ret sign = [(''q'', Text query), (''ret'', Bytes ret), (''sign'', Bytes sign)]"

text \<open>The three keys of a signed request, when its size and its signature are right.\<close>

definition signed_request :: "node_env \<Rightarrow> byte list \<Rightarrow> signature \<Rightarrow> (key \<times> key \<times> hash256) option" where
  "signed_request env str sign =
     (if length sign \<noteq> 64 \<or> length str \<noteq> 32 + 32 + 32 then None
      else let senderKey = bytes_hash (take 32 str)
           in if \<not> ne_verify env senderKey str sign then None
              else Some (senderKey, bytes_hash (take 32 (drop 32 str)), bytes_hash (drop 64 str)))"

definition createChannelStatus :: "node_env \<Rightarrow> hash256 \<Rightarrow> node \<Rightarrow> bool \<times> byte list \<times> signature" where
  "createChannelStatus env channelId n =
     (case map_find channelId (nd_channels n) of
        None \<Rightarrow> (False, ne_write_channel env (nd_key n) channelId None, no_signature)
      | Some ch \<Rightarrow>
          let str = ne_write_channel env (nd_key n) channelId (Some ch) in (True, str, ne_sign env str))"

definition createModificationStatus ::
  "node_env \<Rightarrow> key \<Rightarrow> hash256 \<Rightarrow> node \<Rightarrow> bool \<times> byte list \<times> signature \<times> bool" where
  "createModificationStatus env driveKey modificationHash n =
     (let info = Option.bind (map_find driveKey (nd_drives n)) (\<lambda>d.
            findModifyInfo modificationHash (currentModifyTx (dr_task d)) (dp_modifyInfos (dr_params d)));
          str = ne_write_modification env (nd_key n) modificationHash (map_option fst info)
      in (info \<noteq> None, str, ne_sign env str, (case info of None \<Rightarrow> False | Some i \<Rightarrow> snd i)))"

definition task_answer :: "hash256 \<Rightarrow> flat_drive \<Rightarrow> answer" where
  "task_answer modifyTx d =
     (case getDriveStatus modifyTx d of (queued, ty) \<Rightarrow>
        (case ty of None \<Rightarrow> [] | Some ty \<Rightarrow> [(''currentTask'', Text (driveTaskTypeToString ty))]) @
        (if queued then [(''taskIsQueued'', Text ''yes'')] else []))"

definition not_found :: "bool \<Rightarrow> answer" where
  "not_found found = (if found then [] else [(''not_found'', Text ''yes'')])"

text \<open>
  \<^verbatim>\<open>on_dht_request\<close>: whether the query is handled, the answer, and the new state.  The reader of
  \<^verbatim>\<open>get_stream_status\<close> is the only one whose exception leaves the function.
\<close>

definition supportedQueries :: "string list" where
  "supportedQueries = [''opinion'', ''dn_opinion'', ''code_verify'', ''verify_opinion'', ''handshake'',
     ''endpoint_request'', ''endpoint_response'', ''chunk-info'']"

definition status_answer :: "node_env \<Rightarrow> string \<Rightarrow> byte list \<Rightarrow> signature \<Rightarrow> node \<Rightarrow> answer" where
  "status_answer env query x sign n =
     (case signed_request env x sign of
        None \<Rightarrow> []
      | Some (_, driveKey, h) \<Rightarrow>
          if query = ''get_channel_status''
          then (case createChannelStatus env h n of (found, str, s) \<Rightarrow> not_found found @ signed_answer query str s)
          else (case createModificationStatus env driveKey h n of (found, str, s, finished) \<Rightarrow>
                  (case map_find driveKey (nd_drives n) of None \<Rightarrow> [] | Some d \<Rightarrow> task_answer h d) @
                  not_found found @ signed_answer query str s @
                  (if finished then [(''taskIsFinished'', Text ''yes'')] else [])))"

definition receipts_answer :: "node_env \<Rightarrow> string \<Rightarrow> byte list \<Rightarrow> signature \<Rightarrow> node \<Rightarrow> answer" where
  "receipts_answer env query x sign n =
     (case signed_request env x sign of
        None \<Rightarrow> []
      | Some (_, driveKey, channelId) \<Rightarrow>
          (case createSyncRcpts env driveKey channelId n of (ok, str, s) \<Rightarrow>
             if ok then signed_answer query str s else []))"

definition viewer_answer ::
  "node_env \<Rightarrow> (key \<Rightarrow> hash256 \<Rightarrow> u32 \<Rightarrow> byte list) \<Rightarrow> string \<Rightarrow> byte list \<Rightarrow> node \<Rightarrow> answer" where
  "viewer_answer env chunks query x n =
     (if query = ''get-chunks-info''
      then (case ne_chunks_request env x of
              Some (driveKey, Some (streamId, chunkIndex)) \<Rightarrow>
                (case map_find driveKey (nd_drives n) of
                   None \<Rightarrow> []
                 | Some d \<Rightarrow> answer_unless_empty query (drive_acceptGetChunksInfoMessage env chunks streamId chunkIndex d))
            | _ \<Rightarrow> [])
      else (case ne_playlist_request env x of
              Some (driveKey, Some streamId) \<Rightarrow>
                (case map_find driveKey (nd_drives n) of
                   None \<Rightarrow> []
                 | Some d \<Rightarrow>
                     (case acceptGetPlaylistHashRequest streamId (dr_params d) of
                        None \<Rightarrow> []
                      | Some p \<Rightarrow> answer_unless_empty query (ne_write_playlist env p)))
            | _ \<Rightarrow> []))"

definition stream_status_answer :: "node_env \<Rightarrow> string \<Rightarrow> byte list \<Rightarrow> node \<Rightarrow> answer outcome" where
  "stream_status_answer env query x n =
     (case ne_status_request env x of
        None \<Rightarrow> Inl (Exception ''cereal'')
      | Some driveKey \<Rightarrow>
          (case map_find driveKey (nd_drives n) of
             None \<Rightarrow> Inr []
           | Some d \<Rightarrow> (case getStreamStatus d of (k, b, s) \<Rightarrow>
               Inr [(''q'', Text query), (''ret'', Bytes (ne_write_status env k b s))])))"

definition on_dht_request ::
  "node_env \<Rightarrow> (key \<Rightarrow> hash256 \<Rightarrow> u32 \<Rightarrow> byte list) \<Rightarrow> string \<Rightarrow> byte list \<Rightarrow> signature \<Rightarrow> endpoint \<Rightarrow> node \<Rightarrow>
   (bool \<times> answer \<times> node) outcome" where
  "on_dht_request env chunks query x sign source n =
     (if rp_destructing (nd_replicator n) then Inr (False, [], n)
      else if query \<in> set supportedQueries
      then bind_outcome (catch_all n (onMessageReceived env query x source n)) (\<lambda>n1.
             Inr (True, [(''q'', Text query), (''ret'', Text ''ok'')], n1))
      else if query = ''get_dn_rcpts'' then Inr (True, receipts_answer env query x sign n, n)
      else if query = ''rcpt''
      then if \<not> isValidSize x then Inr (False, [], n)
           else bind_outcome (acceptReceiptFromAnotherReplicator (ne_verify env) (ne_rnd env) x (nd_replicator n)) (\<lambda>rp.
                  Inr (True, [(''q'', Text query), (''ret'', Text ''ok'')], set_replicator n rp))
      else if query = ''get-chunks-info'' \<or> query = ''get-playlist-hash''
      then Inr (True, viewer_answer env chunks query x n, n)
      else if query = ''get_channel_status'' \<or> query = ''get_modification_status''
      then Inr (True, status_answer env query x sign n, n)
      else if query = ''get_stream_status''
      then bind_outcome (stream_status_answer env query x n) (\<lambda>a. Inr (True, a, n))
      else Inr (False, [], n))"


end
