(* ===== verification/Replicator_Props.thy ===== *)
theory Replicator_Props
  imports Replicator_Node
begin

section \<open>Runs of a replicator\<close>

text \<open>
  All handlers of a replicator as one step function over the events it receives, and what holds along every
  run: the drives keep their schedules whatever the other drives, the channels and the peers do; messages of
  other nodes change a drive only when they are signed; and when the synchronisation of a channel ends.
\<close>

subsection \<open>What leaves the drives alone\<close>

text \<open>Receipts, pieces and opinions on downloads do not change a drive, apart from the traffic of its modification.\<close>

named_theorems same_drives

lemma same_drives_basic [same_drives]:
  "rp_drives (rp_emit os rp) = rp_drives rp"
  "rp_drives (put_channel c ch rp) = rp_drives rp"
  "rp_drives (put_event c ev ov ch rp) = rp_drives rp"
  "rp_drives (sendReceiptToOtherReplicators c k n s rp) = rp_drives rp"
  "rp_drives (addChannelInfo c n d rs ks b rp) = rp_drives rp"
  "rp_drives (increaseChannelSize c n rp) = rp_drives rp"
  "rp_drives (removeChannelInfo c rp) = rp_drives rp"
  "rp_drives (asyncSetChanelShard c ks rp) = rp_drives rp"
  "rp_drives (onPieceSent c k n rp) = rp_drives rp"
  "rp_drives (snd (snd (checkDownloadLimit k c rp))) = rp_drives rp"
  by (simp_all add: rp_emit_def put_channel_def put_event_def sendReceiptToOtherReplicators_def addChannelInfo_def
      increaseChannelSize_def removeChannelInfo_def asyncSetChanelShard_def onPieceSent_def checkDownloadLimit_def
      Let_def split: option.splits prod.splits)

lemma same_drives_receipt:
  assumes "acceptReceiptImpl verify rnd msg b rp = Inr (rp', c)"
  shows "rp_drives rp' = rp_drives rp"
  using assms
  by (auto simp: acceptReceiptImpl_def bind_outcome_Inr_iff Let_def same_drives case_prod_beta
      split: if_splits option.splits)

lemma same_drives_other_receipt:
  assumes "acceptReceiptFromAnotherReplicator verify rnd msg rp = Inr rp'"
  shows "rp_drives rp' = rp_drives rp"
  using assms
  by (auto simp: acceptReceiptFromAnotherReplicator_def bind_outcome_Inr_iff split: if_splits dest: same_drives_receipt)

lemma same_drives_receipts:
  assumes "accept_receipts env ms rp = Inr rp'"
  shows "rp_drives rp' = rp_drives rp"
  using assms
  by (induction ms arbitrary: rp)
    (auto simp: bind_outcome_Inr_iff split: if_splits dest!: same_drives_other_receipt)

lemma same_drives_addOpinion: "addOpinion an rp = Inr rp' \<Longrightarrow> rp_drives rp' = rp_drives rp"
  by (auto simp: addOpinion_def Let_def same_drives split: option.splits list.splits)

lemma same_drives_share: "shareDownloadOpinion c ev rp = Inr rp' \<Longrightarrow> rp_drives rp' = rp_drives rp"
  by (auto simp: shareDownloadOpinion_def Let_def same_drives split: option.splits)

lemma same_drives_doInitiate:
  "doInitiateDownloadApprovalTransactionInfo sign ev c rp = Inr rp' \<Longrightarrow> rp_drives rp' = rp_drives rp"
  by (auto simp: doInitiateDownloadApprovalTransactionInfo_def bind_outcome_Inr_iff split: option.splits
      dest!: same_drives_addOpinion same_drives_share)

lemma same_drives_initiate_all: "initiate_all sign ev cs rp = Inr rp' \<Longrightarrow> rp_drives rp' = rp_drives rp"
  by (induction cs arbitrary: rp) (auto simp: bind_outcome_Inr_iff dest!: same_drives_doInitiate)

text \<open>The part of a drive that its schedule depends on.\<close>

definition same_schedule :: "flat_drive \<Rightarrow> flat_drive \<Rightarrow> bool" where
  "same_schedule d d' \<longleftrightarrow> dr_task d' = dr_task d \<and> dr_isStopped d' = dr_isStopped d \<and>
     dr_closeDriveRequest d' = dr_closeDriveRequest d \<and>
     dr_modificationCancelRequest d' = dr_modificationCancelRequest d \<and>
     dr_catchingUpRequest d' = dr_catchingUpRequest d \<and> dr_synchronizationRequest d' = dr_synchronizationRequest d \<and>
     dr_deferredModificationRequests d' = dr_deferredModificationRequests d \<and>
     dr_deferredManualModificationRequest d' = dr_deferredManualModificationRequest d"

lemma same_schedule_refl [simp]: "same_schedule d d"
  by (simp add: same_schedule_def)

lemma same_schedule_facts:
  assumes "same_schedule d d'"
  shows "dr_task d' = dr_task d" and "queue d' = queue d" and "idle_ok d' = idle_ok d"
    and "nothing_waits d' = nothing_waits d" and "dr_isStopped d' = dr_isStopped d"
  using assms by (auto simp: same_schedule_def queue_def idle_ok_def nothing_waits_def)

text \<open>Two maps of drives with the same keys whose drives differ at most outside the schedule.\<close>

definition same_schedules :: "(key, flat_drive) std_map \<Rightarrow> (key, flat_drive) std_map \<Rightarrow> bool" where
  "same_schedules m m' \<longleftrightarrow> (map_ok m \<longrightarrow> map_ok m') \<and> (\<forall>k. rel_option same_schedule (map_find k m) (map_find k m'))"

lemma same_schedules_refl [simp]: "same_schedules m m"
  by (simp add: same_schedules_def option.rel_refl)

lemma same_schedules_put:
  assumes "map_find k m = Some d" and "same_schedule d d'"
  shows "same_schedules m (map_put k d' m)"
  using assms by (auto simp: same_schedules_def option.rel_refl)

lemma change_traffic_schedules: "same_schedules (rp_drives rp) (rp_drives (change_traffic k j f rp))"
proof (cases "map_find k (rp_drives rp)")
  case (Some d)
  then show ?thesis
    by (auto simp: change_traffic_def Let_def intro!: same_schedules_put) (simp add: same_schedule_def)
qed (simp add: change_traffic_def)

lemma limiter_schedules: "same_schedules (rp_drives rp) (rp_drives (limiter_step verify rnd rp e))"
proof (cases e)
  case (SendPiece c k n)
  then show ?thesis
    using same_drives_basic(10) [of k c rp]
    by (cases "checkDownloadLimit k c rp") (auto simp: same_drives)
next
  case (ClientReceipt c k n s)
  then show ?thesis
    by (auto simp: or_same_def acceptReceipt_def bind_outcome_Inr_iff split: sum.splits prod.splits if_splits
        dest!: same_drives_receipt)
next
  case (ReplicatorReceipt msg)
  then show ?thesis by (auto simp: or_same_def split: sum.splits dest!: same_drives_other_receipt)
next
  case (PieceRequested d k n)
  then show ?thesis
    by (auto simp: onPieceRequestReceivedFromReplicator_def intro: change_traffic_schedules)
next
  case (PieceReceived d k n)
  then show ?thesis by (auto simp: onPieceReceived_def intro: change_traffic_schedules)
qed (simp_all add: same_drives)

lemma dn_handle_schedules:
  assumes "dn_handle verify sign rnd e rp = Inr rp'"
  shows "same_schedules (rp_drives rp) (rp_drives rp')"
proof (cases e)
  case (DnInitiate ev c)
  then show ?thesis using assms
    by (auto simp: asyncInitiateDownloadApprovalTransactionInfo_def split: if_splits dest!: same_drives_doInitiate)
next
  case (DnOpinion an)
  then show ?thesis using assms
    by (auto simp: asyncOnDownloadOpinionReceived_def split: if_splits dest!: same_drives_addOpinion)
next
  case (DnTimer c ev)
  then show ?thesis using assms
    by (auto simp: onDownloadApprovalTimeExpired_def same_drives split: if_splits option.splits)
next
  case (DnShareTimer c ev)
  then show ?thesis using assms by (auto split: if_splits dest!: same_drives_share)
next
  case (DnFailed ev c)
  then show ?thesis using assms
    by (auto simp: asyncDownloadApprovalTransactionHasFailedInvalidOpinions_def same_drives split: if_splits option.splits)
next
  case (DnPublished ev c b)
  then show ?thesis using assms
    by (auto simp: asyncDownloadApprovalTransactionHasBeenPublished_def same_drives split: if_splits option.splits)
next
  case (DnClosing ev d)
  then show ?thesis using assms by (auto simp: closeDriveChannels_def dest!: same_drives_initiate_all)
next
  case (DnTick n)
  then show ?thesis using assms by auto
next
  case (DnLimiter e)
  then show ?thesis using assms by (auto intro: limiter_schedules)
qed
subsection \<open>The events of a replicator\<close>

text \<open>
  Transactions and calls of the blockchain, the ends of tasks and closures, requests and answers of other
  nodes, timers, and the events of the parts with theories of their own.
\<close>

datatype node_event =
    AddDriveTx key add_drive_request | RemoveDriveTx key | CloseDriveTx key hash256 | ClosureFinished key
  | ReplicatorsTx key "key list" | ShardDonatorTx key "key list" | ShardRecipientTx key "key list"
  | ModifyDriveTx key modification_request | CancelModifyTx key hash256
  | StartVerificationTx key verification_request | CancelVerificationTx key
  | StartStreamTx key stream_request | EndStreamTx key stream_finish_request
  | OpinionCall approval_info | ApprovalPublished published_approval | ApprovalFailed key hash256
  | VerifyPublished key | ManualCall key key hash256 | SandboxCall key request | SynchronizeCall key sync_request
  | ChannelTx key hash256 u64 "key list" "key list" bool | TaskFinished key
  | DhtRequest string "byte list" signature endpoint | DhtResponse string "byte list" signature
  | SyncTimer hash256 | DownloadEvent dn_event | EndpointEvent endpoint_event | StopReplicator

definition endpoint_env_of :: "node_env \<Rightarrow> endpoint_env" where
  "endpoint_env_of env =
     \<lparr>ev_raw = ne_raw env, ev_unraw = ne_unraw env, ev_verify = ne_verify env, ev_sign = ne_sign env,
      ev_port = ne_port env\<rparr>"

fun node_handle ::
  "node_env \<Rightarrow> (key \<Rightarrow> hash256 \<Rightarrow> u32 \<Rightarrow> byte list) \<Rightarrow> node_event \<Rightarrow> node \<Rightarrow> node outcome" where
  "node_handle env chunks (AddDriveTx k r) n = asyncAddDrive k r n"
| "node_handle env chunks (RemoveDriveTx k) n = asyncRemoveDrive (ne_sign env) k n"
| "node_handle env chunks (CloseDriveTx k tx) n = asyncCloseDrive (ne_sign env) k tx n"
| "node_handle env chunks (ClosureFinished k) n = finishDriveClosure k n"
| "node_handle env chunks (ReplicatorsTx k ks) n = asyncSetReplicators k ks n"
| "node_handle env chunks (ShardDonatorTx k ks) n = asyncSetShardDonator k ks n"
| "node_handle env chunks (ShardRecipientTx k ks) n = asyncSetShardRecipient k ks n"
| "node_handle env chunks (ModifyDriveTx k r) n = asyncModify (ne_sign env) k r n"
| "node_handle env chunks (CancelModifyTx k tx) n = asyncCancelModify k tx n"
| "node_handle env chunks (StartVerificationTx k r) n = asyncStartDriveVerification (ne_sign env) k r n"
| "node_handle env chunks (CancelVerificationTx k) n = asyncCancelDriveVerification k n"
| "node_handle env chunks (StartStreamTx k r) n = asyncStartStream (ne_sign env) k r n"
| "node_handle env chunks (EndStreamTx k r) n = asyncFinishStreamTxPublished k r n"
| "node_handle env chunks (OpinionCall an) n = asyncOnOpinionReceived an n"
| "node_handle env chunks (ApprovalPublished tx) n = asyncApprovalTransactionHasBeenPublished (ne_sign env) tx n"
| "node_handle env chunks (ApprovalFailed k tx) n = asyncApprovalTransactionHasFailedInvalidOpinions k tx n"
| "node_handle env chunks (VerifyPublished k) n = asyncVerifyApprovalTransactionHasBeenPublished k n"
| "node_handle env chunks (ManualCall c k i) n = node_initiateManualModifications (ne_sign env) c k i n"
| "node_handle env chunks (SandboxCall k r) n = forward_manual_request k r n"
| "node_handle env chunks (SynchronizeCall k r) n = node_manualSynchronize (ne_sign env) k r n"
| "node_handle env chunks (ChannelTx k c m rs cs b) n = asyncAddDownloadChannelInfo (ne_sign env) k c m rs cs b n"
| "node_handle env chunks (TaskFinished k) n = on_drive k (runNextTask (ne_sign env)) n"
| "node_handle env chunks (DhtRequest query x s source) n =
     bind_outcome (on_dht_request env chunks query x s source n) (\<lambda>(_, _, n'). Inr n')"
| "node_handle env chunks (DhtResponse query x s) n = handleDhtResponse env query x s n"
| "node_handle env chunks (SyncTimer c) n = syncTimeout (ne_sign env) c n"
| "node_handle env chunks (DownloadEvent e) n =
     bind_outcome (dn_handle (ne_verify env) (ne_sign env) (ne_rnd env) e (nd_replicator n)) (\<lambda>rp. Inr (set_replicator n rp))"
| "node_handle env chunks (EndpointEvent e) n = with_endpoints (\<lambda>em. endpoint_handle (endpoint_env_of env) em e) n"
| "node_handle env chunks StopReplicator n = Inr (stop n)"

text \<open>The event of a drive that an event of the replicator is for the schedule of the drive \<open>k\<close>, if any.\<close>

definition to :: "key \<Rightarrow> key \<Rightarrow> drive_event \<Rightarrow> drive_event option" where
  "to j k e = (if j = k then Some e else None)"

fun schedule_event :: "node \<Rightarrow> node_event \<Rightarrow> key \<Rightarrow> drive_event option" where
  "schedule_event n (RemoveDriveTx j) k = to j k (CloseTx None)"
| "schedule_event n (CloseDriveTx j tx) k = to j k (CloseTx (Some tx))"
| "schedule_event n (ModifyDriveTx j r) k = to j k (ModifyTx (r\<lparr>mr_replicatorList := without_me n (mr_replicatorList r)\<rparr>))"
| "schedule_event n (CancelModifyTx j tx) k = to j k (CancelTx tx)"
| "schedule_event n (StartStreamTx j r) k = to j k (StreamTx r)"
| "schedule_event n (OpinionCall an) k = to (ai_driveKey an) k (OpinionMsg an)"
| "schedule_event n (ApprovalPublished tx) k = to (pa_driveKey tx) k (ApprovalTx tx)"
| "schedule_event n (ApprovalFailed j tx) k = to j k (ApprovalFailedTx tx)"
| "schedule_event n (ManualCall c j i) k = to j k (ManualTx i)"
| "schedule_event n (SynchronizeCall j r) k = to j k (SyncTx r)"
| "schedule_event n (TaskFinished j) k = to j k TaskEnded"
| "schedule_event n StopReplicator k = Some drive_event.Stop"
| "schedule_event n _ k = None"

text \<open>
  How the drive of a key comes out of a step: as the event says, with its schedule unchanged, or new and
  initialising.
\<close>

fun routed :: "(byte list \<Rightarrow> signature) \<Rightarrow> drive_event option \<Rightarrow> flat_drive option \<Rightarrow> flat_drive option \<Rightarrow> bool" where
  "routed sign oe (Some d) (Some d') \<longleftrightarrow>
     (case oe of
        None \<Rightarrow> same_schedule d d'
      | Some e \<Rightarrow> drive_handle sign e d = Inr d' \<or> e \<noteq> TaskEnded \<and> same_schedule d d' \<or>
          e = drive_event.Stop \<and> dr_isStopped d' \<and> queue d' = queue d \<and> (dr_task d' = None \<longleftrightarrow> dr_task d = None))"
| "routed sign oe None (Some d') \<longleftrightarrow> queue d' = [] \<and> dr_task d' \<noteq> None"
| "routed sign oe _ None \<longleftrightarrow> True"

definition routes :: "(byte list \<Rightarrow> signature) \<Rightarrow> (key \<Rightarrow> drive_event option) \<Rightarrow> node \<Rightarrow> node \<Rightarrow> bool" where
  "routes sign oe n n' \<longleftrightarrow> map_ok (nd_drives n') \<and>
     (\<forall>k. routed sign (oe k) (map_find k (nd_drives n)) (map_find k (nd_drives n')))"

lemma routed_same:
  assumes "rel_option same_schedule x y" and "oe \<noteq> Some TaskEnded"
  shows "routed sign oe x y"
  using assms by (cases x; cases y) (auto split: option.splits)

lemma routes_schedules:
  assumes "map_ok (nd_drives n)" and "same_schedules (nd_drives n) (nd_drives n')" and "\<And>k. oe k \<noteq> Some TaskEnded"
  shows "routes sign oe n n'"
  using assms by (auto simp: routes_def same_schedules_def intro!: routed_same)

lemma routes_same_drives:
  assumes "map_ok (nd_drives n)" and "nd_drives n' = nd_drives n" and "\<And>k. oe k \<noteq> Some TaskEnded"
  shows "routes sign oe n n'"
  using assms by (intro routes_schedules) simp_all

lemma to_simps [simp]:
  "to k k e = Some e" "j \<noteq> k \<Longrightarrow> to j k e = None"
  "to j k e = Some e' \<longleftrightarrow> j = k \<and> e' = e"
  by (auto simp: to_def)

lemma set_simps [simp]:
  "nd_drives (set_drives m n) = m" "nd_drives (set_endpoints n em) = nd_drives n"
  "nd_drives (nd_emit x n) = nd_drives n" "nd_key (set_drives m n) = nd_key n"
  "nd_key (set_endpoints n em) = nd_key n" "nd_drives (set_replicator n rp) = rp_drives rp"
  "nd_drives (set_sync c cs n) = nd_drives n"
  by (simp_all add: set_drives_def set_endpoints_def nd_emit_def set_replicator_def set_sync_def)

text \<open>A call of one drive.\<close>

lemma on_drive_routes:
  assumes "map_ok (nd_drives n)" and "on_drive j (drive_handle sign e) n = Inr n'"
  shows "routes sign (\<lambda>k. to j k e) n n'"
proof (cases "map_find j (nd_drives n)")
  case None
  then have "n' = n" using assms(2) by (simp add: on_drive_def)
  have "routed sign (to j k e) (map_find k (nd_drives n)) (map_find k (nd_drives n))" for k
    using None by (cases "j = k"; cases "map_find k (nd_drives n)") simp_all
  then show ?thesis using assms(1) \<open>n' = n\<close> by (simp add: routes_def)
next
  case (Some d)
  then obtain d' where d': "drive_handle sign e d = Inr d'" "n' = set_drives (map_put j d' (nd_drives n)) n"
    using assms(2) by (auto simp: on_drive_def bind_outcome_Inr_iff)
  have "routed sign (to j k e) (map_find k (nd_drives n)) (map_find k (map_put j d' (nd_drives n)))" for k
    using Some d'(1) by (cases "j = k"; cases "map_find k (nd_drives n)") auto
  then show ?thesis using assms(1) d'(2) by (simp add: routes_def)
qed

lemma on_drive_schedules:
  assumes "on_drive j f n = Inr n'" and "\<And>d d'. f d = Inr d' \<Longrightarrow> same_schedule d d'"
  shows "same_schedules (nd_drives n) (nd_drives n')"
  using assms
  by (auto simp: on_drive_def bind_outcome_Inr_iff split: option.splits intro!: same_schedules_put)

lemma unless_stopped_routes:
  assumes "unless_stopped n r = Inr n'" and "map_ok (nd_drives n)" and "\<And>k. oe k \<noteq> Some TaskEnded"
    and "r = Inr n' \<Longrightarrow> routes sign oe n n'"
  shows "routes sign oe n n'"
  using assms routes_same_drives [OF assms(2) refl assms(3)] by (auto simp: unless_stopped_def split: if_splits)

lemma drive_handle_eqs:
  "drive_handle sign TaskEnded = runNextTask sign"
  "drive_handle sign (ModifyTx r) = startModifyDrive sign r"
  "drive_handle sign (StreamTx s) = startStream sign s"
  "drive_handle sign (CancelTx tx) = cancelModifyDrive tx"
  "drive_handle sign (ManualTx i) = initiateManualModifications sign i"
  "drive_handle sign (SyncTx y) = manualSynchronize sign y"
  "drive_handle sign (CloseTx c) = startDriveClosing sign c"
  "drive_handle sign (ApprovalTx p) = onApprovalTransactionHasBeenPublished sign p"
  "drive_handle sign (ApprovalFailedTx tx) = (\<lambda>d. Inr (onApprovalTransactionHasFailedInvalidOpinions tx d))"
  "drive_handle sign (OpinionMsg an) = onOpinionReceived an"
  by (auto intro!: ext)

text \<open>Verification does not touch the schedule.\<close>

lemma verification_schedules:
  "runVerificationTask sign d = Inr d' \<Longrightarrow> same_schedule d d'"
  "startVerification sign r d = Inr d' \<Longrightarrow> same_schedule d d'"
  "onVerificationOpinionReceived va d = Inr d' \<Longrightarrow> same_schedule d d'"
  "onVerificationCodeReceived sign vc d = Inr d' \<Longrightarrow> same_schedule d d'"
  "same_schedule d (cancelVerification d)"
proof -
  show run: "runVerificationTask sign d = Inr d' \<Longrightarrow> same_schedule d d'" for d d'
    by (auto simp: runVerificationTask_def Let_def bind_outcome_Inr_iff same_schedule_def split: option.splits)
  show "startVerification sign r d = Inr d' \<Longrightarrow> same_schedule d d'"
    by (auto simp: startVerification_def Let_def same_schedule_def split: if_splits dest!: run)
qed (auto simp: onVerificationOpinionReceived_def onVerificationCodeReceived_def cancelVerification_def Let_def
    bind_outcome_Inr_iff same_schedule_def split: option.splits if_splits)

text \<open>A new drive initialises and has nothing queued, also after a call of a contract.\<close>

lemma add_drive_routes:
  assumes "add_drive j r n = Inr n'" and "map_find j (nd_drives n) = None" and "map_ok (nd_drives n)"
  shows "\<exists>d t. nd_drives n' = map_put j d (nd_drives n) \<and> queue d = [] \<and> dr_task d = Some t \<and>
    tk_type t = DRIVE_INITIALIZATION \<and> nd_allowCreateNonExistingDrives n' = nd_allowCreateNonExistingDrives n"
proof -
  from assms(1) obtain d where d: "createDefaultFlatDrive (nd_key n) (rp_minReplicatorsNumber (nd_replicator n)) j r = Inr d"
    and n': "nd_drives n' = map_put j d (nd_drives n)"
      "nd_allowCreateNonExistingDrives n' = nd_allowCreateNonExistingDrives n"
    by (auto simp: add_drive_def bind_outcome_Inr_iff set_drives_def set_endpoints_def)
  from start_task_Inr [OF d [unfolded createDefaultFlatDrive_def runDriveInitializationTask_def]] show ?thesis
    using n' by (auto simp: queue_def)
qed

lemma new_drive_routes:
  assumes "nd_drives n' = map_put j d (nd_drives n)" and "map_find j (nd_drives n) = None" and "map_ok (nd_drives n)"
    and "queue d = []" "dr_task d \<noteq> None" and "\<And>k. oe k \<noteq> Some TaskEnded"
  shows "routes sign oe n n'"
proof -
  have "routed sign (oe k) (map_find k (nd_drives n)) (map_find k (nd_drives n'))" for k
  proof (cases "k = j")
    case True
    then show ?thesis using assms(1,2,4,5) by simp
  next
    case False
    then show ?thesis using assms(1) by (simp add: routed_same [OF _ assms(6)] option.rel_refl)
  qed
  then show ?thesis using assms(1,3) by (simp add: routes_def)
qed

lemma manual_on_new_drive:
  assumes "initiateManualModifications sign i d = Inr d'" and "dr_task d \<noteq> None"
  shows "queue d' = queue d \<and> dr_task d' \<noteq> None"
  using assms
  by (auto simp: initiateManualModifications_def Let_def queue_def bind_outcome_Inr_iff split: option.splits)

lemma or_empty_routes:
  assumes "map_ok (nd_drives n)" and "or_empty j (drive_handle sign e) n = Inr n'" and "e \<noteq> TaskEnded"
  shows "routes sign (\<lambda>k. to j k e) n n'"
  using assms(2)[unfolded or_empty_def] assms(1)
proof (rule unless_stopped_routes)
  show "to j k e \<noteq> Some TaskEnded" for k using assms(3) by simp
  assume "(if map_contains j (nd_drives n) then on_drive j (drive_handle sign e) n
    else Inr (nd_emit (EmptyResponse j) n)) = Inr n'"
  then show "routes sign (\<lambda>k. to j k e) n n'"
    using assms(1,3) by (auto split: if_splits intro: on_drive_routes routes_same_drives)
qed

lemma manual_call_routes:
  assumes "map_ok (nd_drives n)" and "node_initiateManualModifications sign c j i n = Inr n'"
  shows "routes sign (\<lambda>k. to j k (ManualTx i)) n n'"
proof -
  obtain n1 where n1: "(if nd_allowCreateNonExistingDrives n then asyncDbgAddVirtualDrive c j n else Inr n) = Inr n1"
    and r: "or_empty j (drive_handle sign (ManualTx i)) n1 = Inr n'"
    using assms(2) by (auto simp: node_initiateManualModifications_def bind_outcome_Inr_iff drive_handle_eqs)
  show ?thesis
  proof (cases "n1 = n")
    case True
    then show ?thesis using or_empty_routes [OF assms(1)] r by simp
  next
    case False
    then have new: "map_find j (nd_drives n) = None" and add: "\<exists>r. add_drive j r n = Inr n1"
      using n1 by (auto simp: asyncDbgAddVirtualDrive_def unless_stopped_def map_contains_find split: if_splits)
    from add obtain r where "add_drive j r n = Inr n1" by blast
    from add_drive_routes [OF this new assms(1)] obtain d where
      d: "nd_drives n1 = map_put j d (nd_drives n)" "queue d = []" "dr_task d \<noteq> None" by auto
    have "map_find j (nd_drives n1) = Some d" by (simp add: d(1))
    then obtain d' where "nd_drives n' = map_put j d' (nd_drives n1) \<or> nd_drives n' = nd_drives n1 \<and> d' = d"
      and d': "queue d' = []" "dr_task d' \<noteq> None"
      using r d(2,3) manual_on_new_drive [of sign i d]
      by (auto simp: or_empty_def unless_stopped_def on_drive_def bind_outcome_Inr_iff map_contains_find
          split: if_splits) blast
    then have "map_find k (nd_drives n') = (if k = j then Some d' else map_find k (nd_drives n))"
      and "map_ok (nd_drives n')" for k using d(1) assms(1) by auto
    then show ?thesis
      using new d' by (auto simp: routes_def option.rel_refl intro!: routed_same)
  qed
qed

text \<open>Requests and answers of other nodes, and the synchronisation of receipts.\<close>

lemma node_updates [simp]:
  "nd_drives (n\<lparr>nd_syncChannelMap := m\<rparr>) = nd_drives n" "nd_drives (n\<lparr>nd_outputs := os\<rparr>) = nd_drives n"
  by simp_all

lemma signed_messages_drives [simp]:
  "nd_drives (sendSignedMessage sign q r m n) = nd_drives n"
  by (simp add: sendSignedMessage_def split: option.splits)

lemma signed_messages_fold [simp]: "nd_drives (fold (\<lambda>r. sendSignedMessage sign q r m) rs n) = nd_drives n"
  by (induction rs arbitrary: n) simp_all

lemma requestOpinons_drives: "requestOpinons sign c cs n = Inr n' \<Longrightarrow> nd_drives n' = nd_drives n"
  by (auto simp: requestOpinons_def split: option.splits)

lemma startSync_drives: "startSync sign c k t n = Inr n' \<Longrightarrow> nd_drives n' = nd_drives n"
  by (auto simp: startSync_def split: option.splits prod.splits dest: requestOpinons_drives)

lemma syncTimeout_drives: "syncTimeout sign c n = Inr n' \<Longrightarrow> nd_drives n' = nd_drives n"
  by (auto simp: syncTimeout_def bind_outcome_Inr_iff split: option.splits if_splits dest: requestOpinons_drives)

lemma accpeptOpinion_drives [simp]: "nd_drives (accpeptOpinion c k n) = nd_drives n"
  by (simp add: accpeptOpinion_def Let_def split: option.splits)

lemma addChannel_drives:
  "asyncAddDownloadChannelInfo sign k c m rs cs b n = Inr n' \<Longrightarrow> nd_drives n' = nd_drives n"
  by (auto simp: asyncAddDownloadChannelInfo_def unless_stopped_def Let_def same_drives
      split: if_splits option.splits dest: startSync_drives)

lemma response_drives: "handleDhtResponse env q x s n = Inr n' \<Longrightarrow> nd_drives n' = nd_drives n"
  by (auto simp: handleDhtResponse_def onSyncRcptReceived_def Let_def bind_outcome_Inr_iff
      split: if_splits option.splits dest!: same_drives_receipts)

lemma with_endpoints_drives: "with_endpoints f n = Inr n' \<Longrightarrow> nd_drives n' = nd_drives n"
  by (auto simp: with_endpoints_def bind_outcome_Inr_iff)

lemma catch_all_Inr: "catch_all x r = Inr y \<longleftrightarrow> r = Inr y \<or> (\<exists>e. r = Inl (Exception e)) \<and> y = x"
  by (auto simp: catch_all_def split: sum.splits fault.splits)

lemma read_message_Inr:
  "read_message m f n = Inr n' \<longleftrightarrow> (\<exists>x. m = Some x \<and> f x n = Inr n') \<or>
     (m = None \<or> (\<exists>x e. m = Some x \<and> f x n = Inl (Exception e))) \<and> n' = n"
  by (cases m) (auto simp: read_message_def catch_all_Inr)

text \<open>The two messages that reach a drive.\<close>

definition verification_message :: "node_env \<Rightarrow> string \<Rightarrow> byte list \<Rightarrow> key \<Rightarrow> bool" where
  "verification_message env query x k \<longleftrightarrow>
     query = ''code_verify'' \<and>
       (\<exists>c. ne_code env x = Some c \<and> vc_driveKey c = k \<and> code_verify (ne_verify env) c) \<or>
     query = ''verify_opinion'' \<and>
       (\<exists>an op. ne_verify_opinion env x = Some an \<and> va_driveKey an = k \<and> va_opinions an = [op] \<and>
          verify_opinion_verify (ne_verify env) (va_tx an) k (va_shardId an) op)"

text \<open>The part of a drive they can change.\<close>

definition same_but_verification :: "flat_drive \<Rightarrow> flat_drive \<Rightarrow> bool" where
  "same_but_verification d d' \<longleftrightarrow>
     d' = d\<lparr>dr_verificationTask := dr_verificationTask d',
            dr_unknownVerificationOpinions := dr_unknownVerificationOpinions d',
            dr_unknownVerificationCodeQueue := dr_unknownVerificationCodeQueue d'\<rparr>"

lemma verification_handlers_change:
  "onVerificationOpinionReceived va d = Inr d' \<Longrightarrow> same_but_verification d d'"
  "onVerificationCodeReceived sign vc d = Inr d' \<Longrightarrow> same_but_verification d d'"
  by (auto simp: onVerificationOpinionReceived_def onVerificationCodeReceived_def same_but_verification_def Let_def
      bind_outcome_Inr_iff split: option.splits if_splits)

lemma message_drives:
  assumes "onMessageReceived env query x source n = Inr n'"
  shows "same_schedules (nd_drives n) (nd_drives n') \<and>
    (\<forall>k. map_find k (nd_drives n') \<noteq> map_find k (nd_drives n) \<longrightarrow> verification_message env query x k \<and>
       (\<exists>d d'. map_find k (nd_drives n) = Some d \<and> map_find k (nd_drives n') = Some d' \<and> same_but_verification d d'))"
proof -
  have idle: ?thesis if "nd_drives n' = nd_drives n" using that by simp
  consider (code) "query = ''code_verify''" | (op) "query = ''verify_opinion''"
    | (other) "query \<noteq> ''code_verify''" "query \<noteq> ''verify_opinion''" by blast
  then show ?thesis
  proof cases
    case code
    with assms have "n' = n \<or> (\<exists>c. ne_code env x = Some c \<and> processVerificationCode env c n = Inr n')"
      by (auto simp: onMessageReceived_def read_message_Inr)
    then show ?thesis
    proof
      assume "\<exists>c. ne_code env x = Some c \<and> processVerificationCode env c n = Inr n'"
      then obtain c where c: "ne_code env x = Some c" "processVerificationCode env c n = Inr n'" by blast
      then consider "n' = n" | "code_verify (ne_verify env) c"
        "on_drive (vc_driveKey c) (onVerificationCodeReceived (ne_sign env) c) n = Inr n'"
        by (auto simp: processVerificationCode_def split: if_splits)
      then show ?thesis
      proof cases
        case 2
        then show ?thesis
          using c(1) code on_drive_schedules [OF 2(2) verification_schedules(4)]
          by (auto simp: on_drive_def bind_outcome_Inr_iff verification_message_def
              split: option.splits if_splits dest: verification_handlers_change)
      qed (simp add: idle)
    qed (simp add: idle)
  next
    case op
    with assms have "n' = n \<or> (\<exists>an. ne_verify_opinion env x = Some an \<and> processVerificationOpinion env an n = Inr n')"
      by (auto simp: onMessageReceived_def read_message_Inr)
    then show ?thesis
    proof
      assume "\<exists>an. ne_verify_opinion env x = Some an \<and> processVerificationOpinion env an n = Inr n'"
      then obtain an where an: "ne_verify_opinion env x = Some an" "processVerificationOpinion env an n = Inr n'" by blast
      then consider "n' = n" | ov where "va_opinions an = [ov]"
        "verify_opinion_verify (ne_verify env) (va_tx an) (va_driveKey an) (va_shardId an) ov"
        "on_drive (va_driveKey an) (onVerificationOpinionReceived an) n = Inr n'"
        by (auto simp: processVerificationOpinion_def length_Suc_conv split: if_splits)
      then show ?thesis
      proof cases
        case (2 ov)
        then show ?thesis
          using an(1) op on_drive_schedules [OF 2(3) verification_schedules(3)]
          by (auto simp: on_drive_def bind_outcome_Inr_iff verification_message_def
              split: option.splits if_splits dest: verification_handlers_change)
      qed (simp add: idle)
    qed (simp add: idle)
  next
    case other
    then have "nd_drives n' = nd_drives n"
      using assms
      by (auto simp: onMessageReceived_def read_message_Inr processOpinion_def processDownloadOpinion_def
          split: if_splits option.splits dest: with_endpoints_drives)
    then show ?thesis by (rule idle)
  qed
qed

lemma request_drives:
  assumes "on_dht_request env chunks query x s source n = Inr (b, a, n')"
  shows "same_schedules (nd_drives n) (nd_drives n') \<and>
    (\<forall>k. map_find k (nd_drives n') \<noteq> map_find k (nd_drives n) \<longrightarrow> verification_message env query x k \<and>
       (\<exists>d d'. map_find k (nd_drives n) = Some d \<and> map_find k (nd_drives n') = Some d' \<and> same_but_verification d d'))"
proof (cases "query \<in> set supportedQueries \<and> \<not> rp_destructing (nd_replicator n)")
  case True
  then show ?thesis using assms message_drives [of env query x source n n']
    by (auto simp: on_dht_request_def bind_outcome_Inr_iff catch_all_Inr)
next
  case False
  then have "nd_drives n' = nd_drives n"
    using assms
    by (auto simp: on_dht_request_def bind_outcome_Inr_iff split: if_splits dest: same_drives_other_receipt)
  then show ?thesis by simp
qed

subsection \<open>Every event leads each drive along its schedule\<close>

lemma closure_routes:
  assumes "map_ok (nd_drives n)" and "finishDriveClosure j n = Inr n'"
  shows "routes sign (\<lambda>_. None) n n'"
proof -
  have d: "nd_drives n' = map_erase j (nd_drives n)"
    using assms(2) by (auto simp: finishDriveClosure_def split: option.splits)
  have "routed sign None (map_find k (nd_drives n)) (map_find k (nd_drives n'))" for k
    using assms(1) by (cases "map_find k (nd_drives n)") (auto simp: d map_find_erase)
  then show ?thesis using assms(1) by (simp add: routes_def d)
qed

lemma terminate_schedule:
  "dr_isStopped (drive_terminate (d\<lparr>dr_isStopped := True\<rparr>)) \<and> queue (drive_terminate (d\<lparr>dr_isStopped := True\<rparr>)) = queue d \<and>
   (dr_task (drive_terminate (d\<lparr>dr_isStopped := True\<rparr>)) = None \<longleftrightarrow> dr_task d = None)"
  by (simp add: drive_terminate_def queue_def split: option.splits)

lemma stop_routes:
  assumes "map_ok (nd_drives n)"
  shows "routes sign (\<lambda>_. Some drive_event.Stop) n (stop n)"
proof -
  have d: "nd_drives (stop n) = map (\<lambda>e. (fst e, drive_terminate ((snd e)\<lparr>dr_isStopped := True\<rparr>))) (nd_drives n)"
    by (simp add: stop_def)
  have "map_find k (nd_drives (stop n)) =
      map_option (\<lambda>d. drive_terminate (d\<lparr>dr_isStopped := True\<rparr>)) (map_find k (nd_drives n))" for k
    using map_find_map_snd [of k "\<lambda>d. drive_terminate (d\<lparr>dr_isStopped := True\<rparr>)"] by (simp add: d)
  then have "routed sign (Some drive_event.Stop) (map_find k (nd_drives n)) (map_find k (nd_drives (stop n)))" for k
    by (cases "map_find k (nd_drives n)") (simp_all add: terminate_schedule)
  then show ?thesis using assms by (simp add: routes_def d)
qed

lemma on_drive_none_routes:
  assumes "map_ok (nd_drives n)" and "on_drive j f n = Inr n'" and "\<And>d d'. f d = Inr d' \<Longrightarrow> same_schedule d d'"
  shows "routes sign (\<lambda>_. None) n n'"
  using assms by (intro routes_schedules on_drive_schedules) simp_all

lemma stopped_drive_routes:
  assumes "map_ok (nd_drives n)" and "unless_stopped n (on_drive j (drive_handle sign e) n) = Inr n'" and "e \<noteq> TaskEnded"
  shows "routes sign (\<lambda>k. to j k e) n n'"
  using assms(2,1)
  by (rule unless_stopped_routes) (use assms(1,3) in \<open>auto intro: on_drive_routes\<close>)

lemma stopped_none_routes:
  assumes "map_ok (nd_drives n)" and "unless_stopped n (on_drive j f n) = Inr n'"
    and "\<And>d d'. f d = Inr d' \<Longrightarrow> same_schedule d d'"
  shows "routes sign (\<lambda>_. None) n n'"
  using assms(2,1)
  by (rule unless_stopped_routes) (use assms(1,3) in \<open>auto intro: on_drive_none_routes\<close>)

lemma shards_schedules:
  "same_schedule d (setReplicators ks d)" "same_schedule d (setShardDonator ks d)" "same_schedule d (setShardRecipient ks d)"
  by (simp_all add: setReplicators_def setShardDonator_def setShardRecipient_def same_schedule_def)

lemma replicators_routes:
  assumes "map_ok (nd_drives n)" and "asyncSetReplicators j ks n = Inr n'"
  shows "routes sign (\<lambda>_. None) n n'"
proof (cases "map_contains j (nd_drives n)")
  case True
  with assms(2) obtain em where
    "on_drive j (\<lambda>d. Inr (setReplicators (without_me n ks) d)) (set_endpoints n em) = Inr n'"
    by (auto simp: asyncSetReplicators_def)
  from on_drive_none_routes [OF _ this, of sign] show ?thesis
    using assms(1) by (auto simp: shards_schedules routes_def)
qed (use assms in \<open>simp add: asyncSetReplicators_def routes_same_drives\<close>)

lemma add_routes:
  assumes "map_ok (nd_drives n)" and "asyncAddDrive j r n = Inr n'"
  shows "routes sign (\<lambda>_. None) n n'"
  using assms(2)[unfolded asyncAddDrive_def] assms(1)
proof (rule unless_stopped_routes)
  assume "(if map_contains j (nd_drives n) then Inr n
    else add_drive j (r\<lparr>ad_fullReplicatorList := without_me n (ad_fullReplicatorList r)\<rparr>) n) = Inr n'"
  then consider "n' = n"
    | "add_drive j (r\<lparr>ad_fullReplicatorList := without_me n (ad_fullReplicatorList r)\<rparr>) n = Inr n'"
      "map_find j (nd_drives n) = None"
    by (cases "map_find j (nd_drives n)") (simp_all add: map_contains_find)
  then show "routes sign (\<lambda>_. None) n n'"
  proof cases
    case 2
    from add_drive_routes [OF 2 assms(1)] obtain d where
      d: "nd_drives n' = map_put j d (nd_drives n)" "queue d = []" "dr_task d \<noteq> None" by auto
    show ?thesis by (rule new_drive_routes [OF d(1) 2(2) assms(1) d(2,3)]) simp
  qed (use assms(1) in \<open>simp add: routes_same_drives\<close>)
qed simp

lemma node_handle_routes:
  assumes "map_ok (nd_drives n)" and "node_handle env chunks e n = Inr n'"
  shows "routes (ne_sign env) (schedule_event n e) n n'"
proof -
  have no: "schedule_event n e = (\<lambda>_. None)" if "\<And>k. schedule_event n e k = None" for e using that by auto
  show ?thesis
  proof (cases e)
    case (AddDriveTx j r)
    then show ?thesis using assms add_routes by (simp add: no)
  next
    case (ClosureFinished j)
    then show ?thesis using assms closure_routes by (simp add: no)
  next
    case (ReplicatorsTx j ks)
    then show ?thesis using assms replicators_routes by (simp add: no)
  next
    case (ChannelTx k c m rs cs b)
    then show ?thesis using assms by (auto simp: no intro!: routes_same_drives dest: addChannel_drives)
  next
    case (DhtRequest q x s source)
    then show ?thesis using assms
      by (auto simp: no bind_outcome_Inr_iff intro!: routes_schedules dest: request_drives)
  next
    case (DhtResponse q x s)
    then show ?thesis using assms by (auto simp: no intro!: routes_same_drives dest: response_drives)
  next
    case (DownloadEvent ev)
    then show ?thesis using assms
      by (auto simp: no bind_outcome_Inr_iff intro!: routes_schedules dest: dn_handle_schedules)
  next
    case (ManualCall c j i)
    then show ?thesis using assms manual_call_routes [of n "ne_sign env" c j i n'] by (simp add: routes_def)
  next
    case (TaskFinished j)
    then show ?thesis using assms on_drive_routes [of n j "ne_sign env" TaskEnded n'] by (simp add: drive_handle_eqs routes_def)
  next
    case StopReplicator
    then show ?thesis using assms stop_routes by (auto simp: routes_def)
  next
    case (EndStreamTx j r)
    then show ?thesis using assms
      by (auto simp: no asyncFinishStreamTxPublished_def unless_stopped_def intro!: routes_same_drives split: if_splits)
  next
    case (SandboxCall j r)
    then show ?thesis using assms
      by (auto simp: no forward_manual_request_def unless_stopped_def intro!: routes_same_drives split: if_splits)
  next
    case (SyncTimer c)
    then show ?thesis using assms by (auto simp: no intro!: routes_same_drives dest: syncTimeout_drives)
  next
    case (EndpointEvent ev)
    then show ?thesis using assms by (auto simp: no intro!: routes_same_drives dest: with_endpoints_drives)
  next
    case (SynchronizeCall j r)
    then show ?thesis using assms or_empty_routes [of n j "ne_sign env" "SyncTx r" n']
      by (simp add: node_manualSynchronize_def drive_handle_eqs routes_def)
  next
    case (ShardDonatorTx j ks)
    then show ?thesis using assms on_drive_none_routes [OF assms(1), of j "\<lambda>d. Inr (setShardDonator ks d)" n']
      by (simp add: no asyncSetShardDonator_def shards_schedules)
  next
    case (ShardRecipientTx j ks)
    then show ?thesis using assms on_drive_none_routes [OF assms(1), of j "\<lambda>d. Inr (setShardRecipient ks d)" n']
      by (simp add: no asyncSetShardRecipient_def shards_schedules)
  next
    case (StartVerificationTx j r)
    then show ?thesis using assms stopped_none_routes [OF assms(1), of j "startVerification (ne_sign env) r" n']
      by (simp add: no asyncStartDriveVerification_def verification_schedules)
  next
    case (CancelVerificationTx j)
    then show ?thesis using assms stopped_none_routes [OF assms(1), of j "\<lambda>d. Inr (cancelVerification d)" n']
      by (simp add: no asyncCancelDriveVerification_def verification_schedules)
  next
    case (VerifyPublished j)
    then show ?thesis using assms stopped_none_routes [OF assms(1), of j "\<lambda>d. Inr (cancelVerification d)" n']
      by (simp add: no asyncVerifyApprovalTransactionHasBeenPublished_def verification_schedules)
  next
    case (RemoveDriveTx j)
    then show ?thesis using assms stopped_drive_routes [of n j "ne_sign env" "CloseTx None" n']
      by (simp add: asyncRemoveDrive_def drive_handle_eqs routes_def)
  next
    case (CloseDriveTx j tx)
    then show ?thesis using assms stopped_drive_routes [of n j "ne_sign env" "CloseTx (Some tx)" n']
      by (simp add: asyncCloseDrive_def drive_handle_eqs routes_def)
  next
    case (ModifyDriveTx j r)
    then show ?thesis using assms stopped_drive_routes
        [of n j "ne_sign env" "ModifyTx (r\<lparr>mr_replicatorList := without_me n (mr_replicatorList r)\<rparr>)" n']
      by (simp add: asyncModify_def drive_handle_eqs routes_def)
  next
    case (CancelModifyTx j tx)
    then show ?thesis using assms stopped_drive_routes [of n j "ne_sign env" "CancelTx tx" n']
      by (simp add: asyncCancelModify_def drive_handle_eqs routes_def)
  next
    case (StartStreamTx j r)
    then show ?thesis using assms stopped_drive_routes [of n j "ne_sign env" "StreamTx r" n']
      by (simp add: asyncStartStream_def drive_handle_eqs routes_def)
  next
    case (OpinionCall an)
    then show ?thesis using assms stopped_drive_routes [of n "ai_driveKey an" "ne_sign env" "OpinionMsg an" n']
      by (simp add: asyncOnOpinionReceived_def drive_handle_eqs routes_def)
  next
    case (ApprovalPublished tx)
    then show ?thesis using assms stopped_drive_routes [of n "pa_driveKey tx" "ne_sign env" "ApprovalTx tx" n']
      by (simp add: asyncApprovalTransactionHasBeenPublished_def drive_handle_eqs routes_def)
  next
    case (ApprovalFailed j tx)
    then show ?thesis using assms stopped_drive_routes [of n j "ne_sign env" "ApprovalFailedTx tx" n']
      by (simp add: asyncApprovalTransactionHasFailedInvalidOpinions_def drive_handle_eqs routes_def)
  qed
qed

text \<open>
  The trace beside the replicator: per drive, the modifications and streams that arrived for it, and those
  whose task was started.  A fault ends the program, so the state stays.
\<close>

record node_trace =
  tn_node :: node
  tn_arrived :: "key \<Rightarrow> hash256 list"
  tn_started :: "key \<Rightarrow> hash256 list"

definition event_at :: "node \<Rightarrow> node_event \<Rightarrow> key \<Rightarrow> drive_event" where
  "event_at n e k = (case schedule_event n e k of None \<Rightarrow> VerifyCancelTx | Some de \<Rightarrow> de)"

definition node_starts :: "node_event \<Rightarrow> node \<Rightarrow> node \<Rightarrow> key \<Rightarrow> hash256 list" where
  "node_starts e n n' k =
     (case (map_find k (nd_drives n), map_find k (nd_drives n')) of
        (Some d, Some d') \<Rightarrow> starts (event_at n e k) d d'
      | _ \<Rightarrow> [])"

definition node_step ::
  "node_env \<Rightarrow> (key \<Rightarrow> hash256 \<Rightarrow> u32 \<Rightarrow> byte list) \<Rightarrow> node_trace \<Rightarrow> node_event \<Rightarrow> node_trace" where
  "node_step env chunks s e =
     (case node_handle env chunks e (tn_node s) of
        Inl _ \<Rightarrow> s
      | Inr n \<Rightarrow> \<lparr>tn_node = n,
                 tn_arrived = (\<lambda>k. tn_arrived s k @ arrives (event_at (tn_node s) e k)),
                 tn_started = (\<lambda>k. tn_started s k @ node_starts e (tn_node s) n k)\<rparr>)"

definition node_start :: "node_trace \<Rightarrow> bool" where
  "node_start s \<longleftrightarrow> nd_drives (tn_node s) = [] \<and> tn_arrived s = (\<lambda>_. []) \<and> tn_started s = (\<lambda>_. [])"

definition node_schedule_ok :: "node_trace \<Rightarrow> bool" where
  "node_schedule_ok s \<longleftrightarrow> map_ok (nd_drives (tn_node s)) \<and>
     (\<forall>k. case map_find k (nd_drives (tn_node s)) of
            None \<Rightarrow> subseq (tn_started s k) (tn_arrived s k)
          | Some d \<Rightarrow> idle_ok d \<and> subseq (tn_started s k @ queue d) (tn_arrived s k))"

lemma same_schedule_step_ok:
  assumes "idle_ok d" and "same_schedule d d'" and "e \<noteq> TaskEnded"
  shows "step_ok e d d'"
  using assms same_schedule_facts [OF assms(2)]
  by (auto simp: step_ok_def in_order_def starts_def split: option.splits)

lemma routed_step_ok:
  assumes "idle_ok d" and "routed sign oe (Some d) (Some d')"
  shows "step_ok (case oe of None \<Rightarrow> VerifyCancelTx | Some e \<Rightarrow> e) d d'"
proof (cases oe)
  case None
  then show ?thesis using assms by (auto intro: same_schedule_step_ok)
next
  case (Some e)
  then consider "drive_handle sign e d = Inr d'" | "e \<noteq> TaskEnded" "same_schedule d d'"
    | "e = drive_event.Stop" "dr_isStopped d'" "queue d' = queue d" "dr_task d' = None \<longleftrightarrow> dr_task d = None"
    using assms(2) by auto
  then show ?thesis
  proof cases
    case 1
    then show ?thesis using assms(1) Some by (simp add: drive_handle_ok)
  next
    case 2
    then show ?thesis using assms(1) Some by (simp add: same_schedule_step_ok)
  next
    case 3
    then show ?thesis using Some
      by (auto simp: step_ok_def idle_ok_def in_order_def starts_def split: option.splits)
  qed
qed

lemma node_step_ok:
  assumes "node_schedule_ok s"
  shows "node_schedule_ok (node_step env chunks s e)"
proof (cases "node_handle env chunks e (tn_node s)")
  case (Inr n)
  let ?n = "tn_node s"
  have "map_ok (nd_drives ?n)" using assms by (simp add: node_schedule_ok_def)
  from node_handle_routes [OF this Inr] have ok: "map_ok (nd_drives n)"
    and r: "\<And>k. routed (ne_sign env) (schedule_event ?n e k) (map_find k (nd_drives ?n)) (map_find k (nd_drives n))"
    by (auto simp: routes_def)
  let ?s = "node_step env chunks s e"
  have s: "tn_node ?s = n" "tn_arrived ?s k = tn_arrived s k @ arrives (event_at ?n e k)"
    "tn_started ?s k = tn_started s k @ node_starts e ?n n k" for k
    using Inr by (simp_all add: node_step_def)
  have "case map_find k (nd_drives n) of None \<Rightarrow> subseq (tn_started ?s k) (tn_arrived ?s k)
      | Some d \<Rightarrow> idle_ok d \<and> subseq (tn_started ?s k @ queue d) (tn_arrived ?s k)" for k
  proof (cases "map_find k (nd_drives ?n)")
    case None
    then have "subseq (tn_started s k) (tn_arrived s k)"
      using assms by (auto simp: node_schedule_ok_def dest: spec [of _ k])
    moreover have "queue d' = [] \<and> dr_task d' \<noteq> None" if "map_find k (nd_drives n) = Some d'" for d'
      using r [of k] None that by simp
    ultimately show ?thesis
      using None by (auto simp: s node_starts_def idle_ok_def split: option.splits)
  next
    case (Some d)
    then have d: "idle_ok d" "subseq (tn_started s k @ queue d) (tn_arrived s k)"
      using assms by (auto simp: node_schedule_ok_def dest: spec [of _ k])
    show ?thesis
    proof (cases "map_find k (nd_drives n)")
      case None
      have "subseq (tn_started s k) (tn_started s k @ queue d)" by (rule prefix_imp_subseq) simp
      with d(2) have "subseq (tn_started s k) (tn_arrived s k)" by (blast intro: subseq_order.trans)
      then show ?thesis using None Some by (auto simp: s node_starts_def)
    next
      case (Some d')
      with r [of k] \<open>map_find k (nd_drives ?n) = Some d\<close> d(1) have ok: "step_ok (event_at ?n e k) d d'"
        unfolding event_at_def by (intro routed_step_ok) simp_all
      let ?new = "starts (event_at ?n e k) d d'"
      have "subseq (tn_started s k @ ?new @ queue d') (tn_started s k @ queue d @ arrives (event_at ?n e k))"
        using ok unfolding step_ok_def in_order_def by (blast intro: list_emb_append_mono subseq_order.refl)
      moreover have "subseq (tn_started s k @ queue d @ arrives (event_at ?n e k)) (tn_arrived s k @ arrives (event_at ?n e k))"
        unfolding append_assoc [symmetric] using d(2) by (blast intro: list_emb_append_mono subseq_order.refl)
      ultimately show ?thesis
        using Some ok \<open>map_find k (nd_drives ?n) = Some d\<close>
        by (auto simp: s node_starts_def step_ok_def intro: subseq_order.trans)
    qed
  qed
  then show ?thesis using ok by (simp add: node_schedule_ok_def s(1))
qed (use assms in \<open>simp add: node_step_def\<close>)

interpretation rn: event_system "node_step env chunks" node_start node_schedule_ok for env chunks
  by unfold_locales (simp add: node_start_def node_schedule_ok_def map_find_def, rule node_step_ok)

text \<open>
  C3. The drives of a replicator do not disturb each other: in every run of a replicator that starts without
  drives, whatever transactions for whatever drives, messages, answers, timers, downloads, closures and ends of
  tasks come in whatever order, each of its drives has started modifications and streams in the order in which
  they arrived for this drive, none twice, what it has queued follows them in that order, and a drive that has
  no task has nothing waiting unless the replicator was stopped.
\<close>

theorem every_drive_keeps_its_order:
  assumes "node_start s" and "map_find k (nd_drives (tn_node (run (node_step env chunks) s es))) = Some d"
  shows "subseq (tn_started (run (node_step env chunks) s es) k @ queue d) (tn_arrived (run (node_step env chunks) s es) k) \<and>
    (dr_task d = None \<longrightarrow> dr_isStopped d \<or> nothing_waits d)"
  using rn.reachable_invar [OF assms(1), of env chunks es] assms(2)
  by (auto simp: node_schedule_ok_def idle_ok_def dest!: spec [of _ k])

subsection \<open>A replicator with two drives\<close>

definition sample_env :: node_env where
  "sample_env =
     \<lparr>ne_verify = (\<lambda>_ _ _. True), ne_sign = (\<lambda>m. m), ne_rnd = (\<lambda>n. n), ne_raw = (\<lambda>_. []), ne_unraw = (\<lambda>_. ([], 0)),
      ne_port = 0, ne_opinion = (\<lambda>_. None), ne_dn_opinion = (\<lambda>_. None),
      ne_code = (\<lambda>m. if m = [1] then Some \<lparr>vc_tx = 80, vc_replicatorKey = 2, vc_driveKey = 9, vc_code = 5,
                   vc_signature = []\<rparr> else None),
      ne_verify_opinion = (\<lambda>_. None), ne_handshake = (\<lambda>_. None), ne_endpoint_request = (\<lambda>_. None),
      ne_endpoint_response = (\<lambda>_. None), ne_chunk = (\<lambda>_. None), ne_chunks_request = (\<lambda>_. None),
      ne_playlist_request = (\<lambda>_. None), ne_status_request = (\<lambda>_. None),
      ne_receipts = (\<lambda>m. case m of [b] \<Rightarrow> Some (ucast b, 70, []) | _ \<Rightarrow> None),
      ne_write_receipts = (\<lambda>_ _ _. []), ne_write_channel = (\<lambda>_ _ _. []), ne_write_modification = (\<lambda>_ _ _. []),
      ne_write_playlist = (\<lambda>_. []), ne_write_word = (\<lambda>_. []), ne_write_status = (\<lambda>_ _ _. [])\<rparr>"

definition sample_node :: node where
  "sample_node =
     \<lparr>nd_replicator =
        \<lparr>rp_key = 1, rp_minReplicatorsNumber = 0, rp_receiptLimit = 1000, rp_channels = [], rp_channelsBackup = [],
         rp_drives = [], rp_ending = False, rp_destructing = False, rp_now = 0, rp_outputs = []\<rparr>,
      nd_endpoints = new_endpoints_manager 1 [], nd_syncChannelMap = [],
      nd_allowCreateNonExistingDrives = False, nd_outputs = []\<rparr>"

definition sample_add :: add_drive_request where
  "sample_add = \<lparr>ad_driveSize = 1000, ad_expectedCumulativeDownloadSize = 100, ad_fullReplicatorList = [1, 2, 3],
     ad_client = 7, ad_modifyDonatorShard = [2, 3], ad_modifyRecipientShard = [2, 3]\<rparr>"

definition node_begin :: node_trace where
  "node_begin = \<lparr>tn_node = sample_node, tn_arrived = (\<lambda>_. []), tn_started = (\<lambda>_. [])\<rparr>"

definition node_events :: "node_event list" where
  "node_events = [AddDriveTx 9 sample_add, AddDriveTx 8 sample_add, TaskFinished 9,
     ModifyDriveTx 9 (sample_request 51), ModifyDriveTx 8 (sample_request 61), ModifyDriveTx 9 (sample_request 52),
     TaskFinished 9]"

definition node_end :: node_trace where
  "node_end = run (node_step sample_env (\<lambda>_ _ _. [])) node_begin node_events"

lemma node_begin_start: "node_start node_begin"
  by (simp add: node_begin_def node_start_def sample_node_def)

lemma node_end_facts:
  "tn_started node_end 9 = [51, 52]" "map_option queue (map_find 9 (nd_drives (tn_node node_end))) = Some []"
  "map_option queue (map_find 8 (nd_drives (tn_node node_end))) = Some [61]"
  by code_simp+

theorem every_drive_keeps_its_order_witness:
  "node_start node_begin \<and> (\<exists>d. map_find 9 (nd_drives (tn_node node_end)) = Some d \<and>
     subseq ([51, 52] @ queue d) (tn_arrived node_end 9))"
proof -
  obtain d where d: "map_find 9 (nd_drives (tn_node node_end)) = Some d" using node_end_facts(2) by blast
  show ?thesis
    using every_drive_keeps_its_order [OF node_begin_start d [unfolded node_end_def]] node_begin_start d
    unfolding node_end_def [symmetric] by (simp add: node_end_facts)
qed


end
