(* ===== verification/Receipt_Sync.thy ===== *)
theory Receipt_Sync
  imports Replicator_Props
begin

section \<open>The synchronisation of receipts\<close>

text \<open>
  What the receipt synchroniser of a replicator (\<^verbatim>\<open>src/drive/RcptSyncronizer.h\<close>) does along a run: when the
  synchronisation of a channel ends, and the sizes of a drive for which it never does.
\<close>

subsection \<open>When the synchronisation of a channel ends\<close>

abbreviation sync_map :: "node \<Rightarrow> (hash256, channel_sync) std_map" where
  "sync_map n \<equiv> nd_syncChannelMap n"

text \<open>A signed answer to a request for receipts.\<close>

definition answered :: "node_env \<Rightarrow> hash256 \<Rightarrow> node_event \<Rightarrow> key \<Rightarrow> bool" where
  "answered env c e k \<longleftrightarrow>
     (\<exists>x s msgs. e = DhtResponse ''get_dn_rcpts'' x s \<and> ne_receipts env x = Some (k, c, msgs) \<and> ne_verify env k x s)"

text \<open>What a step can do to the entry of a channel.\<close>

fun sync_moves :: "(key \<Rightarrow> bool) \<Rightarrow> channel_sync option \<Rightarrow> channel_sync option \<Rightarrow> bool" where
  "sync_moves A (Some cs) (Some cs') \<longleftrightarrow> cs_consensusThreshould cs' = cs_consensusThreshould cs \<and>
     (cs_responseSet cs' = cs_responseSet cs \<or> (\<exists>k. A k \<and> cs_responseSet cs' = List.insert k (cs_responseSet cs)))"
| "sync_moves A (Some cs) None \<longleftrightarrow> (\<exists>k. A k \<and> cs_consensusThreshould cs \<le> length (List.insert k (cs_responseSet cs)))"
| "sync_moves A None (Some cs') \<longleftrightarrow> cs_responseSet cs' = []"
| "sync_moves A None None \<longleftrightarrow> True"

definition syncs :: "node_env \<Rightarrow> node_event \<Rightarrow> node \<Rightarrow> node \<Rightarrow> bool" where
  "syncs env e n n' \<longleftrightarrow> map_ok (sync_map n') \<and>
     (\<forall>c. sync_moves (answered env c e) (map_find c (sync_map n)) (map_find c (sync_map n')))"

lemma sync_moves_refl [simp]: "sync_moves A x x"
  by (cases x) simp_all

lemma syncs_same: "map_ok (sync_map n) \<Longrightarrow> sync_map n' = sync_map n \<Longrightarrow> syncs env e n n'"
  by (simp add: syncs_def)

named_theorems same_syncs

lemma same_syncs_basic [same_syncs]:
  "sync_map (set_drives m n) = sync_map n" "sync_map (set_endpoints n em) = sync_map n"
  "sync_map (set_replicator n rp) = sync_map n" "sync_map (nd_emit y n) = sync_map n"
  "sync_map (sendSignedMessage sign q r m' n) = sync_map n"
  by (simp_all add: set_drives_def set_endpoints_def set_replicator_def nd_emit_def sendSignedMessage_def
      split: option.splits)

lemma same_syncs_fold [same_syncs]: "sync_map (fold (\<lambda>r. sendSignedMessage sign q r m) rs n) = sync_map n"
  by (induction rs arbitrary: n) (simp_all add: same_syncs)

lemma same_syncs_on_drive: "on_drive j f n = Inr n' \<Longrightarrow> sync_map n' = sync_map n"
  by (auto simp: on_drive_def bind_outcome_Inr_iff same_syncs split: option.splits)

lemma same_syncs_stopped:
  "unless_stopped n r = Inr n' \<Longrightarrow> (r = Inr n' \<Longrightarrow> sync_map n' = sync_map n) \<Longrightarrow> sync_map n' = sync_map n"
  by (auto simp: unless_stopped_def split: if_splits)

lemma same_syncs_add: "add_drive j r n = Inr n' \<Longrightarrow> sync_map n' = sync_map n"
  by (auto simp: add_drive_def bind_outcome_Inr_iff same_syncs)

lemma same_syncs_virtual: "asyncDbgAddVirtualDrive c j n = Inr n' \<Longrightarrow> sync_map n' = sync_map n"
  by (auto simp: asyncDbgAddVirtualDrive_def elim!: same_syncs_stopped split: if_splits dest: same_syncs_add)

lemma same_syncs_or_empty: "or_empty j f n = Inr n' \<Longrightarrow> sync_map n' = sync_map n"
  by (auto simp: or_empty_def same_syncs elim!: same_syncs_stopped split: if_splits dest: same_syncs_on_drive)

lemma same_syncs_manual: "node_initiateManualModifications sign c j i n = Inr n' \<Longrightarrow> sync_map n' = sync_map n"
  by (auto simp: node_initiateManualModifications_def bind_outcome_Inr_iff split: if_splits
      dest!: same_syncs_virtual same_syncs_or_empty)

lemma same_syncs_message: "onMessageReceived env q x source n = Inr n' \<Longrightarrow> sync_map n' = sync_map n"
  by (auto simp: onMessageReceived_def read_message_Inr processOpinion_def processDownloadOpinion_def
      processVerificationCode_def processVerificationOpinion_def with_endpoints_def bind_outcome_Inr_iff same_syncs
      split: if_splits option.splits dest: same_syncs_on_drive)

lemma same_syncs_request: "on_dht_request env chunks q x s source n = Inr (b, a, n') \<Longrightarrow> sync_map n' = sync_map n"
  by (auto simp: on_dht_request_def bind_outcome_Inr_iff catch_all_Inr same_syncs split: if_splits
      dest: same_syncs_message)

text \<open>The operations of the synchroniser.\<close>

lemma requestOpinons_moves:
  assumes "requestOpinons sign c cs n = Inr n'" and "map_ok (sync_map n)"
    and "sync_moves (answered env c e) (map_find c (sync_map n)) (Some cs)"
  shows "syncs env e n n'"
proof -
  have m: "sync_map n' = map_put c (cs\<lparr>cs_syncTimeoutTimer := True\<rparr>) (sync_map n)"
    using assms(1) by (auto simp: requestOpinons_def set_sync_def same_syncs split: option.splits)
  have "sync_moves (answered env c e) (map_find c (sync_map n)) (Some (cs\<lparr>cs_syncTimeoutTimer := True\<rparr>))"
    using assms(3) by (cases "map_find c (sync_map n)") auto
  then show ?thesis using assms(2) by (auto simp: syncs_def m)
qed

lemma startSync_moves:
  assumes "startSync sign c j t n = Inr n'" and "map_ok (sync_map n)"
  shows "syncs env e n n'"
proof (cases "map_lower_bound c (sync_map n)")
  case None
  then have "map_find c (sync_map n) = None" by (auto simp: map_lower_bound_None_iff map_find_None_iff)
  then show ?thesis
    using assms None by (auto simp: startSync_def intro: requestOpinons_moves)
next
  case (Some p)
  then obtain c' cs where p: "p = (c', cs)" by (cases p)
  then have "(c', cs) \<in> set (sync_map n)"
    using Some by (auto simp: map_lower_bound_def find_Some_iff)
  then have "map_find c' (sync_map n) = Some cs" using assms(2) by (intro in_set_map_find)
  then show ?thesis
    using assms Some p by (auto simp: startSync_def intro: requestOpinons_moves)
qed

lemma syncTimeout_moves:
  assumes "syncTimeout sign c n = Inr n'" and "map_ok (sync_map n)"
  shows "syncs env e n n'"
proof -
  consider "n' = n" | cs n1 where "map_find c (sync_map n) = Some cs" "requestOpinons sign c cs n = Inr n1"
    "n' = set_sync c (cs\<lparr>cs_syncTimeoutTimer := False\<rparr>) n1"
    using assms(1) by (auto simp: syncTimeout_def bind_outcome_Inr_iff split: option.splits if_splits)
  then show ?thesis
  proof cases
    case (2 cs n1)
    then have "syncs env e n n1" using assms(2) by (auto intro: requestOpinons_moves)
    moreover have "cs_responseSet cs = cs_responseSet cs" ..
    ultimately show ?thesis
      using 2 by (auto simp: syncs_def set_sync_def)
  qed (use assms(2) in \<open>simp add: syncs_same\<close>)
qed

lemma addChannel_moves:
  assumes "asyncAddDownloadChannelInfo sign j c m rs ks b n = Inr n'" and "map_ok (sync_map n)"
  shows "syncs env e n n'"
proof -
  let ?n1 = "set_replicator n (addChannelInfo c m j rs ks b (nd_replicator n))"
  consider "sync_map n' = sync_map n" | t where "startSync sign c j t ?n1 = Inr n'"
    using assms(1)
    by (auto simp: asyncAddDownloadChannelInfo_def unless_stopped_def Let_def same_syncs split: if_splits option.splits)
  then show ?thesis
  proof cases
    case (2 t)
    then have "syncs env e ?n1 n'" using assms(2) by (auto intro: startSync_moves simp: same_syncs)
    then show ?thesis by (simp add: syncs_def same_syncs)
  qed (use assms(2) in \<open>simp add: syncs_same\<close>)
qed

lemma answer_moves:
  assumes "handleDhtResponse env q x s n = Inr n'" and "map_ok (sync_map n)"
  shows "syncs env (DhtResponse q x s) n n'"
proof -
  consider "n' = n" | k c msgs where "q = ''get_dn_rcpts''" "ne_receipts env x = Some (k, c, msgs)" "ne_verify env k x s"
    "sync_map n' = sync_map (accpeptOpinion c k n)"
    using assms(1)
    by (auto simp: handleDhtResponse_def onSyncRcptReceived_def Let_def bind_outcome_Inr_iff same_syncs
        split: if_splits option.splits)
  then show ?thesis
  proof cases
    case (2 k c msgs)
    then have a: "answered env c (DhtResponse q x s) k" by (auto simp: answered_def)
    show ?thesis
    proof (cases "map_find c (sync_map n)")
      case None
      then show ?thesis using 2 assms(2) by (simp add: accpeptOpinion_def syncs_same)
    next
      case (Some cs)
      then show ?thesis using 2(4) a assms(2)
        by (auto simp: accpeptOpinion_def Let_def syncs_def set_sync_def map_find_erase split: if_splits)
    qed
  qed (use assms(2) in \<open>simp add: syncs_same\<close>)
qed

lemma closure_moves:
  assumes "finishDriveClosure j n = Inr n'" and "map_ok (sync_map n)"
  shows "syncs env e n n'"
proof -
  obtain d where "map_find j (nd_drives n) = Some d"
    using assms(1) by (auto simp: finishDriveClosure_def split: option.splits)
  then have m: "sync_map n' =
      map (\<lambda>p. (fst p, if cs_drive (snd p) = Inl j then (snd p)\<lparr>cs_drive := Inr d\<rparr> else snd p)) (sync_map n)"
    using assms(1) by (auto simp: finishDriveClosure_def)
  have "map_find c (sync_map n') =
      map_option (\<lambda>cs. if cs_drive cs = Inl j then cs\<lparr>cs_drive := Inr d\<rparr> else cs) (map_find c (sync_map n))" for c
    unfolding m by (rule map_find_map_snd)
  then have "sync_moves (answered env c e) (map_find c (sync_map n)) (map_find c (sync_map n'))" for c
    by (cases "map_find c (sync_map n)") auto
  then show ?thesis using assms(2) by (simp add: syncs_def m)
qed

lemma node_handle_syncs:
  assumes "node_handle env chunks e n = Inr n'" and "map_ok (sync_map n)" and "e \<noteq> StopReplicator"
  shows "syncs env e n n'"
proof (cases e)
  case (ClosureFinished j)
  then show ?thesis using assms by (auto intro: closure_moves)
next
  case (ChannelTx j c m rs ks b)
  then show ?thesis using assms by (auto intro: addChannel_moves)
next
  case (DhtResponse q x s)
  then show ?thesis using assms by (auto intro: answer_moves)
next
  case (SyncTimer c)
  then show ?thesis using assms by (auto intro: syncTimeout_moves)
next
  case (AddDriveTx j r)
  then show ?thesis using assms
    by (auto simp: asyncAddDrive_def intro!: syncs_same elim!: same_syncs_stopped split: if_splits dest: same_syncs_add)
next
  case (ReplicatorsTx j ks)
  then show ?thesis using assms
    by (auto simp: asyncSetReplicators_def same_syncs intro!: syncs_same split: if_splits dest: same_syncs_on_drive)
next
  case (EndStreamTx j r)
  then show ?thesis using assms
    by (auto simp: asyncFinishStreamTxPublished_def unless_stopped_def same_syncs intro!: syncs_same split: if_splits)
next
  case (SandboxCall j r)
  then show ?thesis using assms
    by (auto simp: forward_manual_request_def unless_stopped_def same_syncs intro!: syncs_same split: if_splits)
next
  case (DhtRequest q x s source)
  then show ?thesis using assms
    by (auto simp: bind_outcome_Inr_iff intro!: syncs_same dest: same_syncs_request)
next
  case (DownloadEvent ev)
  then show ?thesis using assms by (auto simp: bind_outcome_Inr_iff same_syncs intro!: syncs_same)
next
  case (EndpointEvent ev)
  then show ?thesis using assms
    by (auto simp: with_endpoints_def bind_outcome_Inr_iff same_syncs intro!: syncs_same)
next
  case (ManualCall c j i)
  then show ?thesis using assms by (auto intro!: syncs_same dest: same_syncs_manual)
next
  case (SynchronizeCall j r)
  then show ?thesis using assms
    by (auto simp: node_manualSynchronize_def intro!: syncs_same dest: same_syncs_or_empty)
qed (use assms in \<open>auto simp: asyncRemoveDrive_def asyncCloseDrive_def asyncSetShardDonator_def asyncSetShardRecipient_def
      asyncModify_def asyncCancelModify_def asyncStartDriveVerification_def asyncCancelDriveVerification_def
      asyncStartStream_def asyncOnOpinionReceived_def asyncApprovalTransactionHasBeenPublished_def
      asyncApprovalTransactionHasFailedInvalidOpinions_def asyncVerifyApprovalTransactionHasBeenPublished_def
      intro!: syncs_same elim!: same_syncs_stopped dest: same_syncs_on_drive\<close>)

text \<open>The answers of which an entry knows: different keys, each of which has answered.\<close>

definition history_ok :: "(hash256 \<times> key) set \<Rightarrow> node \<Rightarrow> bool" where
  "history_ok S n \<longleftrightarrow> map_ok (sync_map n) \<and>
     (\<forall>c cs. map_find c (sync_map n) = Some cs \<longrightarrow>
        distinct (cs_responseSet cs) \<and> (\<forall>k\<in>set (cs_responseSet cs). (c, k) \<in> S))"

definition answers_in :: "node_env \<Rightarrow> (hash256 \<times> key) set \<Rightarrow> node_event \<Rightarrow> bool" where
  "answers_in env S e \<longleftrightarrow> (\<forall>c k. answered env c e k \<longrightarrow> (c, k) \<in> S)"

lemma node_step_tn:
  "tn_node (node_step env chunks s e) =
     (case node_handle env chunks e (tn_node s) of Inl _ \<Rightarrow> tn_node s | Inr n \<Rightarrow> n)"
  by (simp add: node_step_def split: sum.splits)

lemma history_step:
  assumes "history_ok S (tn_node s)" and "answers_in env S e"
  shows "history_ok S (tn_node (node_step env chunks s e))"
proof (cases "node_handle env chunks e (tn_node s)")
  case (Inr n')
  show ?thesis
  proof (cases "e = StopReplicator")
    case True
    then show ?thesis using Inr by (auto simp: node_step_tn history_ok_def stop_def)
  next
    case False
    have "map_ok (sync_map (tn_node s))" using assms(1) by (simp add: history_ok_def)
    from node_handle_syncs [OF Inr this False] have ok: "map_ok (sync_map n')"
      and m: "\<And>c. sync_moves (answered env c e) (map_find c (sync_map (tn_node s))) (map_find c (sync_map n'))"
      by (auto simp: syncs_def)
    have "distinct (cs_responseSet cs) \<and> (\<forall>k\<in>set (cs_responseSet cs). (c, k) \<in> S)"
      if "map_find c (sync_map n') = Some cs" for c cs
    proof (cases "map_find c (sync_map (tn_node s))")
      case None
      then show ?thesis using m [of c] that by simp
    next
      case (Some cs0)
      then have "distinct (cs_responseSet cs0) \<and> (\<forall>k\<in>set (cs_responseSet cs0). (c, k) \<in> S)"
        using assms(1) by (auto simp: history_ok_def)
      then show ?thesis using m [of c] that Some assms(2) by (auto simp: answers_in_def)
    qed
    then show ?thesis using ok Inr by (auto simp: node_step_tn history_ok_def)
  qed
qed (use assms in \<open>simp add: node_step_tn\<close>)

interpretation sync_history: event_system "guarded (answers_in env S) (node_step env chunks)"
    "\<lambda>s. sync_map (tn_node s) = []" "\<lambda>s. history_ok S (tn_node s)" for env S chunks
  by unfold_locales (simp add: history_ok_def map_find_def, simp add: guarded_def history_step)

text \<open>
  C23. A synchronisation ends only with a quorum: in every run of a replicator, when a step other than the stop of
  the replicator takes a channel out of the synchronisation, then at least as many different keys as its threshold
  have each given an answer for this channel that is signed with that key.
\<close>

theorem synchronization_ends_with_signed_answers:
  assumes "sync_map (tn_node s) = []" and "tn_node (run (node_step env chunks) s es) = n"
    and "node_handle env chunks e n = Inr n'" and "e \<noteq> StopReplicator"
    and "map_find c (sync_map n) = Some cs" and "map_find c (sync_map n') = None"
  shows "\<exists>ks. distinct ks \<and> cs_consensusThreshould cs \<le> length ks \<and>
    (\<forall>k\<in>set ks. \<exists>e'\<in>set (es @ [e]). answered env c e' k)"
proof -
  let ?S = "{(c, k). \<exists>e'\<in>set es. answered env c e' k}"
  have "run (guarded (answers_in env ?S) (node_step env chunks)) s es = run (node_step env chunks) s es"
    by (rule run_guarded) (auto simp: list_all_iff answers_in_def)
  moreover have "history_ok ?S (tn_node (run (guarded (answers_in env ?S) (node_step env chunks)) s es))"
    by (rule sync_history.reachable_invar) (rule assms(1))
  ultimately have h: "history_ok ?S n" using assms(2) by simp
  then have "map_ok (sync_map n)" by (simp add: history_ok_def)
  from node_handle_syncs [OF assms(3) this assms(4)] obtain k where
    k: "answered env c e k" "cs_consensusThreshould cs \<le> length (List.insert k (cs_responseSet cs))"
    using assms(5,6) by (auto simp: syncs_def dest!: spec [of _ c])
  have "distinct (cs_responseSet cs)" "\<forall>k\<in>set (cs_responseSet cs). \<exists>e'\<in>set es. answered env c e' k"
    using h assms(5) by (auto simp: history_ok_def)
  then show ?thesis using k by (intro exI [of _ "List.insert k (cs_responseSet cs)"]) auto
qed

subsection \<open>Drives with two or three other replicators\<close>

definition waiting :: "hash256 \<Rightarrow> key list \<Rightarrow> node \<Rightarrow> bool" where
  "waiting c ks n \<longleftrightarrow> map_ok (sync_map n) \<and> (\<exists>cs. map_find c (sync_map n) = Some cs \<and>
     length ks < cs_consensusThreshould cs \<and> distinct (cs_responseSet cs) \<and> set (cs_responseSet cs) \<subseteq> set ks)"

definition answers_by :: "node_env \<Rightarrow> hash256 \<Rightarrow> key list \<Rightarrow> node_event \<Rightarrow> bool" where
  "answers_by env c ks e \<longleftrightarrow> e \<noteq> StopReplicator \<and> (\<forall>k. answered env c e k \<longrightarrow> k \<in> set ks)"

lemma length_subset: "distinct xs \<Longrightarrow> set xs \<subseteq> set ys \<Longrightarrow> length xs \<le> length ys"
  by (metis card_length card_mono distinct_card finite_set order_trans)

lemma startSync_new:
  assumes "map_lower_bound c (sync_map n) = None" and "startSync sign c j t n = Inr n'"
  shows "sync_map n' = map_put c \<lparr>cs_drive = Inl j, cs_responseSet = [], cs_consensusThreshould = t,
    cs_syncTimeoutTimer = True\<rparr> (sync_map n)"
  using assms by (auto simp: startSync_def requestOpinons_def set_sync_def same_syncs split: option.splits)

lemma waiting_step:
  assumes "waiting c ks (tn_node s)" and "answers_by env c ks e"
  shows "waiting c ks (tn_node (node_step env chunks s e))"
proof (cases "node_handle env chunks e (tn_node s)")
  case (Inr n')
  obtain cs where cs: "map_find c (sync_map (tn_node s)) = Some cs" "length ks < cs_consensusThreshould cs"
    "distinct (cs_responseSet cs)" "set (cs_responseSet cs) \<subseteq> set ks" and ok: "map_ok (sync_map (tn_node s))"
    using assms(1) by (auto simp: waiting_def)
  have "e \<noteq> StopReplicator" using assms(2) by (simp add: answers_by_def)
  from node_handle_syncs [OF Inr ok this] have ok': "map_ok (sync_map n')"
    and m: "sync_moves (answered env c e) (Some cs) (map_find c (sync_map n'))"
    by (auto simp: syncs_def cs(1) dest!: spec [of _ c])
  have "length (List.insert k (cs_responseSet cs)) \<le> length ks" if "answered env c e k" for k
    using that assms(2) cs(3,4) by (intro length_subset) (auto simp: answers_by_def)
  then obtain cs' where "map_find c (sync_map n') = Some cs'"
    using m cs(2) by (cases "map_find c (sync_map n')") fastforce+
  then show ?thesis
    using m ok' cs assms(2) Inr by (auto simp: waiting_def node_step_tn answers_by_def)
qed (use assms in \<open>simp add: node_step_tn\<close>)

interpretation sync_waiting: event_system "guarded (answers_by env c ks) (node_step env chunks)"
    "\<lambda>s. waiting c ks (tn_node s)" "\<lambda>s. waiting c ks (tn_node s)" for env c ks chunks
  by unfold_locales (simp_all add: guarded_def waiting_step)

text \<open>
  C40. A drive with two or three other replicators never finishes a synchronisation: once a channel of such a drive
  was added to be synchronised, it is still being synchronised after every run in which the answers for it come
  from replicators of the drive, even when all of them have answered: the threshold is above their number.
\<close>

theorem small_drives_never_finish_a_synchronization:
  assumes "map_find j (nd_drives n) = Some d" and "length (dp_allReplicators (dr_params d)) \<in> {2, 3}"
    and "map_ok (sync_map n)" and "\<forall>c'\<in>fst ` set (sync_map n). c' < c" and "\<not> rp_destructing (nd_replicator n)"
    and "asyncAddDownloadChannelInfo sign j c m rs ks True n = Inr (tn_node s)"
    and "\<forall>e\<in>set es. answers_by env c (dp_allReplicators (dr_params d)) e"
  shows "map_find c (sync_map (tn_node (run (node_step env chunks) s es))) \<noteq> None"
proof -
  let ?rs = "dp_allReplicators (dr_params d)"
  let ?n1 = "set_replicator n (addChannelInfo c m j rs ks True (nd_replicator n))"
  have "map_lower_bound c (sync_map ?n1) = None"
    using assms(4) by (simp add: map_lower_bound_None_iff same_syncs)
  moreover have "startSync sign c j (min (length ?rs * 3 div 2) 4) ?n1 = Inr (tn_node s)"
    using assms(1,5,6) by (simp add: asyncAddDownloadChannelInfo_def unless_stopped_def Let_def same_drives)
  ultimately have "sync_map (tn_node s) = map_put c
      \<lparr>cs_drive = Inl j, cs_responseSet = [], cs_consensusThreshould = min (length ?rs * 3 div 2) 4,
       cs_syncTimeoutTimer = True\<rparr> (sync_map n)"
    using startSync_new [of c ?n1] by (simp add: same_syncs)
  then have "waiting c ?rs (tn_node s)" using assms(2,3) by (auto simp: waiting_def)
  moreover have "run (guarded (answers_by env c ?rs) (node_step env chunks)) s es = run (node_step env chunks) s es"
    using assms(7) by (intro run_guarded) (simp add: list_all_iff)
  ultimately have "waiting c ?rs (tn_node (run (node_step env chunks) s es))"
    using sync_waiting.reachable_invar [where s = s and c = c and ks = ?rs and env = env and chunks = chunks and es = es]
    by simp
  then show ?thesis by (auto simp: waiting_def)
qed

text \<open>
  A channel whose key is below that of a channel that is being synchronised never enters the map: the requests
  are repeated for the other channel.  And requests are repeated once only, as the callback cancels the timer
  that its own requests have started.
\<close>

lemma synchronizing_asks_for_another_channel:
  assumes "map_lower_bound c (sync_map n) = Some (c', cs)" and "c' \<noteq> c" and "map_ok (sync_map n)"
    and "map_find c (sync_map n) = None" and "startSync sign c j t n = Inr n'"
  shows "map_find c (sync_map n') = None \<and>
    (\<exists>d. sync_drive cs n = Some d \<and> nd_outputs n' = nd_outputs
       (fold (\<lambda>r. sendSignedMessage sign ''get_dn_rcpts'' r (sync_request_message n d c')) (dp_allReplicators (dr_params d)) n))"
  using assms by (auto simp: startSync_def requestOpinons_def set_sync_def same_syncs split: option.splits)

lemma requests_are_repeated_once:
  assumes "syncTimeout sign c n = Inr n'"
  shows "syncTimeout sign c n' = Inr n'"
  using assms by (auto simp: syncTimeout_def bind_outcome_Inr_iff set_sync_def split: option.splits if_splits)

subsection \<open>A drive with two other replicators\<close>

definition pair_node :: node where
  "pair_node = set_drives [(9, sample_drive)] sample_node"

definition pair_trace :: "node \<Rightarrow> node_trace" where
  "pair_trace n = \<lparr>tn_node = n, tn_arrived = (\<lambda>_. []), tn_started = (\<lambda>_. [])\<rparr>"

definition pair_add :: node_event where
  "pair_add = ChannelTx 9 70 1000 [1, 2, 3] [7] True"

definition answer_of :: "byte \<Rightarrow> node_event" where
  "answer_of b = DhtResponse ''get_dn_rcpts'' [b] (replicate 64 0)"

definition pair_run :: "node_event list \<Rightarrow> node" where
  "pair_run es = tn_node (run (node_step sample_env (\<lambda>_ _ _. [])) (pair_trace pair_node) es)"

lemma pair_facts:
  "map_option cs_consensusThreshould (map_find 70 (sync_map (pair_run [pair_add, answer_of 2, answer_of 3]))) = Some 3"
  "(case node_handle sample_env (\<lambda>_ _ _. []) (answer_of 4) (pair_run [pair_add, answer_of 2, answer_of 3]) of
      Inl _ \<Rightarrow> False | Inr n \<Rightarrow> map_contains 70 (nd_channels n) \<and> \<not> map_contains 70 (sync_map n))"
  by code_simp+

theorem synchronization_ends_with_signed_answers_witness:
  "sync_map pair_node = [] \<and> (\<exists>ks. distinct ks \<and> 3 \<le> length ks \<and>
     (\<forall>k\<in>set ks. \<exists>e\<in>set [pair_add, answer_of 2, answer_of 3, answer_of 4]. answered sample_env 70 e k))"
proof -
  let ?es = "[pair_add, answer_of 2, answer_of 3]"
  have start: "sync_map (tn_node (pair_trace pair_node)) = []"
    by (simp add: pair_trace_def pair_node_def sample_node_def set_drives_def)
  obtain cs where cs: "map_find 70 (sync_map (pair_run ?es)) = Some cs" "cs_consensusThreshould cs = 3"
    using pair_facts(1) by blast
  obtain n' where n': "node_handle sample_env (\<lambda>_ _ _. []) (answer_of 4) (pair_run ?es) = Inr n'"
    "map_find 70 (sync_map n') = None"
    using pair_facts(2) by (auto simp: map_contains_find split: sum.splits)
  have "answer_of 4 \<noteq> StopReplicator" by (simp add: answer_of_def)
  from synchronization_ends_with_signed_answers [OF start pair_run_def [symmetric] n'(1) this cs(1) n'(2)]
  show ?thesis using cs(2) start by (simp add: pair_trace_def)
qed

theorem small_drives_never_finish_a_synchronization_witness:
  "\<exists>n. asyncAddDownloadChannelInfo (\<lambda>m. m) 9 70 1000 [1, 2, 3] [7] True pair_node = Inr n \<and>
     map_find 70 (sync_map (tn_node (run (node_step sample_env (\<lambda>_ _ _. [])) (pair_trace n)
       [answer_of 2, answer_of 3, SyncTimer 70, answer_of 2]))) \<noteq> None"
proof -
  obtain n where n: "asyncAddDownloadChannelInfo (\<lambda>m. m) 9 70 1000 [1, 2, 3] [7] True pair_node = Inr n"
  proof -
    have "case asyncAddDownloadChannelInfo (\<lambda>m. m) 9 70 1000 [1, 2, 3] [7] True pair_node of Inl _ \<Rightarrow> False | Inr _ \<Rightarrow> True"
      by code_simp
    then show ?thesis using that by (auto split: sum.splits)
  qed
  have d: "map_find 9 (nd_drives pair_node) = Some sample_drive" by (simp add: pair_node_def map_find_def)
  have rs: "dp_allReplicators (dr_params sample_drive) = [2, 3]"
    by (simp add: sample_drive_def sample_params_def)
  have m: "map_ok (sync_map pair_node)" "\<forall>c'\<in>fst ` set (sync_map pair_node). c' < 70"
    "\<not> rp_destructing (nd_replicator pair_node)"
    by (simp_all add: pair_node_def sample_node_def set_drives_def map_ok_def)
  have es: "\<forall>e\<in>set [answer_of 2, answer_of 3, SyncTimer 70, answer_of 2]. answers_by sample_env 70 [2, 3] e"
    by (auto simp: answers_by_def answered_def answer_of_def sample_env_def)
  show ?thesis
    using small_drives_never_finish_a_synchronization [OF d _ m, of "\<lambda>m. m" 1000 "[1, 2, 3]" "[7]" "pair_trace n"
        "[answer_of 2, answer_of 3, SyncTimer 70, answer_of 2]" sample_env "\<lambda>_ _ _. []"] n rs es
    by (auto simp: pair_trace_def)
qed

end
