(* ===== verification/Spec2Isabelle.thy ===== *)
theory Spec2Isabelle
  imports Codecs Fs_Locks Modify_Sandbox Drive_Schedule Download_Approval Kademlia Http_Server Manual_Outcomes Manual_Answers Stream_Props Receipt_Sync
begin

text \<open>
  Verification of the storage SDK: the replicator of the ProximaX decentralised storage.

  A \<^emph>\<open>drive\<close> is a tree of files that belongs to a client and is kept by several replicators.
  The client sends modifications (lists of actions); every replicator downloads what is missing,
  executes the actions on a copy of the tree, the \<^emph>\<open>sandbox\<close>, and signs an opinion on the result;
  enough agreeing opinions become an approval transaction, after which the sandbox becomes
  the drive.  Blockchain requests let the replicators verify each other's copies.  Clients
  download files through prepaid \<^emph>\<open>channels\<close> and pay with signed receipts, on which the
  replicators agree in a similar way.  All handlers of a replicator run one at a time on the
  thread of the torrent session, so its behaviour is a sequence of handler calls.

  \<^bold>\<open>Conventions.\<close>  Every definition that models code keeps the source's name (with a suffix or
  prefix where the name is taken) and is executable.  Handlers are functions on an explicit
  state (a record per class); what they ask of the rest of the program (messages, transactions,
  timers, removal of torrents) is a list of effects in the order of the calls.  Assertions that
  fail, null pointers, destroyed objects and endless recursion are values of the type
  \<open>fault\<close>, and an operation that can run into them returns \<open>fault + 'a\<close>.  A 64-bit integer is a
  \<open>64 word\<close> that wraps, a hash or key a \<open>256 word\<close>, a \<^verbatim>\<open>std::map\<close> the list of its entries in
  key order.  Parameters stand for what is not in the repository: signing and
  verifying, the bytes of files on the disk, random numbers, the torrent library.

  \<^bold>\<open>Theories.\<close>

  \<^item> \<open>Prelude\<close>: types, faults, lemmas on words, and the interface \<open>event_system\<close> of a component
    that handles events one at a time: what every step keeps holds in every reachable state.
  \<^item> \<open>Std_Map\<close>: ordered maps, the interface \<open>key_store\<close> and its interpretation.
  \<^item> \<open>Codecs\<close> (\<^verbatim>\<open>utils/HexParser\<close>, \<^verbatim>\<open>utils/Base32\<close>, \<^verbatim>\<open>drive/Utils\<close>): text and byte forms, with
    round trips and the agreement of the two hexadecimal readers.
  \<^item> \<open>Fs_Path\<close>: \<^verbatim>\<open>std::filesystem::path\<close> as far as it is used, the path helpers, actions.
  \<^item> \<open>Fs_Statistics\<close> (\<^verbatim>\<open>FsEntryStatistics.h\<close>): counters of open files and their invariant.
  \<^item> \<open>Fs_Tree\<close>, \<open>Fs_Tree_Props\<close>, \<open>Fs_Locks\<close> (\<^verbatim>\<open>FsTree.h\<close>, \<^verbatim>\<open>FsTree.cpp\<close>): the tree and its
    operations; they refine operations on a name space (interface \<open>name_space\<close>); traversals, sizes
    and the locks of folders; the inputs on which a move goes wrong.
  \<^item> \<open>Drive_Types\<close>, \<open>Drive_Params\<close>, \<open>Opinion_Controller\<close> (\<^verbatim>\<open>FlatDrive.h\<close>, \<^verbatim>\<open>DriveParams.h\<close>,
    \<^verbatim>\<open>ModifyOpinionController.h\<close>): the exchanged data and what signatures cover, the state of
    a drive, and the accounting of uploads, whose shares add up to what is to be paid.
  \<^item> \<open>Drive_Tasks\<close>, \<open>Approval\<close> (\<^verbatim>\<open>DriveTaskBase.h\<close> and its subclasses): the tasks of a
    drive and the approval of a modification: one fair transaction per modification, and the
    approved sandbox becomes the drive.
  \<^item> \<open>Modify_Sandbox\<close> (\<^verbatim>\<open>ModifyDriveTask.cpp\<close>): missing files and the execution of an action list,
    which refines the meaning of the actions on the name space.
  \<^item> \<open>Verification\<close> (\<^verbatim>\<open>VerificationDriveTask.cpp\<close>): codes, opinions and the transaction.
  \<^item> \<open>Flat_Drive\<close>, \<open>Drive_Schedule\<close> (\<^verbatim>\<open>FlatDrive.cpp\<close>): the queues and handlers of a drive; along
    every run modifications start in order and an idle drive has no work.
  \<^item> \<open>Download_Receipts\<close>, \<open>Download_Limiter\<close> (\<^verbatim>\<open>RcptMessage.h\<close>, \<^verbatim>\<open>Replicator.h\<close>,
    \<^verbatim>\<open>DownloadLimiter.h\<close>): receipts, channels and connections; what is sent is covered by receipts.
  \<^item> \<open>Download_Approval\<close> (\<^verbatim>\<open>Replicator.cpp\<close>): opinions on downloads and their transaction.
  \<^item> \<open>Kademlia\<close> (\<^verbatim>\<open>Kademlia.cpp\<close>, \<^verbatim>\<open>KademliaBucket.h\<close>, \<^verbatim>\<open>KademliaHashTable.h\<close>): the table of known
    peers and the searches for endpoints, with the requests on which their loops do not end.

  \<^item> \<open>Disk\<close>, \<open>Fs_Files\<close>, \<open>Folder_Iterator\<close>, \<open>Manual_Task\<close>, \<open>Manual_Props\<close>,
    \<open>Manual_Outcomes\<close>, \<open>Manual_Answers\<close> (\<^verbatim>\<open>ManualModificationsTask.cpp\<close>, \<^verbatim>\<open>FolderIterator.cpp\<close>): the
    storage calls of a contract, on a model of files and streams and with the jobs of the two
    threads as queues; calls do not touch the drive before they are applied, every request is
    answered, applied storage becomes the drive, iterators list folders, and three inputs or
    orders of events on which a task fails.
  \<^item> \<open>Http_Server\<close> (\<^verbatim>\<open>http_*.cpp\<close>): the server of the viewer; requests are read back whatever the
    pieces they come in, and only files below the document root are served.
  \<^item> \<open>Endpoints\<close> (\<^verbatim>\<open>EndpointsManager.h\<close>, handshakes in \<^verbatim>\<open>Replicator.cpp\<close>): the known addresses of
    peers; every address handed out was given by the bootstrap list, the search or a signed
    handshake.
  \<^item> \<open>Stream_Chunks\<close>, \<open>Stream_Props\<close> (\<^verbatim>\<open>Streaming.h\<close>, \<^verbatim>\<open>StreamTask.cpp\<close>): the chunks of a stream from
    their announcement to viewers and the playlist of the finished stream; viewers get
    consecutive chunks signed by the streamer, the chunks to be saved are put into the sandbox,
    and two orders of events on which a stream task fails.
  \<^item> \<open>Replicator_Node\<close>, \<open>Replicator_Props\<close>, \<open>Receipt_Sync\<close> (\<^verbatim>\<open>Replicator.cpp\<close>,
    \<^verbatim>\<open>RcptSyncronizer.h\<close>): the replicator as a whole, its handlers of transactions, calls and messages, on
    the states of the parts; every drive keeps its order of modifications whatever comes for the
    others, requests of other nodes change at most the verification of a drive, and the
    synchronisation of receipts ends only with enough signed answers.

  \<^bold>\<open>How the parts interact.\<close>  \<open>Flat_Drive\<close> calls the tasks of \<open>Drive_Tasks\<close> and \<open>Verification\<close> on
  the state of \<open>Drive_Params\<close>, which holds the tree of \<open>Fs_Tree\<close> and the accounts of
  \<open>Opinion_Controller\<close>.  The limiter reads and changes the drives (their traffic, their shards)
  and the channels; the events of the download approval include all events of the limiter, so
  its theorems hold whatever receipts and pieces come in between.  A stream task adds its finished
  stream to a sandbox, which the approval treats like that of a modification.  \<open>Replicator_Node\<close>
  composes the drives, the limiter, the download approval and the endpoints into one state with
  one step function; the tasks of streams and of contracts are reached through its outputs.

  \<^bold>\<open>Bounds and termination.\<close>  No function runs on fuel.  The update of lock counters walks up
  parent pointers and is a \<open>partial_function\<close>: that it returns is proved for consistent
  statistics, and that it does not is a theorem where pointers form a cycle.  Clocks are
  natural numbers of seconds.

  \<^bold>\<open>Not modelled.\<close>  The torrent session and the client, streamer and viewer sessions
  (wrappers of libtorrent, a submodule); RPC and gRPC transport; cryptography; the network
  code taken from Catapult; serialisation by cereal.  Of the replicator, its start, the saved
  channels and the messages of its gRPC services; of the tasks, the initialisation of a drive
  from the disk.
\<close>

end
